(* ===== verification/Gateway_Prelude.thy ===== *)
theory Gateway_Prelude
  imports Main "HOL-Library.Char_ord" "HOL-Library.List_Lexorder"
begin

text \<open>
  Shared vocabulary of the development: results with errors as values, instants and durations
  of the Go package \<open>time\<close>, Go maps whose iteration order matters as association lists,
  the public error record of \<open>internal/httpx/api_error.go\<close>, and the generic lemmas on lists,
  options and maps that the component theories share.

  Conventions. A Go \<open>string\<close> is a list of bytes, as \<^typ>\<open>string\<close> is. A Go \<open>map\<close>
  that is only looked up and stored into is a HOL map; a Go map that the code ranges over is an
  association list with distinct keys whose order stands for the iteration order the runtime
  happens to choose, so that a theorem about every list is a theorem about every order.
\<close>

named_theorems go_defs \<open>definitions of Go library functions, unfolded on demand\<close>
named_theorems dur_defs \<open>duration constants\<close>

section \<open>Instants and durations\<close>

text \<open>
  A \<open>time.Time\<close> is the number of nanoseconds since the zero time of the package, so
  \<open>t.IsZero()\<close> is \<open>t = 0\<close>, \<open>Before\<close> and \<open>After\<close> are \<open><\<close> and \<open>>\<close>.
  A \<open>time.Duration\<close> is a signed 64-bit count of nanoseconds; \<open>Sub\<close> saturates.
\<close>

type_synonym gotime = int
type_synonym duration = int

definition millisecond :: duration where [dur_defs]: "millisecond = 1000000"
definition second :: duration where [dur_defs]: "second = 1000000000"
definition minute :: duration where [dur_defs]: "minute = 60000000000"
definition hour :: duration where [dur_defs]: "hour = 3600000000000"

definition min_int64 :: int where "min_int64 = - (2 ^ 63)"
definition max_int64 :: int where "max_int64 = 2 ^ 63 - 1"

definition zero_time :: gotime where "zero_time = 0"

definition is_zero :: "gotime \<Rightarrow> bool" where
  "is_zero t \<longleftrightarrow> t = zero_time"

definition time_sub :: "gotime \<Rightarrow> gotime \<Rightarrow> duration" where
  "time_sub t u = max min_int64 (min max_int64 (t - u))"

lemma time_sub_exact:
  "min_int64 \<le> t - u \<Longrightarrow> t - u \<le> max_int64 \<Longrightarrow> time_sub t u = t - u"
  by (simp add: time_sub_def)

lemma time_sub_mono: "t \<le> t' \<Longrightarrow> time_sub t u \<le> time_sub t' u"
  by (simp add: time_sub_def max.coboundedI2 min.coboundedI2)

lemma time_sub_pos: "0 < time_sub t u \<longleftrightarrow> u < t"
  by (auto simp: time_sub_def min_int64_def max_int64_def)

lemma time_sub_nonneg: "0 \<le> time_sub t u \<longleftrightarrow> u \<le> t"
  by (auto simp: time_sub_def min_int64_def max_int64_def)

lemma time_sub_self [simp]: "time_sub t t = 0"
  by (simp add: time_sub_def min_int64_def max_int64_def)

section \<open>Results\<close>

type_synonym ('e, 'a) result = "'e + 'a"

definition rbind :: "('e, 'a) result \<Rightarrow> ('a \<Rightarrow> ('e, 'b) result) \<Rightarrow> ('e, 'b) result" where
  "rbind r f = (case r of Inl e \<Rightarrow> Inl e | Inr a \<Rightarrow> f a)"

lemma rbind_simps [simp]: "rbind (Inl e) f = Inl e" "rbind (Inr a) f = f a"
  by (simp_all add: rbind_def)

lemma rbind_Inr: "rbind r f = Inr b \<longleftrightarrow> (\<exists>a. r = Inr a \<and> f a = Inr b)"
  by (cases r) auto

section \<open>The public error record\<close>

text \<open>
  \<open>httpx.APIError\<close>. The internal \<open>Cause\<close> is kept as its text (\<open>None\<close> for nil): it is
  never serialized. A Go \<open>error\<close> value is one of the dynamic types the gateway distinguishes
  with \<open>errors.As\<close> and \<open>errors.Is\<close>.
\<close>

record api_error =
  ae_status :: int
  ae_code :: string
  ae_message :: string
  ae_hint :: string
  ae_traceID :: string
  ae_upstream :: int
  ae_retryAfter :: duration
  ae_cause :: "string option"

definition apiError :: "int \<Rightarrow> string \<Rightarrow> string \<Rightarrow> api_error" where
  "apiError st cd msg =
     \<lparr>ae_status = st, ae_code = cd, ae_message = msg, ae_hint = [], ae_traceID = [],
      ae_upstream = 0, ae_retryAfter = 0, ae_cause = None\<rparr>"

lemma apiError_fields [simp]:
  "ae_status (apiError st cd msg) = st" "ae_code (apiError st cd msg) = cd"
  "ae_message (apiError st cd msg) = msg" "ae_hint (apiError st cd msg) = []"
  "ae_traceID (apiError st cd msg) = []" "ae_upstream (apiError st cd msg) = 0"
  "ae_retryAfter (apiError st cd msg) = 0" "ae_cause (apiError st cd msg) = None"
  by (simp_all add: apiError_def)

definition apiErrorText :: "api_error \<Rightarrow> string" where
  "apiErrorText e = ae_code e @ '': '' @ ae_message e"

datatype go_error =
    APIErr api_error
  | EndpointErr bool bool
  | CtxErr string
  | PlainErr string

section \<open>Association lists for Go maps with an iteration order\<close>

type_synonym ('k, 'v) gomap = "('k \<times> 'v) list"

fun put :: "'k \<Rightarrow> 'v \<Rightarrow> ('k, 'v) gomap \<Rightarrow> ('k, 'v) gomap" where
  "put k v [] = [(k, v)]"
| "put k v ((k', v') # m) = (if k = k' then (k, v) # m else (k', v') # put k v m)"

definition del :: "'k \<Rightarrow> ('k, 'v) gomap \<Rightarrow> ('k, 'v) gomap" where
  "del k m = filter (\<lambda>p. fst p \<noteq> k) m"

abbreviation keys :: "('k, 'v) gomap \<Rightarrow> 'k list" where
  "keys m \<equiv> map fst m"

definition wf_map :: "('k, 'v) gomap \<Rightarrow> bool" where
  "wf_map m \<longleftrightarrow> distinct (keys m)"

lemma map_of_put [simp]: "map_of (put k v m) = (map_of m)(k \<mapsto> v)"
  by (induction m) auto

lemma map_of_put_apply: "map_of (put k v m) x = (if x = k then Some v else map_of m x)"
  by simp

lemma fst_set_put [simp]: "fst ` set (put k v m) = insert k (fst ` set m)"
  using dom_map_of_conv_image_fst [of "put k v m"] dom_map_of_conv_image_fst [of m] by simp

lemma set_keys_put: "set (keys (put k v m)) = insert k (set (keys m))"
  by simp

lemma wf_map_put [simp]: "wf_map m \<Longrightarrow> wf_map (put k v m)"
  unfolding wf_map_def by (induction m) auto

lemma wf_map_Nil [simp]: "wf_map []"
  by (simp add: wf_map_def)

lemma map_of_del [simp]: "map_of (del k m) = (map_of m)(k := None)"
  by (induction m) (auto simp: del_def fun_eq_iff)

lemma wf_map_del [simp]: "wf_map m \<Longrightarrow> wf_map (del k m)"
  by (simp add: wf_map_def del_def distinct_map_filter)

lemma keys_del: "keys (del k m) = filter (\<lambda>x. x \<noteq> k) (keys m)"
  by (induction m) (auto simp: del_def)

lemma set_del: "set (del k m) = {p \<in> set m. fst p \<noteq> k}"
  by (auto simp: del_def)

lemma length_del_le: "length (del k m) \<le> length m"
  by (simp add: del_def)

lemma length_del_less: "k \<in> set (keys m) \<Longrightarrow> length (del k m) < length m"
  by (induction m) (auto simp: del_def le_imp_less_Suc)

lemma length_put:
  "length (put k v m) = (if k \<in> set (keys m) then length m else Suc (length m))"
  by (induction m) (simp_all split: prod.splits, force)

lemma length_del_absent: "k \<notin> set (keys m) \<Longrightarrow> del k m = m"
  by (auto simp: del_def filter_id_conv)

lemma map_of_eq_None_keys: "map_of m k = None \<longleftrightarrow> k \<notin> set (keys m)"
  by (simp add: map_of_eq_None_iff)

lemma wf_map_unique:
  "wf_map m \<Longrightarrow> (k, v) \<in> set m \<Longrightarrow> map_of m k = Some v"
  by (simp add: wf_map_def)

lemma in_keys_map_of: "k \<in> set (keys m) \<longleftrightarrow> (\<exists>v. map_of m k = Some v)"
  using map_of_eq_None_keys [of m k] by (cases "map_of m k") auto

lemma length_del_present:
  "wf_map m \<Longrightarrow> k \<in> set (keys m) \<Longrightarrow> length (del k m) = length m - 1"
proof (induction m)
  case Nil
  then show ?case by simp
next
  case (Cons p m)
  have rest: "wf_map m" using Cons.prems(1) by (simp add: wf_map_def)
  show ?case
  proof (cases "fst p = k")
    case True
    with Cons.prems(1) have "k \<notin> set (keys m)" by (simp add: wf_map_def)
    then have "del k m = m" by (rule length_del_absent)
    with True show ?thesis by (simp add: del_def)
  next
    case False
    with Cons.prems(2) have k: "k \<in> set (keys m)" by simp
    then have "length m > 0" by (cases m) auto
    with False Cons.IH [OF rest k] show ?thesis by (simp add: del_def)
  qed
qed

lemma map_of_filter_wf:
  assumes "wf_map m"
  shows "map_of (filter P m) k = (case map_of m k of Some v \<Rightarrow> if P (k, v) then Some v else None | None \<Rightarrow> None)"
  using assms
proof (induction m)
  case (Cons p m)
  have "map_of m (fst p) = None" using Cons.prems by (simp add: wf_map_def map_of_eq_None_iff)
  then show ?case using Cons by (cases p; cases "k = fst p") (auto simp: wf_map_def split: option.splits)
qed simp

lemma wf_map_filter: "wf_map m \<Longrightarrow> wf_map (filter P m)"
  by (simp add: wf_map_def distinct_map_filter)

section \<open>Lists\<close>

lemma distinct_filter_subset: "distinct xs \<Longrightarrow> distinct (filter P xs)"
  by simp

fun first_some :: "('a \<Rightarrow> 'b option) \<Rightarrow> 'a list \<Rightarrow> 'b option" where
  "first_some f [] = None"
| "first_some f (x # xs) = (case f x of Some y \<Rightarrow> Some y | None \<Rightarrow> first_some f xs)"

lemma first_some_None: "first_some f xs = None \<longleftrightarrow> (\<forall>x \<in> set xs. f x = None)"
  by (induction xs) (auto split: option.splits)

lemma first_some_Some: "first_some f xs = Some y \<Longrightarrow> \<exists>x \<in> set xs. f x = Some y"
  by (induction xs) (auto split: option.splits)

text \<open>An indexed loop \<open>for i, x := range xs\<close> that collects what each step reports.\<close>

fun collect_ix :: "nat \<Rightarrow> (nat \<Rightarrow> 'a \<Rightarrow> 'b list) \<Rightarrow> 'a list \<Rightarrow> 'b list" where
  "collect_ix i f [] = []"
| "collect_ix i f (x # xs) = f i x @ collect_ix (Suc i) f xs"

lemma collect_ix_Nil_iff:
  "collect_ix i f xs = [] \<longleftrightarrow> (\<forall>j < length xs. f (i + j) (xs ! j) = [])"
proof (induction xs arbitrary: i)
  case Nil
  then show ?case by simp
next
  case (Cons x xs)
  have "(\<forall>j < length (x # xs). f (i + j) ((x # xs) ! j) = []) \<longleftrightarrow>
        f i x = [] \<and> (\<forall>j < length xs. f (Suc i + j) (xs ! j) = [])"
    by (auto simp: less_Suc_eq_0_disj)
  with Cons.IH [of "Suc i"] show ?case by simp
qed

lemma collect_ix_Nil_D: "collect_ix i f xs = [] \<Longrightarrow> x \<in> set xs \<Longrightarrow> \<exists>j. f j x = []"
  by (auto simp: collect_ix_Nil_iff in_set_conv_nth)

section \<open>Counting\<close>

definition tally :: "('a \<Rightarrow> bool) \<Rightarrow> 'a list \<Rightarrow> nat" where
  "tally P xs = length (filter P xs)"

lemma tally_append [simp]: "tally P (xs @ ys) = tally P xs + tally P ys"
  by (simp add: tally_def)

lemma tally_Nil [simp]: "tally P [] = 0"
  by (simp add: tally_def)

lemma tally_Cons [simp]: "tally P (x # xs) = (if P x then 1 else 0) + tally P xs"
  by (simp add: tally_def)

lemma tally_update:
  assumes "i < length xs"
  shows "tally P (xs[i := y]) + (if P (xs ! i) then 1 else 0) = tally P xs + (if P y then 1 else 0)"
  using assms
proof (induction xs arbitrary: i)
  case (Cons x xs)
  then show ?case by (cases i) force+
qed simp

lemma tally_pos: "i < length xs \<Longrightarrow> P (xs ! i) \<Longrightarrow> 0 < tally P xs"
  by (induction xs arbitrary: i) (auto simp: nth_Cons split: nat.splits)

lemma tally_zero: "(\<And>x. x \<in> set xs \<Longrightarrow> \<not> P x) \<Longrightarrow> tally P xs = 0"
  by (induction xs) auto

end
