(* ===== verification/Go_Strings.thy ===== *)
theory Go_Strings
  imports Gateway_Prelude
begin

text \<open>
  The functions of the Go packages \<open>strings\<close>, \<open>strconv\<close>, \<open>sort\<close> and
  \<open>unicode/utf8\<close> that the gateway calls, on byte strings.

  Case mapping. \<open>ToUpper\<close>, \<open>ToLower\<close> and \<open>EqualFold\<close> follow Unicode; the gateway
  uses them only to compare with ASCII names. The model maps the ASCII letters and exactly those
  non-ASCII code points whose Unicode mapping is an ASCII letter (the dotless i, the long s, the
  dotted capital I and the Kelvin sign); every other code point maps to a non-ASCII one and
  can be left alone without changing a comparison with an ASCII name.
\<close>

section \<open>Bytes\<close>

abbreviation byte :: "char \<Rightarrow> nat" where
  "byte c \<equiv> of_char c"

definition in_range :: "nat \<Rightarrow> nat \<Rightarrow> char \<Rightarrow> bool" where
  "in_range lo hi c \<longleftrightarrow> lo \<le> byte c \<and> byte c \<le> hi"

definition is_lower :: "char \<Rightarrow> bool" where "is_lower c \<longleftrightarrow> in_range 97 122 c"
definition is_upper :: "char \<Rightarrow> bool" where "is_upper c \<longleftrightarrow> in_range 65 90 c"
definition is_digit :: "char \<Rightarrow> bool" where "is_digit c \<longleftrightarrow> in_range 48 57 c"
definition is_alnum :: "char \<Rightarrow> bool" where
  "is_alnum c \<longleftrightarrow> is_lower c \<or> is_upper c \<or> is_digit c"
definition is_hex :: "char \<Rightarrow> bool" where
  "is_hex c \<longleftrightarrow> is_digit c \<or> in_range 97 102 c \<or> in_range 65 70 c"
definition is_lower_hex :: "char \<Rightarrow> bool" where
  "is_lower_hex c \<longleftrightarrow> is_digit c \<or> in_range 97 102 c"

lemmas byte_class_defs = in_range_def is_lower_def is_upper_def is_digit_def is_alnum_def
  is_hex_def is_lower_hex_def

definition lower_byte :: "char \<Rightarrow> char" where
  "lower_byte c = (if is_upper c then char_of (byte c + 32) else c)"
definition upper_byte :: "char \<Rightarrow> char" where
  "upper_byte c = (if is_lower c then char_of (byte c - 32) else c)"

section \<open>Prefixes, suffixes, cutting and joining\<close>

definition hasPrefix :: "string \<Rightarrow> string \<Rightarrow> bool" where
  "hasPrefix s p \<longleftrightarrow> take (length p) s = p"

definition hasSuffix :: "string \<Rightarrow> string \<Rightarrow> bool" where
  "hasSuffix s p \<longleftrightarrow> hasPrefix (rev s) (rev p)"

definition trimPrefix :: "string \<Rightarrow> string \<Rightarrow> string" where
  "trimPrefix s p = (if hasPrefix s p then drop (length p) s else s)"

definition trimSuffix :: "string \<Rightarrow> string \<Rightarrow> string" where
  "trimSuffix s p = (if hasSuffix s p then take (length s - length p) s else s)"

definition containsAny :: "string \<Rightarrow> string \<Rightarrow> bool" where
  "containsAny s cs \<longleftrightarrow> list_ex (\<lambda>c. c \<in> set cs) s"

fun contains :: "string \<Rightarrow> string \<Rightarrow> bool" where
  "contains [] p = (p = [])"
| "contains (c # s) p = (hasPrefix (c # s) p \<or> contains s p)"

text \<open>\<open>strings.Cut\<close> at a one-byte separator: before, after and whether it was found.\<close>

fun cut :: "char \<Rightarrow> string \<Rightarrow> string \<times> string \<times> bool" where
  "cut sep [] = ([], [], False)"
| "cut sep (c # s) =
     (if c = sep then ([], s, True)
      else (case cut sep s of (b, a, f) \<Rightarrow> (c # b, a, f)))"

fun splitOn :: "char \<Rightarrow> string \<Rightarrow> string list" where
  "splitOn sep [] = [[]]"
| "splitOn sep (c # s) =
     (if c = sep then [] # splitOn sep s
      else (case splitOn sep s of [] \<Rightarrow> [[c]] | p # ps \<Rightarrow> (c # p) # ps))"

fun join :: "string list \<Rightarrow> string \<Rightarrow> string" where
  "join [] sep = []"
| "join [p] sep = p"
| "join (p # q # ps) sep = p @ sep @ join (q # ps) sep"

definition replaceAll :: "string \<Rightarrow> char \<Rightarrow> char \<Rightarrow> string" where
  "replaceAll s a b = map (\<lambda>c. if c = a then b else c) s"

lemma hasPrefix_Nil [simp]: "hasPrefix s []"
  by (simp add: hasPrefix_def)

lemma hasPrefix_iff: "hasPrefix s p \<longleftrightarrow> (\<exists>r. s = p @ r)"
  by (metis hasPrefix_def append_eq_conv_conj append_take_drop_id)

lemma hasPrefix_Cons [simp]:
  "hasPrefix (c # s) (d # p) \<longleftrightarrow> c = d \<and> hasPrefix s p"
  by (auto simp: hasPrefix_iff)

lemma hasPrefix_empty [simp]: "hasPrefix [] (d # p) = False"
  by (simp add: hasPrefix_def)

lemma cut_eq:
  "cut sep s = (takeWhile (\<lambda>c. c \<noteq> sep) s, tl (dropWhile (\<lambda>c. c \<noteq> sep) s), sep \<in> set s)"
  by (induction s) auto

lemma cut_found: "cut sep s = (b, a, True) \<Longrightarrow> s = b @ sep # a \<and> sep \<notin> set b"
  by (induction s arbitrary: b) (auto split: if_splits prod.splits)

lemma cut_not_found: "cut sep s = (b, a, False) \<Longrightarrow> b = s \<and> a = [] \<and> sep \<notin> set s"
  by (induction s arbitrary: b) (auto split: if_splits prod.splits)

lemma splitOn_not_Nil [simp]: "splitOn sep s \<noteq> []"
  by (induction s) (auto split: list.splits)

lemma join_Cons: "ps \<noteq> [] \<Longrightarrow> join (p # ps) sep = p @ sep @ join ps sep"
  by (cases ps) auto

lemma join_splitOn [simp]: "join (splitOn sep s) [sep] = s"
proof (induction s)
  case Nil
  then show ?case by simp
next
  case (Cons c s)
  show ?case
  proof (cases "splitOn sep s")
    case Nil
    then show ?thesis by simp
  next
    case (Cons p ps)
    with \<open>join (splitOn sep s) [sep] = s\<close> show ?thesis
      by (cases ps) (auto simp: join_Cons)
  qed
qed

lemma splitOn_parts: "p \<in> set (splitOn sep s) \<Longrightarrow> sep \<notin> set p"
  by (induction s arbitrary: p) (auto split: if_splits list.splits)

lemma splitOn_free: "sep \<notin> set s \<Longrightarrow> splitOn sep s = [s]"
  by (induction s) auto

lemma splitOn_append: "sep \<notin> set p \<Longrightarrow> splitOn sep (p @ sep # s) = p # splitOn sep s"
  by (induction p) auto

lemma splitOn_join:
  "ps \<noteq> [] \<Longrightarrow> (\<And>p. p \<in> set ps \<Longrightarrow> sep \<notin> set p) \<Longrightarrow> splitOn sep (join ps [sep]) = ps"
proof (induction ps "[sep]" rule: join.induct)
  case (3 p q ps)
  then have "splitOn sep (join (q # ps) [sep]) = q # ps" by simp
  moreover have "sep \<notin> set p" using "3.prems" by simp
  ultimately show ?case using splitOn_append [of sep p] by simp
qed (auto simp: splitOn_free)

lemma join_inj:
  assumes "join ps [sep] = join qs [sep]" "ps \<noteq> []" "qs \<noteq> []"
    and "\<And>p. p \<in> set ps \<Longrightarrow> sep \<notin> set p" "\<And>q. q \<in> set qs \<Longrightarrow> sep \<notin> set q"
  shows "ps = qs"
  by (metis assms splitOn_join)

lemma length_splitOn: "length (splitOn sep s) = Suc (count_list s sep)"
  by (induction s) (auto split: list.splits)

section \<open>Case\<close>

fun toLower :: "string \<Rightarrow> string" where
  "toLower (a # b # c # s) =
     (if [a, b, c] = [CHR 0xE2, CHR 0x84, CHR 0xAA] then CHR ''k'' # toLower s
      else if [a, b] = [CHR 0xC4, CHR 0xB0] then CHR ''i'' # toLower (c # s)
      else lower_byte a # toLower (b # c # s))"
| "toLower [a, b] = (if [a, b] = [CHR 0xC4, CHR 0xB0] then ''i'' else [lower_byte a, lower_byte b])"
| "toLower [a] = [lower_byte a]"
| "toLower [] = []"

fun toUpper :: "string \<Rightarrow> string" where
  "toUpper (a # b # s) =
     (if [a, b] = [CHR 0xC4, CHR 0xB1] then CHR ''I'' # toUpper s
      else if [a, b] = [CHR 0xC5, CHR 0xBF] then CHR ''S'' # toUpper s
      else upper_byte a # toUpper (b # s))"
| "toUpper [a] = [upper_byte a]"
| "toUpper [] = []"

text \<open>Simple case folding: the orbits that reach ASCII are those of k (Kelvin) and s (long s).\<close>

fun foldCase :: "string \<Rightarrow> string" where
  "foldCase (a # b # c # s) =
     (if [a, b, c] = [CHR 0xE2, CHR 0x84, CHR 0xAA] then CHR ''k'' # foldCase s
      else if [a, b] = [CHR 0xC5, CHR 0xBF] then CHR ''s'' # foldCase (c # s)
      else lower_byte a # foldCase (b # c # s))"
| "foldCase [a, b] = (if [a, b] = [CHR 0xC5, CHR 0xBF] then ''s'' else [lower_byte a, lower_byte b])"
| "foldCase [a] = [lower_byte a]"
| "foldCase [] = []"

definition equalFold :: "string \<Rightarrow> string \<Rightarrow> bool" where
  "equalFold s t \<longleftrightarrow> foldCase s = foldCase t"

definition is_ascii :: "string \<Rightarrow> bool" where
  "is_ascii s \<longleftrightarrow> list_all (\<lambda>c. byte c < 128) s"

lemma toLower_ascii: "is_ascii s \<Longrightarrow> toLower s = map lower_byte s"
  by (induction s rule: toLower.induct) (auto simp: is_ascii_def)

lemma toUpper_ascii: "is_ascii s \<Longrightarrow> toUpper s = map upper_byte s"
  by (induction s rule: toUpper.induct) (auto simp: is_ascii_def)

lemma foldCase_ascii: "is_ascii s \<Longrightarrow> foldCase s = map lower_byte s"
  by (induction s rule: foldCase.induct) (auto simp: is_ascii_def)

section \<open>White space\<close>

text \<open>
  The UTF-8 encodings of the code points \<open>unicode.IsSpace\<close> accepts. UTF-8 is
  self-synchronizing, so removing encodings from the front and, on the reversed string, from the
  back is what \<open>strings.TrimSpace\<close> does.
\<close>

definition space_runes :: "string list" where
  "space_runes =
     [[CHR 0x09], [CHR 0x0A], [CHR 0x0B], [CHR 0x0C], [CHR 0x0D], [CHR 0x20],
      [CHR 0xC2, CHR 0x85], [CHR 0xC2, CHR 0xA0], [CHR 0xE1, CHR 0x9A, CHR 0x80],
      [CHR 0xE2, CHR 0x80, CHR 0x80], [CHR 0xE2, CHR 0x80, CHR 0x81], [CHR 0xE2, CHR 0x80, CHR 0x82],
      [CHR 0xE2, CHR 0x80, CHR 0x83], [CHR 0xE2, CHR 0x80, CHR 0x84], [CHR 0xE2, CHR 0x80, CHR 0x85],
      [CHR 0xE2, CHR 0x80, CHR 0x86], [CHR 0xE2, CHR 0x80, CHR 0x87], [CHR 0xE2, CHR 0x80, CHR 0x88],
      [CHR 0xE2, CHR 0x80, CHR 0x89], [CHR 0xE2, CHR 0x80, CHR 0x8A], [CHR 0xE2, CHR 0x80, CHR 0xA8],
      [CHR 0xE2, CHR 0x80, CHR 0xA9], [CHR 0xE2, CHR 0x80, CHR 0xAF], [CHR 0xE2, CHR 0x81, CHR 0x9F],
      [CHR 0xE3, CHR 0x80, CHR 0x80]]"

definition space_at :: "string list \<Rightarrow> string \<Rightarrow> nat" where
  "space_at runes s = (case find (hasPrefix s) runes of None \<Rightarrow> 0 | Some r \<Rightarrow> length r)"

function trim_left :: "string list \<Rightarrow> string \<Rightarrow> string" where
  "trim_left runes s =
     (if s = [] \<or> space_at runes s = 0 then s else trim_left runes (drop (space_at runes s) s))"
  by pat_completeness auto
termination
  by (relation "measure (\<lambda>(runes, s). length s)") auto

declare trim_left.simps [simp del]

definition trimSpace :: "string \<Rightarrow> string" where
  "trimSpace s = rev (trim_left (map rev space_runes) (rev (trim_left space_runes s)))"

text \<open>\<open>strings.Fields\<close>: maximal runs of non-space bytes.\<close>

function fields_aux :: "string \<Rightarrow> string \<Rightarrow> string list" where
  "fields_aux acc s =
     (if s = [] then (if acc = [] then [] else [rev acc])
      else if space_at space_runes s = 0 then fields_aux (hd s # acc) (tl s)
      else (if acc = [] then [] else [rev acc]) @ fields_aux [] (drop (space_at space_runes s) s))"
  by pat_completeness auto
termination
  by (relation "measure (\<lambda>(acc, s). length s)") auto

declare fields_aux.simps [simp del]

definition fields :: "string \<Rightarrow> string list" where
  "fields s = fields_aux [] s"

lemma fields_aux_nonempty: "w \<in> set (fields_aux acc s) \<Longrightarrow> w \<noteq> []"
proof (induction acc s rule: fields_aux.induct)
  case (1 acc s)
  then show ?case
    by (subst (asm) fields_aux.simps) (auto split: if_splits)
qed

lemma fields_nonempty: "w \<in> set (fields s) \<Longrightarrow> w \<noteq> []"
  by (simp add: fields_def fields_aux_nonempty)

section \<open>Decimal numbers\<close>

definition digit_char :: "nat \<Rightarrow> char" where
  "digit_char d = char_of (48 + d)"

fun show_nat :: "nat \<Rightarrow> string" where
  "show_nat n = (if n < 10 then [digit_char n] else show_nat (n div 10) @ [digit_char (n mod 10)])"

declare show_nat.simps [simp del]

definition formatInt :: "int \<Rightarrow> string" where
  "formatInt i = (if i < 0 then CHR ''-'' # show_nat (nat (- i)) else show_nat (nat i))"

fun read_nat :: "nat \<Rightarrow> string \<Rightarrow> nat option" where
  "read_nat acc [] = Some acc"
| "read_nat acc (c # s) = (if is_digit c then read_nat (10 * acc + (byte c - 48)) s else None)"

text \<open>\<open>strconv.ParseInt(s, 10, 64)\<close>: an optional sign, digits, and the int64 range.\<close>

definition parseInt64 :: "string \<Rightarrow> int option" where
  "parseInt64 s =
     (let (neg, d) = (case s of CHR ''-'' # r \<Rightarrow> (True, r) | CHR ''+'' # r \<Rightarrow> (False, r) | _ \<Rightarrow> (False, s))
      in if d = [] then None
         else (case read_nat 0 d of
                 None \<Rightarrow> None
               | Some n \<Rightarrow>
                   (let v = (if neg then - int n else int n)
                    in if min_int64 \<le> v \<and> v \<le> max_int64 then Some v else None)))"

lemma byte_digit_char: "d < 10 \<Longrightarrow> byte (digit_char d) = 48 + d"
  by (simp add: digit_char_def)

lemma is_digit_digit_char: "d < 10 \<Longrightarrow> is_digit (digit_char d)"
  by (simp add: is_digit_def in_range_def byte_digit_char)

lemma read_nat_append:
  "read_nat acc (s @ t) = (case read_nat acc s of None \<Rightarrow> None | Some n \<Rightarrow> read_nat n t)"
  by (induction s arbitrary: acc) auto

lemma show_nat_not_Nil [simp]: "show_nat n \<noteq> []"
  by (subst show_nat.simps) simp

lemma show_nat_digits: "c \<in> set (show_nat n) \<Longrightarrow> is_digit c"
proof (induction n rule: show_nat.induct)
  case (1 n)
  then show ?case
    by (subst (asm) show_nat.simps) (auto simp: is_digit_digit_char split: if_splits)
qed

lemma read_nat_show_nat: "read_nat 0 (show_nat n) = Some n"
proof (induction n rule: show_nat.induct)
  case (1 n)
  show ?case
  proof (cases "n < 10")
    case True
    then show ?thesis
      by (subst show_nat.simps) (simp add: is_digit_digit_char byte_digit_char)
  next
    case False
    with "1.IH" show ?thesis
      by (subst show_nat.simps)
        (simp add: read_nat_append is_digit_digit_char byte_digit_char)
  qed
qed

lemma show_nat_inj: "show_nat m = show_nat n \<Longrightarrow> m = n"
  by (metis option.inject read_nat_show_nat)

lemma show_nat_hd: "\<exists>c r. show_nat n = c # r \<and> is_digit c"
  by (metis list.set_intros(1) neq_Nil_conv show_nat_digits show_nat_not_Nil)

lemma parseInt64_formatInt:
  assumes "min_int64 \<le> i" "i \<le> max_int64"
  shows "parseInt64 (formatInt i) = Some i"
proof (cases "i < 0")
  case True
  with assms show ?thesis
    by (simp add: formatInt_def parseInt64_def read_nat_show_nat)
next
  case False
  obtain c r where cr: "show_nat (nat i) = c # r" and c: "is_digit c"
    using show_nat_hd by blast
  from c have ne: "c \<noteq> CHR ''-''" "c \<noteq> CHR ''+''"
    by (auto simp: is_digit_def in_range_def)
  have rd: "read_nat 0 (c # r) = Some (nat i)" using read_nat_show_nat [of "nat i"] cr by simp
  have "(case c # r of CHR ''-'' # q \<Rightarrow> (True, q) | CHR ''+'' # q \<Rightarrow> (False, q) | _ \<Rightarrow> (False, c # r))
        = (False, c # r)"
    using ne by (auto split: char.splits bool.splits)
  with False assms cr rd show ?thesis
    by (simp add: formatInt_def parseInt64_def Let_def del: read_nat.simps)
qed

text \<open>\<open>hex.EncodeToString\<close>: two lower-case hexadecimal digits per byte.\<close>

definition lower_hex :: "nat \<Rightarrow> char" where
  "lower_hex d = (if d < 10 then char_of (48 + d) else char_of (87 + d))"

definition hexEncode :: "string \<Rightarrow> string" where
  "hexEncode s = concat (map (\<lambda>c. [lower_hex (byte c div 16), lower_hex (byte c mod 16)]) s)"

lemma length_hexEncode [simp]: "length (hexEncode s) = 2 * length s"
  by (induction s) (simp_all add: hexEncode_def)

lemma lower_hex_is_lower_hex: "d < 16 \<Longrightarrow> is_lower_hex (lower_hex d)"
  by (auto simp: lower_hex_def byte_class_defs)

lemma byte_less: "byte c < 256"
  by (metis of_char_mod_256 mod_less_divisor zero_less_numeral)

lemma byte_nibbles: "byte c div 16 < 16" "byte c mod 16 < 16"
  using byte_less [of c] less_mult_imp_div_less [of "byte c" 16 16] by simp_all

lemma hexEncode_digits: "list_all is_lower_hex (hexEncode s)"
  by (induction s) (simp_all add: hexEncode_def lower_hex_is_lower_hex byte_nibbles)

section \<open>UTF-8\<close>

definition cont :: "char \<Rightarrow> bool" where "cont c \<longleftrightarrow> in_range 128 191 c"

text \<open>Length of the valid encoding at the head of a byte string; 0 when there is none.\<close>

definition rune_len :: "string \<Rightarrow> nat" where
  "rune_len s = (case s of
      [] \<Rightarrow> 0
    | a # r \<Rightarrow>
        (if byte a < 128 then 1
         else if in_range 194 223 a then
           (case r of b # _ \<Rightarrow> if cont b then 2 else 0 | _ \<Rightarrow> 0)
         else if in_range 224 239 a then
           (case r of b # c # _ \<Rightarrow>
              if (if byte a = 224 then in_range 160 191 b
                  else if byte a = 237 then in_range 128 159 b else cont b) \<and> cont c
              then 3 else 0 | _ \<Rightarrow> 0)
         else if in_range 240 244 a then
           (case r of b # c # d # _ \<Rightarrow>
              if (if byte a = 240 then in_range 144 191 b
                  else if byte a = 244 then in_range 128 143 b else cont b) \<and> cont c \<and> cont d
              then 4 else 0 | _ \<Rightarrow> 0)
         else 0))"

function validString :: "string \<Rightarrow> bool" where
  "validString s =
     (if s = [] then True else if rune_len s = 0 then False else validString (drop (rune_len s) s))"
  by pat_completeness auto
termination
  by (relation "measure length") auto

declare validString.simps [simp del]

lemma validString_ascii: "is_ascii s \<Longrightarrow> validString s"
proof (induction s)
  case Nil
  then show ?case by (subst validString.simps) simp
next
  case (Cons c s)
  then show ?case
    by (subst validString.simps) (auto simp: rune_len_def is_ascii_def)
qed

section \<open>Sorting\<close>

text \<open>\<open>sort.Strings\<close>: byte-wise lexicographic order.\<close>

definition sortStrings :: "string list \<Rightarrow> string list" where
  "sortStrings xs = sort xs"

lemma set_sortStrings [simp]: "set (sortStrings xs) = set xs"
  by (simp add: sortStrings_def)

lemma distinct_sortStrings [simp]: "distinct (sortStrings xs) = distinct xs"
  by (simp add: sortStrings_def)

lemma sorted_sortStrings [simp]: "sorted (sortStrings xs)"
  by (simp add: sortStrings_def)

lemma length_sortStrings [simp]: "length (sortStrings xs) = length xs"
  by (simp add: sortStrings_def)

end
