(* ===== verification/Go_Url.thy ===== *)
theory Go_Url
  imports Go_Strings
begin

text \<open>
  The parts of the Go packages \<open>net/url\<close> and \<open>net\<close> that the gateway calls:
  \<open>url.Parse\<close>, \<open>Hostname\<close>, \<open>EscapedPath\<close>, \<open>String\<close>,
  \<open>PathEscape\<close>/\<open>PathUnescape\<close>, \<open>Values\<close>, and \<open>net.ParseIP\<close> with its
  address predicates. The lemmas are the facts the request builder rests on: unescaping inverts
  escaping in every mode that has both directions, and an escaped path segment has no slash.
\<close>

section \<open>Percent encoding\<close>

datatype enc_mode = EncPath | EncPathSegment | EncHost | EncZone | EncUserPassword
  | EncQuery | EncFragment

definition shouldEscape :: "char \<Rightarrow> enc_mode \<Rightarrow> bool" where
  "shouldEscape c m =
     (if is_alnum c then False
      else if (m = EncHost \<or> m = EncZone) \<and> c \<in> set ''!$&()*+,;=:[]<>'' then False
      else if (m = EncHost \<or> m = EncZone) \<and> (c = CHR 0x27 \<or> c = CHR 0x22) then False
      else if c \<in> set ''-_.~'' then False
      else if c \<in> set ''$&+,/:;=?@'' then
        (case m of
           EncPath \<Rightarrow> c = CHR ''?''
         | EncPathSegment \<Rightarrow> c \<in> set ''/;,?''
         | EncUserPassword \<Rightarrow> c \<in> set ''@/?:''
         | EncQuery \<Rightarrow> True
         | EncFragment \<Rightarrow> False
         | _ \<Rightarrow> True)
      else if m = EncFragment \<and> c \<in> set ''!()*'' then False
      else True)"

definition hex_digit :: "nat \<Rightarrow> char" where
  "hex_digit d = (if d < 10 then char_of (48 + d) else char_of (55 + d))"

definition unhex :: "char \<Rightarrow> nat" where
  "unhex c = (if is_digit c then byte c - 48
              else if in_range 97 102 c then byte c - 87
              else if in_range 65 70 c then byte c - 55 else 0)"

definition percent :: "char \<Rightarrow> string" where
  "percent c = [CHR ''%'', hex_digit (byte c div 16), hex_digit (byte c mod 16)]"

definition escape_byte :: "enc_mode \<Rightarrow> char \<Rightarrow> string" where
  "escape_byte m c =
     (if shouldEscape c m
      then (if c = CHR '' '' \<and> m = EncQuery then ''+'' else percent c)
      else [c])"

definition escape :: "enc_mode \<Rightarrow> string \<Rightarrow> string" where
  "escape m s = concat (map (escape_byte m) s)"

fun unescape :: "enc_mode \<Rightarrow> string \<Rightarrow> string option" where
  "unescape m [] = Some []"
| "unescape m (c # s) =
     (if c = CHR ''%'' then
        (case s of
           a # b # r \<Rightarrow>
             (if \<not> (is_hex a \<and> is_hex b) then None
              else if m = EncHost \<and> unhex a < 8 \<and> [a, b] \<noteq> ''25'' then None
              else if m = EncZone \<and> [a, b] \<noteq> ''25'' \<and> 16 * unhex a + unhex b \<noteq> 32
                      \<and> shouldEscape (char_of (16 * unhex a + unhex b)) EncHost then None
              else map_option (Cons (char_of (16 * unhex a + unhex b))) (unescape m r))
         | _ \<Rightarrow> None)
      else if c = CHR ''+'' \<and> m = EncQuery then map_option (Cons (CHR '' '')) (unescape m s)
      else if (m = EncHost \<or> m = EncZone) \<and> byte c < 128 \<and> shouldEscape c m then None
      else map_option (Cons c) (unescape m s))"

definition pathEscape :: "string \<Rightarrow> string" where
  "pathEscape s = escape EncPathSegment s"

definition pathUnescape :: "string \<Rightarrow> string option" where
  "pathUnescape s = unescape EncPathSegment s"

definition queryEscape :: "string \<Rightarrow> string" where
  "queryEscape s = escape EncQuery s"

lemma byte_hex_digit: "d < 16 \<Longrightarrow> byte (hex_digit d) = (if d < 10 then 48 + d else 55 + d)"
  by (simp add: hex_digit_def)

lemma is_hex_hex_digit: "d < 16 \<Longrightarrow> is_hex (hex_digit d)"
  by (auto simp: byte_class_defs byte_hex_digit)

lemma unhex_hex_digit: "d < 16 \<Longrightarrow> unhex (hex_digit d) = d"
  by (auto simp: unhex_def byte_class_defs byte_hex_digit)

lemma char_of_byte_split: "char_of (16 * (byte c div 16) + byte c mod 16) = c"
proof -
  have "16 * (byte c div 16) + byte c mod 16 = byte c" by (rule mult_div_mod_eq)
  then show ?thesis by simp
qed

lemma unescape_percent:
  assumes "m \<notin> {EncHost, EncZone}"
  shows "unescape m (percent c @ r) = map_option (Cons c) (unescape m r)"
proof -
  note d = byte_nibbles [of c]
  have v: "char_of (16 * unhex (hex_digit (byte c div 16)) + unhex (hex_digit (byte c mod 16))) = c"
    using d by (simp only: unhex_hex_digit char_of_byte_split)
  show ?thesis using assms d by (simp add: percent_def is_hex_hex_digit v)
qed

lemma escape_Cons [simp]: "escape m (c # s) = escape_byte m c @ escape m s"
  and escape_Nil [simp]: "escape m [] = []"
  by (simp_all add: escape_def)

lemma escape_append: "escape m (s @ t) = escape m s @ escape m t"
  by (simp add: escape_def)

lemma percent_needs_escape: "shouldEscape (CHR ''%'') m"
  by (cases m) (simp_all add: shouldEscape_def byte_class_defs)

lemma plus_needs_escape: "shouldEscape (CHR ''+'') EncQuery"
  by (simp add: shouldEscape_def byte_class_defs)

lemma unescape_escape_append:
  assumes "m \<notin> {EncHost, EncZone}"
  shows "unescape m (escape m s @ r) = map_option (append s) (unescape m r)"
proof (induction s)
  case Nil
  then show ?case by (cases "unescape m r") auto
next
  case (Cons c s)
  consider (kept) "\<not> shouldEscape c m" | (plus) "shouldEscape c m" "c = CHR '' ''" "m = EncQuery"
    | (hexed) "shouldEscape c m" "\<not> (c = CHR '' '' \<and> m = EncQuery)" by blast
  then show ?case
  proof cases
    case kept
    then have "c \<noteq> CHR ''%''" "\<not> (c = CHR ''+'' \<and> m = EncQuery)"
      using percent_needs_escape plus_needs_escape by auto
    with kept assms Cons.IH show ?thesis
      by (cases "unescape m r") (auto simp: escape_byte_def)
  next
    case plus
    with Cons.IH show ?thesis by (cases "unescape m r") (auto simp: escape_byte_def)
  next
    case hexed
    then have "unescape m (escape m (c # s) @ r) = map_option (Cons c) (unescape m (escape m s @ r))"
      using unescape_percent [OF assms, of c "escape m s @ r"] by (simp add: escape_byte_def)
    with Cons.IH show ?thesis by (cases "unescape m r") auto
  qed
qed

lemma unescape_escape: "m \<notin> {EncHost, EncZone} \<Longrightarrow> unescape m (escape m s) = Some s"
  using unescape_escape_append [of m s "[]"] by simp

lemma hex_digit_alnum: "d < 16 \<Longrightarrow> is_alnum (hex_digit d)"
  by (auto simp: byte_class_defs byte_hex_digit)

lemma set_percent: "x \<in> set (percent c) \<Longrightarrow> x = CHR ''%'' \<or> is_alnum x"
  using hex_digit_alnum [OF byte_nibbles(1)] hex_digit_alnum [OF byte_nibbles(2)]
  by (auto simp: percent_def)

lemma set_escape:
  "x \<in> set (escape m s) \<Longrightarrow> x = CHR ''%'' \<or> (x = CHR ''+'' \<and> m = EncQuery) \<or> \<not> shouldEscape x m"
proof (induction s)
  case Nil
  then show ?case by simp
next
  case (Cons c s)
  have alnum: "\<And>y. is_alnum y \<Longrightarrow> \<not> shouldEscape y m" by (simp add: shouldEscape_def)
  from Cons show ?case
    by (auto simp: escape_byte_def split: if_splits dest!: set_percent alnum)
qed

lemma slash_not_in_pathEscape: "CHR ''/'' \<notin> set (pathEscape s)"
  using set_escape [of "CHR ''/''" EncPathSegment s]
  by (auto simp: pathEscape_def shouldEscape_def byte_class_defs)

lemma query_not_in_pathEscape: "CHR ''?'' \<notin> set (pathEscape s)" "CHR ''#'' \<notin> set (pathEscape s)"
  using set_escape [of "CHR ''?''" EncPathSegment s] set_escape [of "CHR ''#''" EncPathSegment s]
  by (auto simp: pathEscape_def shouldEscape_def byte_class_defs)

lemma separators_not_in_queryEscape:
  "CHR ''&'' \<notin> set (queryEscape s)" "CHR ''='' \<notin> set (queryEscape s)" "CHR ''#'' \<notin> set (queryEscape s)"
  using set_escape [of "CHR ''&''" EncQuery s] set_escape [of "CHR ''=''" EncQuery s]
    set_escape [of "CHR ''#''" EncQuery s]
  by (auto simp: queryEscape_def shouldEscape_def byte_class_defs)

lemma pathUnescape_pathEscape [simp]: "pathUnescape (pathEscape s) = Some s"
  by (simp add: pathUnescape_def pathEscape_def unescape_escape)

section \<open>IP addresses\<close>

text \<open>An address is its 16 bytes; an IPv4 address is held in its IPv4-in-IPv6 form, as \<open>net.IP\<close> does.\<close>

type_synonym ip = "nat list"

definition parse_octet :: "string \<Rightarrow> nat option" where
  "parse_octet s =
     (if s = [] \<or> (length s > 1 \<and> hd s = CHR ''0'') then None
      else (case read_nat 0 s of Some n \<Rightarrow> if n \<le> 255 then Some n else None | None \<Rightarrow> None))"

definition parseIPv4Fields :: "string \<Rightarrow> nat list option" where
  "parseIPv4Fields s =
     (case map parse_octet (splitOn (CHR ''.'') s) of
        [Some a, Some b, Some c, Some d] \<Rightarrow> Some [a, b, c, d]
      | _ \<Rightarrow> None)"

fun read_hex :: "nat \<Rightarrow> string \<Rightarrow> nat" where
  "read_hex acc [] = acc"
| "read_hex acc (c # s) = read_hex (16 * acc + unhex c) s"

text \<open>
  The loop of \<open>netip.parseIPv6\<close>: the bytes so far, the position of the ellipsis, the rest
  of the input. The result carries the bytes and the ellipsis when the input was used up.
\<close>

function parseIPv6_loop :: "nat list \<Rightarrow> nat option \<Rightarrow> string \<Rightarrow> (nat list \<times> nat option) option" where
  "parseIPv6_loop acc ell s =
     (if length acc \<ge> 16 then (if s = [] then Some (acc, ell) else None)
      else (let g = takeWhile is_hex s; r = dropWhile is_hex s
            in if g = [] \<or> length g > 4 then None
               else if r \<noteq> [] \<and> hd r = CHR ''.'' then
                 (if ell = None \<and> length acc \<noteq> 12 then None
                  else if length acc + 4 > 16 then None
                  else map_option (\<lambda>f. (acc @ f, ell)) (parseIPv4Fields s))
               else (let v = read_hex 0 g; acc' = acc @ [v div 256, v mod 256]
                     in if r = [] then Some (acc', ell)
                        else if hd r \<noteq> CHR '':'' \<or> length r = 1 then None
                        else (let t = tl r
                              in if hd t = CHR '':'' then
                                   (if ell \<noteq> None then None
                                    else if tl t = [] then Some (acc', Some (length acc'))
                                    else parseIPv6_loop acc' (Some (length acc')) (tl t))
                                 else parseIPv6_loop acc' ell t))))"
  by pat_completeness auto
termination
  by (relation "measure (\<lambda>(acc, ell, s). 16 - length acc)") auto

declare parseIPv6_loop.simps [simp del]

definition parseIPv6 :: "string \<Rightarrow> ip option" where
  "parseIPv6 s =
     (let (ell, rest) = (if hasPrefix s ''::'' then (Some 0, drop 2 s) else (None, s))
      in if ell = Some 0 \<and> rest = [] then Some (replicate 16 0)
         else (case parseIPv6_loop [] ell rest of
                 None \<Rightarrow> None
               | Some (bs, e) \<Rightarrow>
                   (if length bs < 16 then
                      (case e of None \<Rightarrow> None
                       | Some k \<Rightarrow> Some (take k bs @ replicate (16 - length bs) 0 @ drop k bs))
                    else if e \<noteq> None then None else Some bs)))"

text \<open>
  \<open>netip.ParseAddr\<close> picks the syntax by the first of dot, colon and percent; the result says
  whether the text was an IPv4 one and whether it carried a zone. \<open>net.ParseIP\<close> refuses zones.
\<close>

definition parseAddr :: "string \<Rightarrow> (ip \<times> bool \<times> bool) option" where
  "parseAddr s =
     (case find (\<lambda>c. c \<in> set ''.:%'') s of
        None \<Rightarrow> None
      | Some c \<Rightarrow>
          (if c = CHR ''.'' then
             map_option (\<lambda>f. (replicate 10 0 @ [255, 255] @ f, True, False)) (parseIPv4Fields s)
           else if c = CHR ''%'' then None
           else (case cut (CHR ''%'') s of (h, zone, found) \<Rightarrow>
                   (if found \<and> zone = [] then None
                    else map_option (\<lambda>a. (a, False, found)) (parseIPv6 h)))))"

definition parseIP :: "string \<Rightarrow> ip option" where
  "parseIP s = (case parseAddr s of Some (a, _, False) \<Rightarrow> Some a | _ \<Rightarrow> None)"

definition to4 :: "ip \<Rightarrow> nat list option" where
  "to4 a = (if length a = 16 \<and> take 12 a = replicate 10 0 @ [255, 255] then Some (drop 12 a) else None)"

definition isLoopback :: "ip \<Rightarrow> bool" where
  "isLoopback a = (case to4 a of Some f \<Rightarrow> f ! 0 = 127 | None \<Rightarrow> a = replicate 15 0 @ [1])"

definition isUnspecified :: "ip \<Rightarrow> bool" where
  "isUnspecified a \<longleftrightarrow> a = replicate 10 0 @ [255, 255, 0, 0, 0, 0] \<or> a = replicate 16 0"

definition isMulticast :: "ip \<Rightarrow> bool" where
  "isMulticast a = (case to4 a of Some f \<Rightarrow> f ! 0 div 16 = 14 | None \<Rightarrow> length a = 16 \<and> a ! 0 = 255)"

definition isLinkLocalUnicast :: "ip \<Rightarrow> bool" where
  "isLinkLocalUnicast a =
     (case to4 a of Some f \<Rightarrow> f ! 0 = 169 \<and> f ! 1 = 254
      | None \<Rightarrow> length a = 16 \<and> a ! 0 = 254 \<and> a ! 1 div 64 = 2)"

definition isLinkLocalMulticast :: "ip \<Rightarrow> bool" where
  "isLinkLocalMulticast a =
     (case to4 a of Some f \<Rightarrow> f ! 0 = 224 \<and> f ! 1 = 0 \<and> f ! 2 = 0
      | None \<Rightarrow> length a = 16 \<and> a ! 0 = 255 \<and> a ! 1 mod 16 = 2)"

lemma linkLocalMulticast_is_multicast: "isLinkLocalMulticast a \<Longrightarrow> isMulticast a"
  by (auto simp: isLinkLocalMulticast_def isMulticast_def split: option.splits)

section \<open>URLs\<close>

record url =
  u_scheme :: string
  u_opaque :: string
  u_user :: "(string \<times> string option) option"
  u_host :: string
  u_path :: string
  u_rawPath :: string
  u_omitHost :: bool
  u_forceQuery :: bool
  u_rawQuery :: string
  u_fragment :: string

definition empty_url :: url where
  "empty_url = \<lparr>u_scheme = [], u_opaque = [], u_user = None, u_host = [], u_path = [],
     u_rawPath = [], u_omitHost = False, u_forceQuery = False, u_rawQuery = [], u_fragment = []\<rparr>"

definition validOptionalPort :: "string \<Rightarrow> bool" where
  "validOptionalPort p = (case p of [] \<Rightarrow> True | c # r \<Rightarrow> c = CHR '':'' \<and> list_all is_digit r)"

text \<open>Position of the last occurrence of a byte: the parts before it and from it on.\<close>

definition split_last :: "char \<Rightarrow> string \<Rightarrow> (string \<times> string) option" where
  "split_last c s =
     (if c \<in> set s
      then Some (rev (tl (dropWhile (\<lambda>x. x \<noteq> c) (rev s))), rev (takeWhile (\<lambda>x. x \<noteq> c) (rev s)))
      else None)"

fun split_zone :: "string \<Rightarrow> string \<times> string" where
  "split_zone [] = ([], [])"
| "split_zone (c # s) =
     (if hasPrefix (c # s) ''%25'' then ([], c # s)
      else (case split_zone s of (a, z) \<Rightarrow> (c # a, z)))"

definition parseHost :: "string \<Rightarrow> string option" where
  "parseHost h =
     (if CHR ''['' \<in> set h then
        (if hd h \<noteq> CHR ''['' \<or> CHR ''['' \<in> set (tl h) then None
         else (case split_last (CHR '']'') h of
            None \<Rightarrow> None
          | Some (inner, port) \<Rightarrow>
              (if \<not> validOptionalPort port then None
               else (case (unescape EncHost port, split_zone (tl inner)) of
                  (Some port', (a, z)) \<Rightarrow>
                    (case (unescape EncHost a, unescape EncZone z) of
                       (Some a', Some z') \<Rightarrow>
                         (case parseAddr (a' @ z') of
                            Some (_, False, _) \<Rightarrow> Some (''['' @ a' @ z' @ '']'' @ port')
                          | _ \<Rightarrow> None)
                     | _ \<Rightarrow> None)
                | _ \<Rightarrow> None))))
      else (case split_last (CHR '':'') h of
              Some (_, port) \<Rightarrow>
                (if validOptionalPort (CHR '':'' # port) then unescape EncHost h else None)
            | None \<Rightarrow> unescape EncHost h))"

definition validUserinfo :: "string \<Rightarrow> bool" where
  "validUserinfo s = list_all (\<lambda>c. is_alnum c \<or> c \<in> set ''-._:~!$&()*+,;=%@'' \<or> c = CHR 0x27) s"

definition parseAuthority :: "string \<Rightarrow> ((string \<times> string option) option \<times> string) option" where
  "parseAuthority a =
     (case split_last (CHR ''@'') a of
        None \<Rightarrow> map_option (\<lambda>h. (None, h)) (parseHost a)
      | Some (ui, hp) \<Rightarrow>
          (case parseHost hp of
             None \<Rightarrow> None
           | Some h \<Rightarrow>
               (if \<not> validUserinfo ui then None
                else (case cut (CHR '':'') ui of (n, p, found) \<Rightarrow>
                        (case (unescape EncUserPassword n, unescape EncUserPassword p) of
                           (Some n', Some p') \<Rightarrow> Some (Some (n', if found then Some p' else None), h)
                         | _ \<Rightarrow> None)))))"

text \<open>\<open>getScheme\<close>: \<open>None\<close> is the missing-scheme error, otherwise scheme and rest.\<close>

definition scheme_char :: "char \<Rightarrow> bool" where
  "scheme_char c \<longleftrightarrow> is_lower c \<or> is_upper c \<or> is_digit c \<or> c \<in> set ''+-.''"

definition getScheme :: "string \<Rightarrow> (string \<times> string) option" where
  "getScheme s =
     (case s of
        [] \<Rightarrow> Some ([], s)
      | c # _ \<Rightarrow>
          (if c = CHR '':'' then None
           else if \<not> (is_lower c \<or> is_upper c) then Some ([], s)
           else (case dropWhile scheme_char s of
                   d # rest \<Rightarrow> (if d = CHR '':'' then Some (takeWhile scheme_char s, rest) else Some ([], s))
                 | [] \<Rightarrow> Some ([], s))))"

definition setPath :: "string \<Rightarrow> url \<Rightarrow> url option" where
  "setPath p u =
     (case unescape EncPath p of
        None \<Rightarrow> None
      | Some q \<Rightarrow> Some (u\<lparr>u_path := q, u_rawPath := (if p = escape EncPath q then [] else p)\<rparr>))"

definition has_ctl :: "string \<Rightarrow> bool" where
  "has_ctl s = list_ex (\<lambda>c. byte c < 32 \<or> byte c = 127) s"

definition parse_no_frag :: "string \<Rightarrow> url option" where
  "parse_no_frag raw =
     (if has_ctl raw then None
      else if raw = ''*'' then Some (empty_url\<lparr>u_path := ''*''\<rparr>)
      else (case getScheme raw of
         None \<Rightarrow> None
       | Some (sch, rest0) \<Rightarrow>
           (let scheme = toLower sch;
                force = hasSuffix rest0 ''?'' \<and> count_list rest0 (CHR ''?'') = 1;
                (rest, query) = (if force then (butlast rest0, [])
                                 else (case cut (CHR ''?'') rest0 of (b, a, _) \<Rightarrow> (b, a)));
                u = empty_url\<lparr>u_scheme := scheme, u_forceQuery := force, u_rawQuery := query\<rparr>
            in if \<not> hasPrefix rest ''/'' \<and> scheme \<noteq> [] then Some (u\<lparr>u_opaque := rest\<rparr>)
               else if \<not> hasPrefix rest ''/'' \<and> CHR '':'' \<in> set (fst (cut (CHR ''/'') rest)) then None
               else if (scheme \<noteq> [] \<or> \<not> hasPrefix rest ''///'') \<and> hasPrefix rest ''//'' then
                 (let a = drop 2 rest;
                      auth = takeWhile (\<lambda>c. c \<noteq> CHR ''/'') a;
                      p = dropWhile (\<lambda>c. c \<noteq> CHR ''/'') a
                  in (case parseAuthority auth of
                        None \<Rightarrow> None
                      | Some (user, host) \<Rightarrow> setPath p (u\<lparr>u_user := user, u_host := host\<rparr>)))
               else setPath rest (u\<lparr>u_omitHost := (scheme \<noteq> [] \<and> hasPrefix rest ''/'')\<rparr>))))"

definition urlParse :: "string \<Rightarrow> url option" where
  "urlParse raw =
     (case cut (CHR ''#'') raw of (r, frag, _) \<Rightarrow>
        (case parse_no_frag r of
           None \<Rightarrow> None
         | Some u \<Rightarrow>
             (if frag = [] then Some u
              else map_option (\<lambda>f. u\<lparr>u_fragment := f\<rparr>) (unescape EncFragment frag))))"

definition isAbs :: "url \<Rightarrow> bool" where
  "isAbs u \<longleftrightarrow> u_scheme u \<noteq> []"

definition hostname :: "url \<Rightarrow> string" where
  "hostname u =
     (let h = u_host u;
          h' = (case split_last (CHR '':'') h of
                  Some (b, p) \<Rightarrow> (if validOptionalPort (CHR '':'' # p) then b else h)
                | None \<Rightarrow> h)
      in if hasPrefix h' ''['' \<and> hasSuffix h' '']'' then butlast (tl h') else h')"

definition validEncoded :: "enc_mode \<Rightarrow> string \<Rightarrow> bool" where
  "validEncoded m s =
     list_all (\<lambda>c. c \<in> set ''!$&()*+,;=:@[]%'' \<or> c = CHR 0x27 \<or> \<not> shouldEscape c m) s"

definition escapedPath :: "url \<Rightarrow> string" where
  "escapedPath u =
     (if u_rawPath u \<noteq> [] \<and> validEncoded EncPath (u_rawPath u)
         \<and> unescape EncPath (u_rawPath u) = Some (u_path u)
      then u_rawPath u
      else if u_path u = ''*'' then ''*''
      else escape EncPath (u_path u))"

text \<open>\<open>URL.String\<close>; fragments are escaped with the fragment mode.\<close>

definition urlString :: "url \<Rightarrow> string" where
  "urlString u =
     (let pre = (if u_scheme u \<noteq> [] then u_scheme u @ '':'' else []);
          body =
            (if u_opaque u \<noteq> [] then u_opaque u
             else
               (let auth =
                      (if (u_scheme u \<noteq> [] \<or> u_host u \<noteq> [] \<or> u_user u \<noteq> None)
                          \<and> \<not> (u_omitHost u \<and> u_host u = [] \<and> u_user u = None)
                       then (if u_host u \<noteq> [] \<or> u_path u \<noteq> [] \<or> u_user u \<noteq> None then ''//'' else [])
                            @ (case u_user u of None \<Rightarrow> []
                               | Some (n, None) \<Rightarrow> escape EncUserPassword n @ ''@''
                               | Some (n, Some p) \<Rightarrow>
                                   escape EncUserPassword n @ '':'' @ escape EncUserPassword p @ ''@'')
                            @ escape EncHost (u_host u)
                       else []);
                    path = escapedPath u;
                    slash = (if path \<noteq> [] \<and> hd path \<noteq> CHR ''/'' \<and> u_host u \<noteq> [] then ''/'' else []);
                    dot = (if pre @ auth @ slash = [] \<and> CHR '':'' \<in> set (fst (cut (CHR ''/'') path))
                           then ''./'' else [])
                in auth @ slash @ dot @ path));
          qry = (if u_forceQuery u \<or> u_rawQuery u \<noteq> [] then ''?'' @ u_rawQuery u else []);
          frag = (if u_fragment u \<noteq> [] then ''#'' @ escape EncFragment (u_fragment u) else [])
      in pre @ body @ qry @ frag)"

section \<open>Query values\<close>

type_synonym query_values = "(string, string list) gomap"

definition qget :: "query_values \<Rightarrow> string \<Rightarrow> string list" where
  "qget q k = (case map_of q k of None \<Rightarrow> [] | Some vs \<Rightarrow> vs)"

definition qset :: "string \<Rightarrow> string \<Rightarrow> query_values \<Rightarrow> query_values" where
  "qset k v q = put k [v] q"

definition qadd :: "string \<Rightarrow> string \<Rightarrow> query_values \<Rightarrow> query_values" where
  "qadd k v q = put k (qget q k @ [v]) q"

text \<open>\<open>url.ParseQuery\<close> as \<open>URL.Query\<close> uses it: malformed pairs are dropped.\<close>

definition parse_pair :: "string \<Rightarrow> (string \<times> string) option" where
  "parse_pair kv =
     (if CHR '';'' \<in> set kv \<or> kv = [] then None
      else (case cut (CHR ''='') kv of (k, v, _) \<Rightarrow>
              (case (unescape EncQuery k, unescape EncQuery v) of
                 (Some k', Some v') \<Rightarrow> Some (k', v')
               | _ \<Rightarrow> None)))"

definition parseQuery :: "string \<Rightarrow> query_values" where
  "parseQuery s =
     fold (\<lambda>kv q. case parse_pair kv of None \<Rightarrow> q | Some (k, v) \<Rightarrow> qadd k v q)
       (splitOn (CHR ''&'') s) []"

definition encodeQuery :: "query_values \<Rightarrow> string" where
  "encodeQuery q =
     join (concat (map (\<lambda>k. map (\<lambda>v. queryEscape k @ ''='' @ queryEscape v) (qget q k))
                       (sortStrings (keys q)))) ''&''"

lemma parseQuery_empty [simp]: "parseQuery [] = []"
  by (simp add: parseQuery_def parse_pair_def)

lemma qget_qset [simp]: "qget (qset k v q) k' = (if k' = k then [v] else qget q k')"
  by (simp add: qget_def qset_def)

lemma qget_qadd [simp]: "qget (qadd k v q) k' = (if k' = k then qget q k @ [v] else qget q k')"
  by (simp add: qget_def qadd_def)

lemma wf_qset [simp]: "wf_map q \<Longrightarrow> wf_map (qset k v q)"
  and wf_qadd [simp]: "wf_map q \<Longrightarrow> wf_map (qadd k v q)"
  by (simp_all add: qset_def qadd_def)

section \<open>Facts on parsed URLs and encoded queries\<close>

lemma semicolon_not_in_queryEscape: "CHR '';'' \<notin> set (queryEscape s)"
  using set_escape [of "CHR '';''" EncQuery s]
  by (auto simp: queryEscape_def shouldEscape_def byte_class_defs)

lemma cut_append: "sep \<notin> set p \<Longrightarrow> cut sep (p @ sep # s) = (p, s, True)"
  by (induction p) auto

lemma setPath_fields:
  "setPath p u = Some v \<Longrightarrow> u_opaque v = u_opaque u \<and> u_host v = u_host u"
  by (auto simp: setPath_def split: option.splits)

lemma parse_no_frag_opaque:
  assumes "parse_no_frag raw = Some u" "u_host u \<noteq> []"
  shows "u_opaque u = []"
  using assms setPath_fields
  by (fastforce simp: parse_no_frag_def Let_def empty_url_def split: if_splits option.splits prod.splits)

lemma urlParse_opaque: "urlParse raw = Some u \<Longrightarrow> u_host u \<noteq> [] \<Longrightarrow> u_opaque u = []"
  by (auto simp: urlParse_def split: prod.splits option.splits if_splits dest: parse_no_frag_opaque)

lemma hostname_host: "hostname u \<noteq> [] \<Longrightarrow> u_host u \<noteq> []"
  by (auto simp: hostname_def Let_def split_last_def hasPrefix_def hasSuffix_def split: if_splits option.splits)

text \<open>A query encodes to a text that parses back to the same values.\<close>

lemma fold_qadd:
  "qget (fold (\<lambda>kv q. case parse_pair kv of None \<Rightarrow> q | Some (k, v) \<Rightarrow> qadd k v q) kvs q) k =
   qget q k @ map snd (filter (\<lambda>p. fst p = k) (List.map_filter parse_pair kvs))"
  by (induction kvs arbitrary: q) (auto simp: List.map_filter_simps split: option.splits)

lemma parse_pair_escape:
  "parse_pair (queryEscape k @ ''='' @ queryEscape v) = Some (k, v)"
proof -
  have "CHR '';'' \<notin> set (queryEscape k @ ''='' @ queryEscape v)"
    using semicolon_not_in_queryEscape by auto
  moreover have "cut (CHR ''='') (queryEscape k @ ''='' @ queryEscape v) = (queryEscape k, queryEscape v, True)"
    using separators_not_in_queryEscape(2) by (simp add: cut_append)
  ultimately show ?thesis
    by (simp add: parse_pair_def queryEscape_def unescape_escape)
qed

lemma ampersand_not_in_pair: "CHR ''&'' \<notin> set (queryEscape k @ ''='' @ queryEscape v)"
  using separators_not_in_queryEscape(1) by auto

lemma values_of_key:
  "distinct ks \<Longrightarrow>
   map snd (filter (\<lambda>p. fst p = k) (concat (map (\<lambda>j. map (Pair j) (f j)) ks))) = (if k \<in> set ks then f k else [])"
proof (induction ks)
  case (Cons j ks)
  then show ?case by (cases "j = k") (auto simp: filter_map comp_def)
qed simp

lemma map_filter_pairs:
  "List.map_filter parse_pair (map (\<lambda>(k, v). queryEscape k @ ''='' @ queryEscape v) ps) = ps"
  by (induction ps) (auto simp: List.map_filter_simps parse_pair_escape simp del: append_Cons)

lemma encodeQuery_pairs:
  "encodeQuery q = join (map (\<lambda>(k, v). queryEscape k @ ''='' @ queryEscape v)
     (concat (map (\<lambda>k. map (Pair k) (qget q k)) (sortStrings (keys q))))) ''&''"
  by (simp add: encodeQuery_def map_concat comp_def)

lemma parseQuery_encodeQuery:
  assumes "wf_map q"
  shows "qget (parseQuery (encodeQuery q)) k = qget q k"
proof -
  let ?ps = "concat (map (\<lambda>k. map (Pair k) (qget q k)) (sortStrings (keys q)))"
  let ?kvs = "map (\<lambda>(k, v). queryEscape k @ ''='' @ queryEscape v) ?ps"
  have "List.map_filter parse_pair (splitOn (CHR ''&'') (encodeQuery q)) = ?ps"
  proof (cases "?ps = []")
    case True
    then show ?thesis by (simp only: encodeQuery_pairs) (simp add: List.map_filter_simps parse_pair_def)
  next
    case False
    then have "splitOn (CHR ''&'') (encodeQuery q) = ?kvs"
      unfolding encodeQuery_pairs using ampersand_not_in_pair
      by (intro splitOn_join) auto
    then show ?thesis by (simp only: map_filter_pairs)
  qed
  then have "qget (parseQuery (encodeQuery q)) k = map snd (filter (\<lambda>p. fst p = k) ?ps)"
    by (simp add: parseQuery_def fold_qadd) (simp add: qget_def)
  also have "\<dots> = (if k \<in> set (keys q) then qget q k else [])"
    using values_of_key [of "sortStrings (keys q)" k "qget q"] assms by (simp add: wf_map_def)
  also have "\<dots> = qget q k"
    by (auto simp: qget_def map_of_eq_None_iff [THEN iffD2])
  finally show ?thesis .
qed

lemma encodeQuery_no_hash: "CHR ''#'' \<notin> set (encodeQuery q)"
proof -
  have j: "set (join ps ''&'') \<subseteq> {CHR ''&''} \<union> \<Union> (set ` set ps)" for ps
    by (induction ps "''&''" rule: join.induct) auto
  show ?thesis unfolding encodeQuery_def using separators_not_in_queryEscape j by fastforce
qed

lemma unescape_mode: "unescape EncPath s = unescape EncPathSegment s"
  by (induction EncPath s rule: unescape.induct) (auto split: list.splits)

lemma validEncoded_append [simp]: "validEncoded m (s @ t) \<longleftrightarrow> validEncoded m s \<and> validEncoded m t"
  by (simp add: validEncoded_def)

lemma validEncodedI:
  "(\<And>c. c \<in> set s \<Longrightarrow> c \<in> set ''!$&()*+,;=:@[]%'' \<or> \<not> shouldEscape c m) \<Longrightarrow> validEncoded m s"
  unfolding validEncoded_def list_all_iff by blast

lemma validEncoded_escape: "validEncoded EncPath (escape EncPath s)"
proof (rule validEncodedI)
  fix c assume "c \<in> set (escape EncPath s)"
  from set_escape [OF this] show "c \<in> set ''!$&()*+,;=:@[]%'' \<or> \<not> shouldEscape c EncPath" by auto
qed

lemma validEncoded_pathEscape: "validEncoded EncPath (pathEscape s)"
proof (rule validEncodedI)
  fix c assume "c \<in> set (pathEscape s)"
  then have "c = CHR ''%'' \<or> \<not> shouldEscape c EncPathSegment"
    unfolding pathEscape_def by (auto dest: set_escape)
  then show "c \<in> set ''!$&()*+,;=:@[]%'' \<or> \<not> shouldEscape c EncPath"
    by (auto simp: shouldEscape_def split: if_splits)
qed

lemma validEncoded_escapedPath: "validEncoded EncPath (escapedPath u)"
proof -
  have "validEncoded EncPath ''*''" by (simp add: validEncoded_def)
  then show ?thesis using validEncoded_escape by (simp add: escapedPath_def)
qed

lemma validEncoded_join:
  "(\<And>p. p \<in> set ps \<Longrightarrow> validEncoded EncPath p) \<Longrightarrow> validEncoded EncPath (join ps ''/'')"
  by (induction ps "''/''" rule: join.induct) (auto simp: validEncoded_def shouldEscape_def byte_class_defs)

lemma escapedPath_raw:
  assumes "r \<noteq> []" "validEncoded EncPath r" "pathUnescape r = Some p"
  shows "escapedPath (u\<lparr>u_path := p, u_rawPath := r, u_rawQuery := q\<rparr>) = r"
  using assms by (simp add: escapedPath_def pathUnescape_def unescape_mode)

lemma validEncoded_trimSuffix: "validEncoded m s \<Longrightarrow> validEncoded m (trimSuffix s t)"
  unfolding trimSuffix_def by (metis append_take_drop_id validEncoded_append)

end
