(* ===== verification/Gateway_Model.thy ===== *)
theory Gateway_Model
  imports Complex_Main Go_Url
begin

text \<open>
  The transport-neutral domain types of \<open>internal/model/model.go\<close>: risks, invokers,
  principals, compiled commands and invocations, and the dynamically typed values
  (\<open>any\<close>) that flow through arguments and defaults.

  Go's string-backed types (\<open>Risk\<close>, \<open>Invoker\<close>, \<open>FlagType\<close>, \<open>FlagLocation\<close>,
  \<open>DownstreamAuthMode\<close>) stay strings: the code converts unchecked text into them, and what
  happens to an unknown value is part of the behaviour.
\<close>

section \<open>Floating-point numbers\<close>

text \<open>
  A \<open>float64\<close> is not-a-number, an infinity or a rational. Comparisons follow IEEE 754: every
  comparison with not-a-number is false, \<open>!=\<close> is true.
\<close>

datatype float64 = FNaN | FInf bool | FNum rat

fun flt_lt :: "float64 \<Rightarrow> float64 \<Rightarrow> bool" where
  "flt_lt FNaN _ = False"
| "flt_lt _ FNaN = False"
| "flt_lt (FNum a) (FNum b) = (a < b)"
| "flt_lt (FInf neg) (FInf neg') = (neg \<and> \<not> neg')"
| "flt_lt (FInf neg) (FNum _) = neg"
| "flt_lt (FNum _) (FInf neg) = (\<not> neg)"

fun flt_eq :: "float64 \<Rightarrow> float64 \<Rightarrow> bool" where
  "flt_eq FNaN _ = False"
| "flt_eq _ FNaN = False"
| "flt_eq (FNum a) (FNum b) = (a = b)"
| "flt_eq (FInf neg) (FInf neg') = (neg = neg')"
| "flt_eq _ _ = False"

definition flt_le :: "float64 \<Rightarrow> float64 \<Rightarrow> bool" where
  "flt_le a b \<longleftrightarrow> flt_lt a b \<or> flt_eq a b"

section \<open>Dynamically typed values\<close>

datatype goval =
    VNil
  | VStr string
  | VInt int
  | VInt64 int
  | VBool bool
  | VNum string
  | VFloat float64
  | VStrs "string list"
  | VList "goval list"
  | VObj "(string \<times> goval) list"

section \<open>Risk and invoker\<close>

type_synonym risk = string
type_synonym invoker = string

abbreviation (input) RiskRead :: risk where "RiskRead \<equiv> ''read''"
abbreviation (input) RiskWrite :: risk where "RiskWrite \<equiv> ''write''"
abbreviation (input) RiskDestroy :: risk where "RiskDestroy \<equiv> ''destroy''"

abbreviation (input) InvokerHuman :: invoker where "InvokerHuman \<equiv> ''human''"
abbreviation (input) InvokerAI :: invoker where "InvokerAI \<equiv> ''ai''"
abbreviation (input) InvokerCI :: invoker where "InvokerCI \<equiv> ''ci''"
abbreviation (input) InvokerUnknown :: invoker where "InvokerUnknown \<equiv> ''unknown''"

definition riskRank :: "risk \<rightharpoonup> int" where
  "riskRank = [RiskRead \<mapsto> 1, RiskWrite \<mapsto> 2, RiskDestroy \<mapsto> 3]"

text \<open>A missing key reads as the zero value.\<close>

definition riskRankOf :: "risk \<Rightarrow> int" where
  "riskRankOf r = (case riskRank r of None \<Rightarrow> 0 | Some n \<Rightarrow> n)"

definition riskValid :: "risk \<Rightarrow> bool" where
  "riskValid r \<longleftrightarrow> riskRank r \<noteq> None"

definition riskExceeds :: "risk \<Rightarrow> risk \<Rightarrow> bool" where
  "riskExceeds r maximum \<longleftrightarrow> riskRankOf r > riskRankOf maximum"

lemma riskValid_iff: "riskValid r \<longleftrightarrow> r \<in> {RiskRead, RiskWrite, RiskDestroy}"
  by (auto simp: riskValid_def riskRank_def)

lemma riskRankOf_bounds: "0 \<le> riskRankOf r" "riskRankOf r \<le> 3"
  by (auto simp: riskRankOf_def riskRank_def)

lemma riskValid_pos: "riskValid r \<longleftrightarrow> 0 < riskRankOf r"
  by (auto simp: riskValid_def riskRankOf_def riskRank_def)

section \<open>Principals\<close>

record principal =
  pr_subject :: string
  pr_email :: string
  pr_name :: string
  pr_issuer :: string
  pr_tenant :: string
  pr_sessionID :: string
  pr_expiresAt :: gotime
  pr_scopes :: "string list"
  pr_invoker :: invoker
  pr_clientID :: string

section \<open>Compiled commands\<close>

type_synonym flag_type = string
type_synonym flag_location = string
type_synonym downstream_auth_mode = string

abbreviation (input) FlagInBody :: flag_location where "FlagInBody \<equiv> ''body''"
abbreviation (input) FlagInQuery :: flag_location where "FlagInQuery \<equiv> ''query''"
abbreviation (input) FlagInPath :: flag_location where "FlagInPath \<equiv> ''path''"
abbreviation (input) FlagInHeader :: flag_location where "FlagInHeader \<equiv> ''header''"

abbreviation (input) FlagString :: flag_type where "FlagString \<equiv> ''string''"
abbreviation (input) FlagInt :: flag_type where "FlagInt \<equiv> ''int''"
abbreviation (input) FlagBool :: flag_type where "FlagBool \<equiv> ''bool''"
abbreviation (input) FlagStringArray :: flag_type where "FlagStringArray \<equiv> ''stringArray''"

abbreviation (input) DownstreamSignedIdentity :: downstream_auth_mode
  where "DownstreamSignedIdentity \<equiv> ''signed-identity''"
abbreviation (input) DownstreamBearerPassthrough :: downstream_auth_mode
  where "DownstreamBearerPassthrough \<equiv> ''bearer-passthrough''"
abbreviation (input) DownstreamTokenExchange :: downstream_auth_mode
  where "DownstreamTokenExchange \<equiv> ''token-exchange''"
abbreviation (input) DownstreamClientCredentials :: downstream_auth_mode
  where "DownstreamClientCredentials \<equiv> ''client-credentials''"
abbreviation (input) DownstreamAuthorizationCode :: downstream_auth_mode
  where "DownstreamAuthorizationCode \<equiv> ''authorization-code''"

record compiled_flag =
  cf_name :: string
  cf_type :: flag_type
  cf_location :: flag_location
  cf_required :: bool
  cf_default :: goval
  cf_queryName :: string
  cf_headerName :: string
  cf_description :: string

record tls_config =
  tls_insecureSkipVerify :: bool
  tls_caFile :: string
  tls_clientCertFile :: string
  tls_clientKeyFile :: string

record oauth_credential =
  oc_authorizationURL :: "url option"
  oc_tokenURL :: "url option"
  oc_revocationURL :: "url option"
  oc_clientID :: string
  oc_clientSecretRef :: string
  oc_tokenEndpointAuth :: string
  oc_audience :: string
  oc_resource :: string
  oc_scopes :: "string list"
  oc_subjectTokenType :: string
  oc_requestedTokenType :: string
  oc_allowLocal :: bool
  oc_tls :: tls_config

record credential_cache =
  cc_capacity :: int
  cc_refreshSkew :: duration
  cc_negativeTTL :: duration

record compiled_command =
  cmd_key :: string
  cmd_toolName :: string
  cmd_domain :: string
  cmd_path :: "string list"
  cmd_summary :: string
  cmd_method :: string
  cmd_upstream :: "url option"
  cmd_endpointSegments :: "string list"
  cmd_risk :: risk
  cmd_confirm :: bool
  cmd_streaming :: bool
  cmd_timeout :: duration
  cmd_flags :: "compiled_flag list"
  cmd_inputSchema :: goval
  cmd_downstreamAuth :: downstream_auth_mode
  cmd_identityAudience :: string
  cmd_oauthCredential :: "oauth_credential option"
  cmd_credentialCache :: credential_cache
  cmd_domainConcurrency :: int
  cmd_requestsPerSecond :: float64
  cmd_rateBurst :: int
  cmd_allowLocal :: bool
  cmd_tls :: tls_config

section \<open>Invocations\<close>

text \<open>The arguments are a Go map the code ranges over, hence an association list.\<close>

type_synonym arguments = "(string, goval) gomap"

record invocation =
  inv_source :: string
  inv_principal :: principal
  inv_command :: compiled_command
  inv_args :: arguments
  inv_invoker :: invoker
  inv_confirmed :: bool
  inv_aiMaxRisk :: risk
  inv_traceID :: string
  inv_traceState :: string
  inv_client :: string
  inv_bearerToken :: string

end
