(* ===== verification/Manifest_Types.thy ===== *)
theory Manifest_Types
  imports Gateway_Model
begin

text \<open>
  The declarative source configuration of \<open>internal/manifest/types.go\<close>, one record per
  struct, as the YAML decoder leaves it (absent keys hold the zero value). A \<open>Duration\<close> is
  the nanosecond count \<open>time.ParseDuration\<close> returned for the configured text.
\<close>

record raw_tls =
  rt_insecureSkipVerify :: bool
  rt_caFile :: string
  rt_clientCertFile :: string
  rt_clientKeyFile :: string

record server_config =
  sc_listen :: string
  sc_publicURL :: string
  sc_environment :: string
  sc_identityKeyFile :: string
  sc_identityPreviousKeyFiles :: "string list"

record auth_config =
  ac_mode :: string
  ac_issuer :: string
  ac_clientID :: string
  ac_audience :: string
  ac_resourceParameter :: string
  ac_trustedJWKS :: string
  ac_identityClaims :: "(string, string) gomap"
  ac_tls :: raw_tls

record limits_config =
  lc_globalConcurrency :: int
  lc_queueTimeout :: duration

record audit_sink =
  as_type :: string
  as_path :: string
  as_url :: string
  as_timeout :: duration
  as_tls :: raw_tls

record downstream_oauth_config =
  do_tokenStoreFile :: string
  do_encryptionKeyRef :: string
  do_stateTTL :: duration

record raw_oauth =
  ro_authorizationURL :: string
  ro_tokenURL :: string
  ro_revocationURL :: string
  ro_clientID :: string
  ro_clientSecretRef :: string
  ro_tokenEndpointAuth :: string
  ro_audience :: string
  ro_resource :: string
  ro_scopes :: "string list"
  ro_subjectTokenType :: string
  ro_requestedTokenType :: string
  ro_tls :: raw_tls

record raw_cache =
  rc_capacity :: int
  rc_refreshSkew :: duration
  rc_negativeTTL :: duration

record downstream_auth_config =
  da_mode :: string
  da_identityAudience :: string
  da_tokenExchange :: raw_oauth
  da_clientCredentials :: raw_oauth
  da_authorizationCode :: raw_oauth
  da_cache :: raw_cache

record domain_limits =
  dl_concurrency :: int
  dl_requestsPerSecond :: float64
  dl_burst :: int

record raw_flag =
  rf_name :: string
  rf_type :: string
  rf_required :: bool
  rf_default :: goval
  rf_in :: string
  rf_description :: string
  rf_queryName :: string
  rf_headerName :: string

record raw_command =
  rcm_path :: "string list"
  rcm_summary :: string
  rcm_method :: string
  rcm_endpoint :: string
  rcm_risk :: string
  rcm_scope :: string
  rcm_confirm :: bool
  rcm_streaming :: bool
  rcm_flags :: "raw_flag list"

record raw_domain =
  rd_name :: string
  rd_upstream :: string
  rd_tls :: raw_tls
  rd_allowLocal :: bool
  rd_timeout :: duration
  rd_downstreamAuth :: downstream_auth_config
  rd_limits :: domain_limits
  rd_commands :: "raw_command list"

record manifest =
  m_version :: int
  m_server :: server_config
  m_auth :: auth_config
  m_cliName :: string
  m_aiMaxRisk :: string
  m_limits :: limits_config
  m_auditSinks :: "audit_sink list"
  m_downstreamOAuth :: downstream_oauth_config
  m_domains :: "raw_domain list"

definition defaultDomainTimeout :: duration where
  "defaultDomainTimeout = 30 * second"

text \<open>\<open>Position\<close> and \<open>ValidationError\<close> of \<open>internal/manifest/errors.go\<close>.\<close>

record position =
  pos_line :: int
  pos_column :: int

record validation_error =
  ve_path :: string
  ve_line :: int
  ve_column :: int
  ve_message :: string

definition validationErrorText :: "validation_error \<Rightarrow> string" where
  "validationErrorText e =
     (if ve_line e > 0
      then ve_path e @ '' at line '' @ formatInt (ve_line e) @ '', column '' @ formatInt (ve_column e)
           @ '': '' @ ve_message e
      else ve_path e @ '': '' @ ve_message e)"

definition validationErrorsText :: "validation_error list \<Rightarrow> string" where
  "validationErrorsText es = join (map validationErrorText es) ''; ''"

end
