(* ===== verification/Manifest_Validate.thy ===== *)
theory Manifest_Validate
  imports Manifest_Types
begin

text \<open>
  The semantic validation of \<open>internal/manifest/validate.go\<close>. The validator's error
  list is written out: each Go function that receives the validator returns here the list of
  errors it appends, and calls in sequence are concatenated. \<open>positions\<close> is the map from
  value paths to source positions; a missing path reads as the zero position.

  Go ranges over the placeholder set and the flag map of a command in an unspecified order; the
  model uses insertion order. Only the order of the reported errors depends on it.
\<close>

type_synonym positions = "string \<Rightarrow> position"
type_synonym verrors = "validation_error list"

definition add :: "positions \<Rightarrow> string \<Rightarrow> string \<Rightarrow> verrors" where
  "add pos path message =
     [\<lparr>ve_path = path, ve_line = pos_line (pos path), ve_column = pos_column (pos path),
       ve_message = message\<rparr>]"

lemma add_not_Nil [simp]: "add pos path message \<noteq> []"
  by (simp add: add_def)

text \<open>\<open>if cond { v.add(path, message) }\<close>\<close>

definition add_if :: "bool \<Rightarrow> positions \<Rightarrow> string \<Rightarrow> string \<Rightarrow> verrors" where
  "add_if b pos path message = (if b then add pos path message else [])"

lemma add_if_Nil [simp]: "add_if b pos path message = [] \<longleftrightarrow> \<not> b"
  by (simp add: add_if_def)

definition indexed :: "string \<Rightarrow> nat \<Rightarrow> string" where
  "indexed path i = path @ ''['' @ show_nat i @ '']''"

section \<open>Patterns\<close>

definition name_char :: "char \<Rightarrow> bool" where
  "name_char c \<longleftrightarrow> is_lower c \<or> is_digit c \<or> c = CHR ''-''"

definition namePattern :: "string \<Rightarrow> bool" where
  "namePattern s = (case s of [] \<Rightarrow> False
     | c # r \<Rightarrow> is_lower c \<and> list_all name_char r \<and> length r \<le> 31)"

text \<open>The submatch of \<open>placeholderPattern\<close>, when it matches.\<close>

definition placeholderPattern :: "string \<Rightarrow> string option" where
  "placeholderPattern s =
     (if hasPrefix s ''{'' \<and> hasSuffix s ''}'' \<and> length s \<ge> 2 \<and> namePattern (butlast (tl s))
      then Some (butlast (tl s)) else None)"

definition headerNamePattern :: "string \<Rightarrow> bool" where
  "headerNamePattern s \<longleftrightarrow>
     s \<noteq> [] \<and> list_all (\<lambda>c. is_alnum c \<or> c \<in> set ''!#$%&*+-.^_|~'' \<or> c = CHR 0x27 \<or> c = CHR 0x60) s"

section \<open>Leaf checks\<close>

definition validateTLS :: "positions \<Rightarrow> string \<Rightarrow> raw_tls \<Rightarrow> string \<Rightarrow> verrors" where
  "validateTLS pos path config environment =
     add_if (environment = ''production'' \<and> rt_insecureSkipVerify config) pos
       (path @ ''.insecure_skip_verify'') ''is forbidden in production''
     @ add_if ((rt_clientCertFile config = []) \<noteq> (rt_clientKeyFile config = [])) pos
       (path @ ''.client_cert_file'') ''client_cert_file and client_key_file must be configured together''"

definition validSecretReference :: "string \<Rightarrow> bool" where
  "validSecretReference reference =
     (case cut (CHR '':'') reference of (prefix, value, found) \<Rightarrow>
        if \<not> found \<or> trimSpace value = [] then False
        else prefix = ''env'' \<or> prefix = ''file'')"

definition isLoopbackHostname :: "string \<Rightarrow> bool" where
  "isLoopbackHostname host =
     (if equalFold host ''localhost'' then True
      else (case parseIP host of None \<Rightarrow> False | Some a \<Rightarrow> isLoopback a))"

definition validateAbsoluteHTTPURL :: "positions \<Rightarrow> string \<Rightarrow> string \<Rightarrow> bool \<Rightarrow> verrors" where
  "validateAbsoluteHTTPURL pos path raw requireHTTPS =
     (case urlParse raw of
        None \<Rightarrow> add pos path ''must be an absolute HTTP URL without userinfo, query, or fragment''
      | Some parsed \<Rightarrow>
          (if hostname parsed = [] \<or> u_user parsed \<noteq> None \<or> u_rawQuery parsed \<noteq> [] \<or> u_fragment parsed \<noteq> []
           then add pos path ''must be an absolute HTTP URL without userinfo, query, or fragment''
           else add_if (u_scheme parsed \<noteq> ''http'' \<and> u_scheme parsed \<noteq> ''https'') pos path
                  ''scheme must be http or https''
                @ add_if (requireHTTPS \<and> u_scheme parsed \<noteq> ''https'') pos path ''must use https''))"

definition validateUpstream :: "positions \<Rightarrow> string \<Rightarrow> string \<Rightarrow> bool \<Rightarrow> verrors" where
  "validateUpstream pos path raw allowLocal =
     validateAbsoluteHTTPURL pos path raw False
     @ (case urlParse raw of
          None \<Rightarrow> []
        | Some parsed \<Rightarrow>
            (let host = hostname parsed
             in add_if (equalFold host ''localhost'' \<and> \<not> allowLocal) pos path
                  ''localhost requires network.allow_local=true''
                @ (case parseIP host of
                     None \<Rightarrow> []
                   | Some a \<Rightarrow>
                       (if isLinkLocalUnicast a \<or> isLinkLocalMulticast a \<or> isMulticast a \<or> isUnspecified a
                        then add pos path ''link-local, multicast, and unspecified addresses are forbidden''
                        else add_if (isLoopback a \<and> \<not> allowLocal) pos path
                               ''loopback addresses require network.allow_local=true''))))"

definition validateDomainLimits :: "positions \<Rightarrow> string \<Rightarrow> domain_limits \<Rightarrow> verrors" where
  "validateDomainLimits pos path limits =
     add_if (dl_concurrency limits < 0 \<or> dl_concurrency limits > 10000) pos (path @ ''.concurrency'')
       ''must be between 1 and 10000 when configured''
     @ add_if (flt_lt (dl_requestsPerSecond limits) (FNum 0)
               \<or> flt_lt (FNum 1000000) (dl_requestsPerSecond limits)) pos
         (path @ ''.requests_per_second'') ''must be between 0 and 1000000''
     @ add_if (dl_burst limits < 0 \<or> dl_burst limits > 1000000) pos (path @ ''.burst'')
         ''must be between 0 and 1000000''
     @ add_if (flt_eq (dl_requestsPerSecond limits) (FNum 0) \<and> dl_burst limits \<noteq> 0) pos
         (path @ ''.burst'') ''requires requests_per_second''"

definition domainTimeout :: "duration \<Rightarrow> duration" where
  "domainTimeout value = (if value = 0 then defaultDomainTimeout else value)"

definition generatedToolName :: "string \<Rightarrow> string list \<Rightarrow> string" where
  "generatedToolName domain path = replaceAll (join (domain # path) ''_'') (CHR ''-'') (CHR ''_'')"

definition commandKey :: "string \<Rightarrow> string list \<Rightarrow> string" where
  "commandKey domain path = domain @ ''.'' @ join path ''.''"

definition forbiddenHeader :: "string \<Rightarrow> bool" where
  "forbiddenHeader name =
     (let lower = toLower name
      in hasPrefix lower ''x-cli-gateway-'' \<or> hasPrefix lower ''x-forwarded-''
         \<or> lower \<in> set [''authorization'', ''host'', ''content-length'', ''transfer-encoding'',
             ''connection'', ''keep-alive'', ''proxy-connection'', ''te'', ''trailer'', ''upgrade'',
             ''cookie'', ''set-cookie'', ''forwarded''])"

fun is_VStr :: "goval \<Rightarrow> bool" where
  "is_VStr (VStr _) = True"
| "is_VStr _ = False"

definition defaultMatches :: "flag_type \<Rightarrow> goval \<Rightarrow> bool" where
  "defaultMatches flagType value =
     (if flagType = FlagString then (case value of VStr _ \<Rightarrow> True | _ \<Rightarrow> False)
      else if flagType = FlagInt then (case value of VInt _ \<Rightarrow> True | _ \<Rightarrow> False)
      else if flagType = FlagBool then (case value of VBool _ \<Rightarrow> True | _ \<Rightarrow> False)
      else if flagType = FlagStringArray then
        (case value of VList vs \<Rightarrow> list_all is_VStr vs | _ \<Rightarrow> False)
      else False)"

section \<open>Authentication and audit configuration\<close>

definition validateClaim :: "positions \<Rightarrow> string \<times> string \<Rightarrow> verrors" where
  "validateClaim pos c =
     (case c of (target, source) \<Rightarrow>
        (let path = ''auth.identity_claims.'' @ target
         in add_if (target \<noteq> ''email'' \<and> target \<noteq> ''name'') pos path ''target must be email or name''
            @ add_if (trimSpace source = [] \<or> length source > 128
                      \<or> containsAny source [CHR '' '', CHR 0x09, CHR 0x0D, CHR 0x0A]) pos path
                ''source claim must be a non-empty claim name without whitespace''))"

definition validateAuth :: "positions \<Rightarrow> auth_config \<Rightarrow> string \<Rightarrow> verrors" where
  "validateAuth pos auth environment =
     (let requireHTTPS = (environment = ''production'')
      in (if ac_mode auth = ''oidc'' then
            validateAbsoluteHTTPURL pos ''auth.issuer'' (ac_issuer auth) requireHTTPS
            @ add_if (ac_clientID auth = []) pos ''auth.client_id'' ''is required for oidc mode''
          else if ac_mode auth = ''trusted-header'' then
            validateAbsoluteHTTPURL pos ''auth.issuer'' (ac_issuer auth) requireHTTPS
            @ validateAbsoluteHTTPURL pos ''auth.trusted_jwks'' (ac_trustedJWKS auth) requireHTTPS
          else if ac_mode auth = [] then add pos ''auth.mode'' ''is required''
          else add pos ''auth.mode'' ''must be oidc or trusted-header'')
         @ add_if (ac_audience auth = []) pos ''auth.audience'' ''is required''
         @ add_if (ac_resourceParameter auth \<notin> set [[], ''both'', ''audience'', ''resource'', ''none'']) pos
             ''auth.resource_parameter'' ''must be both, audience, resource, or none''
         @ concat (map (validateClaim pos) (ac_identityClaims auth))
         @ validateTLS pos ''auth.tls'' (ac_tls auth) environment)"

definition validateSink :: "positions \<Rightarrow> nat \<Rightarrow> audit_sink \<Rightarrow> verrors" where
  "validateSink pos index sink =
     (let path = indexed ''audit.sinks'' index
      in (if as_type sink = ''jsonl'' then
            add_if (as_path sink = []) pos (path @ ''.path'') ''is required for jsonl sink''
          else if as_type sink = ''stdout'' then []
          else if as_type sink = ''webhook'' then
            validateAbsoluteHTTPURL pos (path @ ''.url'') (as_url sink) True
          else if as_type sink = [] then add pos (path @ ''.type'') ''is required''
          else add pos (path @ ''.type'') ''must be jsonl, stdout, or webhook'')
         @ add_if (as_timeout sink < 0 \<or> as_timeout sink > minute) pos (path @ ''.timeout'')
             ''must be between 0 and 1m''
         @ validateTLS pos (path @ ''.tls'') (as_tls sink) ''production'')"

definition validateAudit :: "positions \<Rightarrow> audit_sink list \<Rightarrow> verrors" where
  "validateAudit pos sinks = collect_ix 0 (validateSink pos) sinks"

section \<open>Downstream credentials\<close>

text \<open>The two checks the code makes after every optionally plain-HTTP OAuth endpoint.\<close>

definition httpEndpointChecks :: "positions \<Rightarrow> string \<Rightarrow> string \<Rightarrow> bool \<Rightarrow> string \<Rightarrow> verrors" where
  "httpEndpointChecks pos path raw allowLocal localMessage =
     (case urlParse raw of
        None \<Rightarrow> []
      | Some parsed \<Rightarrow>
          add_if (u_scheme parsed = ''http'' \<and> \<not> isLoopbackHostname (hostname parsed)) pos path
            ''http is allowed only for a loopback development endpoint''
          @ add_if (u_scheme parsed = ''http'' \<and> \<not> allowLocal) pos path localMessage)"

fun validateScopes :: "positions \<Rightarrow> string \<Rightarrow> nat \<Rightarrow> string list \<Rightarrow> string list \<Rightarrow> verrors" where
  "validateScopes pos path index seen [] = []"
| "validateScopes pos path index seen (scope # scopes) =
     add_if (trimSpace scope = [] \<or> containsAny scope [CHR '' '', CHR 0x09, CHR 0x0D, CHR 0x0A]) pos
       (indexed (path @ ''.scopes'') index) ''must be one non-empty OAuth scope''
     @ add_if (scope \<in> set seen) pos (indexed (path @ ''.scopes'') index) ''duplicates another scope''
     @ validateScopes pos path (Suc index) (scope # seen) scopes"

definition validateOAuthCredential ::
  "positions \<Rightarrow> string \<Rightarrow> raw_oauth \<Rightarrow> string \<Rightarrow> bool \<Rightarrow> bool \<Rightarrow> bool \<Rightarrow> verrors" where
  "validateOAuthCredential pos path config environment allowLocal delegated targetRequired =
     validateAbsoluteHTTPURL pos (path @ ''.token_url'') (ro_tokenURL config) (environment = ''production'')
     @ httpEndpointChecks pos (path @ ''.token_url'') (ro_tokenURL config) allowLocal
         ''loopback token endpoint requires network.allow_local=true''
     @ add_if (ro_clientID config = []) pos (path @ ''.client_id'') ''is required''
     @ add_if (\<not> validSecretReference (ro_clientSecretRef config)) pos (path @ ''.client_secret_ref'')
         ''must use a non-empty env: or file: reference''
     @ add_if (ro_tokenEndpointAuth config \<noteq> [] \<and> ro_tokenEndpointAuth config \<noteq> ''client_secret_basic''
               \<and> ro_tokenEndpointAuth config \<noteq> ''client_secret_post'') pos
         (path @ ''.token_endpoint_auth_method'') ''must be client_secret_basic or client_secret_post''
     @ add_if (targetRequired \<and> ro_audience config = [] \<and> ro_resource config = []) pos
         (path @ ''.audience'') ''audience or resource is required''
     @ validateScopes pos path 0 [] (ro_scopes config)
     @ add_if (delegated \<and> ro_scopes config = []) pos (path @ ''.scopes'')
         ''must contain at least one explicit delegated scope''
     @ validateTLS pos (path @ ''.tls'') (ro_tls config) environment"

definition validateAuthorizationCode ::
  "positions \<Rightarrow> string \<Rightarrow> raw_oauth \<Rightarrow> string \<Rightarrow> bool \<Rightarrow> verrors" where
  "validateAuthorizationCode pos path config environment allowLocal =
     validateOAuthCredential pos (path @ ''.authorization_code'') config environment allowLocal False False
     @ validateAbsoluteHTTPURL pos (path @ ''.authorization_code.authorization_url'')
         (ro_authorizationURL config) (environment = ''production'')
     @ (if ro_authorizationURL config \<noteq> []
        then httpEndpointChecks pos (path @ ''.authorization_code.authorization_url'')
               (ro_authorizationURL config) allowLocal
               ''loopback authorization endpoint requires network.allow_local=true''
        else [])
     @ (if ro_revocationURL config \<noteq> []
        then validateAbsoluteHTTPURL pos (path @ ''.authorization_code.revocation_url'')
               (ro_revocationURL config) (environment = ''production'')
             @ httpEndpointChecks pos (path @ ''.authorization_code.revocation_url'')
                 (ro_revocationURL config) allowLocal
                 ''loopback revocation endpoint requires network.allow_local=true''
        else [])"

definition validateDownstreamAuth ::
  "positions \<Rightarrow> string \<Rightarrow> downstream_auth_config \<Rightarrow> string \<Rightarrow> bool \<Rightarrow> verrors" where
  "validateDownstreamAuth pos path auth environment allowLocal =
     (let mode = (if da_mode auth = [] then DownstreamSignedIdentity else da_mode auth)
      in (if mode = DownstreamSignedIdentity then
            add_if (da_identityAudience auth = []) pos (path @ ''.identity_audience'')
              ''is required for signed-identity mode''
          else if mode = DownstreamBearerPassthrough then
            add_if (da_identityAudience auth \<noteq> []) pos (path @ ''.identity_audience'')
              ''must be empty for bearer-passthrough mode''
          else if mode = DownstreamTokenExchange then
            add_if (da_identityAudience auth \<noteq> []) pos (path @ ''.identity_audience'')
              ''must be empty for token-exchange mode''
            @ validateOAuthCredential pos (path @ ''.token_exchange'') (da_tokenExchange auth)
                environment allowLocal True True
          else if mode = DownstreamClientCredentials then
            add_if (da_identityAudience auth \<noteq> []) pos (path @ ''.identity_audience'')
              ''must be empty for client-credentials mode''
            @ validateOAuthCredential pos (path @ ''.client_credentials'') (da_clientCredentials auth)
                environment allowLocal False True
          else if mode = DownstreamAuthorizationCode then
            add_if (da_identityAudience auth \<noteq> []) pos (path @ ''.identity_audience'')
              ''must be empty for authorization-code mode''
            @ validateAuthorizationCode pos path (da_authorizationCode auth) environment allowLocal
          else add pos (path @ ''.mode'')
                 ''must be signed-identity, bearer-passthrough, token-exchange, client-credentials, or authorization-code'')
         @ add_if (rc_capacity (da_cache auth) < 0 \<or> rc_capacity (da_cache auth) > 1000000) pos
             (path @ ''.cache.capacity'') ''must be between 1 and 1000000 when configured''
         @ add_if (rc_refreshSkew (da_cache auth) < 0 \<or> rc_refreshSkew (da_cache auth) > hour) pos
             (path @ ''.cache.refresh_skew'') ''must be between 0 and 1h''
         @ add_if (rc_negativeTTL (da_cache auth) < 0 \<or> rc_negativeTTL (da_cache auth) > minute) pos
             (path @ ''.cache.negative_ttl'') ''must be between 0 and 1m'')"

text \<open>\<open>filepath.IsAbs\<close> on the Unix hosts the gateway is deployed on.\<close>

definition isAbsPath :: "string \<Rightarrow> bool" where
  "isAbsPath p = hasPrefix p ''/''"

definition validateDownstreamOAuth ::
  "positions \<Rightarrow> downstream_oauth_config \<Rightarrow> string \<Rightarrow> raw_domain list \<Rightarrow> verrors" where
  "validateDownstreamOAuth pos config environment domains =
     (let enabled = list_ex (\<lambda>d. da_mode (rd_downstreamAuth d) = DownstreamAuthorizationCode) domains
      in if \<not> enabled \<and> do_tokenStoreFile config = [] \<and> do_encryptionKeyRef config = []
            \<and> do_stateTTL config = 0 then []
         else add_if ((do_tokenStoreFile config = []) \<noteq> (do_encryptionKeyRef config = [])) pos
                ''downstream_oauth.token_store_file''
                ''token_store_file and encryption_key_ref must be configured together''
              @ add_if (do_tokenStoreFile config \<noteq> [] \<and> \<not> isAbsPath (do_tokenStoreFile config)) pos
                  ''downstream_oauth.token_store_file'' ''must be an absolute path''
              @ add_if (do_encryptionKeyRef config \<noteq> [] \<and> \<not> validSecretReference (do_encryptionKeyRef config))
                  pos ''downstream_oauth.encryption_key_ref'' ''must use a non-empty env: or file: reference''
              @ (if enabled \<and> environment = ''production''
                 then add_if (do_tokenStoreFile config = []) pos ''downstream_oauth.token_store_file''
                        ''is required for authorization-code mode in production''
                      @ add_if (do_encryptionKeyRef config = []) pos ''downstream_oauth.encryption_key_ref''
                          ''is required for authorization-code mode in production''
                 else [])
              @ add_if (do_stateTTL config < 0 \<or> do_stateTTL config > 15 * minute) pos
                  ''downstream_oauth.state_ttl'' ''must be between 0 and 15m'')"

section \<open>Commands\<close>

text \<open>Ranges over the segments of an endpoint, with the placeholders met so far.\<close>

fun checkSegments :: "positions \<Rightarrow> string \<Rightarrow> string list \<Rightarrow> string list \<Rightarrow> verrors \<times> string list" where
  "checkSegments pos path result [] = ([], result)"
| "checkSegments pos path result (segment # rest) =
     (if segment = [] \<or> segment = ''.'' \<or> segment = ''..'' then
        (case checkSegments pos path result rest of (es, r) \<Rightarrow>
           (add pos path ''must not contain empty or dot path segments'' @ es, r))
      else (case placeholderPattern segment of
         Some name \<Rightarrow>
           (case checkSegments pos path (if name \<in> set result then result else result @ [name]) rest of (es, r) \<Rightarrow>
              (add_if (name \<in> set result) pos path
                 (''placeholder '' @ [CHR 0x22] @ name @ [CHR 0x22] @ '' appears more than once'') @ es, r))
       | None \<Rightarrow>
           (case checkSegments pos path result rest of (es, r) \<Rightarrow>
              (add_if (containsAny segment ''{}'') pos path
                 ''placeholders must occupy a complete path segment'' @ es, r))))"

definition validateEndpoint :: "positions \<Rightarrow> string \<Rightarrow> string \<Rightarrow> verrors \<times> string list" where
  "validateEndpoint pos path endpoint =
     (if endpoint = [] \<or> \<not> hasPrefix endpoint ''/'' then
        (add pos path ''must be a non-empty absolute path'', [])
      else (case urlParse endpoint of
         None \<Rightarrow>
           (add pos path ''must be a relative upstream path without scheme, host, query, userinfo, or fragment'', [])
       | Some parsed \<Rightarrow>
           (if isAbs parsed \<or> u_host parsed \<noteq> [] \<or> u_rawQuery parsed \<noteq> [] \<or> u_fragment parsed \<noteq> []
               \<or> u_user parsed \<noteq> None
            then (add pos path
                    ''must be a relative upstream path without scheme, host, query, userinfo, or fragment'', [])
            else (case checkSegments pos path [] (splitOn (CHR ''/'') (trimPrefix (u_path parsed) ''/'')) of
                    (es, result) \<Rightarrow>
                      (add_if (CHR 0x5C \<in> set endpoint) pos path ''must not contain backslashes'' @ es, result)))))"

definition validateFlag :: "positions \<Rightarrow> string \<Rightarrow> raw_flag \<Rightarrow> string \<Rightarrow> verrors" where
  "validateFlag pos path flag httpMethod =
     add_if (rf_type flag \<notin> set [FlagString, FlagInt, FlagBool, FlagStringArray]) pos (path @ ''.type'')
       ''must be string, int, bool, or stringArray''
     @ add_if (rf_in flag \<notin> set [FlagInBody, FlagInQuery, FlagInPath, FlagInHeader]) pos (path @ ''.in'')
         ''must be body, query, path, or header''
     @ add_if (rf_in flag = FlagInPath \<and> \<not> rf_required flag) pos (path @ ''.required'')
         ''must be true for path flags''
     @ add_if (rf_in flag = FlagInBody \<and> httpMethod \<noteq> ''POST'' \<and> httpMethod \<noteq> ''PUT'' \<and> httpMethod \<noteq> ''PATCH'')
         pos (path @ ''.in'') ''body flags require POST, PUT, or PATCH''
     @ (if rf_in flag = FlagInHeader then
          (if rf_headerName flag = [] then
             add pos (path @ ''.header_name'') ''is required for header flags''
           else if \<not> headerNamePattern (rf_headerName flag) then
             add pos (path @ ''.header_name'') ''is not a valid HTTP header name''
           else add_if (forbiddenHeader (rf_headerName flag)) pos (path @ ''.header_name'')
                  ''is protected and cannot be set by command arguments'')
          @ add_if (rf_type flag = FlagStringArray) pos (path @ ''.type'')
              ''stringArray is not supported for header flags''
        else add_if (rf_headerName flag \<noteq> []) pos (path @ ''.header_name'') ''is only valid for header flags'')
     @ add_if (rf_queryName flag \<noteq> [] \<and> rf_in flag \<noteq> FlagInQuery) pos (path @ ''.query_name'')
         ''is only valid for query flags''
     @ add_if (rf_default flag \<noteq> VNil \<and> \<not> defaultMatches (rf_type flag) (rf_default flag)) pos
         (path @ ''.default'') ''does not match the declared flag type''"

fun validateFlags ::
  "positions \<Rightarrow> string \<Rightarrow> string \<Rightarrow> nat \<Rightarrow> (string, raw_flag) gomap \<Rightarrow> raw_flag list
   \<Rightarrow> verrors \<times> (string, raw_flag) gomap" where
  "validateFlags pos path httpMethod index flags [] = ([], flags)"
| "validateFlags pos path httpMethod index flags (flag # rest) =
     (let flagPath = indexed (path @ ''.flags'') index
      in (case validateFlags pos path httpMethod (Suc index) (put (rf_name flag) flag flags) rest of (es, fs) \<Rightarrow>
            (add_if (\<not> namePattern (rf_name flag)) pos (flagPath @ ''.name'') ''must match ^[a-z][a-z0-9-]{0,31}$''
             @ add_if (rf_name flag = ''confirm'') pos (flagPath @ ''.name'') ''confirm is reserved by the gateway''
             @ add_if (rf_name flag \<in> set (keys flags)) pos (flagPath @ ''.name'') ''duplicates another flag''
             @ validateFlag pos flagPath flag httpMethod @ es, fs)))"

definition checkPlaceholder :: "positions \<Rightarrow> string \<Rightarrow> (string, raw_flag) gomap \<Rightarrow> string \<Rightarrow> verrors" where
  "checkPlaceholder pos path flags placeholder =
     (case map_of flags placeholder of
        None \<Rightarrow> add pos (path @ ''.endpoint'')
                  (''placeholder '' @ [CHR 0x22] @ placeholder @ [CHR 0x22] @ '' has no matching flag'')
      | Some flag \<Rightarrow>
          add_if (rf_in flag \<noteq> FlagInPath \<or> \<not> rf_required flag) pos (path @ ''.endpoint'')
            (''placeholder '' @ [CHR 0x22] @ placeholder @ [CHR 0x22] @ '' must map to a required path flag''))"

definition checkPathFlag :: "positions \<Rightarrow> string \<Rightarrow> string list \<Rightarrow> string \<times> raw_flag \<Rightarrow> verrors" where
  "checkPathFlag pos path placeholders nf =
     add_if (rf_in (snd nf) = FlagInPath \<and> fst nf \<notin> set placeholders) pos (path @ ''.endpoint'')
       (''path flag '' @ [CHR 0x22] @ fst nf @ [CHR 0x22] @ '' is not used by endpoint'')"

definition validateCommand :: "positions \<Rightarrow> string \<Rightarrow> raw_command \<Rightarrow> verrors" where
  "validateCommand pos path command =
     (let httpMethod = toUpper (rcm_method command);
          (endpointErrors, placeholders) = validateEndpoint pos (path @ ''.endpoint'') (rcm_endpoint command);
          (flagErrors, flags) = validateFlags pos path httpMethod 0 [] (rcm_flags command)
      in add_if (httpMethod \<notin> set [''GET'', ''POST'', ''PUT'', ''PATCH'', ''DELETE'']) pos (path @ ''.method'')
           ''must be GET, POST, PUT, PATCH, or DELETE''
         @ add_if (\<not> riskValid (rcm_risk command)) pos (path @ ''.risk'') ''must be read, write, or destroy''
         @ add_if (rcm_risk command = RiskDestroy \<and> \<not> rcm_confirm command) pos (path @ ''.confirm'')
             ''must be true for destroy commands''
         @ endpointErrors @ flagErrors
         @ concat (map (checkPlaceholder pos path flags) placeholders)
         @ concat (map (checkPathFlag pos path placeholders) flags))"

definition checkPathPart :: "positions \<Rightarrow> string \<Rightarrow> nat \<Rightarrow> string \<Rightarrow> verrors" where
  "checkPathPart pos commandPath pathIndex part =
     add_if (\<not> namePattern part) pos (indexed (commandPath @ ''.path'') pathIndex)
       ''must match ^[a-z][a-z0-9-]{0,31}$''"

section \<open>The whole manifest\<close>

text \<open>The sets the domain loop fills: command keys, and tool names with the command that owns them.\<close>

type_synonym seen_commands = "string list \<times> (string, string) gomap"

fun validateCommands ::
  "positions \<Rightarrow> string \<Rightarrow> string \<Rightarrow> nat \<Rightarrow> seen_commands \<Rightarrow> raw_command list \<Rightarrow> verrors \<times> seen_commands" where
  "validateCommands pos domainPath domainName index seen [] = ([], seen)"
| "validateCommands pos domainPath domainName index (commandKeys, toolNames) (command # rest) =
     (let commandPath = indexed (domainPath @ ''.commands'') index;
          partsValid = (rcm_path command \<noteq> [] \<and> list_all namePattern (rcm_path command));
          key = commandKey domainName (rcm_path command);
          toolName = generatedToolName domainName (rcm_path command);
          seen' = (if partsValid then (key # commandKeys, put toolName key toolNames)
                   else (commandKeys, toolNames))
      in (case validateCommands pos domainPath domainName (Suc index) seen' rest of (es, seen'') \<Rightarrow>
            (validateCommand pos commandPath command
             @ collect_ix 0 (checkPathPart pos commandPath) (rcm_path command)
             @ add_if (rcm_path command = []) pos (commandPath @ ''.path'') ''must not be empty''
             @ add_if (partsValid \<and> key \<in> set commandKeys) pos (commandPath @ ''.path'')
                 (''duplicates command '' @ key)
             @ (if partsValid then
                  (case map_of toolNames toolName of
                     None \<Rightarrow> []
                   | Some existing \<Rightarrow> add pos (commandPath @ ''.path'')
                       (''generated MCP tool '' @ [CHR 0x22] @ toolName @ [CHR 0x22] @ '' collides with '' @ existing))
                else [])
             @ es, seen'')))"

fun validateDomains ::
  "positions \<Rightarrow> string \<Rightarrow> nat \<Rightarrow> string list \<Rightarrow> seen_commands \<Rightarrow> raw_domain list \<Rightarrow> verrors" where
  "validateDomains pos environment index domainNames seen [] = []"
| "validateDomains pos environment index domainNames seen (domain # rest) =
     (let domainPath = indexed ''domains'' index
      in (case validateCommands pos domainPath (rd_name domain) 0 seen (rd_commands domain) of (es, seen') \<Rightarrow>
            add_if (\<not> namePattern (rd_name domain)) pos (domainPath @ ''.name'') ''must match ^[a-z][a-z0-9-]{0,31}$''
            @ add_if (rd_name domain \<in> set domainNames) pos (domainPath @ ''.name'') ''duplicates another domain''
            @ validateUpstream pos (domainPath @ ''.upstream'') (rd_upstream domain) (rd_allowLocal domain)
            @ validateTLS pos (domainPath @ ''.tls'') (rd_tls domain) environment
            @ add_if (domainTimeout (rd_timeout domain) \<le> 0) pos (domainPath @ ''.timeout'')
                ''must be greater than zero''
            @ validateDownstreamAuth pos (domainPath @ ''.downstream_auth'') (rd_downstreamAuth domain)
                environment (rd_allowLocal domain)
            @ validateDomainLimits pos (domainPath @ ''.limits'') (rd_limits domain)
            @ add_if (rd_commands domain = []) pos (domainPath @ ''.commands'') ''must contain at least one command''
            @ es
            @ validateDomains pos environment (Suc index) (rd_name domain # domainNames) seen' rest))"

fun validatePreviousKeys :: "positions \<Rightarrow> string \<Rightarrow> nat \<Rightarrow> string list \<Rightarrow> string list \<Rightarrow> verrors" where
  "validatePreviousKeys pos current index previousKeys [] = []"
| "validatePreviousKeys pos current index previousKeys (keyFile # rest) =
     (let path = indexed ''server.identity_previous_key_files'' index
      in add_if (trimSpace keyFile = []) pos path ''must not be empty''
         @ add_if (keyFile = current) pos path ''must differ from identity_key_file''
         @ add_if (keyFile \<in> set previousKeys) pos path ''duplicates another previous key file''
         @ validatePreviousKeys pos current (Suc index) (keyFile # previousKeys) rest)"

definition effectiveEnvironment :: "manifest \<Rightarrow> string" where
  "effectiveEnvironment raw =
     (if sc_environment (m_server raw) = [] then ''development'' else sc_environment (m_server raw))"

definition validate :: "manifest \<Rightarrow> positions \<Rightarrow> verrors" where
  "validate raw pos =
     (let environment = effectiveEnvironment raw;
          server = m_server raw; limits = m_limits raw
      in add_if (m_version raw \<noteq> 1) pos ''version'' ''must be exactly 1''
         @ add_if (sc_listen server = []) pos ''server.listen'' ''is required''
         @ add_if (environment \<noteq> ''development'' \<and> environment \<noteq> ''production'') pos ''server.environment''
             ''must be development or production''
         @ add_if (environment = ''production'' \<and> sc_identityKeyFile server = []) pos
             ''server.identity_key_file'' ''is required in production''
         @ validatePreviousKeys pos (sc_identityKeyFile server) 0 [] (sc_identityPreviousKeyFiles server)
         @ validateAbsoluteHTTPURL pos ''server.public_url'' (sc_publicURL server) False
         @ validateAuth pos (m_auth raw) environment
         @ add_if (\<not> namePattern (m_cliName raw)) pos ''cli.name'' ''must match ^[a-z][a-z0-9-]{0,31}$''
         @ add_if (\<not> riskValid (m_aiMaxRisk raw)) pos ''policy.ai_max_risk'' ''must be read, write, or destroy''
         @ add_if (lc_globalConcurrency limits < 0 \<or> lc_globalConcurrency limits > 100000) pos
             ''limits.global_concurrency'' ''must be between 1 and 100000 when configured''
         @ add_if (lc_queueTimeout limits < 0 \<or> lc_queueTimeout limits > 30 * second) pos
             ''limits.queue_timeout'' ''must be between 0 and 30s''
         @ validateAudit pos (m_auditSinks raw)
         @ validateDownstreamOAuth pos (m_downstreamOAuth raw) environment (m_domains raw)
         @ add_if (m_domains raw = []) pos ''domains'' ''must contain at least one domain''
         @ validateDomains pos environment 0 [] ([], []) (m_domains raw))"

end
