(* ===== verification/Manifest_Accepted.thy ===== *)
theory Manifest_Accepted
  imports Manifest_Validate
begin

text \<open>
  What an accepted manifest looks like: for every check of the validator, the condition under
  which it reports nothing, free of paths and positions, and the facts about whole manifests that
  the compiler, the invocation pipeline and the credential brokers rest on.
\<close>

section \<open>Conditions under which each check is silent\<close>

definition tls_ok :: "string \<Rightarrow> raw_tls \<Rightarrow> bool" where
  "tls_ok environment c \<longleftrightarrow>
     \<not> (environment = ''production'' \<and> rt_insecureSkipVerify c)
     \<and> (rt_clientCertFile c = []) = (rt_clientKeyFile c = [])"

lemma validateTLS_Nil [simp]: "validateTLS pos path c environment = [] \<longleftrightarrow> tls_ok environment c"
  by (auto simp: validateTLS_def tls_ok_def)

definition http_url_ok :: "string \<Rightarrow> bool \<Rightarrow> bool" where
  "http_url_ok raw requireHTTPS =
     (case urlParse raw of None \<Rightarrow> False
      | Some u \<Rightarrow> hostname u \<noteq> [] \<and> u_user u = None \<and> u_rawQuery u = [] \<and> u_fragment u = []
          \<and> (u_scheme u = ''https'' \<or> u_scheme u = ''http'' \<and> \<not> requireHTTPS))"

lemma validateAbsoluteHTTPURL_Nil [simp]:
  "validateAbsoluteHTTPURL pos path raw requireHTTPS = [] \<longleftrightarrow> http_url_ok raw requireHTTPS"
  by (cases "urlParse raw")
    (auto simp: validateAbsoluteHTTPURL_def http_url_ok_def simp del: not_None_eq)

definition ip_ok :: "bool \<Rightarrow> ip \<Rightarrow> bool" where
  "ip_ok allowLocal a \<longleftrightarrow>
     \<not> isLinkLocalUnicast a \<and> \<not> isLinkLocalMulticast a \<and> \<not> isMulticast a \<and> \<not> isUnspecified a
     \<and> (isLoopback a \<longrightarrow> allowLocal)"

definition upstream_ok :: "string \<Rightarrow> bool \<Rightarrow> bool" where
  "upstream_ok raw allowLocal =
     (case urlParse raw of None \<Rightarrow> False
      | Some u \<Rightarrow> http_url_ok raw False \<and> (equalFold (hostname u) ''localhost'' \<longrightarrow> allowLocal)
          \<and> (\<forall>a. parseIP (hostname u) = Some a \<longrightarrow> ip_ok allowLocal a))"

lemma validateUpstream_Nil [simp]:
  "validateUpstream pos path raw allowLocal = [] \<longleftrightarrow> upstream_ok raw allowLocal"
  by (auto simp: validateUpstream_def upstream_ok_def ip_ok_def http_url_ok_def Let_def
      split: option.splits if_splits)

definition limits_ok :: "domain_limits \<Rightarrow> bool" where
  "limits_ok l \<longleftrightarrow>
     0 \<le> dl_concurrency l \<and> dl_concurrency l \<le> 10000
     \<and> \<not> flt_lt (dl_requestsPerSecond l) (FNum 0) \<and> \<not> flt_lt (FNum 1000000) (dl_requestsPerSecond l)
     \<and> 0 \<le> dl_burst l \<and> dl_burst l \<le> 1000000
     \<and> (flt_eq (dl_requestsPerSecond l) (FNum 0) \<longrightarrow> dl_burst l = 0)"

lemma validateDomainLimits_Nil [simp]: "validateDomainLimits pos path l = [] \<longleftrightarrow> limits_ok l"
  by (auto simp: validateDomainLimits_def limits_ok_def)

definition http_endpoint_ok :: "string \<Rightarrow> bool \<Rightarrow> bool" where
  "http_endpoint_ok raw allowLocal =
     (case urlParse raw of None \<Rightarrow> True
      | Some u \<Rightarrow> u_scheme u = ''http'' \<longrightarrow> isLoopbackHostname (hostname u) \<and> allowLocal)"

lemma httpEndpointChecks_Nil [simp]:
  "httpEndpointChecks pos path raw allowLocal msg = [] \<longleftrightarrow> http_endpoint_ok raw allowLocal"
  by (auto simp: httpEndpointChecks_def http_endpoint_ok_def split: option.splits)

lemma validateScopes_Nil:
  "validateScopes pos path i seen scopes = [] \<longleftrightarrow>
     distinct scopes \<and> set scopes \<inter> set seen = {}
     \<and> (\<forall>s \<in> set scopes. trimSpace s \<noteq> [] \<and> \<not> containsAny s [CHR '' '', CHR 0x09, CHR 0x0D, CHR 0x0A])"
  by (induction scopes arbitrary: i seen) auto

definition oauth_ok :: "string \<Rightarrow> bool \<Rightarrow> bool \<Rightarrow> bool \<Rightarrow> raw_oauth \<Rightarrow> bool" where
  "oauth_ok environment allowLocal delegated targetRequired c \<longleftrightarrow>
     http_url_ok (ro_tokenURL c) (environment = ''production'')
     \<and> http_endpoint_ok (ro_tokenURL c) allowLocal
     \<and> ro_clientID c \<noteq> [] \<and> validSecretReference (ro_clientSecretRef c)
     \<and> ro_tokenEndpointAuth c \<in> {[], ''client_secret_basic'', ''client_secret_post''}
     \<and> (targetRequired \<longrightarrow> ro_audience c \<noteq> [] \<or> ro_resource c \<noteq> [])
     \<and> distinct (ro_scopes c) \<and> (\<forall>s \<in> set (ro_scopes c). trimSpace s \<noteq> [])
     \<and> (delegated \<longrightarrow> ro_scopes c \<noteq> []) \<and> tls_ok environment (ro_tls c)"

lemma validateOAuthCredential_ok:
  "validateOAuthCredential pos path c environment allowLocal delegated targetRequired = []
   \<Longrightarrow> oauth_ok environment allowLocal delegated targetRequired c"
  by (auto simp: validateOAuthCredential_def oauth_ok_def validateScopes_Nil)

section \<open>Endpoints and flags\<close>

lemma checkSegments_ok:
  assumes "checkSegments pos path result segs = ([], ph)" "distinct result"
  shows "distinct ph \<and> set ph = set result \<union> {n. \<exists>s \<in> set segs. placeholderPattern s = Some n}
    \<and> (\<forall>s \<in> set segs. s \<noteq> [] \<and> s \<noteq> ''.'' \<and> s \<noteq> ''..''
         \<and> (placeholderPattern s = None \<longrightarrow> \<not> containsAny s ''{}''))"
  using assms
proof (induction segs arbitrary: result)
  case Nil
  then show ?case by simp
next
  case (Cons seg segs)
  from Cons.prems(1) have dots: "seg \<noteq> []" "seg \<noteq> ''.''" "seg \<noteq> ''..''"
    by (auto split: if_splits prod.splits)
  show ?case
  proof (cases "placeholderPattern seg")
    case None
    with Cons.prems dots have rest: "checkSegments pos path result segs = ([], ph)"
      and "\<not> containsAny seg ''{}''"
      by (auto split: prod.splits)
    with Cons.IH [OF rest Cons.prems(2)] None dots show ?thesis by auto
  next
    case (Some n)
    with Cons.prems dots have new: "n \<notin> set result"
      and rest: "checkSegments pos path (result @ [n]) segs = ([], ph)"
      by (auto split: prod.splits if_splits)
    from Cons.IH [OF rest] new Cons.prems(2) Some dots show ?thesis by auto
  qed
qed

text \<open>The path the compiler later splits into segments.\<close>

definition endpoint_path_segments :: "string \<Rightarrow> string list" where
  "endpoint_path_segments endpoint =
     (case urlParse endpoint of None \<Rightarrow> []
      | Some u \<Rightarrow> splitOn (CHR ''/'') (trimPrefix (u_path u) ''/''))"

lemma validateEndpoint_ok:
  assumes "validateEndpoint pos path endpoint = ([], ph)"
  shows "\<exists>u. urlParse endpoint = Some u" "distinct ph"
    and "set ph = {n. \<exists>s \<in> set (endpoint_path_segments endpoint). placeholderPattern s = Some n}"
    and "\<forall>s \<in> set (endpoint_path_segments endpoint). s \<noteq> [] \<and> s \<noteq> ''.'' \<and> s \<noteq> ''..''
         \<and> (placeholderPattern s = None \<longrightarrow> \<not> containsAny s ''{}'')"
proof -
  from assms obtain u where u: "urlParse endpoint = Some u"
    and c: "checkSegments pos path [] (splitOn (CHR ''/'') (trimPrefix (u_path u) ''/'')) = ([], ph)"
    by (auto simp: validateEndpoint_def split: if_splits option.splits prod.splits)
  from checkSegments_ok [OF c] u show
    "\<exists>u. urlParse endpoint = Some u" "distinct ph"
    "set ph = {n. \<exists>s \<in> set (endpoint_path_segments endpoint). placeholderPattern s = Some n}"
    "\<forall>s \<in> set (endpoint_path_segments endpoint). s \<noteq> [] \<and> s \<noteq> ''.'' \<and> s \<noteq> ''..''
       \<and> (placeholderPattern s = None \<longrightarrow> \<not> containsAny s ''{}'')"
    by (simp_all add: endpoint_path_segments_def)
qed

definition flag_ok :: "string \<Rightarrow> raw_flag \<Rightarrow> bool" where
  "flag_ok httpMethod f \<longleftrightarrow>
     rf_type f \<in> {FlagString, FlagInt, FlagBool, FlagStringArray}
     \<and> rf_in f \<in> {FlagInBody, FlagInQuery, FlagInPath, FlagInHeader}
     \<and> (rf_in f = FlagInPath \<longrightarrow> rf_required f)
     \<and> (rf_in f = FlagInBody \<longrightarrow> httpMethod \<in> {''POST'', ''PUT'', ''PATCH''})
     \<and> (rf_in f = FlagInHeader \<longrightarrow> rf_headerName f \<noteq> [] \<and> headerNamePattern (rf_headerName f)
           \<and> \<not> forbiddenHeader (rf_headerName f) \<and> rf_type f \<noteq> FlagStringArray)
     \<and> (rf_in f \<noteq> FlagInHeader \<longrightarrow> rf_headerName f = [])
     \<and> (rf_in f \<noteq> FlagInQuery \<longrightarrow> rf_queryName f = [])
     \<and> (rf_default f = VNil \<or> defaultMatches (rf_type f) (rf_default f))"

lemma validateFlag_Nil: "validateFlag pos path f httpMethod = [] \<longleftrightarrow> flag_ok httpMethod f"
  unfolding validateFlag_def flag_ok_def by (simp split: if_split) blast

lemma put_new: "k \<notin> set (keys m) \<Longrightarrow> put k v m = m @ [(k, v)]"
  by (induction m) auto

lemma validateFlags_step:
  assumes "validateFlags pos path httpMethod i flags (f # fs) = ([], flags')"
  shows "namePattern (rf_name f)" "rf_name f \<noteq> ''confirm''" "rf_name f \<notin> set (keys flags)"
    "flag_ok httpMethod f"
    "validateFlags pos path httpMethod (Suc i) (flags @ [(rf_name f, f)]) fs = ([], flags')"
proof -
  from assms show new: "rf_name f \<notin> set (keys flags)"
    by (auto simp: Let_def simp del: set_map split: prod.splits)
  from assms show "namePattern (rf_name f)" "rf_name f \<noteq> ''confirm''" "flag_ok httpMethod f"
    by (auto simp: Let_def validateFlag_Nil split: prod.splits)
  from assms show "validateFlags pos path httpMethod (Suc i) (flags @ [(rf_name f, f)]) fs = ([], flags')"
    by (auto simp: Let_def put_new [OF new] split: prod.splits)
qed

lemma validateFlags_ok:
  assumes "validateFlags pos path httpMethod i flags fs = ([], flags')"
  shows "flags' = flags @ map (\<lambda>f. (rf_name f, f)) fs
    \<and> distinct (map rf_name fs) \<and> set (map rf_name fs) \<inter> set (keys flags) = {}
    \<and> (\<forall>f \<in> set fs. namePattern (rf_name f) \<and> rf_name f \<noteq> ''confirm'' \<and> flag_ok httpMethod f)"
  using assms
proof (induction fs arbitrary: i flags)
  case Nil
  then show ?case by simp
next
  case (Cons f fs)
  note st = validateFlags_step [OF Cons.prems]
  from Cons.IH [OF st(5)] st(1-4) show ?case by auto
qed

section \<open>Commands\<close>

definition placeholders_of :: "raw_command \<Rightarrow> string set" where
  "placeholders_of c = {n. \<exists>s \<in> set (endpoint_path_segments (rcm_endpoint c)). placeholderPattern s = Some n}"

definition path_flags_of :: "raw_command \<Rightarrow> string set" where
  "path_flags_of c = {rf_name f | f. f \<in> set (rcm_flags c) \<and> rf_in f = FlagInPath}"

definition command_ok :: "raw_command \<Rightarrow> bool" where
  "command_ok c \<longleftrightarrow>
     toUpper (rcm_method c) \<in> {''GET'', ''POST'', ''PUT'', ''PATCH'', ''DELETE''}
     \<and> riskValid (rcm_risk c)
     \<and> (rcm_risk c = RiskDestroy \<longrightarrow> rcm_confirm c)
     \<and> (\<exists>u. urlParse (rcm_endpoint c) = Some u)
     \<and> (\<forall>s \<in> set (endpoint_path_segments (rcm_endpoint c)). s \<noteq> [] \<and> s \<noteq> ''.'' \<and> s \<noteq> ''..''
          \<and> (placeholderPattern s = None \<longrightarrow> \<not> containsAny s ''{}''))
     \<and> distinct (map rf_name (rcm_flags c))
     \<and> (\<forall>f \<in> set (rcm_flags c). namePattern (rf_name f) \<and> rf_name f \<noteq> ''confirm''
          \<and> flag_ok (toUpper (rcm_method c)) f)
     \<and> placeholders_of c = path_flags_of c"

lemma validateCommand_ok:
  assumes "validateCommand pos path c = []"
  shows "command_ok c"
proof -
  let ?verb = "toUpper (rcm_method c)"
  obtain ee ph where e: "validateEndpoint pos (path @ ''.endpoint'') (rcm_endpoint c) = (ee, ph)"
    by (cases "validateEndpoint pos (path @ ''.endpoint'') (rcm_endpoint c)")
  obtain fe flags where f: "validateFlags pos path ?verb 0 [] (rcm_flags c) = (fe, flags)"
    by (cases "validateFlags pos path ?verb 0 [] (rcm_flags c)")
  note unf = assms [unfolded validateCommand_def Let_def e f, simplified]
  from unf e f have e': "validateEndpoint pos (path @ ''.endpoint'') (rcm_endpoint c) = ([], ph)"
    and f': "validateFlags pos path ?verb 0 [] (rcm_flags c) = ([], flags)" by auto
  note ve = validateEndpoint_ok [OF e'] and vf = validateFlags_ok [OF f', simplified]
  have fl: "flags = map (\<lambda>f. (rf_name f, f)) (rcm_flags c)" using vf by simp
  have ph: "set ph = placeholders_of c" using ve(3) by (simp add: placeholders_of_def)
  have lookup: "f \<in> set (rcm_flags c) \<and> rf_name f = n" if "map_of flags n = Some f" for n f
    using map_of_SomeD [OF that] fl by auto
  have "placeholders_of c \<subseteq> path_flags_of c"
  proof
    fix n assume "n \<in> placeholders_of c"
    then have "checkPlaceholder pos path flags n = []" using unf ph by auto
    then obtain f where "map_of flags n = Some f" "rf_in f = FlagInPath"
      by (auto simp: checkPlaceholder_def split: option.splits)
    with lookup show "n \<in> path_flags_of c" by (auto simp: path_flags_of_def)
  qed
  moreover have "path_flags_of c \<subseteq> placeholders_of c"
  proof
    fix n assume "n \<in> path_flags_of c"
    then obtain f where "(n, f) \<in> set flags" "rf_in f = FlagInPath"
      by (auto simp: path_flags_of_def fl)
    then show "n \<in> placeholders_of c" using unf ph by (fastforce simp: checkPathFlag_def)
  qed
  ultimately show ?thesis using unf ve vf by (auto simp: command_ok_def)
qed

section \<open>Domains\<close>

abbreviation command_keys_of :: "raw_domain \<Rightarrow> string list" where
  "command_keys_of d \<equiv> map (\<lambda>c. commandKey (rd_name d) (rcm_path c)) (rd_commands d)"

abbreviation tool_names_of :: "raw_domain \<Rightarrow> string list" where
  "tool_names_of d \<equiv> map (\<lambda>c. generatedToolName (rd_name d) (rcm_path c)) (rd_commands d)"

definition path_ok :: "raw_command \<Rightarrow> bool" where
  "path_ok c \<longleftrightarrow> rcm_path c \<noteq> [] \<and> (\<forall>p \<in> set (rcm_path c). namePattern p)"

lemma checkPathPart_Nil [simp]: "collect_ix i (checkPathPart pos cp) ps = [] \<longleftrightarrow> (\<forall>p \<in> set ps. namePattern p)"
  by (induction ps arbitrary: i) (auto simp: checkPathPart_def)

lemma validateCommands_step:
  assumes "validateCommands pos dp dn i (ck, tn) (c # cs) = ([], seen')"
  shows "command_ok c" "path_ok c" "commandKey dn (rcm_path c) \<notin> set ck"
    "generatedToolName dn (rcm_path c) \<notin> set (keys tn)"
    "validateCommands pos dp dn (Suc i)
       (commandKey dn (rcm_path c) # ck, put (generatedToolName dn (rcm_path c)) (commandKey dn (rcm_path c)) tn)
       cs = ([], seen')"
proof -
  from assms have p: "path_ok c"
    by (auto simp: path_ok_def Let_def split: prod.splits)
  then have pv: "rcm_path c \<noteq> [] \<and> list_all namePattern (rcm_path c)"
    by (auto simp: path_ok_def list_all_iff)
  show "path_ok c" by (rule p)
  show "command_ok c" using assms pv by (auto simp: Let_def intro: validateCommand_ok split: prod.splits)
  show "commandKey dn (rcm_path c) \<notin> set ck" using assms pv by (auto simp: Let_def split: prod.splits)
  show "generatedToolName dn (rcm_path c) \<notin> set (keys tn)"
  proof -
    have "map_of tn (generatedToolName dn (rcm_path c)) = None"
      using assms pv by (auto simp: Let_def split: prod.splits option.splits)
    then show ?thesis by (simp add: map_of_eq_None_iff)
  qed
  show "validateCommands pos dp dn (Suc i)
       (commandKey dn (rcm_path c) # ck, put (generatedToolName dn (rcm_path c)) (commandKey dn (rcm_path c)) tn)
       cs = ([], seen')"
    using assms pv by (auto simp: Let_def split: prod.splits)
qed

lemma validateCommands_ok:
  assumes "validateCommands pos dp dn i (ck, tn) cs = ([], (ck', tn'))"
  shows "(\<forall>c \<in> set cs. command_ok c \<and> path_ok c)
    \<and> distinct (map (\<lambda>c. commandKey dn (rcm_path c)) cs)
    \<and> set (map (\<lambda>c. commandKey dn (rcm_path c)) cs) \<inter> set ck = {}
    \<and> set ck' = set (map (\<lambda>c. commandKey dn (rcm_path c)) cs) \<union> set ck
    \<and> distinct (map (\<lambda>c. generatedToolName dn (rcm_path c)) cs)
    \<and> set (map (\<lambda>c. generatedToolName dn (rcm_path c)) cs) \<inter> set (keys tn) = {}
    \<and> set (keys tn') = set (map (\<lambda>c. generatedToolName dn (rcm_path c)) cs) \<union> set (keys tn)"
  using assms
proof (induction cs arbitrary: i ck tn)
  case Nil
  then show ?case by simp
next
  case (Cons c cs)
  note st = validateCommands_step [OF Cons.prems]
  from Cons.IH [OF st(5)] st(1-4) show ?case by auto
qed

definition domain_ok :: "string \<Rightarrow> raw_domain \<Rightarrow> bool" where
  "domain_ok environment d \<longleftrightarrow>
     namePattern (rd_name d) \<and> upstream_ok (rd_upstream d) (rd_allowLocal d)
     \<and> tls_ok environment (rd_tls d) \<and> 0 < domainTimeout (rd_timeout d)
     \<and> (\<exists>pos path. validateDownstreamAuth pos path (rd_downstreamAuth d) environment (rd_allowLocal d) = [])
     \<and> limits_ok (rd_limits d) \<and> rd_commands d \<noteq> []
     \<and> (\<forall>c \<in> set (rd_commands d). command_ok c \<and> path_ok c)"

lemma validateDomains_ok:
  assumes "validateDomains pos environment i names (ck, tn) ds = []"
  shows "(\<forall>d \<in> set ds. domain_ok environment d)
    \<and> distinct (map rd_name ds) \<and> set (map rd_name ds) \<inter> set names = {}
    \<and> distinct (concat (map command_keys_of ds)) \<and> set (concat (map command_keys_of ds)) \<inter> set ck = {}
    \<and> distinct (concat (map tool_names_of ds)) \<and> set (concat (map tool_names_of ds)) \<inter> set (keys tn) = {}"
  using assms
proof (induction ds arbitrary: i names ck tn)
  case Nil
  then show ?case by simp
next
  case (Cons d ds)
  let ?dp = "indexed ''domains'' i"
  obtain es ck' tn' where vc: "validateCommands pos ?dp (rd_name d) 0 (ck, tn) (rd_commands d) = (es, (ck', tn'))"
    by (metis prod.exhaust)
  note unf = Cons.prems [simplified, unfolded Let_def vc, simplified]
  have vc': "validateCommands pos ?dp (rd_name d) 0 (ck, tn) (rd_commands d) = ([], (ck', tn'))"
    using unf vc by simp
  note cmds = validateCommands_ok [OF vc']
  have rest: "validateDomains pos environment (Suc i) (rd_name d # names) (ck', tn') ds = []"
    using unf by simp
  note ih = Cons.IH [OF rest]
  have d: "domain_ok environment d"
    unfolding domain_ok_def using unf cmds by auto
  have nm: "rd_name d \<notin> set names" using unf by simp
  show ?case
  proof (intro conjI)
    show "\<forall>x \<in> set (d # ds). domain_ok environment x" using d ih by simp
    show "distinct (map rd_name (d # ds))" using ih by auto
    show "set (map rd_name (d # ds)) \<inter> set names = {}" using ih nm by auto
    have "set (command_keys_of d) \<inter> set (concat (map command_keys_of ds)) = {}"
      using cmds ih by blast
    then show "distinct (concat (map command_keys_of (d # ds)))"
      using cmds ih by (simp only: concat.simps list.map distinct_append)
    show "set (concat (map command_keys_of (d # ds))) \<inter> set ck = {}"
      using cmds ih by (simp only: concat.simps list.map set_append) blast
    have "set (tool_names_of d) \<inter> set (concat (map tool_names_of ds)) = {}"
      using cmds ih by blast
    then show "distinct (concat (map tool_names_of (d # ds)))"
      using cmds ih by (simp only: concat.simps list.map distinct_append)
    show "set (concat (map tool_names_of (d # ds))) \<inter> set (keys tn) = {}"
      using cmds ih by (simp only: concat.simps list.map set_append) blast
  qed
qed

section \<open>The whole manifest\<close>

definition manifest_ok :: "manifest \<Rightarrow> bool" where
  "manifest_ok raw \<longleftrightarrow>
     m_version raw = 1 \<and> sc_listen (m_server raw) \<noteq> []
     \<and> effectiveEnvironment raw \<in> {''development'', ''production''}
     \<and> http_url_ok (sc_publicURL (m_server raw)) False
     \<and> namePattern (m_cliName raw) \<and> riskValid (m_aiMaxRisk raw)
     \<and> 0 \<le> lc_globalConcurrency (m_limits raw) \<and> lc_globalConcurrency (m_limits raw) \<le> 100000
     \<and> 0 \<le> lc_queueTimeout (m_limits raw) \<and> lc_queueTimeout (m_limits raw) \<le> 30 * second
     \<and> m_domains raw \<noteq> []
     \<and> (\<forall>d \<in> set (m_domains raw). domain_ok (effectiveEnvironment raw) d)
     \<and> distinct (map rd_name (m_domains raw))
     \<and> distinct (concat (map command_keys_of (m_domains raw)))
     \<and> distinct (concat (map tool_names_of (m_domains raw)))"

lemma validate_manifest_ok:
  assumes "validate raw pos = []"
  shows "manifest_ok raw"
proof -
  note v = assms [unfolded validate_def Let_def, simplified]
  have ds: "validateDomains pos (effectiveEnvironment raw) 0 [] ([], []) (m_domains raw) = []"
    using v by simp
  from validateDomains_ok [OF ds] v show ?thesis
    unfolding manifest_ok_def by auto
qed

lemmas manifest_okD = validate_manifest_ok [unfolded manifest_ok_def]

lemma accepted_domain:
  "validate raw pos = [] \<Longrightarrow> d \<in> set (m_domains raw) \<Longrightarrow> domain_ok (effectiveEnvironment raw) d"
  using manifest_okD by blast

lemma accepted_command:
  "validate raw pos = [] \<Longrightarrow> d \<in> set (m_domains raw) \<Longrightarrow> c \<in> set (rd_commands d)
   \<Longrightarrow> command_ok c \<and> path_ok c"
  using accepted_domain by (auto simp: domain_ok_def)

end
