(* ===== verification/Manifest_Compile.thy ===== *)
theory Manifest_Compile
  imports Manifest_Accepted
begin

text \<open>
  The compiler of \<open>internal/manifest/compile.go\<close>: from an accepted manifest to the
  immutable snapshot every other component reads. The SHA-256 digest and the clock are arguments.
  The facts at the end say what a snapshot of an accepted manifest guarantees to its readers.
\<close>

section \<open>The snapshot\<close>

record compiled_audit_sink =
  cs_type :: string
  cs_path :: string
  cs_url :: "url option"
  cs_timeout :: duration
  cs_tls :: tls_config

record snapshot =
  sn_version :: int
  sn_etag :: string
  sn_source :: string
  sn_loadedAt :: gotime
  sn_listen :: string
  sn_publicURL :: string
  sn_environment :: string
  sn_authMode :: string
  sn_authIssuer :: string
  sn_authAudience :: string
  sn_authClientID :: string
  sn_authResourceParameter :: string
  sn_authTrustedJWKS :: string
  sn_authIdentityClaims :: "(string, string) gomap"
  sn_authTLS :: tls_config
  sn_identityKeyFile :: string
  sn_identityPreviousKeyFiles :: "string list"
  sn_oauthTokenStoreFile :: string
  sn_oauthEncryptionKeyRef :: string
  sn_oauthStateTTL :: duration
  sn_cliName :: string
  sn_aiMaxRisk :: risk
  sn_globalConcurrency :: int
  sn_queueTimeout :: duration
  sn_auditSinks :: "compiled_audit_sink list"
  sn_commands :: "string \<rightharpoonup> compiled_command"
  sn_toolCommands :: "string \<rightharpoonup> compiled_command"
  sn_commandKeys :: "string list"

section \<open>Defaults\<close>

definition authResourceParameter :: "string \<Rightarrow> string" where
  "authResourceParameter configured = (if configured = [] then ''both'' else configured)"

definition globalConcurrency :: "int \<Rightarrow> int" where
  "globalConcurrency configured = (if configured = 0 then 512 else configured)"

definition domainConcurrency :: "int \<Rightarrow> int" where
  "domainConcurrency configured = (if configured = 0 then 128 else configured)"

definition queueTimeout :: "duration \<Rightarrow> duration" where
  "queueTimeout configured = (if configured = 0 then 250 * millisecond else configured)"

text \<open>
  \<open>int(f)\<close> truncates towards zero. The conversion of a not-a-number or an infinity is
  implementation-defined in Go; the model takes the amd64 result, the least \<open>int64\<close>.
\<close>

fun flt_to_int :: "float64 \<Rightarrow> int" where
  "flt_to_int (FNum r) = (if r < 0 then - \<lfloor>- r\<rfloor> else \<lfloor>r\<rfloor>)"
| "flt_to_int _ = min_int64"

fun flt_double :: "float64 \<Rightarrow> float64" where
  "flt_double (FNum r) = FNum (r * 2)"
| "flt_double f = f"

definition rateBurst :: "int \<Rightarrow> float64 \<Rightarrow> int" where
  "rateBurst configured requestsPerSecond =
     (if flt_le requestsPerSecond (FNum 0) then 0
      else if configured > 0 then configured
      else (let value = flt_to_int (flt_double requestsPerSecond) in if value < 1 then 1 else value))"

definition downstreamOAuthStateTTL :: "duration \<Rightarrow> duration" where
  "downstreamOAuthStateTTL configured = (if configured = 0 then 5 * minute else configured)"

definition compileTLS :: "raw_tls \<Rightarrow> tls_config" where
  "compileTLS c =
     \<lparr>tls_insecureSkipVerify = rt_insecureSkipVerify c, tls_caFile = rt_caFile c,
      tls_clientCertFile = rt_clientCertFile c, tls_clientKeyFile = rt_clientKeyFile c\<rparr>"

definition compileCredentialCache :: "raw_cache \<Rightarrow> credential_cache" where
  "compileCredentialCache c =
     \<lparr>cc_capacity = (if rc_capacity c = 0 then 10000 else rc_capacity c),
      cc_refreshSkew = (if rc_refreshSkew c = 0 then 30 * second else rc_refreshSkew c),
      cc_negativeTTL = (if rc_negativeTTL c = 0 then 2 * second else rc_negativeTTL c)\<rparr>"

definition compileAuditSinks :: "audit_sink list \<Rightarrow> compiled_audit_sink list" where
  "compileAuditSinks sinks =
     map (\<lambda>s. \<lparr>cs_type = as_type s, cs_path = as_path s, cs_url = urlParse (as_url s),
                cs_timeout = (if as_timeout s = 0 then 5 * second else as_timeout s),
                cs_tls = compileTLS (as_tls s)\<rparr>) sinks"

definition accessTokenType :: string where
  "accessTokenType = ''urn:ietf:params:oauth:token-type:access_token''"

definition compileOAuthCredential :: "raw_oauth \<Rightarrow> bool \<Rightarrow> oauth_credential" where
  "compileOAuthCredential c allowLocal =
     \<lparr>oc_authorizationURL = urlParse (ro_authorizationURL c), oc_tokenURL = urlParse (ro_tokenURL c),
      oc_revocationURL = (if ro_revocationURL c \<noteq> [] then urlParse (ro_revocationURL c) else None),
      oc_clientID = ro_clientID c, oc_clientSecretRef = ro_clientSecretRef c,
      oc_tokenEndpointAuth = (if ro_tokenEndpointAuth c = [] then ''client_secret_basic'' else ro_tokenEndpointAuth c),
      oc_audience = ro_audience c, oc_resource = ro_resource c, oc_scopes = sortStrings (ro_scopes c),
      oc_subjectTokenType = (if ro_subjectTokenType c = [] then accessTokenType else ro_subjectTokenType c),
      oc_requestedTokenType = (if ro_requestedTokenType c = [] then accessTokenType else ro_requestedTokenType c),
      oc_allowLocal = allowLocal, oc_tls = compileTLS (ro_tls c)\<rparr>"

section \<open>Flags and the input schema\<close>

text \<open>\<open>cloneDefault\<close> copies a slice; on values it is the identity.\<close>

definition compileFlag :: "raw_flag \<Rightarrow> compiled_flag" where
  "compileFlag f =
     \<lparr>cf_name = rf_name f, cf_type = rf_type f, cf_location = rf_in f, cf_required = rf_required f,
      cf_default = rf_default f,
      cf_queryName = (if rf_in f = FlagInQuery then (if rf_queryName f = [] then rf_name f else rf_queryName f)
                      else []),
      cf_headerName = rf_headerName f, cf_description = rf_description f\<rparr>"

definition compileFlags :: "raw_flag list \<Rightarrow> compiled_flag list" where
  "compileFlags flags = map compileFlag flags"

definition jsonSchemaType :: "flag_type \<Rightarrow> string" where
  "jsonSchemaType t =
     (if t = FlagInt then ''integer'' else if t = FlagBool then ''boolean''
      else if t = FlagStringArray then ''array'' else ''string'')"

definition schemaProperty :: "raw_flag \<Rightarrow> goval" where
  "schemaProperty f =
     VObj ([(''type'', VStr (jsonSchemaType (rf_type f)))]
           @ (if rf_type f = FlagStringArray then [(''items'', VObj [(''type'', VStr ''string'')])] else [])
           @ (if rf_description f \<noteq> [] then [(''description'', VStr (rf_description f))] else [])
           @ (if rf_default f \<noteq> VNil then [(''default'', rf_default f)] else []))"

definition schemaProperties :: "raw_command \<Rightarrow> (string, goval) gomap" where
  "schemaProperties command =
     (let ps = fold (\<lambda>f. put (rf_name f) (schemaProperty f)) (rcm_flags command) []
      in if rcm_confirm command
         then put ''confirm'' (VObj [(''type'', VStr ''boolean''), (''description'', VStr ''Confirm this operation'')]) ps
         else ps)"

definition schemaRequired :: "raw_command \<Rightarrow> string list" where
  "schemaRequired command =
     sortStrings (map rf_name (filter rf_required (rcm_flags command))
                  @ (if rcm_confirm command then [''confirm''] else []))"

definition compileInputSchema :: "raw_command \<Rightarrow> goval" where
  "compileInputSchema command =
     VObj ([(''type'', VStr ''object''), (''properties'', VObj (schemaProperties command)),
            (''additionalProperties'', VBool False)]
           @ (if schemaRequired command \<noteq> [] then [(''required'', VStrs (schemaRequired command))] else []))"

section \<open>Commands\<close>

text \<open>
  \<open>endpointSegments\<close> dereferences the parsed URL without a check; validation guarantees that
  the parse succeeds, and the model returns the empty list where Go would panic.
\<close>

definition endpointSegments :: "string \<Rightarrow> string list" where
  "endpointSegments endpoint =
     (case urlParse endpoint of None \<Rightarrow> []
      | Some u \<Rightarrow> splitOn (CHR ''/'') (trimPrefix (u_path u) ''/''))"

definition effectiveAuthMode :: "raw_domain \<Rightarrow> downstream_auth_mode" where
  "effectiveAuthMode d =
     (if da_mode (rd_downstreamAuth d) = [] then DownstreamSignedIdentity else da_mode (rd_downstreamAuth d))"

definition domainOAuthCredential :: "raw_domain \<Rightarrow> oauth_credential option" where
  "domainOAuthCredential d =
     (let mode = effectiveAuthMode d; auth = rd_downstreamAuth d
      in if mode = DownstreamTokenExchange then Some (compileOAuthCredential (da_tokenExchange auth) (rd_allowLocal d))
         else if mode = DownstreamClientCredentials then
           Some (compileOAuthCredential (da_clientCredentials auth) (rd_allowLocal d))
         else if mode = DownstreamAuthorizationCode then
           Some (compileOAuthCredential (da_authorizationCode auth) (rd_allowLocal d))
         else None)"

definition compileCommand :: "raw_domain \<Rightarrow> raw_command \<Rightarrow> compiled_command" where
  "compileCommand d c =
     \<lparr>cmd_key = commandKey (rd_name d) (rcm_path c), cmd_toolName = generatedToolName (rd_name d) (rcm_path c),
      cmd_domain = rd_name d, cmd_path = rcm_path c, cmd_summary = rcm_summary c,
      cmd_method = toUpper (rcm_method c), cmd_upstream = urlParse (rd_upstream d),
      cmd_endpointSegments = endpointSegments (rcm_endpoint c), cmd_risk = rcm_risk c,
      cmd_confirm = rcm_confirm c, cmd_streaming = rcm_streaming c, cmd_timeout = domainTimeout (rd_timeout d),
      cmd_flags = compileFlags (rcm_flags c), cmd_inputSchema = compileInputSchema c,
      cmd_downstreamAuth = effectiveAuthMode d,
      cmd_identityAudience = da_identityAudience (rd_downstreamAuth d),
      cmd_oauthCredential = domainOAuthCredential d,
      cmd_credentialCache = compileCredentialCache (da_cache (rd_downstreamAuth d)),
      cmd_domainConcurrency = domainConcurrency (dl_concurrency (rd_limits d)),
      cmd_requestsPerSecond = dl_requestsPerSecond (rd_limits d),
      cmd_rateBurst = rateBurst (dl_burst (rd_limits d)) (dl_requestsPerSecond (rd_limits d)),
      cmd_allowLocal = rd_allowLocal d, cmd_tls = compileTLS (rd_tls d)\<rparr>"

text \<open>The three tables the nested loops fill.\<close>

type_synonym command_tables =
  "(string \<rightharpoonup> compiled_command) \<times> (string \<rightharpoonup> compiled_command) \<times> string list"

definition addCommand :: "compiled_command \<Rightarrow> command_tables \<Rightarrow> command_tables" where
  "addCommand c t = (case t of (cmds, tools, ks) \<Rightarrow>
     (cmds(cmd_key c \<mapsto> c), tools(cmd_toolName c \<mapsto> c), ks @ [cmd_key c]))"

definition compiledCommands :: "raw_domain list \<Rightarrow> compiled_command list" where
  "compiledCommands ds = concat (map (\<lambda>d. map (compileCommand d) (rd_commands d)) ds)"

definition compileTables :: "raw_domain list \<Rightarrow> command_tables" where
  "compileTables ds = fold addCommand (compiledCommands ds) (Map.empty, Map.empty, [])"

definition compile :: "(string \<Rightarrow> string) \<Rightarrow> gotime \<Rightarrow> manifest \<Rightarrow> string \<Rightarrow> string \<Rightarrow> snapshot" where
  "compile sha256 now raw data source =
     (case compileTables (m_domains raw) of (cmds, tools, ks) \<Rightarrow>
       \<lparr>sn_version = m_version raw, sn_etag = hexEncode (take 8 (sha256 data)), sn_source = source,
        sn_loadedAt = now, sn_listen = sc_listen (m_server raw), sn_publicURL = sc_publicURL (m_server raw),
        sn_environment = effectiveEnvironment raw, sn_authMode = ac_mode (m_auth raw),
        sn_authIssuer = ac_issuer (m_auth raw), sn_authAudience = ac_audience (m_auth raw),
        sn_authClientID = ac_clientID (m_auth raw),
        sn_authResourceParameter = authResourceParameter (ac_resourceParameter (m_auth raw)),
        sn_authTrustedJWKS = ac_trustedJWKS (m_auth raw),
        sn_authIdentityClaims = ac_identityClaims (m_auth raw), sn_authTLS = compileTLS (ac_tls (m_auth raw)),
        sn_identityKeyFile = sc_identityKeyFile (m_server raw),
        sn_identityPreviousKeyFiles = sc_identityPreviousKeyFiles (m_server raw),
        sn_oauthTokenStoreFile = do_tokenStoreFile (m_downstreamOAuth raw),
        sn_oauthEncryptionKeyRef = do_encryptionKeyRef (m_downstreamOAuth raw),
        sn_oauthStateTTL = downstreamOAuthStateTTL (do_stateTTL (m_downstreamOAuth raw)),
        sn_cliName = m_cliName raw, sn_aiMaxRisk = m_aiMaxRisk raw,
        sn_globalConcurrency = globalConcurrency (lc_globalConcurrency (m_limits raw)),
        sn_queueTimeout = queueTimeout (lc_queueTimeout (m_limits raw)),
        sn_auditSinks = compileAuditSinks (m_auditSinks raw),
        sn_commands = cmds, sn_toolCommands = tools, sn_commandKeys = sortStrings ks\<rparr>)"

section \<open>The tables of a list of commands\<close>

lemma fold_addCommand:
  "fold addCommand cs (cm, tm, ks) =
     (cm ++ map_of (rev (map (\<lambda>c. (cmd_key c, c)) cs)),
      tm ++ map_of (rev (map (\<lambda>c. (cmd_toolName c, c)) cs)), ks @ map cmd_key cs)"
  by (induction cs arbitrary: cm tm ks) (auto simp: addCommand_def map_add_upd_left map_add_def
      map_of_append fun_eq_iff split: option.splits)

lemma compileTables_eq:
  "compileTables ds =
     (map_of (rev (map (\<lambda>c. (cmd_key c, c)) (compiledCommands ds))),
      map_of (rev (map (\<lambda>c. (cmd_toolName c, c)) (compiledCommands ds))), map cmd_key (compiledCommands ds))"
  by (simp add: compileTables_def fold_addCommand)

lemma map_of_rev_keyed:
  assumes "distinct (map k cs)"
  shows "map_of (rev (map (\<lambda>c. (k c, c)) cs)) x = Some c \<longleftrightarrow> c \<in> set cs \<and> k c = x"
proof -
  let ?al = "rev (map (\<lambda>c. (k c, c)) cs)"
  have "map fst ?al = rev (map k cs)" by (simp add: rev_map comp_def)
  with assms have d: "distinct (map fst ?al)" by simp
  have "map_of ?al x = Some c \<longleftrightarrow> (x, c) \<in> set ?al" by (rule map_of_eq_Some_iff [OF d])
  then show ?thesis by auto
qed

lemma compiledCommands_keys:
  "map cmd_key (compiledCommands ds) = concat (map command_keys_of ds)"
  "map cmd_toolName (compiledCommands ds) = concat (map tool_names_of ds)"
  by (simp_all add: compiledCommands_def map_concat comp_def compileCommand_def)

lemma in_compiledCommands:
  "c \<in> set (compiledCommands ds) \<longleftrightarrow> (\<exists>d \<in> set ds. \<exists>r \<in> set (rd_commands d). c = compileCommand d r)"
  by (auto simp: compiledCommands_def)

lemma compile_simps [simp]:
  "sn_commands (compile sha now raw data src) = map_of (rev (map (\<lambda>c. (cmd_key c, c)) (compiledCommands (m_domains raw))))"
  "sn_toolCommands (compile sha now raw data src) =
     map_of (rev (map (\<lambda>c. (cmd_toolName c, c)) (compiledCommands (m_domains raw))))"
  "sn_commandKeys (compile sha now raw data src) = sortStrings (map cmd_key (compiledCommands (m_domains raw)))"
  "sn_aiMaxRisk (compile sha now raw data src) = m_aiMaxRisk raw"
  "sn_globalConcurrency (compile sha now raw data src) = globalConcurrency (lc_globalConcurrency (m_limits raw))"
  "sn_queueTimeout (compile sha now raw data src) = queueTimeout (lc_queueTimeout (m_limits raw))"
  "sn_environment (compile sha now raw data src) = effectiveEnvironment raw"
  "sn_etag (compile sha now raw data src) = hexEncode (take 8 (sha data))"
  by (simp_all add: compile_def compileTables_eq)

section \<open>What a compiled command guarantees\<close>

definition flag_compiled :: "compiled_flag \<Rightarrow> bool" where
  "flag_compiled f \<longleftrightarrow>
     namePattern (cf_name f) \<and> cf_name f \<noteq> ''confirm''
     \<and> cf_type f \<in> {FlagString, FlagInt, FlagBool, FlagStringArray}
     \<and> cf_location f \<in> {FlagInBody, FlagInQuery, FlagInPath, FlagInHeader}
     \<and> (cf_location f = FlagInPath \<longrightarrow> cf_required f)
     \<and> (cf_location f = FlagInHeader \<longrightarrow> headerNamePattern (cf_headerName f)
          \<and> \<not> forbiddenHeader (cf_headerName f) \<and> cf_type f \<noteq> FlagStringArray)
     \<and> (cf_location f = FlagInQuery \<longrightarrow> cf_queryName f \<noteq> [])
     \<and> (cf_default f = VNil \<or> defaultMatches (cf_type f) (cf_default f))"

definition command_compiled :: "compiled_command \<Rightarrow> bool" where
  "command_compiled c \<longleftrightarrow>
     cmd_method c \<in> {''GET'', ''POST'', ''PUT'', ''PATCH'', ''DELETE''}
     \<and> riskValid (cmd_risk c) \<and> (cmd_risk c = RiskDestroy \<longrightarrow> cmd_confirm c)
     \<and> (\<forall>f \<in> set (cmd_flags c). flag_compiled f) \<and> distinct (map cf_name (cmd_flags c))
     \<and> {n. \<exists>s \<in> set (cmd_endpointSegments c). placeholderPattern s = Some n}
         = {cf_name f | f. f \<in> set (cmd_flags c) \<and> cf_location f = FlagInPath}
     \<and> (\<forall>s \<in> set (cmd_endpointSegments c). s \<noteq> [] \<and> s \<noteq> ''.'' \<and> s \<noteq> ''..''
          \<and> (placeholderPattern s = None \<longrightarrow> \<not> containsAny s ''{}''))
     \<and> (\<exists>u. cmd_upstream c = Some u \<and> hostname u \<noteq> [] \<and> u_opaque u = [] \<and> u_user u = None \<and> u_rawQuery u = []
          \<and> u_fragment u = [] \<and> u_scheme u \<in> {''http'', ''https''}
          \<and> (\<forall>a. parseIP (hostname u) = Some a \<longrightarrow> ip_ok (cmd_allowLocal c) a))
     \<and> 0 < cmd_timeout c
     \<and> 1 \<le> cmd_domainConcurrency c \<and> cmd_domainConcurrency c \<le> 10000
     \<and> 0 \<le> cmd_rateBurst c"

lemma compileFlag_simps [simp]:
  "cf_name (compileFlag f) = rf_name f" "cf_location (compileFlag f) = rf_in f"
  by (simp_all add: compileFlag_def)

lemma flag_ok_compiled:
  "namePattern (rf_name f) \<Longrightarrow> rf_name f \<noteq> ''confirm'' \<Longrightarrow> flag_ok m f \<Longrightarrow> flag_compiled (compileFlag f)"
  by (auto simp: flag_ok_def flag_compiled_def compileFlag_def namePattern_def)

lemma rateBurst_nonneg: "0 \<le> rateBurst b r"
  by (simp add: rateBurst_def Let_def)

lemma endpointSegments_eq: "endpointSegments e = endpoint_path_segments e"
  by (simp add: endpointSegments_def endpoint_path_segments_def)

lemma compileCommand_compiled:
  assumes d: "domain_ok env d" and c: "command_ok c"
  shows "command_compiled (compileCommand d c)"
proof -
  let ?k = "compileCommand d c"
  have flags: "\<forall>f \<in> set (cmd_flags ?k). flag_compiled f" "distinct (map cf_name (cmd_flags ?k))"
    using c flag_ok_compiled
    by (auto simp: command_ok_def compileCommand_def compileFlags_def comp_def)
  have ph: "{n. \<exists>s \<in> set (cmd_endpointSegments ?k). placeholderPattern s = Some n}
      = {cf_name f | f. f \<in> set (cmd_flags ?k) \<and> cf_location f = FlagInPath}"
  proof -
    have "{n. \<exists>s \<in> set (cmd_endpointSegments ?k). placeholderPattern s = Some n} = placeholders_of c"
      by (simp add: compileCommand_def endpointSegments_eq placeholders_of_def)
    also have "\<dots> = path_flags_of c" using c by (simp add: command_ok_def)
    also have "\<dots> = {cf_name f | f. f \<in> set (cmd_flags ?k) \<and> cf_location f = FlagInPath}"
      by (force simp: path_flags_of_def compileCommand_def compileFlags_def)
    finally show ?thesis .
  qed
  from d have up: "upstream_ok (rd_upstream d) (rd_allowLocal d)" by (simp add: domain_ok_def)
  then obtain u where u: "urlParse (rd_upstream d) = Some u"
    by (auto simp: upstream_ok_def split: option.splits)
  have lim: "1 \<le> cmd_domainConcurrency ?k" "cmd_domainConcurrency ?k \<le> 10000" "0 < cmd_timeout ?k"
    using d by (auto simp: domain_ok_def limits_ok_def compileCommand_def domainConcurrency_def)
  have "cmd_upstream ?k = Some u" using u by (simp add: compileCommand_def)
  moreover have "u_opaque u = []"
    using up u by (auto simp: upstream_ok_def http_url_ok_def intro!: urlParse_opaque [OF u] hostname_host)
  moreover have "hostname u \<noteq> []" "u_user u = None" "u_rawQuery u = []" "u_fragment u = []"
    "u_scheme u \<in> {''http'', ''https''}" "\<forall>a. parseIP (hostname u) = Some a \<longrightarrow> ip_ok (cmd_allowLocal ?k) a"
    using up u by (auto simp: upstream_ok_def http_url_ok_def compileCommand_def)
  ultimately show ?thesis
    using c flags ph lim
    by (auto simp: command_compiled_def command_ok_def compileCommand_def endpointSegments_eq rateBurst_nonneg)
qed

text \<open>The well-formedness of a snapshot, the invariant its readers rely on.\<close>

definition snapshot_wf :: "snapshot \<Rightarrow> bool" where
  "snapshot_wf s \<longleftrightarrow>
     distinct (sn_commandKeys s) \<and> sorted (sn_commandKeys s)
     \<and> dom (sn_commands s) = set (sn_commandKeys s)
     \<and> (\<forall>k c. sn_commands s k = Some c \<longrightarrow>
          cmd_key c = k \<and> sn_toolCommands s (cmd_toolName c) = Some c \<and> command_compiled c)
     \<and> (\<forall>t c. sn_toolCommands s t = Some c \<longrightarrow> cmd_toolName c = t \<and> sn_commands s (cmd_key c) = Some c)
     \<and> riskValid (sn_aiMaxRisk s)
     \<and> 1 \<le> sn_globalConcurrency s \<and> sn_globalConcurrency s \<le> 100000
     \<and> 0 < sn_queueTimeout s \<and> sn_queueTimeout s \<le> 30 * second"

lemma snapshot_wf_command:
  "snapshot_wf s \<Longrightarrow> sn_commands s k = Some c \<Longrightarrow>
   cmd_key c = k \<and> k \<in> set (sn_commandKeys s) \<and> sn_toolCommands s (cmd_toolName c) = Some c \<and> command_compiled c"
  unfolding snapshot_wf_def by (metis domI)

lemma snapshot_wf_lookup:
  assumes "snapshot_wf s" "k \<in> set (sn_commandKeys s)"
  obtains c where "sn_commands s k = Some c" "cmd_key c = k" "command_compiled c"
proof -
  have "k \<in> dom (sn_commands s)" using assms by (simp add: snapshot_wf_def)
  then obtain c where "sn_commands s k = Some c" by blast
  with snapshot_wf_command [OF assms(1)] that show ?thesis by blast
qed

lemma compile_snapshot_wf:
  assumes "validate raw pos = []"
  shows "snapshot_wf (compile sha now raw data src)"
proof -
  note ok = manifest_okD [OF assms]
  let ?cs = "compiledCommands (m_domains raw)"
  have dk: "distinct (map cmd_key ?cs)" and dt: "distinct (map cmd_toolName ?cs)"
    using ok by (simp_all only: compiledCommands_keys)
  note lk = map_of_rev_keyed [OF dk] and lt = map_of_rev_keyed [OF dt]
  have good: "command_compiled c" if "c \<in> set ?cs" for c
    using that accepted_domain [OF assms] accepted_command [OF assms]
    by (auto simp: in_compiledCommands intro: compileCommand_compiled)
  have "dom (map_of (rev (map (\<lambda>c. (cmd_key c, c)) ?cs))) = cmd_key ` set ?cs"
    by (auto simp: dom_map_of_conv_image_fst image_image)
  with dk lk lt good ok show ?thesis
    by (auto simp: snapshot_wf_def globalConcurrency_def queueTimeout_def dur_defs)
qed

end
