(* ===== verification/Manifest_Example.thy ===== *)
theory Manifest_Example
  imports Manifest_Compile
begin

text \<open>
  A concrete manifest in the shape of \<open>examples/e2e/manifest.yaml\<close>, on which the theorems
  about accepted manifests are applied: one upstream domain with a path, a query, a header and a
  body flag, a read, a write and a destructive command.
\<close>

definition no_tls :: raw_tls where
  "no_tls = \<lparr>rt_insecureSkipVerify = False, rt_caFile = [], rt_clientCertFile = [], rt_clientKeyFile = []\<rparr>"

definition no_oauth :: raw_oauth where
  "no_oauth = \<lparr>ro_authorizationURL = [], ro_tokenURL = [], ro_revocationURL = [], ro_clientID = [],
     ro_clientSecretRef = [], ro_tokenEndpointAuth = [], ro_audience = [], ro_resource = [], ro_scopes = [],
     ro_subjectTokenType = [], ro_requestedTokenType = [], ro_tls = no_tls\<rparr>"

definition plain_flag :: "string \<Rightarrow> string \<Rightarrow> string \<Rightarrow> raw_flag" where
  "plain_flag name ty loc = \<lparr>rf_name = name, rf_type = ty, rf_required = False, rf_default = VNil, rf_in = loc,
     rf_description = [], rf_queryName = [], rf_headerName = []\<rparr>"

definition get_item :: raw_command where
  "get_item = \<lparr>rcm_path = [''item'', ''get''], rcm_summary = ''Read one item'', rcm_method = ''get'',
     rcm_endpoint = ''/items/{id}'', rcm_risk = ''read'', rcm_scope = [], rcm_confirm = False, rcm_streaming = False,
     rcm_flags = [(plain_flag ''id'' ''string'' ''path'')\<lparr>rf_required := True\<rparr>,
                  (plain_flag ''tag'' ''stringArray'' ''query'')\<lparr>rf_default := VList [VStr ''a'', VStr ''b'']\<rparr>,
                  (plain_flag ''locale'' ''string'' ''header'')\<lparr>rf_headerName := ''Accept-Language''\<rparr>]\<rparr>"

definition put_item :: raw_command where
  "put_item = \<lparr>rcm_path = [''item'', ''put''], rcm_summary = [], rcm_method = ''POST'',
     rcm_endpoint = ''/items'', rcm_risk = ''write'', rcm_scope = [], rcm_confirm = False, rcm_streaming = False,
     rcm_flags = [(plain_flag ''title'' ''string'' ''body'')\<lparr>rf_required := True\<rparr>,
                  (plain_flag ''count'' ''int'' ''body'')\<lparr>rf_default := VInt 1\<rparr>]\<rparr>"

definition drop_item :: raw_command where
  "drop_item = \<lparr>rcm_path = [''item'', ''drop''], rcm_summary = [], rcm_method = ''DELETE'',
     rcm_endpoint = ''/items/{id}'', rcm_risk = ''destroy'', rcm_scope = [], rcm_confirm = True, rcm_streaming = False,
     rcm_flags = [(plain_flag ''id'' ''string'' ''path'')\<lparr>rf_required := True\<rparr>]\<rparr>"

definition demo_domain :: raw_domain where
  "demo_domain = \<lparr>rd_name = ''demo'', rd_upstream = ''https://api.example.com/base'', rd_tls = no_tls,
     rd_allowLocal = False, rd_timeout = 0,
     rd_downstreamAuth = \<lparr>da_mode = [], da_identityAudience = ''demo-api'', da_tokenExchange = no_oauth,
       da_clientCredentials = no_oauth, da_authorizationCode = no_oauth,
       da_cache = \<lparr>rc_capacity = 0, rc_refreshSkew = 0, rc_negativeTTL = 0\<rparr>\<rparr>,
     rd_limits = \<lparr>dl_concurrency = 2, dl_requestsPerSecond = FNum 5, dl_burst = 0\<rparr>,
     rd_commands = [get_item, put_item, drop_item]\<rparr>"

definition demo_manifest :: manifest where
  "demo_manifest = \<lparr>m_version = 1,
     m_server = \<lparr>sc_listen = '':18082'', sc_publicURL = ''http://127.0.0.1:18082'', sc_environment = [],
       sc_identityKeyFile = [], sc_identityPreviousKeyFiles = []\<rparr>,
     m_auth = \<lparr>ac_mode = ''oidc'', ac_issuer = ''http://127.0.0.1:18080'', ac_clientID = ''cg'',
       ac_audience = ''cli-gateway'', ac_resourceParameter = [], ac_trustedJWKS = [],
       ac_identityClaims = [(''email'', ''email'')], ac_tls = no_tls\<rparr>,
     m_cliName = ''cg'', m_aiMaxRisk = ''write'',
     m_limits = \<lparr>lc_globalConcurrency = 0, lc_queueTimeout = 0\<rparr>, m_auditSinks = [],
     m_downstreamOAuth = \<lparr>do_tokenStoreFile = [], do_encryptionKeyRef = [], do_stateTTL = 0\<rparr>,
     m_domains = [demo_domain]\<rparr>"

definition no_positions :: positions where
  "no_positions path = \<lparr>pos_line = 0, pos_column = 0\<rparr>"

lemma demo_accepted: "validate demo_manifest no_positions = []"
  by code_simp

definition demo_principal :: principal where
  "demo_principal = \<lparr>pr_subject = ''alice'', pr_email = [], pr_name = [], pr_issuer = ''http://127.0.0.1:18080'',
     pr_tenant = [], pr_sessionID = [], pr_expiresAt = 5000, pr_scopes = [], pr_invoker = ''human'',
     pr_clientID = ''cg''\<rparr>"

text \<open>The snapshot the gateway serves for it; the digest is abbreviated to the identity.\<close>

definition demo_snapshot :: snapshot where
  "demo_snapshot = compile id 1000 demo_manifest ''version: 1'' ''manifest.yaml''"

lemma demo_snapshot_wf: "snapshot_wf demo_snapshot"
  unfolding demo_snapshot_def by (rule compile_snapshot_wf [OF demo_accepted])

definition demo_get :: compiled_command where
  "demo_get = compileCommand demo_domain get_item"

definition demo_put :: compiled_command where
  "demo_put = compileCommand demo_domain put_item"

lemma demo_commands_compiled: "command_compiled demo_get" "command_compiled demo_put"
  using accepted_domain [OF demo_accepted, of demo_domain] accepted_command [OF demo_accepted, of demo_domain]
  by (auto simp: demo_manifest_def demo_domain_def demo_get_def demo_put_def intro!: compileCommand_compiled)

definition demo_invocation :: "compiled_command \<Rightarrow> invocation" where
  "demo_invocation c = \<lparr>inv_source = ''cli'', inv_principal = demo_principal, inv_command = c, inv_args = [],
     inv_invoker = ''human'', inv_confirmed = False, inv_aiMaxRisk = ''write'',
     inv_traceID = ''0123456789abcdef0123456789abcdef'', inv_traceState = [], inv_client = ''cg/1'', inv_bearerToken = ''t''\<rparr>"

lemma demo_invocation_command [simp]: "inv_command (demo_invocation c) = c"
  by (simp add: demo_invocation_def)

end
