(* ===== verification/Invoke_Args.thy ===== *)
theory Invoke_Args
  imports Manifest_Example
begin

text \<open>
  Argument validation of \<open>internal/invoke/args.go\<close>. The supplied arguments and the result
  are Go maps the code ranges over. \<open>strconv.FormatFloat(f, 'f', -1, 64)\<close>, the shortest decimal
  text of a float, is an argument (\<open>fmtFloat\<close>).
\<close>

definition argumentError :: "string \<Rightarrow> string \<Rightarrow> api_error" where
  "argumentError name message = apiError 400 ''E_ARG_INVALID'' (''argument '' @ name @ '' '' @ message)"

fun strings_of :: "goval list \<Rightarrow> string list option" where
  "strings_of [] = Some []"
| "strings_of (VStr s # vs) = map_option (Cons s) (strings_of vs)"
| "strings_of (_ # vs) = None"

definition normalizeInt :: "(float64 \<Rightarrow> string) \<Rightarrow> goval \<Rightarrow> string + goval" where
  "normalizeInt fmtFloat value =
     (case value of
        VInt i \<Rightarrow> Inr (VInt i)
      | VInt64 i \<Rightarrow> Inr (VInt64 i)
      | VNum s \<Rightarrow> (case parseInt64 s of Some i \<Rightarrow> Inr (VInt64 i) | None \<Rightarrow> Inl ''must be an integer'')
      | VFloat f \<Rightarrow>
          (case parseInt64 (fmtFloat f) of Some i \<Rightarrow> Inr (VInt64 i) | None \<Rightarrow> Inl ''must be an integer'')
      | _ \<Rightarrow> Inl ''must be an integer'')"

definition normalizeValue :: "(float64 \<Rightarrow> string) \<Rightarrow> flag_type \<Rightarrow> goval \<Rightarrow> string + goval" where
  "normalizeValue fmtFloat flagType value =
     (if flagType = FlagString then
        (case value of VStr s \<Rightarrow> Inr (VStr s) | _ \<Rightarrow> Inl ''must be a string'')
      else if flagType = FlagInt then normalizeInt fmtFloat value
      else if flagType = FlagBool then
        (case value of VBool b \<Rightarrow> Inr (VBool b) | _ \<Rightarrow> Inl ''must be a boolean'')
      else if flagType = FlagStringArray then
        (case value of
           VStrs ss \<Rightarrow> Inr (VStrs ss)
         | VList vs \<Rightarrow> (case strings_of vs of Some ss \<Rightarrow> Inr (VStrs ss) | None \<Rightarrow> Inl ''must be an array of strings'')
         | _ \<Rightarrow> Inl ''must be an array of strings'')
      else Inl ''uses an unsupported type'')"

fun validateFlagArgs ::
  "(float64 \<Rightarrow> string) \<Rightarrow> arguments \<Rightarrow> compiled_flag list \<Rightarrow> arguments \<Rightarrow> api_error + arguments" where
  "validateFlagArgs fmtFloat supplied [] acc = Inr acc"
| "validateFlagArgs fmtFloat supplied (flag # flags) acc =
     (case map_of supplied (cf_name flag) of
        None \<Rightarrow>
          (if cf_default flag \<noteq> VNil then
             validateFlagArgs fmtFloat supplied flags (put (cf_name flag) (cf_default flag) acc)
           else if cf_required flag then Inl (argumentError (cf_name flag) ''required argument is missing'')
           else validateFlagArgs fmtFloat supplied flags acc)
      | Some value \<Rightarrow>
          (case normalizeValue fmtFloat (cf_type flag) value of
             Inl msg \<Rightarrow> Inl (argumentError (cf_name flag) msg)
           | Inr normalized \<Rightarrow>
               validateFlagArgs fmtFloat supplied flags (put (cf_name flag) normalized acc)))"

definition validateArguments ::
  "(float64 \<Rightarrow> string) \<Rightarrow> compiled_command \<Rightarrow> arguments \<Rightarrow> api_error + arguments" where
  "validateArguments fmtFloat command supplied =
     (case find (\<lambda>name. name \<notin> set (map cf_name (cmd_flags command))) (keys supplied) of
        Some name \<Rightarrow> Inl (argumentError name ''unknown argument'')
      | None \<Rightarrow> validateFlagArgs fmtFloat supplied (cmd_flags command) [])"

section \<open>Typing of normalized values\<close>

text \<open>
  The values an invocation can carry for a flag: normalized values, and defaults as the manifest
  decoder left them (a \<open>stringArray\<close> default is a list of strings, not a string slice).
\<close>

definition has_type :: "flag_type \<Rightarrow> goval \<Rightarrow> bool" where
  "has_type t v =
     (if t = FlagString then (case v of VStr _ \<Rightarrow> True | _ \<Rightarrow> False)
      else if t = FlagInt then (case v of VInt _ \<Rightarrow> True | VInt64 _ \<Rightarrow> True | _ \<Rightarrow> False)
      else if t = FlagBool then (case v of VBool _ \<Rightarrow> True | _ \<Rightarrow> False)
      else if t = FlagStringArray then
        (case v of VStrs _ \<Rightarrow> True | VList vs \<Rightarrow> list_all is_VStr vs | _ \<Rightarrow> False)
      else False)"

lemma normalizeValue_has_type: "normalizeValue fmt t v = Inr w \<Longrightarrow> has_type t w"
  by (auto simp: normalizeValue_def normalizeInt_def has_type_def split: if_splits goval.splits option.splits)

lemma normalizeValue_string [simp]:
  "normalizeValue fmt FlagString v = Inr w \<longleftrightarrow> (\<exists>s. v = VStr s \<and> w = VStr s)"
  by (cases v) (auto simp: normalizeValue_def)

lemma defaultMatches_has_type: "defaultMatches t v \<Longrightarrow> has_type t v"
  by (auto simp: defaultMatches_def has_type_def split: goval.splits if_splits)

text \<open>The value a flag ends up with: the normalized argument, else the default, else none.\<close>

definition flag_value :: "(float64 \<Rightarrow> string) \<Rightarrow> arguments \<Rightarrow> compiled_flag \<Rightarrow> goval option" where
  "flag_value fmt supplied f =
     (case map_of supplied (cf_name f) of
        None \<Rightarrow> (if cf_default f \<noteq> VNil then Some (cf_default f) else None)
      | Some v \<Rightarrow> (case normalizeValue fmt (cf_type f) v of Inr w \<Rightarrow> Some w | Inl _ \<Rightarrow> None))"

definition flag_accepts :: "(float64 \<Rightarrow> string) \<Rightarrow> arguments \<Rightarrow> compiled_flag \<Rightarrow> bool" where
  "flag_accepts fmt supplied f =
     (case map_of supplied (cf_name f) of
        None \<Rightarrow> cf_default f \<noteq> VNil \<or> \<not> cf_required f
      | Some v \<Rightarrow> (\<exists>w. normalizeValue fmt (cf_type f) v = Inr w))"

lemma validateFlagArgs_Inr:
  assumes "distinct (map cf_name flags)"
  shows "(\<exists>r. validateFlagArgs fmt supplied flags acc = Inr r) \<longleftrightarrow> (\<forall>f \<in> set flags. flag_accepts fmt supplied f)"
  by (induction flags arbitrary: acc) (auto simp: flag_accepts_def split: option.splits sum.splits)

lemma validateFlagArgs_result:
  assumes "validateFlagArgs fmt supplied flags acc = Inr r" "distinct (map cf_name flags)"
  shows "map_of r n = (case find (\<lambda>f. cf_name f = n) flags of
           Some f \<Rightarrow> (case flag_value fmt supplied f of Some v \<Rightarrow> Some v | None \<Rightarrow> map_of acc n)
         | None \<Rightarrow> map_of acc n)"
  using assms
proof (induction flags arbitrary: acc)
  case Nil
  then show ?case by simp
next
  case (Cons f flags)
  have nf: "find (\<lambda>g. cf_name g = cf_name f) flags = None"
    using Cons.prems(2) by (auto simp: find_None_iff image_iff)
  show ?case
    using Cons nf by (auto simp: flag_value_def split: option.splits sum.splits if_splits)
qed

lemma validateFlagArgs_wf:
  "validateFlagArgs fmt supplied flags acc = Inr r \<Longrightarrow> wf_map acc \<Longrightarrow> wf_map r"
  by (induction flags arbitrary: acc) (auto split: option.splits sum.splits if_splits)

lemma find_SomeD: "find P xs = Some x \<Longrightarrow> x \<in> set xs \<and> P x"
  by (induction xs) (auto split: if_splits)

lemma find_flag:
  assumes "distinct (map cf_name flags)" "f \<in> set flags"
  shows "find (\<lambda>g. cf_name g = cf_name f) flags = Some f"
  using assms by (induction flags) (auto simp: image_iff)

lemma validateArguments_Inr:
  "validateArguments fmt c supplied = Inr r \<longleftrightarrow>
     set (keys supplied) \<subseteq> set (map cf_name (cmd_flags c))
     \<and> validateFlagArgs fmt supplied (cmd_flags c) [] = Inr r"
proof (cases "find (\<lambda>name. name \<notin> set (map cf_name (cmd_flags c))) (keys supplied)")
  case None
  then have "set (keys supplied) \<subseteq> set (map cf_name (cmd_flags c))"
    by (auto simp: find_None_iff)
  with None show ?thesis by (simp add: validateArguments_def)
next
  case (Some n)
  have "n \<in> set (keys supplied) \<and> n \<notin> set (map cf_name (cmd_flags c))"
    using find_SomeD [OF Some] by simp
  with Some show ?thesis by (auto simp: validateArguments_def)
qed

lemma validateFlagArgs_code: "validateFlagArgs fmt supplied flags acc = Inl e \<Longrightarrow> ae_code e = ''E_ARG_INVALID''"
  by (induction flags arbitrary: acc) (auto simp: argumentError_def split: option.splits sum.splits if_splits)

lemma validateArguments_code: "validateArguments fmt c supplied = Inl e \<Longrightarrow> ae_code e = ''E_ARG_INVALID''"
  by (auto simp: validateArguments_def argumentError_def split: option.splits dest: validateFlagArgs_code)

lemma validated_lookup:
  assumes "validateArguments fmt c supplied = Inr r" "distinct (map cf_name (cmd_flags c))" "f \<in> set (cmd_flags c)"
  shows "map_of r (cf_name f) = flag_value fmt supplied f"
  using validateFlagArgs_result [of fmt supplied "cmd_flags c" "[]" r "cf_name f"] assms
    find_flag [OF assms(2,3)]
  by (simp add: validateArguments_Inr split: option.splits)

lemma validated_unknown:
  assumes "validateArguments fmt c supplied = Inr r" "distinct (map cf_name (cmd_flags c))"
    "n \<notin> set (map cf_name (cmd_flags c))"
  shows "map_of r n = None"
proof -
  have "find (\<lambda>f. cf_name f = n) (cmd_flags c) = None"
    using assms(3) by (auto simp: find_None_iff)
  then show ?thesis
    using validateFlagArgs_result [of fmt supplied "cmd_flags c" "[]" r n] assms(1,2)
    by (simp add: validateArguments_Inr)
qed

lemma flag_value_typed:
  "flag_compiled f \<Longrightarrow> flag_value fmt supplied f = Some v \<Longrightarrow> has_type (cf_type f) v"
  by (auto simp: flag_value_def flag_compiled_def normalizeValue_has_type defaultMatches_has_type
      split: option.splits sum.splits if_splits)


text \<open>C32. What validation returns for a compiled command is exactly one value per flag: the
  normalized argument, else the declared default, else nothing; every value has its flag's type, a
  required flag has a value, and no other name is present.\<close>

theorem validateArguments_result:
  assumes "command_compiled c" "validateArguments fmt c supplied = Inr r"
  shows "wf_map r \<and> set (keys r) \<subseteq> set (map cf_name (cmd_flags c))
    \<and> (\<forall>f \<in> set (cmd_flags c). map_of r (cf_name f) = flag_value fmt supplied f
         \<and> (cf_required f \<longrightarrow> map_of r (cf_name f) \<noteq> None)
         \<and> (\<forall>v. map_of r (cf_name f) = Some v \<longrightarrow> has_type (cf_type f) v))"
proof -
  have d: "distinct (map cf_name (cmd_flags c))" using assms(1) by (simp add: command_compiled_def)
  have acc: "flag_accepts fmt supplied f" if "f \<in> set (cmd_flags c)" for f
    using validateFlagArgs_Inr [OF d, of fmt supplied "[]"] assms(2) that by (auto simp: validateArguments_Inr)
  have req: "flag_value fmt supplied f \<noteq> None" if "f \<in> set (cmd_flags c)" "cf_required f" for f
    using acc [OF that(1)] that(2) by (auto simp: flag_accepts_def flag_value_def split: option.splits sum.splits)
  have fc: "flag_compiled f" if "f \<in> set (cmd_flags c)" for f
    using assms(1) that by (simp add: command_compiled_def list_all_iff)
  have wf: "wf_map r" using assms(2) validateFlagArgs_wf by (auto simp: validateArguments_Inr)
  have ks: "set (keys r) \<subseteq> set (map cf_name (cmd_flags c))"
  proof
    fix n assume n: "n \<in> set (keys r)"
    show "n \<in> set (map cf_name (cmd_flags c))"
    proof (rule ccontr)
      assume "n \<notin> set (map cf_name (cmd_flags c))"
      from validated_unknown [OF assms(2) d this] n show False by (simp add: map_of_eq_None_iff)
    qed
  qed
  have "map_of r (cf_name f) = flag_value fmt supplied f
         \<and> (cf_required f \<longrightarrow> map_of r (cf_name f) \<noteq> None)
         \<and> (\<forall>v. map_of r (cf_name f) = Some v \<longrightarrow> has_type (cf_type f) v)" if f: "f \<in> set (cmd_flags c)" for f
    unfolding validated_lookup [OF assms(2) d f] using req [OF f] flag_value_typed [OF fc [OF f]] by blast
  with wf ks show ?thesis by blast
qed

section \<open>Witnesses\<close>

lemma demo_args: "validateArguments (\<lambda>_. []) demo_get [(''id'', VStr ''42'')] =
   Inr [(''id'', VStr ''42''), (''tag'', VList [VStr ''a'', VStr ''b''])]"
  by code_simp


theorem validateArguments_result_witness:
  "wf_map [(''id'', VStr ''42''), (''tag'', VList [VStr ''a'', VStr ''b''])]
   \<and> map_of [(''id'', VStr ''42''), (''tag'', VList [VStr ''a'', VStr ''b''])] ''id'' = Some (VStr ''42'')"
  using validateArguments_result [OF demo_commands_compiled(1) demo_args] by simp

end
