(* ===== verification/Httpx_Trace.thy ===== *)
theory Httpx_Trace
  imports Go_Url
begin

text \<open>
  HTTP headers as the Go package \<open>net/http\<close> keeps them (canonical names, lists of values)
  and the trace-context functions of \<open>internal/httpx/trace.go\<close>. Random bytes are arguments.
  The facts: a trace identifier is always 32 hexadecimal digits, an outgoing \<open>traceparent\<close>
  always parses back to the trace it was made for, and a forwarded \<open>tracestate\<close> is bounded
  and free of control characters.
\<close>

section \<open>Headers\<close>

type_synonym http_header = "(string, string list) gomap"

definition token_char :: "char \<Rightarrow> bool" where
  "token_char c \<longleftrightarrow> is_alnum c \<or> c \<in> set ''!#$%&*+-.^_|~'' \<or> c = CHR 0x27 \<or> c = CHR 0x60"

fun canonical_from :: "bool \<Rightarrow> string \<Rightarrow> string" where
  "canonical_from up [] = []"
| "canonical_from up (c # s) = (if up then upper_byte c else lower_byte c) # canonical_from (c = CHR ''-'') s"

definition canonicalHeaderKey :: "string \<Rightarrow> string" where
  "canonicalHeaderKey s = (if list_all token_char s then canonical_from True s else s)"

definition headerGet :: "http_header \<Rightarrow> string \<Rightarrow> string" where
  "headerGet h name = (case map_of h (canonicalHeaderKey name) of Some (v # _) \<Rightarrow> v | _ \<Rightarrow> [])"

definition headerSet :: "string \<Rightarrow> string \<Rightarrow> http_header \<Rightarrow> http_header" where
  "headerSet name v h = put (canonicalHeaderKey name) [v] h"

lemma headerGet_headerSet:
  "headerGet (headerSet n v h) n' =
     (if canonicalHeaderKey n' = canonicalHeaderKey n then v else headerGet h n')"
  by (simp add: headerGet_def headerSet_def)

lemma lower_upper_byte: "lower_byte (upper_byte c) = lower_byte c"
proof (cases "is_lower c")
  case True
  then have "is_upper (char_of (byte c - 32))" "byte c - 32 + 32 = byte c"
    by (auto simp: byte_class_defs)
  moreover from True have "\<not> is_upper c" by (auto simp: byte_class_defs)
  ultimately show ?thesis using True by (auto simp: lower_byte_def upper_byte_def byte_class_defs)
next
  case False
  then show ?thesis by (simp add: upper_byte_def)
qed

lemma lower_lower_byte: "lower_byte (lower_byte c) = lower_byte c"
  by (auto simp: lower_byte_def byte_class_defs)

lemma map_lower_canonical: "map lower_byte (canonical_from up s) = map lower_byte s"
  by (induction s arbitrary: up) (simp_all add: lower_upper_byte lower_lower_byte)

lemma token_char_ascii: "token_char c \<Longrightarrow> byte c < 128"
  by (auto simp: token_char_def byte_class_defs)

lemma toLower_token: "list_all token_char s \<Longrightarrow> toLower s = map lower_byte s"
  by (rule toLower_ascii) (auto simp: is_ascii_def list_all_iff token_char_ascii)

text \<open>Names of token characters that denote the same header agree up to case.\<close>

lemma canonical_eq_toLower:
  assumes "list_all token_char s" "list_all token_char t" "canonicalHeaderKey s = canonicalHeaderKey t"
  shows "toLower s = toLower t"
  using assms toLower_token [OF assms(1)] toLower_token [OF assms(2)]
  by (metis canonicalHeaderKey_def map_lower_canonical)

section \<open>Trace identifiers\<close>

definition tracePattern :: "string \<Rightarrow> bool" where
  "tracePattern s \<longleftrightarrow> length s = 32 \<and> list_all is_hex s"

definition traceID :: "string \<Rightarrow> string \<Rightarrow> string" where
  "traceID random candidate = (if tracePattern candidate then candidate else hexEncode random)"

text \<open>The submatches of \<open>parentPattern\<close>: trace, span and flags.\<close>

definition parentPattern :: "string \<Rightarrow> (string \<times> string \<times> string) option" where
  "parentPattern s =
     (case splitOn (CHR ''-'') s of
        [v, t, sp, f] \<Rightarrow>
          (if v = ''00'' \<and> length t = 32 \<and> list_all is_lower_hex t \<and> length sp = 16 \<and> list_all is_lower_hex sp
              \<and> length f = 2 \<and> list_all is_lower_hex f
           then Some (t, sp, f) else None)
      | _ \<Rightarrow> None)"

definition requestTraceID :: "string \<Rightarrow> http_header \<Rightarrow> string" where
  "requestTraceID random header =
     (case parentPattern (toLower (trimSpace (headerGet header ''traceparent''))) of
        Some (t, sp, _) \<Rightarrow>
          (if t \<noteq> replicate 32 (CHR ''0'') \<and> sp \<noteq> replicate 16 (CHR ''0'') then t
           else traceID random (headerGet header ''X-Cli-Gateway-Trace-Id''))
      | None \<Rightarrow> traceID random (headerGet header ''X-Cli-Gateway-Trace-Id''))"

definition traceParent :: "string \<Rightarrow> string \<Rightarrow> string \<Rightarrow> string" where
  "traceParent random span trace =
     ''00-'' @ toLower (traceID random trace) @ ''-'' @ hexEncode span @ ''-01''"

definition traceStateKeyPattern :: "string \<Rightarrow> bool" where
  "traceStateKeyPattern s = (case s of [] \<Rightarrow> False
     | c # r \<Rightarrow> (is_lower c \<or> is_digit c)
         \<and> list_all (\<lambda>d. is_lower d \<or> is_digit d \<or> d \<in> set ''_*/@.-'') r \<and> length r \<le> 255)"

definition item_char_ok :: "char \<Rightarrow> bool" where
  "item_char_ok c \<longleftrightarrow> 32 \<le> byte c \<and> byte c \<le> 126 \<and> c \<noteq> CHR '','' \<and> c \<noteq> CHR ''=''"

text \<open>
  The loop over the members. The Go code ranges over the item's runes; a byte outside ASCII belongs
  to a rune above \<open>0x7e\<close> (or to U+FFFD), so the byte-wise test rejects exactly the same items.
\<close>

fun traceStateMembers :: "string list \<Rightarrow> string list \<Rightarrow> bool" where
  "traceStateMembers seen [] = True"
| "traceStateMembers seen (m # ms) =
     (case cut (CHR ''='') (trimSpace m) of (key, item, found) \<Rightarrow>
        found \<and> traceStateKeyPattern key \<and> item \<noteq> [] \<and> length item \<le> 256 \<and> key \<notin> set seen
        \<and> list_all item_char_ok item \<and> traceStateMembers (key # seen) ms)"

definition traceState :: "http_header \<Rightarrow> string" where
  "traceState header =
     (let value = trimSpace (headerGet header ''tracestate'')
      in if value = [] \<or> length value > 512 then []
         else (let members = splitOn (CHR '','') value
               in if length members > 32 then []
                  else if traceStateMembers [] members then value else []))"

section \<open>Facts\<close>

lemma is_hex_lower_hex: "is_lower_hex c \<Longrightarrow> is_hex c"
  by (auto simp: byte_class_defs)

lemma tracePattern_hexEncode: "length r = 16 \<Longrightarrow> tracePattern (hexEncode r)"
  using hexEncode_digits [of r] by (auto simp: tracePattern_def list_all_iff is_hex_lower_hex)

lemma traceID_pattern: "length r = 16 \<Longrightarrow> tracePattern (traceID r c)"
  by (simp add: traceID_def tracePattern_hexEncode)

lemma parentPattern_hex:
  "parentPattern s = Some (t, sp, f) \<Longrightarrow> tracePattern t"
  by (auto simp: parentPattern_def tracePattern_def list_all_iff is_hex_lower_hex
      split: list.splits if_splits)

lemma hex_ascii: "is_hex c \<Longrightarrow> byte c < 128"
  by (auto simp: byte_class_defs)

lemma lower_hex_of_hex: "is_hex c \<Longrightarrow> is_lower_hex (lower_byte c)"
  by (auto simp: lower_byte_def byte_class_defs)

lemma toLower_trace:
  assumes "tracePattern t"
  shows "length (toLower t) = 32" "list_all is_lower_hex (toLower t)"
proof -
  have "toLower t = map lower_byte t"
    using assms by (intro toLower_ascii) (auto simp: tracePattern_def is_ascii_def list_all_iff hex_ascii)
  then show "length (toLower t) = 32" "list_all is_lower_hex (toLower t)"
    using assms by (auto simp: tracePattern_def list_all_iff lower_hex_of_hex)
qed

lemma lower_hex_no_dash: "list_all is_lower_hex s \<Longrightarrow> CHR ''-'' \<notin> set s"
  by (auto simp: list_all_iff byte_class_defs)

text \<open>Whatever the request carries, the gateway's trace identifier is 32 hexadecimal digits, and
  the \<open>traceparent\<close> it sends upstream has the W3C shape and names that same trace.\<close>

theorem traceparent_roundtrip:
  assumes "length r = 16" "length r' = 16" "length span = 8"
  shows "tracePattern (requestTraceID r h)
    \<and> parentPattern (traceParent r' span (requestTraceID r h))
        = Some (toLower (requestTraceID r h), hexEncode span, ''01'')"
proof -
  let ?t = "requestTraceID r h"
  have t: "tracePattern ?t"
    using assms(1) by (auto simp: requestTraceID_def traceID_pattern parentPattern_hex split: option.splits)
  note lt = toLower_trace [OF t]
  have sp: "list_all is_lower_hex (hexEncode span)" "length (hexEncode span) = 16"
    using assms(3) hexEncode_digits by simp_all
  have "traceParent r' span ?t = ''00'' @ CHR ''-'' # toLower ?t @ CHR ''-'' # hexEncode span @ CHR ''-'' # ''01''"
    using t by (simp add: traceParent_def traceID_def)
  then have "splitOn (CHR ''-'') (traceParent r' span ?t) = [''00'', toLower ?t, hexEncode span, ''01'']"
    using lower_hex_no_dash [OF lt(2)] lower_hex_no_dash [OF sp(1)] splitOn_free [of "CHR ''-''" "''01''"]
    by (simp only: splitOn_append) (simp add: splitOn_append)
  with t lt sp show ?thesis by (simp add: parentPattern_def byte_class_defs)
qed

theorem traceparent_roundtrip_witness:
  "tracePattern (requestTraceID (replicate 16 (CHR ''a'')) [])
   \<and> parentPattern (traceParent (replicate 16 (CHR ''b'')) (replicate 8 (CHR ''c''))
        (requestTraceID (replicate 16 (CHR ''a'')) []))
      = Some (toLower (requestTraceID (replicate 16 (CHR ''a'')) []), hexEncode (replicate 8 (CHR ''c'')), ''01'')"
  by (rule traceparent_roundtrip) simp_all

lemma trim_left_sublist: "set (trim_left rs s) \<subseteq> set s"
proof (induction rs s rule: trim_left.induct)
  case (1 rs s)
  show ?case
  proof (cases "s = [] \<or> space_at rs s = 0")
    case True
    then show ?thesis by (subst trim_left.simps) auto
  next
    case False
    then show ?thesis using 1 by (subst trim_left.simps) (auto dest: in_set_dropD)
  qed
qed

lemma length_trim_left: "length (trim_left rs s) \<le> length s"
proof (induction rs s rule: trim_left.induct)
  case (1 rs s)
  show ?case
  proof (cases "s = [] \<or> space_at rs s = 0")
    case True
    then show ?thesis by (subst trim_left.simps) auto
  next
    case False
    then have "length (trim_left rs (drop (space_at rs s) s)) \<le> length (drop (space_at rs s) s)"
      by (rule 1)
    then show ?thesis using False by (subst trim_left.simps) simp
  qed
qed

lemma length_trimSpace: "length (trimSpace s) \<le> length s"
  using length_trim_left [of "map rev space_runes" "rev (trim_left space_runes s)"]
    length_trim_left [of space_runes s] by (simp add: trimSpace_def)

lemma traceState_accepted:
  assumes "traceState h \<noteq> []"
  shows "traceState h = trimSpace (headerGet h ''tracestate'')" "length (traceState h) \<le> 512"
    "length (splitOn (CHR '','') (traceState h)) \<le> 32"
    "traceStateMembers [] (splitOn (CHR '','') (traceState h))"
  using assms by (auto simp: traceState_def Let_def split: if_splits)

lemma traceStateMembers_keys:
  "traceStateMembers seen ms \<Longrightarrow>
     distinct (map (\<lambda>m. fst (cut (CHR ''='') (trimSpace m))) ms)
     \<and> (\<forall>m \<in> set ms. fst (cut (CHR ''='') (trimSpace m)) \<notin> set seen)
     \<and> (\<forall>m \<in> set ms. \<exists>k v. trimSpace m = k @ ''='' @ v \<and> traceStateKeyPattern k \<and> v \<noteq> [] \<and> length v \<le> 256
           \<and> list_all item_char_ok v)"
proof (induction ms arbitrary: seen)
  case Nil
  then show ?case by simp
next
  case (Cons m ms)
  obtain k v f where c: "cut (CHR ''='') (trimSpace m) = (k, v, f)" by (metis prod.exhaust)
  from Cons.prems c have h: "f" "traceStateKeyPattern k" "v \<noteq> []" "length v \<le> 256" "k \<notin> set seen"
    "list_all item_char_ok v" "traceStateMembers (k # seen) ms" by auto
  have "trimSpace m = k @ ''='' @ v" using cut_found [of "CHR ''=''" "trimSpace m" k v] c h(1) by simp
  with Cons.IH [OF h(7)] c h show ?case by fastforce
qed

text \<open>A forwarded \<open>tracestate\<close> is bounded and well formed: it is empty, or at most 512 bytes
  in at most 32 comma-separated members with pairwise distinct keys, each a valid key, an equals
  sign and a value of 1 to 256 printable ASCII characters.\<close>

theorem tracestate_bounded:
  "traceState h = [] \<or>
   (length (traceState h) \<le> 512 \<and> length (splitOn (CHR '','') (traceState h)) \<le> 32
    \<and> distinct (map (\<lambda>m. fst (cut (CHR ''='') (trimSpace m))) (splitOn (CHR '','') (traceState h)))
    \<and> list_all (\<lambda>m. \<exists>k v. trimSpace m = k @ ''='' @ v \<and> traceStateKeyPattern k \<and> v \<noteq> [] \<and> length v \<le> 256
         \<and> list_all item_char_ok v) (splitOn (CHR '','') (traceState h)))"
  using traceState_accepted [of h] traceStateMembers_keys
  by (cases "traceState h = []") (auto simp: list_all_iff)

end
