(* ===== verification/Go_Json.thy ===== *)
theory Go_Json
  imports Gateway_Model
begin

text \<open>
  What the gateway uses of \<open>fmt.Sprint\<close> and of \<open>json.Marshal\<close> on dynamically typed
  values. The decimal text of a float (\<open>%v\<close> and the JSON form) is an argument.
\<close>

section \<open>fmt.Sprint\<close>

fun sprint :: "(float64 \<Rightarrow> string) \<Rightarrow> goval \<Rightarrow> string" where
  "sprint ff VNil = ''<nil>''"
| "sprint ff (VStr s) = s"
| "sprint ff (VInt i) = formatInt i"
| "sprint ff (VInt64 i) = formatInt i"
| "sprint ff (VBool b) = (if b then ''true'' else ''false'')"
| "sprint ff (VNum s) = s"
| "sprint ff (VFloat f) = ff f"
| "sprint ff (VStrs ss) = ''['' @ join ss '' '' @ '']''"
| "sprint ff (VList vs) = ''['' @ join (map (sprint ff) vs) '' '' @ '']''"
| "sprint ff (VObj kvs) =
     ''map['' @ join (map snd (sort_key fst (map (\<lambda>(k, v). (k, k @ '':'' @ sprint ff v)) kvs))) '' '' @ '']''"

section \<open>json.Marshal\<close>

text \<open>
  The escapes of the encoder with HTML escaping on (its default): quotes, backslashes, control
  characters, \<open><\<close>, \<open>>\<close>, \<open>&\<close>, U+2028 and U+2029, and U+FFFD for invalid bytes.
\<close>

definition json_escape_byte :: "char \<Rightarrow> string" where
  "json_escape_byte c =
     (if c = CHR 0x22 \<or> c = CHR 0x5C then [CHR 0x5C, c]
      else if byte c = 8 then [CHR 0x5C, CHR ''b'']
      else if byte c = 12 then [CHR 0x5C, CHR ''f'']
      else if byte c = 10 then [CHR 0x5C, CHR ''n'']
      else if byte c = 13 then [CHR 0x5C, CHR ''r'']
      else if byte c = 9 then [CHR 0x5C, CHR ''t'']
      else if byte c < 32 \<or> c = CHR ''<'' \<or> c = CHR ''>'' \<or> c = CHR ''&'' then
        [CHR 0x5C, CHR ''u'', CHR ''0'', CHR ''0'', lower_hex (byte c div 16), lower_hex (byte c mod 16)]
      else [c])"

function json_chars :: "string \<Rightarrow> string" where
  "json_chars s =
     (case s of
        [] \<Rightarrow> []
      | c # r \<Rightarrow>
          (if byte c < 128 then json_escape_byte c @ json_chars r
           else if rune_len s = 0 then CHR 0x5C # ''ufffd'' @ json_chars r
           else if take 3 s = [CHR 0xE2, CHR 0x80, CHR 0xA8] then CHR 0x5C # ''u2028'' @ json_chars (drop 3 s)
           else if take 3 s = [CHR 0xE2, CHR 0x80, CHR 0xA9] then CHR 0x5C # ''u2029'' @ json_chars (drop 3 s)
           else take (rune_len s) s @ json_chars (drop (rune_len s) s)))"
  by pat_completeness auto
termination
  by (relation "measure length") auto

declare json_chars.simps [simp del]

definition json_string :: "string \<Rightarrow> string" where
  "json_string s = CHR 0x22 # json_chars s @ [CHR 0x22]"

text \<open>\<open>json.isValidNumber\<close>.\<close>

definition skip_digits :: "string \<Rightarrow> string option" where
  "skip_digits s = (case s of c # r \<Rightarrow> (if is_digit c then Some (dropWhile is_digit r) else None) | [] \<Rightarrow> None)"

definition isValidNumber :: "string \<Rightarrow> bool" where
  "isValidNumber s =
     (let s1 = trimPrefix s ''-'';
          s2 = (case s1 of
                  c # r \<Rightarrow> (if c = CHR ''0'' then Some r else skip_digits s1)
                | [] \<Rightarrow> None)
      in case s2 of
           None \<Rightarrow> False
         | Some r \<Rightarrow>
             (let s3 = (case r of
                          d # e # r' \<Rightarrow> (if d = CHR ''.'' \<and> is_digit e then dropWhile is_digit r' else r)
                        | _ \<Rightarrow> r)
              in case s3 of
                   e # d # r' \<Rightarrow>
                     (if e = CHR ''e'' \<or> e = CHR ''E'' then
                        (let t = (if d = CHR ''+'' \<or> d = CHR ''-'' then r' else d # r')
                         in t \<noteq> [] \<and> dropWhile is_digit t = [])
                      else False)
                 | [] \<Rightarrow> True
                 | _ \<Rightarrow> False))"

fun seq_opt :: "'a option list \<Rightarrow> 'a list option" where
  "seq_opt [] = Some []"
| "seq_opt (None # xs) = None"
| "seq_opt (Some x # xs) = map_option (Cons x) (seq_opt xs)"

text \<open>
  \<open>json.Marshal\<close> of a value; \<open>None\<close> is its error (a float that is not finite, a
  \<open>json.Number\<close> that is no number). Map keys are sorted.
\<close>

fun json_marshal :: "(float64 \<Rightarrow> string) \<Rightarrow> goval \<Rightarrow> string option" where
  "json_marshal ff VNil = Some ''null''"
| "json_marshal ff (VStr s) = Some (json_string s)"
| "json_marshal ff (VInt i) = Some (formatInt i)"
| "json_marshal ff (VInt64 i) = Some (formatInt i)"
| "json_marshal ff (VBool b) = Some (if b then ''true'' else ''false'')"
| "json_marshal ff (VNum s) = (if s = [] then Some ''0'' else if isValidNumber s then Some s else None)"
| "json_marshal ff (VFloat f) = (case f of FNum _ \<Rightarrow> Some (ff f) | _ \<Rightarrow> None)"
| "json_marshal ff (VStrs ss) = Some (''['' @ join (map json_string ss) '','' @ '']'')"
| "json_marshal ff (VList vs) =
     map_option (\<lambda>xs. ''['' @ join xs '','' @ '']'') (seq_opt (map (json_marshal ff) vs))"
| "json_marshal ff (VObj kvs) =
     map_option (\<lambda>xs. ''{'' @ join xs '','' @ ''}'')
       (seq_opt (map snd (sort_key fst
          (map (\<lambda>(k, v). (k, map_option (\<lambda>t. json_string k @ '':'' @ t) (json_marshal ff v))) kvs))))"

end
