(* ===== verification/Invoke_Request.thy ===== *)
theory Invoke_Request
  imports Invoke_Args Httpx_Trace Go_Json
begin

text \<open>
  Construction of the upstream request, \<open>internal/invoke/request.go\<close>. The random bytes of the
  trace context and the decimal text of a float are arguments; the arguments map is ranged over in
  the order of its list, which stands for any order of the Go map.
\<close>

definition safeHeaderValue :: "string \<Rightarrow> bool" where
  "safeHeaderValue value \<longleftrightarrow>
     validString value \<and> list_all (\<lambda>c. \<not> (byte c < 32 \<and> byte c \<noteq> 9) \<and> byte c \<noteq> 127) value"

text \<open>An \<open>E_INTERNAL\<close> response; of the wrapped cause the gateway's own part is kept.\<close>

definition internalError :: "string \<Rightarrow> api_error" where
  "internalError message =
     (apiError 500 ''E_INTERNAL'' ''internal gateway error'')\<lparr>ae_cause := Some message\<rparr>"

record http_request =
  rq_method :: string
  rq_text :: string
  rq_url :: url
  rq_header :: http_header
  rq_body :: "string option"

text \<open>\<open>http.NewRequestWithContext\<close>: method and URL text are checked, an empty port is dropped.\<close>

definition removeEmptyPort :: "string \<Rightarrow> string" where
  "removeEmptyPort host =
     (case split_last (CHR '':'') host of
        Some (_, p) \<Rightarrow> (if CHR '']'' \<in> set p then host else trimSuffix host '':'')
      | None \<Rightarrow> host)"

definition newRequest :: "string \<Rightarrow> string \<Rightarrow> string option \<Rightarrow> http_request option" where
  "newRequest verb text body =
     (let m = (if verb = [] then ''GET'' else verb)
      in if \<not> list_all token_char m then None
         else map_option (\<lambda>u. \<lparr>rq_method = m, rq_text = text,
                rq_url = u\<lparr>u_host := removeEmptyPort (u_host u)\<rparr>, rq_header = [], rq_body = body\<rparr>)
              (urlParse text))"

definition flag_table :: "compiled_flag list \<Rightarrow> string \<rightharpoonup> compiled_flag" where
  "flag_table flags = map_of (rev (map (\<lambda>f. (cf_name f, f)) flags))"

text \<open>One endpoint segment; a placeholder without a value prints Go's nil.\<close>

definition placeholder_value :: "arguments \<Rightarrow> string \<Rightarrow> goval" where
  "placeholder_value args name = (case map_of args name of Some v \<Rightarrow> v | None \<Rightarrow> VNil)"

definition segment_text :: "(float64 \<Rightarrow> string) \<Rightarrow> arguments \<Rightarrow> string \<Rightarrow> string" where
  "segment_text ff args segment =
     (if hasPrefix segment ''{'' \<and> hasSuffix segment ''}''
      then sprint ff (placeholder_value args (trimSuffix (trimPrefix segment ''{'') ''}''))
      else segment)"

definition request_segments :: "(float64 \<Rightarrow> string) \<Rightarrow> arguments \<Rightarrow> string list \<Rightarrow> string list" where
  "request_segments ff args segs = map (\<lambda>s. pathEscape (segment_text ff args s)) segs"

record request_parts =
  rp_query :: query_values
  rp_body :: "(string, goval) gomap"
  rp_headers :: http_header

definition place_argument ::
  "(float64 \<Rightarrow> string) \<Rightarrow> (string \<rightharpoonup> compiled_flag) \<Rightarrow> string \<times> goval \<Rightarrow> request_parts \<Rightarrow> api_error + request_parts" where
  "place_argument ff flags nv parts =
     (case nv of (name, v) \<Rightarrow>
        (case flags name of
           None \<Rightarrow> Inr parts
         | Some flag \<Rightarrow>
             (if cf_location flag = FlagInQuery then
                (case v of
                   VStrs items \<Rightarrow> Inr (parts\<lparr>rp_query := fold (qadd (cf_queryName flag)) items (rp_query parts)\<rparr>)
                 | _ \<Rightarrow> Inr (parts\<lparr>rp_query := qset (cf_queryName flag) (sprint ff v) (rp_query parts)\<rparr>))
              else if cf_location flag = FlagInBody then
                Inr (parts\<lparr>rp_body := put name v (rp_body parts)\<rparr>)
              else if cf_location flag = FlagInHeader then
                (if safeHeaderValue (sprint ff v)
                 then Inr (parts\<lparr>rp_headers := headerSet (cf_headerName flag) (sprint ff v) (rp_headers parts)\<rparr>)
                 else Inl (argumentError name ''contains forbidden control characters''))
              else Inr parts)))"

fun place_arguments ::
  "(float64 \<Rightarrow> string) \<Rightarrow> (string \<rightharpoonup> compiled_flag) \<Rightarrow> arguments \<Rightarrow> request_parts \<Rightarrow> api_error + request_parts" where
  "place_arguments ff flags [] parts = Inr parts"
| "place_arguments ff flags (nv # args) parts =
     rbind (place_argument ff flags nv parts) (place_arguments ff flags args)"

definition encode_body :: "(float64 \<Rightarrow> string) \<Rightarrow> (string, goval) gomap \<Rightarrow> api_error + string option" where
  "encode_body ff body =
     (if body = [] then Inr None
      else (case json_marshal ff (VObj body) of
              None \<Rightarrow> Inl (internalError ''encode upstream body'')
            | Some encoded \<Rightarrow>
                (if length encoded > 2 ^ 20 then Inl (argumentError ''body'' ''exceeds 1 MiB'')
                 else Inr (Some encoded))))"

definition gateway_headers :: "string \<Rightarrow> string \<Rightarrow> invocation \<Rightarrow> bool \<Rightarrow> http_header \<Rightarrow> http_header" where
  "gateway_headers random spanID iv has_body h =
     (let h = headerSet ''Accept'' ''application/json'' h;
          h = headerSet ''User-Agent'' ''cli-gateway/upstream'' h;
          h = headerSet ''X-Cli-Gateway-Trace-Id'' (inv_traceID iv) h;
          h = headerSet ''traceparent'' (traceParent random spanID (inv_traceID iv)) h;
          h = (if inv_traceState iv \<noteq> [] then headerSet ''tracestate'' (inv_traceState iv) h else h)
      in if has_body then headerSet ''Content-Type'' ''application/json'' h else h)"

text \<open>
  \<open>buildRequest\<close>. A command without an upstream URL is a nil dereference, which the recovery
  middleware reports as \<open>E_INTERNAL\<close>.
\<close>

definition buildRequest ::
  "(float64 \<Rightarrow> string) \<Rightarrow> string \<Rightarrow> string \<Rightarrow> invocation \<Rightarrow> arguments \<Rightarrow> api_error + http_request" where
  "buildRequest ff random spanID iv args =
     (let c = inv_command iv
      in case cmd_upstream c of
           None \<Rightarrow> Inl (internalError ''nil pointer dereference'')
         | Some up \<Rightarrow>
             (let segs = request_segments ff args (cmd_endpointSegments c);
                  rawPath = trimSuffix (escapedPath up) ''/'' @ ''/'' @ join segs ''/''
              in case pathUnescape rawPath of
                   None \<Rightarrow> Inl (internalError ''construct upstream path'')
                 | Some decodedPath \<Rightarrow>
                     rbind (place_arguments ff (flag_table (cmd_flags c)) args
                              \<lparr>rp_query = parseQuery (u_rawQuery up), rp_body = [], rp_headers = []\<rparr>) (\<lambda>parts.
                     rbind (encode_body ff (rp_body parts)) (\<lambda>body.
                     (let destination = up\<lparr>u_path := decodedPath, u_rawPath := rawPath,
                                           u_rawQuery := encodeQuery (rp_query parts)\<rparr>
                      in case newRequest (cmd_method c) (urlString destination) body of
                           None \<Rightarrow> Inl (internalError ''construct upstream request'')
                         | Some rq \<Rightarrow>
                             Inr (rq\<lparr>rq_header :=
                               gateway_headers random spanID iv (rp_body parts \<noteq> []) (rp_headers parts)\<rparr>))))))"


section \<open>Facts\<close>

lemma buildRequest_Inr:
  assumes "buildRequest ff random spanID iv args = Inr rq" "cmd_upstream (inv_command iv) = Some up"
  obtains decodedPath parts body rq0 where
    "pathUnescape (trimSuffix (escapedPath up) ''/'' @ ''/''
       @ join (request_segments ff args (cmd_endpointSegments (inv_command iv))) ''/'') = Some decodedPath"
    "place_arguments ff (flag_table (cmd_flags (inv_command iv))) args
       \<lparr>rp_query = parseQuery (u_rawQuery up), rp_body = [], rp_headers = []\<rparr> = Inr parts"
    "encode_body ff (rp_body parts) = Inr body"
    "newRequest (cmd_method (inv_command iv)) (urlString (up\<lparr>u_path := decodedPath,
       u_rawPath := trimSuffix (escapedPath up) ''/'' @ ''/''
         @ join (request_segments ff args (cmd_endpointSegments (inv_command iv))) ''/'',
       u_rawQuery := encodeQuery (rp_query parts)\<rparr>)) body = Some rq0"
    "rq = rq0\<lparr>rq_header := gateway_headers random spanID iv (rp_body parts \<noteq> []) (rp_headers parts)\<rparr>"
  using assms unfolding buildRequest_def Let_def
  by (auto simp: rbind_Inr split: option.splits)

lemma newRequest_fields:
  "newRequest m t b = Some rq \<Longrightarrow> rq_text rq = t \<and> rq_body rq = b \<and> rq_header rq = [] \<and> urlParse t \<noteq> None"
  by (auto simp: newRequest_def Let_def split: if_splits)

lemma encode_body_bounded: "encode_body ff parts = Inr (Some b) \<Longrightarrow> length b \<le> 2 ^ 20"
  by (auto simp: encode_body_def split: if_splits option.splits)

text \<open>The part of the URL text in front of the endpoint's segments depends on the command only.\<close>

definition upstream_base :: "url \<Rightarrow> string" where
  "upstream_base up =
     (let b = trimSuffix (escapedPath up) ''/''
      in u_scheme up @ ''://'' @ escape EncHost (u_host up) @ (if b = [] \<or> hd b = CHR ''/'' then b else CHR ''/'' # b))"

lemma urlString_http:
  assumes "u_scheme u \<noteq> []" "u_opaque u = []" "u_user u = None" "u_host u \<noteq> []" "u_fragment u = []"
    "escapedPath u = b @ ''/'' @ p"
  shows "urlString u = u_scheme u @ ''://'' @ escape EncHost (u_host u)
           @ (if b = [] \<or> hd b = CHR ''/'' then b else CHR ''/'' # b) @ ''/'' @ p
           @ (if u_forceQuery u \<or> u_rawQuery u \<noteq> [] then ''?'' @ u_rawQuery u else [])"
  using assms by (simp add: urlString_def Let_def hd_append)

lemma request_segments_safe:
  assumes "s \<in> set (request_segments ff args segs)"
  shows "CHR ''/'' \<notin> set s \<and> CHR ''?'' \<notin> set s \<and> CHR ''#'' \<notin> set s"
  using assms slash_not_in_pathEscape query_not_in_pathEscape by (auto simp: request_segments_def)

lemma built_path_valid:
  "validEncoded EncPath (trimSuffix (escapedPath up) ''/'' @ ''/'' @ join (request_segments ff args segs) ''/'')"
proof -
  have "validEncoded EncPath (join (request_segments ff args segs) ''/'')"
    by (rule validEncoded_join) (auto simp: request_segments_def validEncoded_pathEscape)
  moreover have "validEncoded EncPath ''/''" by (simp add: validEncoded_def shouldEscape_def)
  ultimately show ?thesis by (simp only: validEncoded_append validEncoded_trimSuffix validEncoded_escapedPath)
qed

lemma compiled_upstream:
  assumes "command_compiled c" "cmd_upstream c = Some up"
  shows "u_scheme up \<noteq> []" "u_opaque up = []" "u_user up = None" "u_host up \<noteq> []" "u_fragment up = []"
    "u_rawQuery up = []"
  using assms by (auto simp: command_compiled_def dest: hostname_host)

definition query_text :: "url \<Rightarrow> query_values \<Rightarrow> string" where
  "query_text up q = (if u_forceQuery up \<or> encodeQuery q \<noteq> [] then ''?'' @ encodeQuery q else [])"

lemma request_text:
  assumes "command_compiled (inv_command iv)" "cmd_upstream (inv_command iv) = Some up"
    "buildRequest ff random spanID iv args = Inr rq"
  obtains parts where
    "place_arguments ff (flag_table (cmd_flags (inv_command iv))) args
       \<lparr>rp_query = [], rp_body = [], rp_headers = []\<rparr> = Inr parts"
    "rq_text rq = upstream_base up @ ''/''
       @ join (request_segments ff args (cmd_endpointSegments (inv_command iv))) ''/''
       @ query_text up (rp_query parts)"
    "rq_header rq = gateway_headers random spanID iv (rp_body parts \<noteq> []) (rp_headers parts)"
    "encode_body ff (rp_body parts) = Inr (rq_body rq)"
proof -
  let ?segs = "request_segments ff args (cmd_endpointSegments (inv_command iv))"
  let ?raw = "trimSuffix (escapedPath up) ''/'' @ ''/'' @ join ?segs ''/''"
  note up = compiled_upstream [OF assms(1,2)]
  obtain dp parts body rq0 where
    dp: "pathUnescape ?raw = Some dp" and
    parts: "place_arguments ff (flag_table (cmd_flags (inv_command iv))) args
       \<lparr>rp_query = parseQuery (u_rawQuery up), rp_body = [], rp_headers = []\<rparr> = Inr parts" and
    body: "encode_body ff (rp_body parts) = Inr body" and
    rq0: "newRequest (cmd_method (inv_command iv)) (urlString (up\<lparr>u_path := dp, u_rawPath := ?raw,
       u_rawQuery := encodeQuery (rp_query parts)\<rparr>)) body = Some rq0" and
    rq: "rq = rq0\<lparr>rq_header := gateway_headers random spanID iv (rp_body parts \<noteq> []) (rp_headers parts)\<rparr>"
    by (rule buildRequest_Inr [OF assms(3,2)])
  let ?u = "up\<lparr>u_path := dp, u_rawPath := ?raw, u_rawQuery := encodeQuery (rp_query parts)\<rparr>"
  have ep: "escapedPath ?u = trimSuffix (escapedPath up) ''/'' @ ''/'' @ join ?segs ''/''"
    by (rule escapedPath_raw [OF _ built_path_valid dp]) simp
  have "urlString ?u = upstream_base up @ ''/'' @ join ?segs ''/'' @ query_text up (rp_query parts)"
    using urlString_http [OF _ _ _ _ _ ep] up by (simp add: upstream_base_def Let_def query_text_def)
  then have "rq_text rq = upstream_base up @ ''/'' @ join ?segs ''/'' @ query_text up (rp_query parts)"
    using newRequest_fields [OF rq0] rq by simp
  moreover have "encode_body ff (rp_body parts) = Inr (rq_body rq)" "place_arguments ff
      (flag_table (cmd_flags (inv_command iv))) args \<lparr>rp_query = [], rp_body = [], rp_headers = []\<rparr> = Inr parts"
    using newRequest_fields [OF rq0] rq body parts up by simp_all
  ultimately show ?thesis using that rq by simp
qed

text \<open>C9. A value placed in the path cannot change the shape of the upstream URL: the request text
  is the command's own base, one escaped segment per endpoint segment and a query; no segment holds
  a slash, a question mark or a hash, and each unescapes to exactly the text of its argument (or
  the literal segment).\<close>

theorem path_arguments_confined:
  assumes "command_compiled (inv_command iv)" "cmd_upstream (inv_command iv) = Some up"
    "buildRequest ff random spanID iv args = Inr rq"
  shows "\<exists>segs query. rq_text rq = upstream_base up @ ''/'' @ join segs ''/'' @ query
    \<and> (query = [] \<or> hd query = CHR ''?'') \<and> CHR ''#'' \<notin> set query
    \<and> map pathUnescape segs = map (\<lambda>s. Some (segment_text ff args s)) (cmd_endpointSegments (inv_command iv))
    \<and> (\<forall>s \<in> set segs. CHR ''/'' \<notin> set s \<and> CHR ''?'' \<notin> set s \<and> CHR ''#'' \<notin> set s)"
proof -
  let ?segs = "request_segments ff args (cmd_endpointSegments (inv_command iv))"
  obtain parts where "place_arguments ff (flag_table (cmd_flags (inv_command iv))) args
       \<lparr>rp_query = [], rp_body = [], rp_headers = []\<rparr> = Inr parts" and
    t: "rq_text rq = upstream_base up @ ''/'' @ join ?segs ''/'' @ query_text up (rp_query parts)" and
    "rq_header rq = gateway_headers random spanID iv (rp_body parts \<noteq> []) (rp_headers parts)"
    "encode_body ff (rp_body parts) = Inr (rq_body rq)"
    by (rule request_text [OF assms])
  have "query_text up (rp_query parts) = [] \<or> hd (query_text up (rp_query parts)) = CHR ''?''"
    "CHR ''#'' \<notin> set (query_text up (rp_query parts))"
    using encodeQuery_no_hash by (auto simp: query_text_def)
  moreover have "map pathUnescape ?segs = map (\<lambda>s. Some (segment_text ff args s)) (cmd_endpointSegments (inv_command iv))"
    by (simp add: request_segments_def)
  ultimately show ?thesis using t request_segments_safe by blast
qed

section \<open>Query, headers and body\<close>

lemma flag_table_in: "flag_table flags n = Some f \<Longrightarrow> f \<in> set flags \<and> cf_name f = n"
  by (auto simp: flag_table_def dest!: map_of_SomeD)

lemma flag_table_distinct:
  assumes "distinct (map cf_name flags)" "f \<in> set flags"
  shows "flag_table flags (cf_name f) = Some f"
  unfolding flag_table_def
  using assms by (intro map_of_is_SomeI) (simp_all add: comp_def rev_map [symmetric])

definition query_items :: "(float64 \<Rightarrow> string) \<Rightarrow> goval \<Rightarrow> string list" where
  "query_items ff v = (case v of VStrs items \<Rightarrow> items | _ \<Rightarrow> [sprint ff v])"

lemma fold_qadd_items: "qget (fold (qadd k) items q) k' = (if k' = k then qget q k @ items else qget q k')"
  by (induction items arbitrary: q) auto

lemma wf_fold_qadd [simp]: "wf_map q \<Longrightarrow> wf_map (fold (qadd k) items q)"
  by (induction items arbitrary: q) auto

lemma place_argument_query:
  assumes "place_argument ff T (n, v) parts = Inr parts'"
    "\<And>g. T n = Some g \<Longrightarrow> cf_location g = FlagInQuery \<Longrightarrow> cf_queryName g = k \<Longrightarrow> n = m"
    "n \<noteq> m"
  shows "qget (rp_query parts') k = qget (rp_query parts) k"
  using assms
  by (auto simp: place_argument_def fold_qadd_items split: option.splits if_splits goval.splits)

lemma place_argument_wf:
  "place_argument ff T nv parts = Inr parts' \<Longrightarrow> wf_map (rp_query parts) \<Longrightarrow> wf_map (rp_query parts')"
  by (auto simp: place_argument_def split: prod.splits option.splits if_splits goval.splits)

lemma place_arguments_wf:
  "place_arguments ff T args parts = Inr parts' \<Longrightarrow> wf_map (rp_query parts) \<Longrightarrow> wf_map (rp_query parts')"
  by (induction args arbitrary: parts) (auto simp: rbind_Inr dest: place_argument_wf)

lemma place_arguments_absent:
  assumes "place_arguments ff T args parts = Inr parts'" "m \<notin> set (keys args)"
    "\<And>n g. T n = Some g \<Longrightarrow> cf_location g = FlagInQuery \<Longrightarrow> cf_queryName g = k \<Longrightarrow> n = m"
  shows "qget (rp_query parts') k = qget (rp_query parts) k"
  using assms(1,2)
proof (induction args arbitrary: parts)
  case (Cons nv args)
  obtain n v where [simp]: "nv = (n, v)" by (cases nv)
  from Cons.prems obtain p where "place_argument ff T (n, v) parts = Inr p"
    "place_arguments ff T args p = Inr parts'" by (auto simp: rbind_Inr)
  with Cons.IH [of p] Cons.prems(2) place_argument_query [of ff T n v parts p k m, OF _ assms(3)]
  show ?case by auto
qed simp

lemma place_arguments_query:
  assumes "place_arguments ff T args parts = Inr parts'" "wf_map args" "map_of args m = Some v"
    "T m = Some f" "cf_location f = FlagInQuery" "cf_queryName f = k" "qget (rp_query parts) k = []"
    "\<And>n g. T n = Some g \<Longrightarrow> cf_location g = FlagInQuery \<Longrightarrow> cf_queryName g = k \<Longrightarrow> n = m"
  shows "qget (rp_query parts') k = query_items ff v"
  using assms(1-3,7)
proof (induction args arbitrary: parts)
  case (Cons nv args)
  obtain n w where nv [simp]: "nv = (n, w)" by (cases nv)
  from Cons.prems(1) obtain p where p: "place_argument ff T (n, w) parts = Inr p"
    "place_arguments ff T args p = Inr parts'" by (auto simp: rbind_Inr)
  show ?case
  proof (cases "n = m")
    case True
    then have w: "w = v" and m: "m \<notin> set (keys args)" using Cons.prems(2,3) by (auto simp: wf_map_def)
    have "qget (rp_query p) k = query_items ff v"
      using p(1) True w assms(4-6) Cons.prems(4)
      by (auto simp: place_argument_def query_items_def fold_qadd_items split: goval.splits)
    with place_arguments_absent [OF p(2) m assms(8)] show ?thesis by simp
  next
    case False
    have "qget (rp_query p) k = []"
      using place_argument_query [OF p(1) assms(8) False] Cons.prems(4) by simp
    with Cons.IH [OF p(2)] Cons.prems(2,3) False show ?thesis by (auto simp: wf_map_def)
  qed
qed simp

lemma validEncoded_no_query: "validEncoded EncPath s \<Longrightarrow> CHR ''?'' \<notin> set s"
  by (induction s) (auto simp: validEncoded_def shouldEscape_def byte_class_defs)

lemma escape_host_no_query: "CHR ''?'' \<notin> set (escape EncHost s)"
  using set_escape [of "CHR ''?''" EncHost s] by (auto simp: shouldEscape_def byte_class_defs)

lemma upstream_base_no_query:
  assumes "command_compiled c" "cmd_upstream c = Some up"
  shows "CHR ''?'' \<notin> set (upstream_base up)"
proof -
  have "CHR ''?'' \<notin> set (u_scheme up)" using assms by (auto simp: command_compiled_def)
  moreover have "CHR ''?'' \<notin> set (trimSuffix (escapedPath up) ''/'')"
    by (rule validEncoded_no_query [OF validEncoded_trimSuffix [OF validEncoded_escapedPath]])
  ultimately show ?thesis using escape_host_no_query by (simp add: upstream_base_def Let_def)
qed

lemma cut_query_text:
  assumes "CHR ''?'' \<notin> set pre"
  shows "fst (snd (cut (CHR ''?'') (pre @ query_text up q))) = encodeQuery q"
proof (cases "u_forceQuery up \<or> encodeQuery q \<noteq> []")
  case True
  then show ?thesis using cut_append [OF assms] by (simp add: query_text_def)
next
  case False
  have "cut (CHR ''?'') pre = (pre, [], False)" using assms by (induction pre) auto
  with False show ?thesis by (simp add: query_text_def)
qed



text \<open>The headers an argument can set, and the ones the gateway sets itself.\<close>

definition flag_header :: "compiled_flag list \<Rightarrow> string \<Rightarrow> string list \<Rightarrow> bool" where
  "flag_header flags k vs \<longleftrightarrow>
     (\<exists>f \<in> set flags. cf_location f = FlagInHeader \<and> k = canonicalHeaderKey (cf_headerName f)
        \<and> (\<exists>v. vs = [v] \<and> safeHeaderValue v))"

lemma in_set_put: "p \<in> set (put k v m) \<Longrightarrow> p = (k, v) \<or> p \<in> set m"
  by (induction m) (auto split: if_splits)

lemma place_argument_headers:
  "place_argument ff T nv parts = Inr parts' \<Longrightarrow>
     rp_headers parts' = rp_headers parts
     \<or> (\<exists>f v. T (fst nv) = Some f \<and> cf_location f = FlagInHeader \<and> safeHeaderValue v
          \<and> rp_headers parts' = headerSet (cf_headerName f) v (rp_headers parts))"
  by (cases "T (fst nv)"; cases nv) (auto simp: place_argument_def split: if_splits goval.splits)

lemma place_arguments_headers:
  assumes "place_arguments ff (flag_table flags) args parts = Inr parts'"
    "\<And>k vs. (k, vs) \<in> set (rp_headers parts) \<Longrightarrow> flag_header flags k vs" "(k, vs) \<in> set (rp_headers parts')"
  shows "flag_header flags k vs"
  using assms
proof (induction args arbitrary: parts)
  case (Cons nv args)
  then obtain p where p: "place_argument ff (flag_table flags) nv parts = Inr p"
    "place_arguments ff (flag_table flags) args p = Inr parts'" by (auto simp: rbind_Inr)
  have "flag_header flags k vs" if "(k, vs) \<in> set (rp_headers p)" for k vs
    using place_argument_headers [OF p(1)]
  proof (elim disjE exE conjE)
    assume "rp_headers p = rp_headers parts"
    then show ?thesis using that Cons.prems(2) by simp
  next
    fix f v assume f: "flag_table flags (fst nv) = Some f" "cf_location f = FlagInHeader" "safeHeaderValue v"
      "rp_headers p = headerSet (cf_headerName f) v (rp_headers parts)"
    from f(1) have "f \<in> set flags" by (simp add: flag_table_in)
    with f that Cons.prems(2) show ?thesis by (auto simp: headerSet_def flag_header_def dest!: in_set_put)
  qed
  from Cons.IH [OF p(2) this Cons.prems(3)] show ?case .
qed simp

text \<open>A header flag never denotes a protected header.\<close>

lemma canonical_protected:
  assumes "forbiddenHeader n" "list_all token_char n" "\<not> forbiddenHeader m" "list_all token_char m"
  shows "canonicalHeaderKey n \<noteq> canonicalHeaderKey m"
  using canonical_eq_toLower [OF assms(2,4)] assms(1,3) by (auto simp: forbiddenHeader_def Let_def)

lemma flag_header_unprotected:
  assumes "flag_compiled f" "cf_location f = FlagInHeader" "forbiddenHeader n" "list_all token_char n"
  shows "canonicalHeaderKey n \<noteq> canonicalHeaderKey (cf_headerName f)"
proof (rule canonical_protected [OF assms(3,4)])
  show "list_all token_char (cf_headerName f)" "\<not> forbiddenHeader (cf_headerName f)"
    using assms(1,2) by (simp_all add: flag_compiled_def headerNamePattern_def token_char_def [abs_def])
qed

lemma map_of_headerSet:
  "map_of (headerSet n v h) k = (if k = canonicalHeaderKey n then Some [v] else map_of h k)"
  by (simp add: headerSet_def)

lemma gateway_header_keys:
  "canonicalHeaderKey ''Accept'' = ''Accept''" "canonicalHeaderKey ''User-Agent'' = ''User-Agent''"
  "canonicalHeaderKey ''X-Cli-Gateway-Trace-Id'' = ''X-Cli-Gateway-Trace-Id''"
  "canonicalHeaderKey ''traceparent'' = ''Traceparent''" "canonicalHeaderKey ''tracestate'' = ''Tracestate''"
  "canonicalHeaderKey ''Content-Type'' = ''Content-Type''"
  by code_simp+

lemma gateway_names_unprotected:
  "\<not> forbiddenHeader ''Content-Type''" "\<not> forbiddenHeader ''tracestate''" "\<not> forbiddenHeader ''traceparent''"
  "\<not> forbiddenHeader ''User-Agent''" "\<not> forbiddenHeader ''Accept''"
  by code_simp+

lemma gateway_names_tokens:
  "list_all token_char ''Content-Type''" "list_all token_char ''tracestate''" "list_all token_char ''traceparent''"
  "list_all token_char ''User-Agent''" "list_all token_char ''Accept''"
  by code_simp+

lemma map_of_gateway_headers:
  "map_of (gateway_headers random spanID iv b h) k =
     (if k = ''Content-Type'' \<and> b then Some [''application/json'']
      else if k = ''Tracestate'' \<and> inv_traceState iv \<noteq> [] then Some [inv_traceState iv]
      else if k = ''Traceparent'' then Some [traceParent random spanID (inv_traceID iv)]
      else if k = ''X-Cli-Gateway-Trace-Id'' then Some [inv_traceID iv]
      else if k = ''User-Agent'' then Some [''cli-gateway/upstream'']
      else if k = ''Accept'' then Some [''application/json''] else map_of h k)"
  by (simp add: gateway_headers_def Let_def map_of_headerSet gateway_header_keys)

lemma protected_header_absent:
  assumes "command_compiled (inv_command iv)" "cmd_upstream (inv_command iv) = Some up"
    "buildRequest ff random spanID iv args = Inr rq"
    and n: "forbiddenHeader n" "list_all token_char n" "canonicalHeaderKey n \<noteq> ''X-Cli-Gateway-Trace-Id''"
  shows "map_of (rq_header rq) (canonicalHeaderKey n) = None"
proof -
  let ?F = "cmd_flags (inv_command iv)"
  obtain parts where parts: "place_arguments ff (flag_table ?F) args \<lparr>rp_query = [], rp_body = [], rp_headers = []\<rparr> = Inr parts"
    and h: "rq_header rq = gateway_headers random spanID iv (rp_body parts \<noteq> []) (rp_headers parts)"
    by (rule request_text [OF assms(1-3)])
  have flags: "flag_header ?F k vs" if "map_of (rp_headers parts) k = Some vs" for k vs
    by (rule place_arguments_headers [OF parts _ map_of_SomeD [OF that]]) simp
  have "\<not> flag_header ?F (canonicalHeaderKey n) vs" for vs
    using assms(1) flag_header_unprotected [OF _ _ n(1,2)]
    unfolding flag_header_def command_compiled_def by metis
  then have "map_of (rp_headers parts) (canonicalHeaderKey n) = None"
    using flags by (metis not_None_eq)
  moreover have "canonicalHeaderKey n \<notin> {''Content-Type'', ''Tracestate'', ''Traceparent'', ''User-Agent'', ''Accept''}"
    using canonical_protected [OF n(1,2) gateway_names_unprotected(1) gateway_names_tokens(1)]
      canonical_protected [OF n(1,2) gateway_names_unprotected(2) gateway_names_tokens(2)]
      canonical_protected [OF n(1,2) gateway_names_unprotected(3) gateway_names_tokens(3)]
      canonical_protected [OF n(1,2) gateway_names_unprotected(4) gateway_names_tokens(4)]
      canonical_protected [OF n(1,2) gateway_names_unprotected(5) gateway_names_tokens(5)]
    by (simp add: gateway_header_keys)
  ultimately show ?thesis using n(3) by (simp add: h map_of_gateway_headers)
qed

text \<open>C10. The protected headers are out of reach of the caller: whatever the arguments, the request
  carries the gateway's trace headers, no protected header (authorization, cookies, host,
  forwarding, identity) other than the trace identifier, and every header that comes from an
  argument has one value of valid UTF-8 without control characters; the body is at most 1 MiB.\<close>

theorem protected_headers_unreachable:
  assumes "command_compiled (inv_command iv)" "cmd_upstream (inv_command iv) = Some up"
    "buildRequest ff random spanID iv args = Inr rq"
  shows "map_of (rq_header rq) ''X-Cli-Gateway-Trace-Id'' = Some [inv_traceID iv]
    \<and> map_of (rq_header rq) ''Traceparent'' = Some [traceParent random spanID (inv_traceID iv)]
    \<and> (\<forall>n. forbiddenHeader n \<longrightarrow> list_all token_char n \<longrightarrow> canonicalHeaderKey n \<noteq> ''X-Cli-Gateway-Trace-Id''
          \<longrightarrow> map_of (rq_header rq) (canonicalHeaderKey n) = None)
    \<and> (\<forall>k vs. map_of (rq_header rq) k = Some vs \<longrightarrow>
          k \<in> {''Content-Type'', ''Tracestate'', ''Traceparent'', ''X-Cli-Gateway-Trace-Id'', ''User-Agent'', ''Accept''}
          \<or> flag_header (cmd_flags (inv_command iv)) k vs)
    \<and> (\<forall>b. rq_body rq = Some b \<longrightarrow> length b \<le> 2 ^ 20)"
proof -
  let ?F = "cmd_flags (inv_command iv)"
  obtain parts where parts: "place_arguments ff (flag_table ?F) args \<lparr>rp_query = [], rp_body = [], rp_headers = []\<rparr> = Inr parts"
    and "rq_text rq = upstream_base up @ ''/'' @ join (request_segments ff args (cmd_endpointSegments (inv_command iv))) ''/''
       @ query_text up (rp_query parts)"
    and h: "rq_header rq = gateway_headers random spanID iv (rp_body parts \<noteq> []) (rp_headers parts)"
    and b: "encode_body ff (rp_body parts) = Inr (rq_body rq)"
    by (rule request_text [OF assms])
  have flags: "flag_header ?F k vs" if "map_of (rp_headers parts) k = Some vs" for k vs
    by (rule place_arguments_headers [OF parts _ map_of_SomeD [OF that]]) simp
  note none = protected_header_absent [OF assms]
  have "map_of (rq_header rq) k = Some vs \<longrightarrow>
          k \<in> {''Content-Type'', ''Tracestate'', ''Traceparent'', ''X-Cli-Gateway-Trace-Id'', ''User-Agent'', ''Accept''}
          \<or> flag_header ?F k vs" for k vs
    using flags by (simp add: h map_of_gateway_headers)
  with none encode_body_bounded [of ff "rp_body parts"] show ?thesis
    by (simp add: b) (simp add: h map_of_gateway_headers)
qed


section \<open>Witnesses\<close>

definition demo_build :: "arguments \<Rightarrow> api_error + http_request" where
  "demo_build args = buildRequest (\<lambda>_. []) ''0123456789abcdef'' ''01234567'' (demo_invocation demo_get) args"

definition demo_values :: arguments where
  "demo_values = [(''id'', VStr ''a/b?c''), (''tag'', VStrs [''x&y'', ''z'']), (''locale'', VStr ''en'')]"

definition demo_request :: http_request where
  "demo_request = projr (demo_build demo_values)"

lemma demo_built: "buildRequest (\<lambda>_. []) ''0123456789abcdef'' ''01234567'' (demo_invocation demo_get) demo_values
    = Inr demo_request"
proof -
  have "\<not> isl (demo_build demo_values)" by code_simp
  then show ?thesis by (simp add: demo_request_def demo_build_def)
qed

definition demo_upstream :: url where
  "demo_upstream = the (urlParse ''https://api.example.com/base'')"

lemma demo_get_upstream: "cmd_upstream demo_get = Some demo_upstream"
  by code_simp

theorem path_arguments_confined_witness:
  "\<exists>segs query. rq_text demo_request = upstream_base demo_upstream @ ''/'' @ join segs ''/'' @ query
     \<and> map pathUnescape segs = [Some ''items'', Some ''a/b?c'']"
proof -
  have "map (\<lambda>s. Some (segment_text (\<lambda>_. []) demo_values s)) (cmd_endpointSegments demo_get)
      = [Some ''items'', Some ''a/b?c'']" by code_simp
  with path_arguments_confined [of "demo_invocation demo_get" demo_upstream, OF _ _ demo_built]
    demo_commands_compiled(1) demo_get_upstream show ?thesis by auto
qed

definition tag_flag :: compiled_flag where
  "tag_flag = cmd_flags demo_get ! 1"


theorem protected_headers_unreachable_witness:
  "map_of (rq_header demo_request) ''X-Cli-Gateway-Trace-Id'' = Some [''0123456789abcdef0123456789abcdef'']
   \<and> map_of (rq_header demo_request) ''Authorization'' = None"
proof -
  have auth: "forbiddenHeader ''Authorization''" "list_all token_char ''Authorization''"
    "canonicalHeaderKey ''Authorization'' = ''Authorization''" by code_simp+
  have id: "inv_traceID (demo_invocation demo_get) = ''0123456789abcdef0123456789abcdef''"
    by (simp add: demo_invocation_def)
  note facts = protected_headers_unreachable [of "demo_invocation demo_get" demo_upstream, OF _ _ demo_built,
      unfolded demo_invocation_command id, OF demo_commands_compiled(1) demo_get_upstream]
  from facts have "map_of (rq_header demo_request) ''X-Cli-Gateway-Trace-Id'' = Some [''0123456789abcdef0123456789abcdef'']"
    by (rule conjunct1)
  moreover from facts have "\<forall>n. forbiddenHeader n \<longrightarrow> list_all token_char n
      \<longrightarrow> canonicalHeaderKey n \<noteq> ''X-Cli-Gateway-Trace-Id''
      \<longrightarrow> map_of (rq_header demo_request) (canonicalHeaderKey n) = None" by (elim conjE)
  from spec [OF this, of "''Authorization''", unfolded auth(3)] auth(1,2)
  have "map_of (rq_header demo_request) ''Authorization'' = None" by simp
  ultimately show ?thesis by (rule conjI)
qed

text \<open>
  Two behaviours of the code the sources do not announce: a path value of two dots is not escaped, so
  it climbs one level in the upstream path, and a string-array default, which skips normalization,
  is sent as one bracketed query value instead of one value per item.
\<close>

theorem dot_dot_path_value_unescaped:
  "map_sum id rq_text (demo_build [(''id'', VStr ''..'')]) = Inr ''https://api.example.com/base/items/..''"
  by code_simp

theorem array_default_sent_as_one_value:
  "map_sum id rq_text (rbind (validateArguments (\<lambda>_. []) demo_get [(''id'', VStr ''1'')]) demo_build)
     = Inr ''https://api.example.com/base/items/1?tag=%5Ba+b%5D''"
  by code_simp

end
