(* ===== verification/Policy_Catalog.thy ===== *)
theory Policy_Catalog
  imports Manifest_Example
begin

text \<open>
  The fixed invoker-risk and confirmation policy of \<open>internal/policy/policy.go\<close> and the
  command catalog of \<open>internal/catalog/service.go\<close>. The facts relate the two: a command the
  catalog hides is one execution refuses, whatever the confirmation, and a command execution
  refuses for its risk is hidden.
\<close>

section \<open>Policy\<close>

definition restricted :: "invoker \<Rightarrow> compiled_command \<Rightarrow> risk \<Rightarrow> bool" where
  "restricted invoker command aiMaximum \<longleftrightarrow>
     (invoker = InvokerAI \<or> invoker = InvokerUnknown) \<and> riskExceeds (cmd_risk command) aiMaximum"

definition authorize ::
  "principal \<Rightarrow> invoker \<Rightarrow> compiled_command \<Rightarrow> risk \<Rightarrow> bool \<Rightarrow> api_error option" where
  "authorize p invoker command aiMaximum confirmed =
     (if (invoker = InvokerAI \<or> invoker = InvokerUnknown) \<and> riskExceeds (cmd_risk command) aiMaximum then
        Some (apiError 403 ''E_AI_RISK_FORBIDDEN'' ''command risk exceeds the invoker limit'')
      else if cmd_confirm command \<and> \<not> confirmed then
        Some ((apiError 428 ''E_CONFIRM_REQUIRED'' ''command requires confirmation'')
                \<lparr>ae_hint := ''set X-Cli-Gateway-Confirm: true''\<rparr>)
      else None)"

definition visible :: "principal \<Rightarrow> invoker \<Rightarrow> compiled_command \<Rightarrow> risk \<Rightarrow> bool" where
  "visible p invoker command aiMaximum =
     (\<not> ((invoker = InvokerAI \<or> invoker = InvokerUnknown) \<and> riskExceeds (cmd_risk command) aiMaximum))"

lemma authorize_None_iff:
  "authorize p i c m confirmed = None \<longleftrightarrow> visible p i c m \<and> (cmd_confirm c \<longrightarrow> confirmed)"
  by (auto simp: authorize_def visible_def)

lemma authorize_codes:
  "authorize p i c m confirmed = Some e \<Longrightarrow>
     ae_code e = ''E_AI_RISK_FORBIDDEN'' \<and> \<not> visible p i c m
     \<or> ae_code e = ''E_CONFIRM_REQUIRED'' \<and> visible p i c m \<and> cmd_confirm c \<and> \<not> confirmed"
  by (auto simp: authorize_def visible_def split: if_splits)

text \<open>Lowering the trust in the invoker or the permitted risk never admits more.\<close>

lemma visible_antimono: "riskRankOf m \<le> riskRankOf m' \<Longrightarrow> visible p i c m \<Longrightarrow> visible p i c m'"
  by (auto simp: visible_def riskExceeds_def)

section \<open>Catalog\<close>

text \<open>
  A catalog is an optional snapshot (a nil service or a nil snapshot answers nothing). A key that
  is listed but not in the command map reads as a nil pointer; \<open>snapshot_wf\<close> excludes it.
\<close>

type_synonym catalog_service = "snapshot option"

definition resolve_command :: "catalog_service \<Rightarrow> string \<Rightarrow> compiled_command option" where
  "resolve_command s key = (case s of None \<Rightarrow> None | Some sn \<Rightarrow> sn_commands sn key)"

definition resolveTool :: "catalog_service \<Rightarrow> string \<Rightarrow> compiled_command option" where
  "resolveTool s name = (case s of None \<Rightarrow> None | Some sn \<Rightarrow> sn_toolCommands sn name)"

definition listCommands :: "catalog_service \<Rightarrow> compiled_command option list" where
  "listCommands s = (case s of None \<Rightarrow> [] | Some sn \<Rightarrow> map (sn_commands sn) (sn_commandKeys sn))"

definition visibleCommands :: "catalog_service \<Rightarrow> principal \<Rightarrow> invoker \<Rightarrow> compiled_command list" where
  "visibleCommands s p invoker =
     (case s of None \<Rightarrow> []
      | Some sn \<Rightarrow>
          sort_key cmd_key
            (filter (\<lambda>c. visible p invoker c (sn_aiMaxRisk sn))
               (map (\<lambda>k. the (sn_commands sn k)) (sn_commandKeys sn))))"

lemma listed_keys:
  assumes "snapshot_wf s"
  shows "map (\<lambda>k. cmd_key (the (sn_commands s k))) (sn_commandKeys s) = sn_commandKeys s"
proof (rule map_idI)
  fix k assume "k \<in> set (sn_commandKeys s)"
  then show "cmd_key (the (sn_commands s k)) = k"
    by (rule snapshot_wf_lookup [OF assms]) simp
qed

lemma listed_commands:
  assumes "snapshot_wf s"
  shows "c \<in> (\<lambda>k. the (sn_commands s k)) ` set (sn_commandKeys s) \<longleftrightarrow> sn_commands s (cmd_key c) = Some c"
proof
  assume "c \<in> (\<lambda>k. the (sn_commands s k)) ` set (sn_commandKeys s)"
  then obtain k where k: "k \<in> set (sn_commandKeys s)" "c = the (sn_commands s k)" by blast
  from k(1) show "sn_commands s (cmd_key c) = Some c"
    by (rule snapshot_wf_lookup [OF assms]) (use k(2) in simp)
next
  assume c: "sn_commands s (cmd_key c) = Some c"
  then show "c \<in> (\<lambda>k. the (sn_commands s k)) ` set (sn_commandKeys s)"
    using snapshot_wf_command [OF assms c] by (metis image_eqI option.sel)
qed

lemma mem_visibleCommands:
  assumes "snapshot_wf s"
  shows "c \<in> set (visibleCommands (Some s) p i) \<longleftrightarrow>
    resolve_command (Some s) (cmd_key c) = Some c \<and> visible p i c (sn_aiMaxRisk s)"
  using listed_commands [OF assms, of c] by (auto simp: visibleCommands_def resolve_command_def)

lemma visibleCommands_ordered:
  assumes "snapshot_wf s"
  shows "sorted_wrt (<) (map cmd_key (visibleCommands (Some s) p i))"
proof -
  let ?cs = "map (\<lambda>k. the (sn_commands s k)) (sn_commandKeys s)"
  have "map cmd_key ?cs = sn_commandKeys s" using listed_keys [OF assms] by (simp add: comp_def)
  then have "distinct (map cmd_key (filter (\<lambda>c. visible p i c (sn_aiMaxRisk s)) ?cs))"
    using assms by (metis distinct_map_filter snapshot_wf_def)
  then have "distinct (map cmd_key (visibleCommands (Some s) p i))"
    by (simp add: visibleCommands_def distinct_map)
  moreover have "sorted (map cmd_key (visibleCommands (Some s) p i))"
    by (simp add: visibleCommands_def)
  ultimately show ?thesis by (simp add: strict_sorted_iff)
qed

text \<open>The catalog is exactly what the policy would let the caller run when confirmed: for the
  snapshot of an accepted manifest the visible commands are the resolvable commands that execution
  would authorize with confirmation, listed once each in strictly increasing key order.\<close>

theorem visible_commands_are_authorized:
  assumes "validate raw pos = []" "s = compile sha now raw data src"
  shows "set (visibleCommands (Some s) p i) =
           {c. resolve_command (Some s) (cmd_key c) = Some c \<and> authorize p i c (sn_aiMaxRisk s) True = None}
         \<and> sorted_wrt (<) (map cmd_key (visibleCommands (Some s) p i))"
proof -
  have wf: "snapshot_wf s" using assms compile_snapshot_wf by blast
  show ?thesis
    using mem_visibleCommands [OF wf] visibleCommands_ordered [OF wf] by (auto simp: authorize_None_iff)
qed

theorem visible_commands_are_authorized_witness:
  "set (visibleCommands (Some demo_snapshot) demo_principal ''ai'') =
     {c. resolve_command (Some demo_snapshot) (cmd_key c) = Some c
         \<and> authorize demo_principal ''ai'' c (sn_aiMaxRisk demo_snapshot) True = None}
   \<and> sorted_wrt (<) (map cmd_key (visibleCommands (Some demo_snapshot) demo_principal ''ai''))"
  by (rule visible_commands_are_authorized [OF demo_accepted demo_snapshot_def])

end
