(* ===== verification/Breaker.thy ===== *)
theory Breaker
  imports Gateway_Prelude
begin

text \<open>
  The circuit breaker of \<open>internal/breaker/breaker.go\<close>. Every method runs under the
  breaker's mutex, so a concurrent execution is a sequence of method calls; the clock reading of a
  call is its argument. The interface the callers rely on is the locale \<open>probe_gate\<close>: a call
  admitted by \<open>Allow\<close> must be resolved by exactly one of \<open>Success\<close>, \<open>Failure\<close>
  and \<open>Ignore\<close>.
\<close>

record breaker =
  br_threshold :: int
  br_cooldown :: duration
  br_failures :: int
  br_openUntil :: gotime
  br_probing :: bool

definition newBreaker :: "int \<Rightarrow> duration \<Rightarrow> breaker" where
  "newBreaker threshold cooldown =
     \<lparr>br_threshold = (if threshold \<le> 0 then 5 else threshold),
      br_cooldown = (if cooldown \<le> 0 then 30 * second else cooldown),
      br_failures = 0, br_openUntil = zero_time, br_probing = False\<rparr>"

definition allow :: "gotime \<Rightarrow> breaker \<Rightarrow> (bool \<times> duration) \<times> breaker" where
  "allow now b =
     (if is_zero (br_openUntil b) then ((True, 0), b)
      else if now < br_openUntil b then ((False, time_sub (br_openUntil b) now), b)
      else if br_probing b then ((False, br_cooldown b), b)
      else ((True, 0), b\<lparr>br_probing := True\<rparr>))"

definition success :: "breaker \<Rightarrow> breaker" where
  "success b = b\<lparr>br_failures := 0, br_openUntil := zero_time, br_probing := False\<rparr>"

definition ignore :: "breaker \<Rightarrow> breaker" where
  "ignore b = b\<lparr>br_probing := False\<rparr>"

definition failure :: "gotime \<Rightarrow> breaker \<Rightarrow> breaker" where
  "failure now b =
     (let b' = b\<lparr>br_probing := False, br_failures := br_failures b + 1\<rparr>
      in if br_failures b' \<ge> br_threshold b' then b'\<lparr>br_openUntil := now + br_cooldown b'\<rparr> else b')"

definition isOpen :: "gotime \<Rightarrow> breaker \<Rightarrow> bool" where
  "isOpen now b \<longleftrightarrow> \<not> is_zero (br_openUntil b) \<and> now < br_openUntil b"

lemmas breaker_defs = allow_def success_def ignore_def failure_def isOpen_def is_zero_def zero_time_def Let_def

abbreviation admitted :: "gotime \<Rightarrow> breaker \<Rightarrow> bool" where
  "admitted now b \<equiv> fst (fst (allow now b))"

section \<open>Interface: a gate with one probe\<close>

datatype resolution = Succeeded | Failed gotime | Ignored

locale probe_gate =
  fixes admit :: "gotime \<Rightarrow> 'b \<Rightarrow> (bool \<times> duration) \<times> 'b"
    and on_success :: "'b \<Rightarrow> 'b"
    and on_failure :: "gotime \<Rightarrow> 'b \<Rightarrow> 'b"
    and on_ignore :: "'b \<Rightarrow> 'b"
    and probing :: "'b \<Rightarrow> bool"
  assumes success_resolves: "\<not> probing (on_success b)"
    and failure_resolves: "\<not> probing (on_failure t b)"
    and ignore_resolves: "\<not> probing (on_ignore b)"
    and reject_keeps: "\<not> fst (fst (admit t b)) \<Longrightarrow> snd (admit t b) = b"
begin

definition resolve :: "resolution \<Rightarrow> 'b \<Rightarrow> 'b" where
  "resolve r b = (case r of Succeeded \<Rightarrow> on_success b | Failed t \<Rightarrow> on_failure t b | Ignored \<Rightarrow> on_ignore b)"

definition guarded :: "gotime \<Rightarrow> resolution \<Rightarrow> 'b \<Rightarrow> 'b" where
  "guarded t r b = (if fst (fst (admit t b)) then resolve r (snd (admit t b)) else b)"

lemma resolve_not_probing: "\<not> probing (resolve r b)"
  by (cases r) (simp_all add: resolve_def success_resolves failure_resolves ignore_resolves)

lemma guarded_idle: "\<not> probing b \<Longrightarrow> \<not> probing (guarded t r b)"
  by (simp add: guarded_def resolve_not_probing)

lemma guarded_run_idle:
  "\<not> probing b \<Longrightarrow> \<not> probing (fold (\<lambda>(t, r). guarded t r) calls b)"
  by (induction calls arbitrary: b) (auto simp: guarded_idle split: prod.splits)

end

interpretation br: probe_gate allow success failure ignore br_probing
  by unfold_locales (auto simp: breaker_defs split: if_splits)

section \<open>The breaker's own invariant\<close>

text \<open>
  Thresholds and cooldowns are positive, a probe exists only while the breaker is not closed, and
  a closed breaker has not reached its threshold.
\<close>

definition breaker_inv :: "breaker \<Rightarrow> bool" where
  "breaker_inv b \<longleftrightarrow>
     0 < br_threshold b \<and> 0 < br_cooldown b \<and> 0 \<le> br_failures b
     \<and> (br_probing b \<longrightarrow> \<not> is_zero (br_openUntil b))
     \<and> (is_zero (br_openUntil b) \<longleftrightarrow> br_failures b < br_threshold b)"

datatype breaker_event = Allow gotime | Success | Ignore | Failure gotime

fun breaker_step :: "breaker \<Rightarrow> breaker_event \<Rightarrow> breaker" where
  "breaker_step b (Allow t) = snd (allow t b)"
| "breaker_step b Success = success b"
| "breaker_step b Ignore = ignore b"
| "breaker_step b (Failure t) = failure t b"

fun event_time_ok :: "breaker_event \<Rightarrow> bool" where
  "event_time_ok (Failure t) = (0 < t)"
| "event_time_ok _ = True"

lemma newBreaker_inv: "breaker_inv (newBreaker threshold cooldown)"
  by (simp add: breaker_inv_def newBreaker_def is_zero_def zero_time_def dur_defs)

lemma breaker_step_inv: "breaker_inv b \<Longrightarrow> event_time_ok e \<Longrightarrow> breaker_inv (breaker_step b e)"
  by (cases e) (auto simp: breaker_inv_def breaker_defs)

lemma breaker_run_inv:
  "breaker_inv b \<Longrightarrow> list_all event_time_ok es \<Longrightarrow> breaker_inv (foldl breaker_step b es)"
  by (induction es arbitrary: b) (auto simp: breaker_step_inv)

lemma breaker_step_config [simp]:
  "br_threshold (breaker_step b e) = br_threshold b" "br_cooldown (breaker_step b e) = br_cooldown b"
  by (cases e; simp add: breaker_defs)+

section \<open>Opening\<close>

lemma failure_fields:
  "br_failures (failure t b) = br_failures b + 1" "br_threshold (failure t b) = br_threshold b"
  "br_cooldown (failure t b) = br_cooldown b"
  "br_openUntil (failure t b) =
     (if br_failures b + 1 \<ge> br_threshold b then t + br_cooldown b else br_openUntil b)"
  "\<not> br_probing (failure t b)"
  by (simp_all add: failure_def Let_def)

lemma newBreaker_fields:
  "br_failures (newBreaker n c) = 0" "0 < n \<Longrightarrow> br_threshold (newBreaker n c) = n"
  "0 < c \<Longrightarrow> br_cooldown (newBreaker n c) = c"
  by (simp_all add: newBreaker_def)

lemma failures_counted:
  "br_failures (foldl (\<lambda>b t. failure t b) b ts) = br_failures b + int (length ts)"
  by (induction ts arbitrary: b) (auto simp: breaker_defs)

lemma failures_config:
  "br_threshold (foldl (\<lambda>b t. failure t b) b ts) = br_threshold b"
  "br_cooldown (foldl (\<lambda>b t. failure t b) b ts) = br_cooldown b"
  by (induction ts arbitrary: b) (auto simp: breaker_defs)

lemma failures_inv:
  "breaker_inv b \<Longrightarrow> \<forall>t \<in> set ts. 0 < t \<Longrightarrow> breaker_inv (foldl (\<lambda>b t. failure t b) b ts)"
proof (induction ts arbitrary: b)
  case Nil
  then show ?case by simp
next
  case (Cons t ts)
  then have "breaker_inv (failure t b)" using breaker_step_inv [of b "Failure t"] by simp
  with Cons show ?case by simp
qed

text \<open>Closed until the configured number of consecutive failures, then open for the cooldown:
  starting from a fresh breaker with positive threshold and cooldown, after a sequence of
  consecutive failures a call at an instant not later than the last failure plus the cooldown is
  refused exactly when the number of failures has reached the threshold.\<close>

theorem breaker_opens_at_threshold:
  assumes "0 < n" "0 < c" "\<forall>t \<in> set (ts @ [u]). 0 < t" "now < u + c"
  shows "admitted now (foldl (\<lambda>b t. failure t b) (newBreaker n c) (ts @ [u]))
         \<longleftrightarrow> int (length (ts @ [u])) < n"
proof -
  define b where "b = foldl (\<lambda>b t. failure t b) (newBreaker n c) ts"
  have b: "br_failures b = int (length ts)" "br_threshold b = n" "br_cooldown b = c"
    using assms(1,2) by (simp_all add: b_def failures_counted failures_config newBreaker_fields)
  have inv: "breaker_inv (failure u b)"
    using failures_inv [OF newBreaker_inv assms(3), of n c] by (simp add: b_def)
  have "admitted now (failure u b) \<longleftrightarrow> int (length ts) + 1 < n"
    using inv b assms(4) by (auto simp: allow_def breaker_inv_def failure_fields)
  then show ?thesis by (simp add: b_def add.commute)
qed

theorem breaker_opens_at_threshold_witness:
  "admitted 15 (foldl (\<lambda>b t. failure t b) (newBreaker 2 10) ([3] @ [9])) \<longleftrightarrow> int (length ([3::int] @ [9])) < 2"
  by (rule breaker_opens_at_threshold) simp_all

section \<open>Half-open\<close>

text \<open>How many of a sequence of calls to \<open>Allow\<close>, with no resolution in between, are admitted.\<close>

fun admissions :: "breaker \<Rightarrow> gotime list \<Rightarrow> nat" where
  "admissions b [] = 0"
| "admissions b (t # ts) = (if admitted t b then 1 else 0) + admissions (snd (allow t b)) ts"

lemma admissions_probing:
  "br_probing b \<Longrightarrow> \<not> is_zero (br_openUntil b) \<Longrightarrow> admissions b ts = 0"
  by (induction ts) (auto simp: allow_def)

text \<open>Exactly one half-open probe: once the cooldown of an opened breaker has passed, among any
  sequence of calls that arrive before the probe is resolved exactly the first one is admitted.\<close>

theorem breaker_single_probe:
  assumes "\<not> is_zero (br_openUntil b)" "\<not> br_probing b" "\<forall>t \<in> set ts. br_openUntil b \<le> t" "ts \<noteq> []"
  shows "admitted (hd ts) b \<and> admissions b ts = 1"
proof -
  from assms(4) obtain t us where ts: "ts = t # us" by (cases ts) auto
  with assms have a: "allow t b = ((True, 0), b\<lparr>br_probing := True\<rparr>)" by (simp add: allow_def)
  have "admissions (b\<lparr>br_probing := True\<rparr>) us = 0"
    by (rule admissions_probing) (use assms in auto)
  with ts a show ?thesis by simp
qed

theorem breaker_single_probe_witness:
  "admitted (hd [20, 21, 40]) (newBreaker 2 10\<lparr>br_openUntil := 19\<rparr>)
   \<and> admissions (newBreaker 2 10\<lparr>br_openUntil := 19\<rparr>) [20, 21, 40] = 1"
  by (rule breaker_single_probe) (simp_all add: newBreaker_def is_zero_def zero_time_def)

text \<open>Recovery: after a resolved probe the breaker is never stuck. Resolving the probe of an open
  breaker by a success closes it (every later call is admitted); by \<open>Ignore\<close> it admits the next
  call at once; by a failure it admits a call as soon as the new cooldown has passed.\<close>

theorem breaker_recovers:
  assumes "breaker_inv b" "br_openUntil b \<le> now" "0 < t" "t + br_cooldown b \<le> now"
  shows "admitted now (success b) \<and> admitted now (ignore b) \<and> admitted now (failure t b)"
  using assms by (auto simp: breaker_defs breaker_inv_def)

theorem breaker_recovers_witness:
  "admitted 50 (success (newBreaker 2 10\<lparr>br_openUntil := 19, br_failures := 2, br_probing := True\<rparr>))
   \<and> admitted 50 (ignore (newBreaker 2 10\<lparr>br_openUntil := 19, br_failures := 2, br_probing := True\<rparr>))
   \<and> admitted 50 (failure 40 (newBreaker 2 10\<lparr>br_openUntil := 19, br_failures := 2, br_probing := True\<rparr>))"
  by (rule breaker_recovers) (simp_all add: breaker_inv_def newBreaker_def is_zero_def zero_time_def)

text \<open>An unresolved probe blocks the breaker for ever: no later call is admitted.\<close>

lemma unresolved_probe_blocks:
  assumes "br_probing b" "\<not> is_zero (br_openUntil b)"
  shows "\<not> admitted now b \<and> snd (allow now b) = b"
  using assms by (auto simp: allow_def)

end
