(* ===== verification/Limiter.thy ===== *)
theory Limiter
  imports Manifest_Example
begin

text \<open>
  Admission control, \<open>internal/limiter/manager.go\<close>: token buckets per caller and domain, and two
  levels of concurrency slots. A channel used as a semaphore is its capacity and its number of
  elements. Rounding of \<open>float64\<close> results (\<open>fl\<close>) and SHA-256 are arguments.

  \<open>Acquire\<close> blocks, so it is cut at its two \<open>select\<close> statements; the interleavings of
  concurrent callers are the runs of \<open>adm_step\<close>.
\<close>

section \<open>Floating-point arithmetic\<close>

fun flt_add :: "(rat \<Rightarrow> float64) \<Rightarrow> float64 \<Rightarrow> float64 \<Rightarrow> float64" where
  "flt_add fl (FNum a) (FNum b) = fl (a + b)"
| "flt_add fl (FInf n) (FInf n') = (if n = n' then FInf n else FNaN)"
| "flt_add fl (FInf n) (FNum b) = FInf n"
| "flt_add fl (FNum a) (FInf n) = FInf n"
| "flt_add fl _ _ = FNaN"

fun flt_mul :: "(rat \<Rightarrow> float64) \<Rightarrow> float64 \<Rightarrow> float64 \<Rightarrow> float64" where
  "flt_mul fl (FNum a) (FNum b) = fl (a * b)"
| "flt_mul fl (FInf n) (FInf n') = FInf (n \<noteq> n')"
| "flt_mul fl (FInf n) (FNum b) = (if b = 0 then FNaN else FInf (n \<noteq> (b < 0)))"
| "flt_mul fl (FNum a) (FInf n) = (if a = 0 then FNaN else FInf (n \<noteq> (a < 0)))"
| "flt_mul fl _ _ = FNaN"

text \<open>\<open>Duration.Seconds\<close>: whole seconds plus nanoseconds over 1e9, each step rounded.\<close>

definition duration_seconds :: "(rat \<Rightarrow> float64) \<Rightarrow> duration \<Rightarrow> float64" where
  "duration_seconds fl d =
     (let s = (if d < 0 then - (- d div second) else d div second);
          n = d - s * second
      in flt_add fl (fl (of_int s)) (fl (of_int n / 1000000000)))"

section \<open>State\<close>

definition maxRateBuckets :: nat where "maxRateBuckets = 10000"

record domain_limit =
  dm_slots :: nat
  dm_capacity :: nat
  dm_rate :: float64
  dm_burst :: float64

record bucket =
  bk_tokens :: float64
  bk_last :: gotime
  bk_lastSeen :: gotime

record limiter =
  lm_global :: nat
  lm_globalCapacity :: nat
  lm_domains :: "(string, domain_limit) gomap"
  lm_queueTimeout :: duration
  lm_buckets :: "(string, bucket) gomap"

text \<open>A command key without a command is a nil dereference (\<open>None\<close>).\<close>

fun add_domains :: "(string \<rightharpoonup> compiled_command) \<Rightarrow> string list \<Rightarrow> (string, domain_limit) gomap
    \<Rightarrow> (string, domain_limit) gomap option" where
  "add_domains commands [] ds = Some ds"
| "add_domains commands (key # ks) ds =
     (case commands key of
        None \<Rightarrow> None
      | Some c \<Rightarrow>
          (if cmd_domain c \<in> set (keys ds) then add_domains commands ks ds
           else add_domains commands ks
                  (put (cmd_domain c) \<lparr>dm_slots = 0, dm_capacity = nat (cmd_domainConcurrency c),
                     dm_rate = cmd_requestsPerSecond c, dm_burst = FNum (of_int (cmd_rateBurst c))\<rparr> ds)))"

definition newLimiter :: "snapshot \<Rightarrow> limiter option" where
  "newLimiter s =
     map_option (\<lambda>ds. \<lparr>lm_global = 0, lm_globalCapacity = nat (sn_globalConcurrency s), lm_domains = ds,
         lm_queueTimeout = sn_queueTimeout s, lm_buckets = []\<rparr>)
       (add_domains (sn_commands s) (sn_commandKeys s) [])"

section \<open>Rate budget\<close>

definition rate_key :: "(string \<Rightarrow> string) \<Rightarrow> invocation \<Rightarrow> string" where
  "rate_key sha256 iv =
     (let p = inv_principal iv; z = [CHR 0x00]
      in hexEncode (sha256 (pr_issuer p @ z @ pr_tenant p @ z @ pr_subject p @ z @ pr_clientID p @ z
                            @ cmd_domain (inv_command iv))))"

definition drop_stale :: "gotime \<Rightarrow> (string, bucket) gomap \<Rightarrow> (string, bucket) gomap" where
  "drop_stale now bs = filter (\<lambda>(k, b). \<not> time_sub now (bk_lastSeen b) > 10 * minute) bs"

text \<open>Refill and take, lines 117 to 128.\<close>

definition take_token :: "(rat \<Rightarrow> float64) \<Rightarrow> gotime \<Rightarrow> domain_limit \<Rightarrow> bucket \<Rightarrow> bool \<times> bucket" where
  "take_token fl now limit b =
     (let elapsed = duration_seconds fl (time_sub now (bk_last b));
          filled = flt_add fl (bk_tokens b) (flt_mul fl elapsed (dm_rate limit));
          tokens = (if flt_lt (dm_burst limit) filled then dm_burst limit else filled)
      in if flt_lt tokens (FNum 1) then (False, \<lparr>bk_tokens = tokens, bk_last = now, bk_lastSeen = now\<rparr>)
         else (True, \<lparr>bk_tokens = flt_add fl tokens (FNum (-1)), bk_last = now, bk_lastSeen = now\<rparr>))"

definition takeRate ::
  "(rat \<Rightarrow> float64) \<Rightarrow> (string \<Rightarrow> string) \<Rightarrow> gotime \<Rightarrow> invocation \<Rightarrow> domain_limit \<Rightarrow> (string, bucket) gomap
     \<Rightarrow> bool \<times> (string, bucket) gomap" where
  "takeRate fl sha256 now iv limit bs =
     (let key = rate_key sha256 iv
      in case map_of bs key of
           Some current \<Rightarrow>
             (case take_token fl now limit current of (ok, b) \<Rightarrow> (ok, put key b bs))
         | None \<Rightarrow>
             (let bs = (if length bs \<ge> maxRateBuckets then drop_stale now bs else bs)
              in if length bs \<ge> maxRateBuckets then (False, bs)
                 else (case take_token fl now limit \<lparr>bk_tokens = dm_burst limit, bk_last = now, bk_lastSeen = zero_time\<rparr>
                       of (ok, b) \<Rightarrow> (ok, put key b bs))))"

section \<open>Concurrency slots\<close>

definition overloadedError :: "string \<Rightarrow> api_error" where
  "overloadedError what = (apiError 503 ''E_OVERLOADED'' (what @ '' concurrency limit exceeded''))\<lparr>ae_retryAfter := second\<rparr>"

text \<open>\<open>Acquire\<close> up to its first \<open>select\<close>.\<close>

definition acquire_rate ::
  "(rat \<Rightarrow> float64) \<Rightarrow> (string \<Rightarrow> string) \<Rightarrow> gotime \<Rightarrow> invocation \<Rightarrow> limiter \<Rightarrow> api_error option \<times> limiter" where
  "acquire_rate fl sha256 now iv m =
     (case map_of (lm_domains m) (cmd_domain (inv_command iv)) of
        None \<Rightarrow> (Some (apiError 500 ''E_INTERNAL'' ''domain admission policy is unavailable''), m)
      | Some d \<Rightarrow>
          (if flt_lt (FNum 0) (dm_rate d) then
             (case takeRate fl sha256 now iv d (lm_buckets m) of (ok, bs) \<Rightarrow>
                (if ok then (None, m\<lparr>lm_buckets := bs\<rparr>)
                 else (Some ((apiError 429 ''E_RATE_LIMITED'' ''request rate limit exceeded'')\<lparr>ae_retryAfter := second\<rparr>),
                       m\<lparr>lm_buckets := bs\<rparr>)))
           else (None, m)))"

text \<open>Sends and receives on the two channels; \<open>None\<close> where the operation blocks.\<close>

definition send_global :: "limiter \<Rightarrow> limiter option" where
  "send_global m = (if lm_global m < lm_globalCapacity m then Some (m\<lparr>lm_global := Suc (lm_global m)\<rparr>) else None)"

definition recv_global :: "limiter \<Rightarrow> limiter option" where
  "recv_global m = (if 0 < lm_global m then Some (m\<lparr>lm_global := lm_global m - 1\<rparr>) else None)"

definition send_domain :: "string \<Rightarrow> limiter \<Rightarrow> limiter option" where
  "send_domain n m =
     (case map_of (lm_domains m) n of
        Some d \<Rightarrow> (if dm_slots d < dm_capacity d
                   then Some (m\<lparr>lm_domains := put n (d\<lparr>dm_slots := Suc (dm_slots d)\<rparr>) (lm_domains m)\<rparr>) else None)
      | None \<Rightarrow> None)"

definition recv_domain :: "string \<Rightarrow> limiter \<Rightarrow> limiter option" where
  "recv_domain n m =
     (case map_of (lm_domains m) n of
        Some d \<Rightarrow> (if 0 < dm_slots d
                   then Some (m\<lparr>lm_domains := put n (d\<lparr>dm_slots := dm_slots d - 1\<rparr>) (lm_domains m)\<rparr>) else None)
      | None \<Rightarrow> None)"

text \<open>The release function's body, and a whole \<open>Acquire\<close> during which no other caller moves: a
  blocked send then ends in the queue timeout.\<close>

definition release_slots :: "string \<Rightarrow> limiter \<Rightarrow> limiter option" where
  "release_slots n m = Option.bind (recv_domain n m) recv_global"

definition acquire ::
  "(rat \<Rightarrow> float64) \<Rightarrow> (string \<Rightarrow> string) \<Rightarrow> gotime \<Rightarrow> invocation \<Rightarrow> limiter \<Rightarrow> api_error option \<times> limiter" where
  "acquire fl sha256 now iv m =
     (case acquire_rate fl sha256 now iv m of
        (Some e, m1) \<Rightarrow> (Some e, m1)
      | (None, m1) \<Rightarrow>
          (case send_global m1 of
             None \<Rightarrow> (Some (overloadedError ''gateway''), m1)
           | Some m2 \<Rightarrow>
               (case send_domain (cmd_domain (inv_command iv)) m2 of
                  Some m3 \<Rightarrow> (None, m3)
                | None \<Rightarrow> (case recv_global m2 of
                             Some m3 \<Rightarrow> (Some (overloadedError ''domain''), m3)
                           | None \<Rightarrow> (Some (overloadedError ''domain''), m2)))))"

section \<open>Concurrent callers\<close>

datatype phase = WaitGlobal | WaitDomain | Held | Ended

record ticket =
  tk_domain :: string
  tk_phase :: phase

type_synonym adm_state = "limiter \<times> ticket list"

definition move :: "ticket list \<Rightarrow> nat \<Rightarrow> phase \<Rightarrow> ticket list" where
  "move ts i p = ts[i := (ts ! i)\<lparr>tk_phase := p\<rparr>]"

inductive adm_step :: "adm_state \<Rightarrow> adm_state \<Rightarrow> bool" where
  rejected: "acquire_rate fl sha now iv m = (Some e, m') \<Longrightarrow> adm_step (m, ts) (m', ts)"
| arrive: "acquire_rate fl sha now iv m = (None, m') \<Longrightarrow>
    adm_step (m, ts) (m', ts @ [\<lparr>tk_domain = cmd_domain (inv_command iv), tk_phase = WaitGlobal\<rparr>])"
| enter_global: "i < length ts \<Longrightarrow> tk_phase (ts ! i) = WaitGlobal \<Longrightarrow> send_global m = Some m' \<Longrightarrow>
    adm_step (m, ts) (m', move ts i WaitDomain)"
| expire_global: "i < length ts \<Longrightarrow> tk_phase (ts ! i) = WaitGlobal \<Longrightarrow> adm_step (m, ts) (m, move ts i Ended)"
| enter_domain: "i < length ts \<Longrightarrow> tk_phase (ts ! i) = WaitDomain \<Longrightarrow>
    send_domain (tk_domain (ts ! i)) m = Some m' \<Longrightarrow> adm_step (m, ts) (m', move ts i Held)"
| expire_domain: "i < length ts \<Longrightarrow> tk_phase (ts ! i) = WaitDomain \<Longrightarrow> recv_global m = Some m' \<Longrightarrow>
    adm_step (m, ts) (m', move ts i Ended)"
| release: "i < length ts \<Longrightarrow> tk_phase (ts ! i) = Held \<Longrightarrow>
    release_slots (tk_domain (ts ! i)) m = Some m' \<Longrightarrow> adm_step (m, ts) (m', move ts i Ended)"
| release_again: "i < length ts \<Longrightarrow> tk_phase (ts ! i) = Ended \<Longrightarrow> adm_step (m, ts) (m, ts)"

text \<open>Slots in use, counted from the callers.\<close>

definition in_global :: "ticket \<Rightarrow> bool" where
  "in_global t \<longleftrightarrow> tk_phase t = WaitDomain \<or> tk_phase t = Held"

definition in_domain :: "string \<Rightarrow> ticket \<Rightarrow> bool" where
  "in_domain n t \<longleftrightarrow> tk_phase t = Held \<and> tk_domain t = n"

definition adm_inv :: "adm_state \<Rightarrow> bool" where
  "adm_inv st = (case st of (m, ts) \<Rightarrow>
     lm_global m = tally in_global ts \<and> lm_global m \<le> lm_globalCapacity m \<and> wf_map (lm_domains m)
     \<and> (\<forall>n d. map_of (lm_domains m) n = Some d \<longrightarrow> dm_slots d = tally (in_domain n) ts \<and> dm_slots d \<le> dm_capacity d)
     \<and> (\<forall>t \<in> set ts. tk_domain t \<in> set (keys (lm_domains m))))"

lemma acquire_rate_slots:
  assumes "acquire_rate fl sha now iv m = (r, m')"
  shows "lm_global m' = lm_global m \<and> lm_globalCapacity m' = lm_globalCapacity m \<and> lm_domains m' = lm_domains m
    \<and> (r = None \<longrightarrow> cmd_domain (inv_command iv) \<in> set (keys (lm_domains m)))"
  using assms
  by (auto simp: acquire_rate_def split: option.splits if_splits prod.splits dest!: map_of_SomeD
      intro: rev_image_eqI)

lemma tally_move:
  assumes "i < length ts"
  shows "tally in_global (move ts i p) + (if in_global (ts ! i) then 1 else 0)
      = tally in_global ts + (if p = WaitDomain \<or> p = Held then 1 else 0)"
    "tally (in_domain n) (move ts i p) + (if in_domain n (ts ! i) then 1 else 0)
      = tally (in_domain n) ts + (if p = Held \<and> tk_domain (ts ! i) = n then 1 else 0)"
  using tally_update [OF assms, of in_global "(ts ! i)\<lparr>tk_phase := p\<rparr>"]
    tally_update [OF assms, of "in_domain n" "(ts ! i)\<lparr>tk_phase := p\<rparr>"]
  by (simp_all add: move_def in_global_def in_domain_def)

lemma move_domains:
  assumes "i < length ts" "\<forall>t \<in> set ts. tk_domain t \<in> D"
  shows "\<forall>t \<in> set (move ts i p). tk_domain t \<in> D"
proof
  fix t assume "t \<in> set (move ts i p)"
  then have "t = (ts ! i)\<lparr>tk_phase := p\<rparr> \<or> t \<in> set ts"
    using set_update_subset_insert [of ts i] by (auto simp: move_def)
  then show "tk_domain t \<in> D" using assms by auto
qed

lemma adm_invD:
  assumes "adm_inv (m, ts)"
  shows "lm_global m = tally in_global ts" "lm_global m \<le> lm_globalCapacity m" "wf_map (lm_domains m)"
    "\<And>n d. map_of (lm_domains m) n = Some d \<Longrightarrow> dm_slots d = tally (in_domain n) ts \<and> dm_slots d \<le> dm_capacity d"
    "\<forall>t \<in> set ts. tk_domain t \<in> set (keys (lm_domains m))"
  using assms unfolding adm_inv_def prod.case by blast+

lemma adm_invI:
  assumes "lm_global m = tally in_global ts" "lm_global m \<le> lm_globalCapacity m" "wf_map (lm_domains m)"
    "\<And>n d. map_of (lm_domains m) n = Some d \<Longrightarrow> dm_slots d = tally (in_domain n) ts \<and> dm_slots d \<le> dm_capacity d"
    "\<forall>t \<in> set ts. tk_domain t \<in> set (keys (lm_domains m))"
  shows "adm_inv (m, ts)"
  using assms unfolding adm_inv_def prod.case by blast

lemma inv_enter_global:
  assumes "adm_inv (m, ts)" "i < length ts" "tk_phase (ts ! i) = WaitGlobal" "send_global m = Some m'"
  shows "adm_inv (m', move ts i WaitDomain)"
proof -
  note inv = adm_invD [OF assms(1)] and tl = tally_move [OF assms(2), where p = WaitDomain]
  have m': "m' = m\<lparr>lm_global := Suc (lm_global m)\<rparr>" "lm_global m < lm_globalCapacity m"
    using assms(4) by (auto simp: send_global_def split: if_splits)
  show ?thesis
  proof (rule adm_invI)
    show "dm_slots d = tally (in_domain n) (move ts i WaitDomain) \<and> dm_slots d \<le> dm_capacity d"
      if "map_of (lm_domains m') n = Some d" for n d
      using inv(4) [of n d] that tl(2) [of n] assms(3) by (simp add: m' in_domain_def)
  qed (use inv tl(1) assms(2,3) m' move_domains in \<open>auto simp: in_global_def\<close>)
qed

lemma inv_expire_global:
  assumes "adm_inv (m, ts)" "i < length ts" "tk_phase (ts ! i) = WaitGlobal"
  shows "adm_inv (m, move ts i Ended)"
proof -
  note inv = adm_invD [OF assms(1)] and tl = tally_move [OF assms(2), where p = Ended]
  show ?thesis
  proof (rule adm_invI)
    show "dm_slots d = tally (in_domain n) (move ts i Ended) \<and> dm_slots d \<le> dm_capacity d"
      if "map_of (lm_domains m) n = Some d" for n d
      using inv(4) [OF that] tl(2) [of n] assms(3) by (simp add: in_domain_def)
  qed (use inv tl(1) assms(2,3) move_domains in \<open>auto simp: in_global_def\<close>)
qed

lemma inv_expire_domain:
  assumes "adm_inv (m, ts)" "i < length ts" "tk_phase (ts ! i) = WaitDomain" "recv_global m = Some m'"
  shows "adm_inv (m', move ts i Ended)"
proof -
  note inv = adm_invD [OF assms(1)] and tl = tally_move [OF assms(2), where p = Ended]
  have m': "m' = m\<lparr>lm_global := lm_global m - 1\<rparr>" "0 < lm_global m"
    using assms(4) by (auto simp: recv_global_def split: if_splits)
  show ?thesis
  proof (rule adm_invI)
    show "dm_slots d = tally (in_domain n) (move ts i Ended) \<and> dm_slots d \<le> dm_capacity d"
      if "map_of (lm_domains m') n = Some d" for n d
      using inv(4) [of n d] that tl(2) [of n] assms(3) by (simp add: m' in_domain_def)
  qed (use inv tl(1) assms(2,3) m' move_domains in \<open>auto simp: in_global_def\<close>)
qed

lemma inv_enter_domain:
  assumes "adm_inv (m, ts)" "i < length ts" "tk_phase (ts ! i) = WaitDomain"
    "send_domain (tk_domain (ts ! i)) m = Some m'"
  shows "adm_inv (m', move ts i Held)"
proof -
  note inv = adm_invD [OF assms(1)] and tl = tally_move [OF assms(2), where p = Held]
  obtain e where e: "map_of (lm_domains m) (tk_domain (ts ! i)) = Some e" "dm_slots e < dm_capacity e"
    "m' = m\<lparr>lm_domains := put (tk_domain (ts ! i)) (e\<lparr>dm_slots := Suc (dm_slots e)\<rparr>) (lm_domains m)\<rparr>"
    using assms(4) by (auto simp: send_domain_def split: option.splits if_splits)
  show ?thesis
  proof (rule adm_invI)
    show "dm_slots d = tally (in_domain n) (move ts i Held) \<and> dm_slots d \<le> dm_capacity d"
      if "map_of (lm_domains m') n = Some d" for n d
      using inv(4) [of n d] inv(4) [OF e(1)] that tl(2) [of n] assms(3) e(2)
      by (auto simp: e(3) in_domain_def split: if_splits)
  qed (use inv tl(1) assms(2,3) e move_domains in \<open>auto simp: in_global_def\<close>)
qed

lemma inv_release:
  assumes "adm_inv (m, ts)" "i < length ts" "tk_phase (ts ! i) = Held"
    "release_slots (tk_domain (ts ! i)) m = Some m'"
  shows "adm_inv (m', move ts i Ended)"
proof -
  note inv = adm_invD [OF assms(1)] and tl = tally_move [OF assms(2), where p = Ended]
  obtain e where e: "map_of (lm_domains m) (tk_domain (ts ! i)) = Some e" "0 < dm_slots e" "0 < lm_global m"
    "m' = m\<lparr>lm_domains := put (tk_domain (ts ! i)) (e\<lparr>dm_slots := dm_slots e - 1\<rparr>) (lm_domains m),
            lm_global := lm_global m - 1\<rparr>"
    using assms(4)
    by (auto simp: release_slots_def recv_domain_def recv_global_def bind_eq_Some_conv split: option.splits if_splits)
  show ?thesis
  proof (rule adm_invI)
    show "dm_slots d = tally (in_domain n) (move ts i Ended) \<and> dm_slots d \<le> dm_capacity d"
      if "map_of (lm_domains m') n = Some d" for n d
      using inv(4) [of n d] inv(4) [OF e(1)] that tl(2) [of n] assms(3) e(2)
      by (auto simp: e(4) in_domain_def split: if_splits)
  qed (use inv tl(1) assms(2,3) e move_domains in \<open>auto simp: in_global_def\<close>)
qed

lemma adm_step_inv: "adm_step s s' \<Longrightarrow> adm_inv s \<Longrightarrow> adm_inv s'"
proof (induction rule: adm_step.induct)
  case (rejected fl sha now iv m e m' ts)
  then show ?case using acquire_rate_slots [OF rejected(1)] unfolding adm_inv_def prod.case by metis
next
  case (arrive fl sha now iv m m' ts)
  note inv = adm_invD [OF arrive(2)] and m' = acquire_rate_slots [OF arrive(1)]
  show ?case
  proof (rule adm_invI)
    show "dm_slots d = tally (in_domain n) (ts @ [\<lparr>tk_domain = cmd_domain (inv_command iv), tk_phase = WaitGlobal\<rparr>])
        \<and> dm_slots d \<le> dm_capacity d" if "map_of (lm_domains m') n = Some d" for n d
      using inv(4) [of n d] that m' by (simp add: in_domain_def)
  qed (use inv m' in \<open>auto simp: in_global_def\<close>)
qed (simp_all add: inv_enter_global inv_expire_global inv_enter_domain inv_expire_domain inv_release)

lemma add_domains_inv:
  assumes "add_domains commands ks ds = Some ds'"
    "wf_map ds" "\<And>n d. map_of ds n = Some d \<Longrightarrow> dm_slots d = 0"
  shows "wf_map ds' \<and> (\<forall>n d. map_of ds' n = Some d \<longrightarrow> dm_slots d = 0)"
  using assms
proof (induction ks arbitrary: ds)
  case (Cons key ks)
  obtain c where c: "commands key = Some c" using Cons.prems(1) by (auto split: option.splits)
  show ?case
  proof (cases "cmd_domain c \<in> set (keys ds)")
    case True
    with Cons c show ?thesis by simp
  next
    case False
    let ?d = "\<lparr>dm_slots = 0, dm_capacity = nat (cmd_domainConcurrency c), dm_rate = cmd_requestsPerSecond c,
      dm_burst = FNum (of_int (cmd_rateBurst c))\<rparr>"
    have a: "add_domains commands ks (put (cmd_domain c) ?d ds) = Some ds'" using Cons.prems(1) c False by simp
    have b: "dm_slots d = 0" if "map_of (put (cmd_domain c) ?d ds) n = Some d" for n d
      using that Cons.prems(3) [of n d] by (auto split: if_splits)
    show ?thesis by (rule Cons.IH [OF a wf_map_put [OF Cons.prems(2)] b])
  qed
qed simp

lemma newLimiter_inv:
  assumes "newLimiter s = Some m"
  shows "adm_inv (m, [])"
proof -
  obtain ds where "add_domains (sn_commands s) (sn_commandKeys s) [] = Some ds"
    "m = \<lparr>lm_global = 0, lm_globalCapacity = nat (sn_globalConcurrency s), lm_domains = ds,
         lm_queueTimeout = sn_queueTimeout s, lm_buckets = []\<rparr>"
    using assms by (auto simp: newLimiter_def)
  with add_domains_inv [of "sn_commands s" "sn_commandKeys s" "[]" ds] show ?thesis by (auto simp: adm_inv_def)
qed

lemma adm_reachable_inv: "adm_step\<^sup>*\<^sup>* s s' \<Longrightarrow> adm_inv s \<Longrightarrow> adm_inv s'"
  by (induction rule: rtranclp_induct) (auto intro: adm_step_inv)

lemma release_enabled:
  assumes "adm_inv (m, ts)" "i < length ts" "tk_phase (ts ! i) = Held"
  shows "release_slots (tk_domain (ts ! i)) m \<noteq> None"
proof -
  note inv = adm_invD [OF assms(1)]
  have "tk_domain (ts ! i) \<in> set (keys (lm_domains m))" using inv(5) nth_mem [OF assms(2)] by blast
  then obtain d where d: "map_of (lm_domains m) (tk_domain (ts ! i)) = Some d"
    by (auto simp only: in_keys_map_of)
  have "0 < lm_global m" using tally_pos [OF assms(2), of in_global] inv(1) assms(3) by (simp add: in_global_def)
  moreover have "0 < dm_slots d"
    using tally_pos [OF assms(2), of "in_domain (tk_domain (ts ! i))"] inv(4) [OF d] assms(3) by (simp add: in_domain_def)
  ultimately show ?thesis using d by (simp add: release_slots_def recv_domain_def recv_global_def)
qed


section \<open>The rate bound\<close>

text \<open>
  What the bound assumes of rounding: on values from 0 to \<open>M\<close> it returns a finite non-negative
  number that exceeds the exact value by at most \<open>e\<close>. IEEE 754 doubles satisfy it for
  \<open>M = 2 ^ 52\<close> and \<open>e = 1 / 2\<close>; exact arithmetic satisfies it for \<open>e = 0\<close>.
\<close>

definition rounds_within :: "rat \<Rightarrow> rat \<Rightarrow> (rat \<Rightarrow> float64) \<Rightarrow> bool" where
  "rounds_within M e fl \<longleftrightarrow> (\<forall>x. 0 \<le> x \<and> x \<le> M \<longrightarrow> (\<exists>y. fl x = FNum y \<and> 0 \<le> y \<and> y \<le> x + e))"

lemma rounds_withinD:
  assumes "rounds_within M e fl" "0 \<le> x" "x \<le> M"
  obtains y where "fl x = FNum y" "0 \<le> y" "y \<le> x + e"
  using assms unfolding rounds_within_def by blast

definition rate_seconds :: "duration \<Rightarrow> rat" where
  "rate_seconds d = of_int d / 1000000000"

lemma duration_seconds_within:
  assumes "rounds_within M e fl" "0 \<le> e" "e \<le> 1" "0 \<le> d" "rate_seconds d + 3 \<le> M"
  obtains y where "duration_seconds fl d = FNum y" "0 \<le> y" "y \<le> rate_seconds d + 3 * e"
proof -
  define s where "s = d div second"
  define n where "n = d - s * second"
  have n: "0 \<le> n" "n < second" and s: "0 \<le> s"
    using assms(4) by (auto simp: s_def n_def second_def minus_div_mult_eq_mod pos_imp_zdiv_nonneg_iff)
  have d: "rate_seconds d = of_int s + of_int n / 1000000000"
    by (simp add: rate_seconds_def n_def second_def field_simps)
  have n1: "0 \<le> (of_int n :: rat) / 1000000000" "(of_int n :: rat) / 1000000000 \<le> 1"
    using n by (auto simp: second_def)
  have s0: "0 \<le> (of_int s :: rat)" using s by simp
  obtain a where a: "fl (of_int s) = FNum a" "0 \<le> a" "a \<le> of_int s + e"
    using rounds_withinD [OF assms(1) s0] n1 d assms(5) by (metis add_le_cancel_left dual_order.trans le_add_same_cancel1 order_trans zero_le_numeral)
  obtain b where b: "fl (of_int n / 1000000000) = FNum b" "0 \<le> b" "b \<le> of_int n / 1000000000 + e"
  proof (rule rounds_withinD [OF assms(1) n1(1)])
    show "of_int n / 1000000000 \<le> M" using n1 s0 d assms(5) by linarith
  qed
  have ab: "0 \<le> a + b" "a + b \<le> M" using a b d assms(3,5) by linarith+
  obtain y where y: "fl (a + b) = FNum y" "0 \<le> y" "y \<le> a + b + e" by (rule rounds_withinD [OF assms(1) ab])
  have "y \<le> rate_seconds d + 3 * e" using y a b d by linarith
  moreover have "duration_seconds fl d = FNum y"
    using a b y assms(4) by (simp add: duration_seconds_def Let_def s_def n_def)
  ultimately show ?thesis using that y(2) by blast
qed

lemma take_token_potential:
  assumes fl: "rounds_within M e fl" "0 \<le> e" "e \<le> 1"
    and lim: "dm_rate limit = FNum r" "0 \<le> r" "dm_burst limit = FNum B"
    and b: "bk_tokens b = FNum k" "0 \<le> k" "k \<le> B"
    and d: "0 \<le> time_sub now (bk_last b)" "rate_seconds (time_sub now (bk_last b)) \<le> D"
    and M: "B + (D + 3) * (r + 1) + 2 \<le> M"
    and res: "take_token fl now limit b = (ok, b')"
  shows "\<exists>k'. bk_tokens b' = FNum k' \<and> 0 \<le> k' \<and> k' \<le> B \<and> bk_last b' = now
    \<and> k' + (if ok then 1 else 0) \<le> k + r * rate_seconds (time_sub now (bk_last b)) + 3 * (r + 1) * e"
proof -
  let ?s = "rate_seconds (time_sub now (bk_last b))"
  have s0: "0 \<le> ?s" using d(1) by (simp add: rate_seconds_def)
  have D: "0 \<le> D" using s0 d(2) by linarith
  have "D + 3 \<le> (D + 3) * (r + 1)" using D lim(2) by (simp add: algebra_simps)
  then have M1: "?s + 3 \<le> M" "B + 2 + (D + 3) * (r + 1) \<le> M" using M b d(2) by linarith+
  obtain y where y: "duration_seconds fl (time_sub now (bk_last b)) = FNum y" "0 \<le> y" "y \<le> ?s + 3 * e"
    by (rule duration_seconds_within [OF fl d(1) M1(1)])
  have yr: "0 \<le> y * r" using y lim(2) by simp
  have yr2: "y * r \<le> ?s * r + 3 * e * r"
    using mult_right_mono [OF y(3) lim(2)] by (simp add: algebra_simps)
  have "y * r \<le> (D + 3) * r" using y d(2) fl(3) lim(2) by (intro mult_right_mono) linarith+
  also have "\<dots> \<le> (D + 3) * (r + 1)" using D by (intro mult_left_mono) linarith+
  finally have yrM: "y * r \<le> (D + 3) * (r + 1)" .
  have yM: "y * r \<le> M" using yrM M1(2) b by linarith
  obtain p where p: "fl (y * r) = FNum p" "0 \<le> p" "p \<le> y * r + e" by (rule rounds_withinD [OF fl(1) yr yM])
  have kp: "0 \<le> k + p" "k + p \<le> M" using b p yrM M1(2) fl(3) by linarith+
  obtain f where f: "fl (k + p) = FNum f" "0 \<le> f" "f \<le> k + p + e" by (rule rounds_withinD [OF fl(1) kp])
  define t where "t = (if B < f then B else f)"
  have t: "0 \<le> t" "t \<le> B" "t \<le> f" using f b by (auto simp: t_def)
  have bound: "t \<le> k + r * ?s + 3 * e * r + 2 * e" using t f p yr2 by (simp add: algebra_simps)
  have tok: "take_token fl now limit b =
      (if t < 1 then (False, \<lparr>bk_tokens = FNum t, bk_last = now, bk_lastSeen = now\<rparr>)
       else (True, \<lparr>bk_tokens = fl (t - 1), bk_last = now, bk_lastSeen = now\<rparr>))"
    using y p f b lim by (auto simp: take_token_def Let_def t_def)
  show ?thesis
  proof (cases "t < 1")
    case True
    with tok res have "\<not> ok" "bk_tokens b' = FNum t" "bk_last b' = now" by auto
    with t bound fl(2) show ?thesis by (auto simp: algebra_simps)
  next
    case False
    have t1: "0 \<le> t - 1" "t - 1 \<le> M" using False t M1(2) D lim(2) yrM yr by linarith+
    obtain k' where k': "fl (t - 1) = FNum k'" "0 \<le> k'" "k' \<le> t - 1 + e" by (rule rounds_withinD [OF fl(1) t1])
    from False tok res k' have "ok" "bk_tokens b' = FNum k'" "bk_last b' = now" by auto
    with k' t bound fl(3) show ?thesis by (auto simp: algebra_simps)
  qed
qed

text \<open>The requests a bucket admits when it is asked at the given times.\<close>

fun bucket_admits :: "(rat \<Rightarrow> float64) \<Rightarrow> domain_limit \<Rightarrow> gotime list \<Rightarrow> bucket \<Rightarrow> nat" where
  "bucket_admits fl limit [] b = 0"
| "bucket_admits fl limit (t # ts) b =
     (case take_token fl t limit b of (ok, b') \<Rightarrow> (if ok then 1 else 0) + bucket_admits fl limit ts b')"

lemma rate_seconds_diff: "rate_seconds (a - b) = rate_seconds a - rate_seconds b"
  by (simp add: rate_seconds_def diff_divide_distrib)

lemma rate_seconds_mono: "a \<le> b \<Longrightarrow> rate_seconds a \<le> rate_seconds b"
  by (simp add: rate_seconds_def divide_right_mono)

lemma bucket_admits_potential:
  assumes fl: "rounds_within M e fl" "0 \<le> e" "e \<le> 1"
    and lim: "dm_rate limit = FNum r" "0 \<le> r" "dm_burst limit = FNum B"
    and M: "B + (D + 3) * (r + 1) + 2 \<le> M"
    and b: "bk_tokens b = FNum k" "0 \<le> k" "k \<le> B"
    and ts: "sorted (bk_last b # ts)" "last (bk_last b # ts) - bk_last b \<le> max_int64"
      "rate_seconds (last (bk_last b # ts) - bk_last b) \<le> D"
  shows "of_nat (bucket_admits fl limit ts b) \<le> k + r * rate_seconds (last (bk_last b # ts) - bk_last b)
      + of_nat (length ts) * (3 * (r + 1) * e)"
  using b ts
proof (induction ts arbitrary: b k)
  case Nil
  then show ?case by (simp add: rate_seconds_def)
next
  case (Cons t ts)
  let ?l = "last (t # ts)"
  have le: "bk_last b \<le> t" "t \<le> ?l" using Cons.prems(4) by auto
  have tl: "time_sub t (bk_last b) = t - bk_last b"
    using le Cons.prems(5) by (intro time_sub_exact) (auto simp: min_int64_def max_int64_def)
  obtain ok b' where res: "take_token fl t limit b = (ok, b')" by (cases "take_token fl t limit b")
  have dD: "rate_seconds (time_sub t (bk_last b)) \<le> D"
    using Cons.prems(6) rate_seconds_mono [OF le(2)] by (simp add: tl rate_seconds_diff)
  obtain k' where k': "bk_tokens b' = FNum k'" "0 \<le> k'" "k' \<le> B" "bk_last b' = t"
    "k' + (if ok then 1 else 0) \<le> k + r * rate_seconds (t - bk_last b) + 3 * (r + 1) * e"
    using take_token_potential [OF fl lim Cons.prems(1-3) _ dD M res] le(1) unfolding tl by auto
  have "of_nat (bucket_admits fl limit ts b') \<le> k' + r * rate_seconds (?l - t) + of_nat (length ts) * (3 * (r + 1) * e)"
    using Cons.IH [of b' k'] k'(1-4) Cons.prems(4-6) le rate_seconds_mono [OF le(1)]
    by (simp add: rate_seconds_diff)
  moreover have "r * rate_seconds (t - bk_last b) + r * rate_seconds (?l - t) = r * rate_seconds (?l - bk_last b)"
    by (simp add: rate_seconds_diff algebra_simps)
  ultimately show ?case using k'(2,5) res by (simp add: algebra_simps split: if_splits)
qed

text \<open>C34. The token bucket bounds the rate: a bucket created at \<open>t0\<close> admits, over any sequence of
  requests up to a later time, at most the burst plus the configured rate times the elapsed
  seconds, up to the rounding error of each request.\<close>

theorem token_bucket_rate_bound:
  assumes "rounds_within M e fl" "0 \<le> e" "e \<le> 1"
    "dm_rate limit = FNum r" "0 \<le> r" "dm_burst limit = FNum B" "0 \<le> B"
    "sorted (t0 # ts)" "last (t0 # ts) - t0 \<le> max_int64"
    "B + (rate_seconds (last (t0 # ts) - t0) + 3) * (r + 1) + 2 \<le> M"
  shows "of_nat (bucket_admits fl limit ts \<lparr>bk_tokens = dm_burst limit, bk_last = t0, bk_lastSeen = zero_time\<rparr>)
    \<le> B + r * rate_seconds (last (t0 # ts) - t0) + of_nat (length ts) * (3 * (r + 1) * e)"
  using bucket_admits_potential [OF assms(1-6,10), of "\<lparr>bk_tokens = dm_burst limit, bk_last = t0, bk_lastSeen = zero_time\<rparr>" B ts]
    assms(6-9) by simp

theorem token_bucket_rate_bound_witness:
  "of_nat (bucket_admits FNum \<lparr>dm_slots = 0, dm_capacity = 2, dm_rate = FNum 2, dm_burst = FNum 3\<rparr>
      [5, 6, 7, 8, 1000000005] \<lparr>bk_tokens = FNum 3, bk_last = 5, bk_lastSeen = zero_time\<rparr>) \<le> (5 :: rat)"
  using token_bucket_rate_bound [of 1000 0 FNum "\<lparr>dm_slots = 0, dm_capacity = 2, dm_rate = FNum 2, dm_burst = FNum 3\<rparr>"
      2 3 5 "[5, 6, 7, 8, 1000000005]"]
  by (simp add: rounds_within_def rate_seconds_def max_int64_def)

text \<open>The table of buckets is bounded: no call to the limiter makes it exceed 10,000 entries, and
  a call changes no other caller's bucket except by dropping one that was idle for over ten minutes.\<close>

theorem rate_buckets_bounded:
  assumes "takeRate fl sha now iv limit bs = (ok, bs')" "wf_map bs" "length bs \<le> maxRateBuckets"
  shows "wf_map bs' \<and> length bs' \<le> maxRateBuckets
    \<and> (\<forall>k. k \<noteq> rate_key sha iv \<longrightarrow> map_of bs' k = map_of bs k
          \<or> (map_of bs' k = None \<and> (\<exists>b. map_of bs k = Some b \<and> time_sub now (bk_lastSeen b) > 10 * minute)))"
proof -
  define bs1 where "bs1 = (if length bs \<ge> maxRateBuckets then drop_stale now bs else bs)"
  have bs1: "wf_map bs1" "length bs1 \<le> maxRateBuckets"
    using assms(2,3) wf_map_filter by (auto simp: bs1_def drop_stale_def intro: le_trans [OF length_filter_le])
  have lookup: "map_of bs1 k = map_of bs k \<or> (map_of bs1 k = None
      \<and> (\<exists>b. map_of bs k = Some b \<and> time_sub now (bk_lastSeen b) > 10 * minute))" for k
    using map_of_filter_wf [OF assms(2), of _ k] by (auto simp: bs1_def drop_stale_def split: option.splits)
  show ?thesis
  proof (cases "map_of bs (rate_key sha iv)")
    case (Some b)
    then obtain b' where b': "bs' = put (rate_key sha iv) b' bs"
      using assms(1) by (auto simp: takeRate_def Let_def split: prod.splits)
    have "rate_key sha iv \<in> set (keys bs)" using Some unfolding in_keys_map_of by blast
    then have "length bs' = length bs" unfolding b' length_put by (rule if_P)
    then show ?thesis using assms(2,3) b' by simp
  next
    case None
    then have "bs' = bs1 \<or> (length bs1 < maxRateBuckets \<and> (\<exists>b. bs' = put (rate_key sha iv) b bs1))"
      using assms(1) by (auto simp: takeRate_def Let_def bs1_def split: prod.splits if_splits)
    then have wf: "wf_map bs' \<and> length bs' \<le> maxRateBuckets \<and> (\<forall>k. k \<noteq> rate_key sha iv \<longrightarrow> map_of bs' k = map_of bs1 k)"
      using bs1 by (auto simp: length_put)
    have "map_of bs' k = map_of bs k
          \<or> (map_of bs' k = None \<and> (\<exists>b. map_of bs k = Some b \<and> time_sub now (bk_lastSeen b) > 10 * minute))"
      if "k \<noteq> rate_key sha iv" for k
      using lookup [of k] wf that by simp
    with wf show ?thesis by blast
  qed
qed

theorem rate_buckets_bounded_witness:
  "wf_map (snd (takeRate FNum id 5 (demo_invocation demo_get) \<lparr>dm_slots = 0, dm_capacity = 2, dm_rate = FNum 2, dm_burst = FNum 3\<rparr> []))"
  using rate_buckets_bounded [of FNum id 5 "demo_invocation demo_get"
      "\<lparr>dm_slots = 0, dm_capacity = 2, dm_rate = FNum 2, dm_burst = FNum 3\<rparr>" "[]", OF prod.collapse [symmetric]]
  by simp

definition demo_limiter :: limiter where
  "demo_limiter = the (newLimiter demo_snapshot)"


end
