(* ===== verification/Invoke_Service.thy ===== *)
theory Invoke_Service
  imports Invoke_Request Policy_Catalog Breaker Limiter
begin

text \<open>
  The invocation pipeline, \<open>internal/invoke/service.go\<close>: argument validation, policy, request
  construction, admission, circuit breaker, downstream credential, one upstream call, and the
  release of the admission slot when the response body is closed.

  Arguments of the model: the outbound authorizer and the HTTP client (their outcome for a request),
  the construction of a transport (its error), clock readings and random bytes.
\<close>

section \<open>Duration texts\<close>

definition frac_text :: "int \<Rightarrow> nat \<Rightarrow> string" where
  "frac_text v prec =
     (let ds = formatInt (v mod 10 ^ prec);
          padded = replicate (prec - length ds) (CHR ''0'') @ ds;
          kept = rev (dropWhile (\<lambda>c. c = CHR ''0'') (rev padded))
      in if kept = [] then [] else CHR ''.'' # kept)"

text \<open>\<open>time.Duration.String\<close>.\<close>

definition durationString :: "duration \<Rightarrow> string" where
  "durationString d =
     (let u = \<bar>d\<bar>;
          text =
            (if u = 0 then ''0s''
             else if u < 1000 then formatInt u @ ''ns''
             else if u < 1000000 then formatInt (u div 1000) @ frac_text u 3 @ [CHR 0xC2, CHR 0xB5, CHR ''s'']
             else if u < 1000000000 then formatInt (u div 1000000) @ frac_text u 6 @ ''ms''
             else (let s = u div 1000000000; m = s div 60; h = m div 60
                   in (if h > 0 then formatInt h @ ''h'' else []) @ (if m > 0 then formatInt (m mod 60) @ ''m'' else [])
                      @ formatInt (s mod 60) @ frac_text u 9 @ ''s''))
      in if d < 0 then CHR ''-'' # text else text)"

section \<open>State and environment\<close>

record endpoint_client =
  ec_breaker :: breaker

record service =
  sv_admission :: "limiter option"
  sv_clients :: "(string, endpoint_client) gomap"

record http_response =
  rs_status :: int
  rs_header :: http_header
  rs_body :: string

datatype effect = AuthorizerCalled | Sent http_request | Invalidated

record release_body =
  rb_body :: string
  rb_domain :: "string option"
  rb_released :: bool

record execution =
  ex_status :: int
  ex_contentType :: string
  ex_header :: http_header
  ex_body :: release_body
  ex_streaming :: bool

text \<open>
  The environment of one call. \<open>en_do\<close> answers a request with a transport error (whether it is
  a timeout) or a response; \<open>en_newClient\<close> is the error of building a command's transport.
\<close>

record invoke_env =
  en_fmtFloat :: "float64 \<Rightarrow> string"
  en_fl :: "rat \<Rightarrow> float64"
  en_sha256 :: "string \<Rightarrow> string"
  en_random :: string
  en_spanID :: string
  en_admitAt :: gotime
  en_allowAt :: gotime
  en_doneAt :: gotime
  en_newClient :: "compiled_command \<Rightarrow> string option"
  en_authorizer :: "(invocation \<Rightarrow> http_request \<Rightarrow> go_error + http_request) option"
  en_invalidator :: bool
  en_do :: "http_request \<Rightarrow> bool + http_response"

definition clientKey :: "compiled_command \<Rightarrow> url \<Rightarrow> string" where
  "clientKey c up =
     (let t = (\<lambda>b. if b then ''true'' else ''false'')
      in join [cmd_domain c, u_host up, t (cmd_allowLocal c), t (tls_insecureSkipVerify (cmd_tls c)), t (cmd_streaming c),
               durationString (cmd_timeout c), tls_caFile (cmd_tls c), tls_clientCertFile (cmd_tls c),
               tls_clientKeyFile (cmd_tls c)] ''|'')"

text \<open>\<open>Service.client\<close>: the key and the stored endpoint; a nil upstream is a nil dereference.\<close>

definition client :: "(compiled_command \<Rightarrow> string option) \<Rightarrow> compiled_command \<Rightarrow> service
    \<Rightarrow> (string + string \<times> endpoint_client) \<times> service" where
  "client newClient c s =
     (case cmd_upstream c of
        None \<Rightarrow> (Inl ''nil pointer dereference'', s)
      | Some up \<Rightarrow>
          (let key = clientKey c up
           in case map_of (sv_clients s) key of
                Some e \<Rightarrow> (Inr (key, e), s)
              | None \<Rightarrow>
                  (case newClient c of
                     Some err \<Rightarrow> (Inl err, s)
                   | None \<Rightarrow>
                       (let e = \<lparr>ec_breaker = newBreaker 5 (30 * second)\<rparr>
                        in (Inr (key, e), s\<lparr>sv_clients := put key e (sv_clients s)\<rparr>)))))"

definition set_breaker :: "string \<Rightarrow> breaker \<Rightarrow> service \<Rightarrow> service" where
  "set_breaker key b s = s\<lparr>sv_clients := put key \<lparr>ec_breaker = b\<rparr> (sv_clients s)\<rparr>"

definition with_trace :: "string \<Rightarrow> api_error \<Rightarrow> api_error" where
  "with_trace trace e = e\<lparr>ae_traceID := trace\<rparr>"

definition with_trace_if_empty :: "string \<Rightarrow> api_error \<Rightarrow> api_error" where
  "with_trace_if_empty trace e = (if ae_traceID e = [] then e\<lparr>ae_traceID := trace\<rparr> else e)"

definition upstreamError :: "string \<Rightarrow> bool \<Rightarrow> api_error" where
  "upstreamError trace timedOut =
     with_trace trace
       ((if timedOut then apiError 502 ''E_UPSTREAM_TIMEOUT'' ''upstream request timed out''
         else apiError 502 ''E_UPSTREAM_UNREACHABLE'' ''upstream is unreachable'')\<lparr>ae_cause := Some ''transport''\<rparr>)"

section \<open>Admission\<close>

definition admit :: "invoke_env \<Rightarrow> invocation \<Rightarrow> service \<Rightarrow> api_error option \<times> service" where
  "admit en iv s =
     (case sv_admission s of
        None \<Rightarrow> (None, s)
      | Some m \<Rightarrow>
          (case acquire (en_fl en) (en_sha256 en) (en_admitAt en) iv m of
             (r, m') \<Rightarrow> (map_option (with_trace_if_empty (inv_traceID iv)) r, s\<lparr>sv_admission := Some m'\<rparr>)))"

text \<open>The release function; a receive that would block is \<open>None\<close>.\<close>

definition release_admission :: "string \<Rightarrow> service \<Rightarrow> service option" where
  "release_admission n s =
     (case sv_admission s of
        None \<Rightarrow> Some s
      | Some m \<Rightarrow> map_option (\<lambda>m'. s\<lparr>sv_admission := Some m'\<rparr>) (release_slots n m))"

definition releasing :: "invocation \<Rightarrow> service \<Rightarrow> service" where
  "releasing iv s = (case release_admission (cmd_domain (inv_command iv)) s of Some s' \<Rightarrow> s' | None \<Rightarrow> s)"

section \<open>The upstream exchange\<close>

definition execution_of :: "invocation \<Rightarrow> http_response \<Rightarrow> execution" where
  "execution_of iv rs =
     \<lparr>ex_status = rs_status rs, ex_contentType = headerGet (rs_header rs) ''Content-Type'', ex_header = rs_header rs,
      ex_body = \<lparr>rb_body = rs_body rs, rb_domain = Some (cmd_domain (inv_command iv)), rb_released = False\<rparr>,
      ex_streaming = cmd_streaming (inv_command iv)\<rparr>"

text \<open>Lines 110 to 153, once the breaker has admitted the call: outcome, breaker and effects.\<close>

definition exchange :: "invoke_env \<Rightarrow> (invocation \<Rightarrow> http_request \<Rightarrow> go_error + http_request) \<Rightarrow> invocation \<Rightarrow> http_request
    \<Rightarrow> breaker \<Rightarrow> (api_error + execution) \<times> breaker \<times> effect list" where
  "exchange en authz iv rq b =
     (let trace = inv_traceID iv
      in case authz iv rq of
           Inl err \<Rightarrow>
             (Inl (case err of
                     APIErr e \<Rightarrow> with_trace_if_empty trace e
                   | _ \<Rightarrow> with_trace trace ((apiError 502 ''E_DOWNSTREAM_AUTH'' ''downstream credential could not be obtained'')
                                            \<lparr>ae_cause := Some ''authorizer''\<rparr>)),
              ignore b, [AuthorizerCalled])
         | Inr rq' \<Rightarrow>
             (case en_do en rq' of
                Inl timedOut \<Rightarrow> (Inl (upstreamError trace timedOut), failure (en_doneAt en) b, [AuthorizerCalled, Sent rq'])
              | Inr rs \<Rightarrow>
                  (let b' = (if rs_status rs \<ge> 500 then failure (en_doneAt en) b else success b);
                       inval = (if rs_status rs = 401 \<and> en_invalidator en then [Invalidated] else [])
                   in if rs_status rs < 200 \<or> rs_status rs \<ge> 300
                      then (Inl (with_trace trace ((apiError 502 ''E_UPSTREAM'' ''upstream returned an error'')
                                                    \<lparr>ae_upstream := rs_status rs\<rparr>)),
                            b', [AuthorizerCalled, Sent rq'] @ inval)
                      else (Inr (execution_of iv rs), b', [AuthorizerCalled, Sent rq'] @ inval))))"

text \<open>Lines 94 to 153, under the admission slot.\<close>

definition invoke_admitted :: "invoke_env \<Rightarrow> invocation \<Rightarrow> http_request \<Rightarrow> service
    \<Rightarrow> (api_error + execution) \<times> service \<times> effect list" where
  "invoke_admitted en iv rq s =
     (let trace = inv_traceID iv
      in case en_authorizer en of
           None \<Rightarrow> (Inl (with_trace trace (apiError 500 ''E_INTERNAL'' ''downstream credential manager is unavailable'')), s, [])
         | Some authz \<Rightarrow>
             (case client (en_newClient en) (inv_command iv) s of
                (Inl err, s1) \<Rightarrow>
                  (Inl (with_trace trace ((apiError 500 ''E_INTERNAL'' ''upstream transport could not be initialized'')
                                           \<lparr>ae_cause := Some err\<rparr>)), s1, [])
              | (Inr (key, e), s1) \<Rightarrow>
                  (case allow (en_allowAt en) (ec_breaker e) of
                     ((False, retryAfter), b) \<Rightarrow>
                       (Inl (with_trace trace ((apiError 503 ''E_UPSTREAM_CIRCUIT_OPEN''
                               ''upstream dependency is temporarily unavailable'')\<lparr>ae_retryAfter := retryAfter\<rparr>)),
                        set_breaker key b s1, [])
                   | ((True, _), b) \<Rightarrow>
                       (case exchange en authz iv rq b of (r, b', effs) \<Rightarrow> (r, set_breaker key b' s1, effs)))))"

definition invoke :: "invoke_env \<Rightarrow> invocation \<Rightarrow> service \<Rightarrow> (api_error + execution) \<times> service \<times> effect list" where
  "invoke en iv s =
     (let trace = inv_traceID iv
      in case validateArguments (en_fmtFloat en) (inv_command iv) (inv_args iv) of
           Inl e \<Rightarrow> (Inl (with_trace trace e), s, [])
         | Inr args \<Rightarrow>
             (case authorize (inv_principal iv) (inv_invoker iv) (inv_command iv) (inv_aiMaxRisk iv) (inv_confirmed iv) of
                Some e \<Rightarrow> (Inl (with_trace trace e), s, [])
              | None \<Rightarrow>
                  (case buildRequest (en_fmtFloat en) (en_random en) (en_spanID en) iv args of
                     Inl e \<Rightarrow> (Inl (with_trace trace e), s, [])
                   | Inr rq \<Rightarrow>
                       (case admit en iv s of
                          (Some e, s1) \<Rightarrow> (Inl e, s1, [])
                        | (None, s1) \<Rightarrow>
                            (case invoke_admitted en iv rq s1 of
                               (Inl e, s2, effs) \<Rightarrow> (Inl e, releasing iv s2, effs)
                             | (Inr ex, s2, effs) \<Rightarrow> (Inr ex, s2, effs))))))"

text \<open>\<open>releaseBody.Close\<close>: the slot is returned once.\<close>

definition closeBody :: "release_body \<Rightarrow> service \<Rightarrow> release_body \<times> service" where
  "closeBody b s =
     (if rb_released b then (b, s)
      else (b\<lparr>rb_released := True\<rparr>,
            case rb_domain b of None \<Rightarrow> s
            | Some n \<Rightarrow> (case release_admission n s of Some s' \<Rightarrow> s' | None \<Rightarrow> s)))"


section \<open>Interface: an admission controller\<close>

text \<open>
  What the pipeline relies on: a refused request leaves the slots as they were, and the slots a
  granted request took can be returned, which restores them.
\<close>

locale admission_controller =
  fixes acq :: "'q \<Rightarrow> 'm \<Rightarrow> api_error option \<times> 'm"
    and rel :: "'q \<Rightarrow> 'm \<Rightarrow> 'm option"
    and slots :: "'m \<Rightarrow> 's"
  assumes refused_keeps: "acq q m = (Some e, m') \<Longrightarrow> slots m' = slots m"
    and granted_returns: "acq q m = (None, m') \<Longrightarrow> \<exists>m''. rel q m' = Some m'' \<and> slots m'' = slots m"
begin

definition session :: "'q \<Rightarrow> 'm \<Rightarrow> 'm" where
  "session q m = (case acq q m of (Some _, m') \<Rightarrow> m' | (None, m') \<Rightarrow> (case rel q m' of Some m'' \<Rightarrow> m'' | None \<Rightarrow> m'))"

lemma session_slots: "slots (session q m) = slots m"
proof (cases "acq q m")
  case (Pair r m')
  then show ?thesis
    using refused_keeps [of q m _ m'] granted_returns [of q m m'] by (cases r) (auto simp: session_def)
qed

lemma sessions_slots: "slots (fold session qs m) = slots m"
  by (induction qs arbitrary: m) (simp_all add: session_slots)

end

lemma put_same: "map_of m k = Some v \<Longrightarrow> put k v (put k w m) = m"
  by (induction m) (auto split: if_splits)

definition limiter_slots :: "limiter \<Rightarrow> nat \<times> (string, domain_limit) gomap" where
  "limiter_slots m = (lm_global m, lm_domains m)"

lemma acquire_refused:
  "acquire fl sha now iv m = (Some e, m') \<Longrightarrow> limiter_slots m' = limiter_slots m"
  by (auto simp: acquire_def limiter_slots_def send_global_def recv_global_def split: prod.splits option.splits if_splits
      dest: acquire_rate_slots)

lemma acquire_granted:
  assumes "acquire fl sha now iv m = (None, m')"
  shows "\<exists>m''. release_slots (cmd_domain (inv_command iv)) m' = Some m'' \<and> limiter_slots m'' = limiter_slots m"
proof -
  let ?n = "cmd_domain (inv_command iv)"
  obtain m1 m2 where m: "acquire_rate fl sha now iv m = (None, m1)" "send_global m1 = Some m2" "send_domain ?n m2 = Some m'"
    using assms by (auto simp: acquire_def split: prod.splits option.splits)
  have m2: "m2 = m1\<lparr>lm_global := Suc (lm_global m1)\<rparr>" using m(2) by (auto simp: send_global_def split: if_splits)
  obtain d where d: "map_of (lm_domains m2) ?n = Some d"
    "m' = m2\<lparr>lm_domains := put ?n (d\<lparr>dm_slots := Suc (dm_slots d)\<rparr>) (lm_domains m2)\<rparr>"
    using m(3) by (auto simp: send_domain_def split: option.splits if_splits)
  have "d\<lparr>dm_slots := dm_slots d\<rparr> = d" by simp
  then have "release_slots ?n m' = Some (m2\<lparr>lm_domains := put ?n d (lm_domains m'), lm_global := lm_global m1\<rparr>)"
    by (simp add: release_slots_def recv_domain_def recv_global_def d(2) m2)
  moreover have "put ?n d (lm_domains m') = lm_domains m1" using put_same [OF d(1)] by (simp add: d(2) m2)
  ultimately show ?thesis using acquire_rate_slots [OF m(1)] by (simp add: limiter_slots_def)
qed

interpretation lc: admission_controller
  "\<lambda>(fl, sha, now, iv). acquire fl sha now iv" "\<lambda>(fl, sha, now, iv). release_slots (cmd_domain (inv_command iv))" limiter_slots
  by unfold_locales (auto dest: acquire_refused acquire_granted)

section \<open>Slots across the pipeline\<close>

definition service_slots :: "service \<Rightarrow> (nat \<times> (string, domain_limit) gomap) option" where
  "service_slots s = map_option limiter_slots (sv_admission s)"

lemma set_breaker_admission [simp]: "sv_admission (set_breaker k b s) = sv_admission s"
  by (simp add: set_breaker_def)

lemma client_admission: "client nc c s = (r, s') \<Longrightarrow> sv_admission s' = sv_admission s"
  by (auto simp: client_def Let_def split: option.splits)

lemma invoke_admitted_admission:
  "invoke_admitted en iv rq s = (r, s', effs) \<Longrightarrow> sv_admission s' = sv_admission s"
  by (auto simp: invoke_admitted_def Let_def split: option.splits prod.splits sum.splits bool.splits
      dest: client_admission)

lemma admit_refused: "admit en iv s = (Some e, s') \<Longrightarrow> service_slots s' = service_slots s"
  by (auto simp: admit_def service_slots_def split: option.splits prod.splits dest: acquire_refused)

lemma admit_granted:
  assumes "admit en iv s = (None, s1)" "sv_admission s2 = sv_admission s1"
  shows "\<exists>s3. release_admission (cmd_domain (inv_command iv)) s2 = Some s3 \<and> service_slots s3 = service_slots s"
proof (cases "sv_admission s")
  case None
  then show ?thesis using assms by (auto simp: admit_def release_admission_def service_slots_def)
next
  case (Some m)
  then obtain m' where "acquire (en_fl en) (en_sha256 en) (en_admitAt en) iv m = (None, m')" "sv_admission s1 = Some m'"
    using assms(1) by (auto simp: admit_def split: prod.splits)
  with acquire_granted [of "en_fl en" "en_sha256 en" "en_admitAt en" iv m m'] assms(2) Some show ?thesis
    by (auto simp: release_admission_def service_slots_def)
qed

lemma invoke_balanced:
  "case invoke en iv s of
     (Inl e, s', effs) \<Rightarrow> service_slots s' = service_slots s
   | (Inr ex, s', effs) \<Rightarrow>
       (case closeBody (ex_body ex) s' of (b, s'') \<Rightarrow>
          service_slots s'' = service_slots s \<and> closeBody b s'' = (b, s''))"
proof -
  obtain r s' effs where inv: "invoke en iv s = (r, s', effs)" by (cases "invoke en iv s")
  show ?thesis
  proof (cases "\<exists>args rq s1. validateArguments (en_fmtFloat en) (inv_command iv) (inv_args iv) = Inr args
      \<and> authorize (inv_principal iv) (inv_invoker iv) (inv_command iv) (inv_aiMaxRisk iv) (inv_confirmed iv) = None
      \<and> buildRequest (en_fmtFloat en) (en_random en) (en_spanID en) iv args = Inr rq \<and> admit en iv s = (None, s1)")
    case False
    then have "isl r" "service_slots s' = service_slots s"
      using inv admit_refused [of en iv s] by (auto simp: invoke_def Let_def split: option.splits sum.splits prod.splits)
    then show ?thesis using inv by (cases r) auto
  next
    case True
    then obtain args rq s1 where *: "validateArguments (en_fmtFloat en) (inv_command iv) (inv_args iv) = Inr args"
      "authorize (inv_principal iv) (inv_invoker iv) (inv_command iv) (inv_aiMaxRisk iv) (inv_confirmed iv) = None"
      "buildRequest (en_fmtFloat en) (en_random en) (en_spanID en) iv args = Inr rq" "admit en iv s = (None, s1)"
      by blast
    obtain r2 s2 effs2 where ia: "invoke_admitted en iv rq s1 = (r2, s2, effs2)" by (cases "invoke_admitted en iv rq s1")
    obtain s3 where s3: "release_admission (cmd_domain (inv_command iv)) s2 = Some s3" "service_slots s3 = service_slots s"
      using admit_granted [OF *(4) invoke_admitted_admission [OF ia]] by blast
    show ?thesis
    proof (cases r2)
      case (Inl e)
      then show ?thesis using * ia s3 by (simp add: invoke_def Let_def releasing_def)
    next
      case (Inr ex)
      then have "rb_domain (ex_body ex) = Some (cmd_domain (inv_command iv))" "\<not> rb_released (ex_body ex)"
        using ia by (auto simp: invoke_admitted_def exchange_def execution_of_def Let_def
            split: option.splits prod.splits sum.splits bool.splits if_splits)
      then show ?thesis using * ia s3 Inr by (simp add: invoke_def Let_def closeBody_def)
    qed
  qed
qed

text \<open>No admission slot leaks: an invocation that fails, at whatever stage, leaves the slots as it
  found them; after one that succeeds, closing the body returns the slots to what they were before
  the invocation, and closing it again changes nothing.\<close>

theorem invoke_slots_balanced:
  "case invoke en iv s of
     (Inl e, s', effs) \<Rightarrow> service_slots s' = service_slots s
   | (Inr ex, s', effs) \<Rightarrow>
       (case closeBody (ex_body ex) s' of (b, s'') \<Rightarrow>
          service_slots s'' = service_slots s \<and> closeBody b s'' = (b, s''))"
  by (rule invoke_balanced)

section \<open>Order of effects\<close>

definition requests_sent :: "effect list \<Rightarrow> http_request list" where
  "requests_sent effs = List.map_filter (\<lambda>e. case e of Sent rq \<Rightarrow> Some rq | _ \<Rightarrow> None) effs"

definition requests_of :: "(invocation \<Rightarrow> http_request \<Rightarrow> go_error + http_request) \<Rightarrow> invocation \<Rightarrow> http_request \<Rightarrow> http_request list" where
  "requests_of authz iv rq = (case authz iv rq of Inr rq' \<Rightarrow> [rq'] | Inl _ \<Rightarrow> [])"

lemma exchange_sent: "exchange en authz iv rq b = (r, b', effs) \<Longrightarrow> requests_sent effs = requests_of authz iv rq"
  by (auto simp: exchange_def requests_sent_def requests_of_def List.map_filter_simps Let_def
      split: sum.splits if_splits go_error.splits)

lemma invoke_admitted_sent:
  assumes "invoke_admitted en iv rq s = (r, s', effs)"
  shows "requests_sent effs = [] \<or> (\<exists>authz. en_authorizer en = Some authz \<and> requests_sent effs = requests_of authz iv rq)"
  using assms
  by (auto simp: invoke_admitted_def Let_def requests_sent_def List.map_filter_simps
      split: option.splits prod.splits sum.splits bool.splits dest!: exchange_sent [unfolded requests_sent_def])

text \<open>C6. Nothing happens before the checks: if the arguments do not validate, or the policy refuses the
  invoker or misses the confirmation, or the request cannot be built, the call returns that error
  with the service untouched and no effect. Otherwise at most one request is sent upstream (there
  are no retries), and it is the built request after the authorizer accepted it.\<close>

theorem invoke_checks_before_effects:
  assumes "invoke en iv s = (r, s', effs)"
  shows "case validateArguments (en_fmtFloat en) (inv_command iv) (inv_args iv) of
      Inl e \<Rightarrow> r = Inl (with_trace (inv_traceID iv) e) \<and> s' = s \<and> effs = []
    | Inr args \<Rightarrow>
        (case authorize (inv_principal iv) (inv_invoker iv) (inv_command iv) (inv_aiMaxRisk iv) (inv_confirmed iv) of
           Some e \<Rightarrow> r = Inl (with_trace (inv_traceID iv) e) \<and> s' = s \<and> effs = []
         | None \<Rightarrow>
             (case buildRequest (en_fmtFloat en) (en_random en) (en_spanID en) iv args of
                Inl e \<Rightarrow> r = Inl (with_trace (inv_traceID iv) e) \<and> s' = s \<and> effs = []
              | Inr rq \<Rightarrow>
                  requests_sent effs = []
                  \<or> (\<exists>authz rq'. en_authorizer en = Some authz \<and> authz iv rq = Inr rq' \<and> requests_sent effs = [rq'])))"
  using assms
  by (auto simp: invoke_def Let_def requests_of_def requests_sent_def List.map_filter_simps
      split: option.splits sum.splits prod.splits dest!: invoke_admitted_sent [unfolded requests_sent_def])

section \<open>Breakers\<close>

definition breakers_idle :: "service \<Rightarrow> bool" where
  "breakers_idle s \<longleftrightarrow> (\<forall>k e. map_of (sv_clients s) k = Some e \<longrightarrow> \<not> br_probing (ec_breaker e))"

lemma exchange_resolves: "exchange en authz iv rq b = (r, b', effs) \<Longrightarrow> \<not> br_probing b'"
  using br.success_resolves br.failure_resolves br.ignore_resolves
  by (auto simp: exchange_def Let_def split: sum.splits if_splits)

lemma client_idle:
  assumes "client nc c s = (Inr (key, e), s')" "breakers_idle s"
  shows "breakers_idle s' \<and> \<not> br_probing (ec_breaker e)"
  using assms by (auto simp: client_def breakers_idle_def Let_def newBreaker_def split: option.splits if_splits)

lemma set_breaker_idle: "breakers_idle s \<Longrightarrow> \<not> br_probing b \<Longrightarrow> breakers_idle (set_breaker k b s)"
  by (simp add: breakers_idle_def set_breaker_def)

lemma invoke_admitted_idle:
  assumes "invoke_admitted en iv rq s = (r, s', effs)" "breakers_idle s"
  shows "breakers_idle s'"
proof (cases "en_authorizer en")
  case None
  with assms show ?thesis by (auto simp: invoke_admitted_def)
next
  case (Some authz)
  obtain c s1 where c: "client (en_newClient en) (inv_command iv) s = (c, s1)" by (cases "client (en_newClient en) (inv_command iv) s")
  show ?thesis
  proof (cases c)
    case (Inl err)
    with assms Some c have "s' = s" by (auto simp: invoke_admitted_def client_def Let_def split: option.splits)
    with assms(2) show ?thesis by simp
  next
    case (Inr ke)
    obtain key e where ke: "ke = (key, e)" by (cases ke)
    note idle = client_idle [OF c [unfolded Inr ke] assms(2)]
    obtain ok d b where al: "allow (en_allowAt en) (ec_breaker e) = ((ok, d), b)"
      by (metis prod.collapse)
    show ?thesis
    proof (cases ok)
      case False
      then have "b = ec_breaker e" using br.reject_keeps [of "en_allowAt en" "ec_breaker e"] al by simp
      then show ?thesis using assms(1) Some c Inr ke al False idle
        by (auto simp: invoke_admitted_def Let_def intro: set_breaker_idle)
    next
      case True
      then show ?thesis using assms(1) Some c Inr ke al idle
        by (auto simp: invoke_admitted_def Let_def split: prod.splits dest!: exchange_resolves intro: set_breaker_idle)
    qed
  qed
qed

lemma admit_clients: "admit en iv s = (r, s') \<Longrightarrow> sv_clients s' = sv_clients s"
  by (auto simp: admit_def split: option.splits prod.splits)

lemma releasing_clients: "sv_clients (releasing iv s) = sv_clients s"
  by (auto simp: releasing_def release_admission_def split: option.splits)

lemma breakers_idle_clients: "sv_clients s = sv_clients s' \<Longrightarrow> breakers_idle s = breakers_idle s'"
  by (simp add: breakers_idle_def)

lemma invoke_idle:
  assumes "invoke en iv s = (r, s', effs)" "breakers_idle s"
  shows "breakers_idle s'"
proof (cases "sv_clients s' = sv_clients s")
  case True
  then show ?thesis using assms(2) breakers_idle_clients by blast
next
  case False
  then obtain rq s1 s2 r2 where *: "admit en iv s = (None, s1)" "invoke_admitted en iv rq s1 = (r2, s2, effs)"
    "sv_clients s' = sv_clients s2"
    using assms(1) admit_clients releasing_clients
    by (auto simp: invoke_def Let_def split: option.splits sum.splits prod.splits)
  have "breakers_idle s1" using assms(2) admit_clients [OF *(1)] breakers_idle_clients by blast
  with invoke_admitted_idle [OF *(2)] *(3) breakers_idle_clients show ?thesis by blast
qed

text \<open>C8. Every half-open probe the pipeline takes is resolved: whatever sequence of invocations a
  service handles (with any outcomes of credentials, transports and upstreams), no breaker is left
  with a probe in flight, so no endpoint stays blocked.\<close>

theorem pipeline_resolves_probes:
  assumes "breakers_idle s"
  shows "breakers_idle (fold (\<lambda>(en, iv) t. fst (snd (invoke en iv t))) calls s)"
  using assms
proof (induction calls arbitrary: s)
  case (Cons c calls)
  obtain en iv where c: "c = (en, iv)" by (cases c)
  have "breakers_idle (fst (snd (invoke en iv s)))"
    using invoke_idle [of en iv s "fst (invoke en iv s)" _ "snd (snd (invoke en iv s))"] Cons.prems by simp
  with Cons.IH c show ?case by simp
qed simp

definition half_open_service :: service where
  "half_open_service = \<lparr>sv_admission = None, sv_clients =
     [(clientKey demo_get demo_upstream, \<lparr>ec_breaker = newBreaker 5 30\<lparr>br_openUntil := 100, br_failures := 5\<rparr>\<rparr>)]\<rparr>"

definition demo_env :: "int \<Rightarrow> invoke_env" where
  "demo_env status = \<lparr>en_fmtFloat = (\<lambda>_. []), en_fl = FNum, en_sha256 = id, en_random = ''0123456789abcdef'',
     en_spanID = ''01234567'', en_admitAt = 1000, en_allowAt = 1001, en_doneAt = 1002, en_newClient = (\<lambda>_. None),
     en_authorizer = Some (\<lambda>_ rq. Inr rq), en_invalidator = True,
     en_do = (\<lambda>_. Inr \<lparr>rs_status = status, rs_header = [], rs_body = []\<rparr>)\<rparr>"

definition demo_call :: invocation where
  "demo_call = demo_invocation demo_get\<lparr>inv_args := [(''id'', VStr ''42'')]\<rparr>"

theorem pipeline_resolves_probes_witness:
  "breakers_idle (fold (\<lambda>(en, iv) t. fst (snd (invoke en iv t))) [(demo_env 503, demo_call), (demo_env 200, demo_call)]
     half_open_service)"
  by (rule pipeline_resolves_probes) (simp add: breakers_idle_def half_open_service_def newBreaker_def)

lemma demo_exchange: "length (requests_sent (snd (snd (invoke (demo_env 200) demo_call half_open_service)))) = 1"
  by code_simp

theorem invoke_checks_before_effects_witness:
  "\<exists>rq. requests_sent (snd (snd (invoke (demo_env 200) demo_call half_open_service))) = [rq]
     \<and> rbind (validateArguments (\<lambda>_. []) demo_get [(''id'', VStr ''42'')])
         (buildRequest (\<lambda>_. []) ''0123456789abcdef'' ''01234567'' demo_call) = Inr rq"
proof -
  let ?r = "invoke (demo_env 200) demo_call half_open_service"
  have c: "inv_command demo_call = demo_get" "inv_args demo_call = [(''id'', VStr ''42'')]"
    by (simp_all add: demo_call_def)
  have e: "en_fmtFloat (demo_env 200) = (\<lambda>_. [])" "en_random (demo_env 200) = ''0123456789abcdef''"
    "en_spanID (demo_env 200) = ''01234567''" "en_authorizer (demo_env 200) = Some (\<lambda>_ rq. Inr rq)"
    by (simp_all add: demo_env_def)
  have "?r = (fst ?r, fst (snd ?r), snd (snd ?r))" by simp
  from invoke_checks_before_effects [OF this] demo_exchange show ?thesis
    unfolding c e
    by (auto simp: requests_sent_def List.map_filter_simps rbind_def split: sum.splits option.splits)
qed

section \<open>Errors\<close>

lemma with_trace_if_empty_traced: "trace \<noteq> [] \<Longrightarrow> ae_traceID (with_trace_if_empty trace e) \<noteq> []"
  by (simp add: with_trace_if_empty_def)

text \<open>Every error of the pipeline is traceable: with a non-empty trace identifier the returned error
  carries one (the invocation's own, unless the credential broker already set one).\<close>

theorem invoke_errors_traced:
  assumes "invoke en iv s = (Inl e, s', effs)" "inv_traceID iv \<noteq> []"
  shows "ae_traceID e \<noteq> []"
proof -
  have ia: "ae_traceID e' \<noteq> []" if "invoke_admitted en iv rq t = (Inl e', t', effs')" for rq t e' t' effs'
    using that assms(2)
    by (auto simp: invoke_admitted_def exchange_def with_trace_def with_trace_if_empty_traced upstreamError_def Let_def
        split: option.splits prod.splits sum.splits bool.splits if_splits go_error.splits)
  have ad: "ae_traceID e' \<noteq> []" if "admit en iv s = (Some e', t')" for e' t'
    using that assms(2) by (auto simp: admit_def with_trace_if_empty_traced split: option.splits prod.splits)
  show ?thesis
    using assms ad by (auto simp: invoke_def with_trace_def Let_def split: option.splits prod.splits sum.splits dest!: ia)
qed


theorem invoke_errors_traced_witness:
  "\<exists>e s' effs. invoke (demo_env 503) demo_call half_open_service = (Inl e, s', effs) \<and> ae_traceID e \<noteq> []"
proof -
  let ?r = "invoke (demo_env 503) demo_call half_open_service"
  have "isl (fst ?r)" by code_simp
  then have r: "?r = (Inl (projl (fst ?r)), fst (snd ?r), snd (snd ?r))" by (simp add: prod_eq_iff)
  have "inv_traceID demo_call \<noteq> []" by (simp add: demo_call_def demo_invocation_def)
  from invoke_errors_traced [OF r this] r show ?thesis by blast
qed

section \<open>Transports before publication and the standalone authorizer\<close>

text \<open>\<open>Preflight\<close>: a missing snapshot or a transport that cannot be built is an error; a key without
  a command is a nil dereference.\<close>

fun preflight_keys :: "(compiled_command \<Rightarrow> string option) \<Rightarrow> snapshot \<Rightarrow> string list \<Rightarrow> service \<Rightarrow> string option \<times> service" where
  "preflight_keys newClient sn [] s = (None, s)"
| "preflight_keys newClient sn (key # ks) s =
     (case sn_commands sn key of
        None \<Rightarrow> (Some ''nil pointer dereference'', s)
      | Some c \<Rightarrow>
          (case client newClient c s of
             (Inl err, s') \<Rightarrow> (Some (''command '' @ key @ '' transport: '' @ err), s')
           | (Inr _, s') \<Rightarrow> preflight_keys newClient sn ks s'))"

definition preflight :: "(compiled_command \<Rightarrow> string option) \<Rightarrow> snapshot option \<Rightarrow> service \<Rightarrow> string option \<times> service" where
  "preflight newClient sn s =
     (case sn of None \<Rightarrow> (Some ''runtime snapshot is required'', s)
      | Some sn \<Rightarrow> preflight_keys newClient sn (sn_commandKeys sn) s)"

text \<open>\<open>legacyAuthorizer.Authorize\<close>; the signer is an argument (\<open>None\<close> when nil).\<close>

definition legacyAuthorize :: "(invocation \<Rightarrow> string option) option \<Rightarrow> invocation \<Rightarrow> http_request \<Rightarrow> go_error + http_request" where
  "legacyAuthorize signer iv rq =
     (let mode = cmd_downstreamAuth (inv_command iv)
      in if mode = DownstreamBearerPassthrough then
           (if inv_bearerToken iv = [] then Inl (APIErr (apiError 502 ''E_DOWNSTREAM_AUTH'' ''inbound bearer is unavailable''))
            else Inr (rq\<lparr>rq_header := headerSet ''Authorization'' (''Bearer '' @ inv_bearerToken iv) (rq_header rq)\<rparr>))
         else if mode = DownstreamSignedIdentity then
           (case signer of
              None \<Rightarrow> Inl (APIErr (apiError 500 ''E_INTERNAL'' ''identity signer is unavailable''))
            | Some sign \<Rightarrow>
                (case sign iv of
                   None \<Rightarrow> Inl (APIErr ((apiError 500 ''E_INTERNAL'' ''identity signing failed'')\<lparr>ae_cause := Some ''sign''\<rparr>))
                 | Some token \<Rightarrow> Inr (rq\<lparr>rq_header := headerSet ''X-Cli-Gateway-Identity'' token (rq_header rq)\<rparr>)))
         else Inl (APIErr (apiError 500 ''E_INTERNAL'' ''downstream credential mode is not configured'')))"

section \<open>Streaming bodies\<close>

text \<open>
  \<open>idleTimeoutBody\<close>: the timer is the instant it will fire at (\<open>None\<close> once stopped or
  fired); \<open>ib_closes\<close> counts the calls to the wrapped body's \<open>Close\<close>.
\<close>

record idle_body =
  ib_timeout :: duration
  ib_timer :: "gotime option"
  ib_closed :: bool
  ib_closes :: nat

definition newIdleTimeoutBody :: "gotime \<Rightarrow> duration \<Rightarrow> idle_body" where
  "newIdleTimeoutBody now timeout = \<lparr>ib_timeout = timeout, ib_timer = Some (now + timeout), ib_closed = False, ib_closes = 0\<rparr>"

definition idle_read :: "gotime \<Rightarrow> nat \<Rightarrow> idle_body \<Rightarrow> idle_body" where
  "idle_read now count b =
     (if \<not> ib_closed b \<and> count > 0 then b\<lparr>ib_timer := Some (now + ib_timeout b)\<rparr> else b)"

definition idle_close :: "idle_body \<Rightarrow> idle_body" where
  "idle_close b = (if ib_closed b then b else b\<lparr>ib_closed := True, ib_timer := None, ib_closes := Suc (ib_closes b)\<rparr>)"

definition idle_fire :: "gotime \<Rightarrow> idle_body \<Rightarrow> idle_body" where
  "idle_fire now b =
     (case ib_timer b of Some t \<Rightarrow> (if t \<le> now then idle_close (b\<lparr>ib_timer := None\<rparr>) else b) | None \<Rightarrow> b)"

datatype stream_event = ReadBytes gotime nat | CloseStream | Tick gotime

fun stream_step :: "stream_event \<Rightarrow> idle_body \<Rightarrow> idle_body" where
  "stream_step (ReadBytes now n) b = idle_read now n b"
| "stream_step CloseStream b = idle_close b"
| "stream_step (Tick now) b = idle_fire now b"

definition idle_inv :: "idle_body \<Rightarrow> bool" where
  "idle_inv b \<longleftrightarrow> ib_closes b = (if ib_closed b then 1 else 0) \<and> (ib_timer b = None \<longleftrightarrow> ib_closed b)"

lemma stream_step_inv: "idle_inv b \<Longrightarrow> idle_inv (stream_step e b)"
  by (cases e) (auto simp: idle_inv_def idle_read_def idle_close_def idle_fire_def split: option.splits)

lemma stream_run_inv: "idle_inv b \<Longrightarrow> idle_inv (fold stream_step es b)"
  by (induction es arbitrary: b) (auto simp: stream_step_inv)

text \<open>A streamed body is closed exactly once and never outlives its idle timeout: after any sequence of
  reads, closes and timer ticks the wrapped body has been closed at most once, exactly when the
  stream is closed; an open stream always has its timer armed, and a tick at or after the last
  data plus the timeout closes it.\<close>

theorem idle_stream_closed_once:
  "let b = fold stream_step es (newIdleTimeoutBody now timeout)
   in ib_closes b \<le> 1 \<and> (ib_closes b = 1 \<longleftrightarrow> ib_closed b)
      \<and> (\<not> ib_closed b \<longrightarrow> (\<exists>t. ib_timer b = Some t \<and> ib_closed (idle_fire t b) \<and> (\<forall>u < t. idle_fire u b = b)))
      \<and> (\<forall>u n. 0 < n \<and> \<not> ib_closed b \<longrightarrow> ib_timer (idle_read u n b) = Some (u + ib_timeout b))"
proof -
  define b where "b = fold stream_step es (newIdleTimeoutBody now timeout)"
  have "idle_inv b" unfolding b_def by (rule stream_run_inv) (simp add: idle_inv_def newIdleTimeoutBody_def)
  then have "ib_closes b \<le> 1 \<and> (ib_closes b = 1 \<longleftrightarrow> ib_closed b)
      \<and> (\<not> ib_closed b \<longrightarrow> (\<exists>t. ib_timer b = Some t \<and> ib_closed (idle_fire t b) \<and> (\<forall>u < t. idle_fire u b = b)))
      \<and> (\<forall>u n. 0 < n \<and> \<not> ib_closed b \<longrightarrow> ib_timer (idle_read u n b) = Some (u + ib_timeout b))"
    by (auto simp: idle_inv_def idle_fire_def idle_close_def idle_read_def)
  then show ?thesis unfolding Let_def b_def .
qed

theorem idle_stream_closed_once_witness:
  "ib_closes (fold stream_step [ReadBytes 5 3, Tick 100, CloseStream] (newIdleTimeoutBody 0 10)) \<le> 1"
  using idle_stream_closed_once [of "[ReadBytes 5 3, Tick 100, CloseStream]" 0 10] unfolding Let_def by (rule conjunct1)

end
