(* ===== verification/Manifest_Manager.thy ===== *)
theory Manifest_Manager
  imports Manifest_Compile
begin

text \<open>
  Loading and hot reloading of manifests: \<open>internal/manifest/loader.go\<close> and
  \<open>internal/manifest/manager.go\<close>. The YAML library is a parameter: a record of the three
  calls the loader makes (the node tree for positions, the strict decode, the decode of a trailing
  document). The file system is a parameter too: the contents \<open>os.ReadFile\<close> returns.
\<close>

section \<open>Source positions\<close>

datatype ykind = YMapping | YSequence | YOther

datatype ynode = YNode (yn_kind: ykind) (yn_value: string) (yn_line: int) (yn_column: int)
  (yn_content: "ynode list")

type_synonym position_map = "(string, position) gomap"

definition childKey :: "string \<Rightarrow> string \<Rightarrow> string" where
  "childKey path key = (if path \<noteq> [] then path @ ''.'' @ key else key)"

fun collectPositions :: "ynode \<Rightarrow> string \<Rightarrow> position_map \<Rightarrow> position_map"
  and collectPairs :: "ynode list \<Rightarrow> string \<Rightarrow> position_map \<Rightarrow> position_map"
  and collectItems :: "ynode list \<Rightarrow> nat \<Rightarrow> string \<Rightarrow> position_map \<Rightarrow> position_map" where
  "collectPositions (YNode k v l c content) path positions =
     (case k of YMapping \<Rightarrow> collectPairs content path positions
      | YSequence \<Rightarrow> collectItems content 0 path positions
      | YOther \<Rightarrow> positions)"
| "collectPairs (key # value # rest) path positions =
     collectPairs rest path
       (collectPositions value (childKey path (yn_value key))
          (put (childKey path (yn_value key)) \<lparr>pos_line = yn_line value, pos_column = yn_column value\<rparr> positions))"
| "collectPairs [key] path positions = positions"
| "collectPairs [] path positions = positions"
| "collectItems [] index path positions = positions"
| "collectItems (child # rest) index path positions =
     collectItems rest (Suc index) path
       (collectPositions child (indexed path index)
          (put (indexed path index) \<lparr>pos_line = yn_line child, pos_column = yn_column child\<rparr> positions))"

definition zero_position :: position where
  "zero_position = \<lparr>pos_line = 0, pos_column = 0\<rparr>"

definition positionsOf :: "position_map \<Rightarrow> positions" where
  "positionsOf m path = (case map_of m path of None \<Rightarrow> zero_position | Some p \<Rightarrow> p)"

text \<open>\<open>decodePositions\<close>: a document without content has no positions.\<close>

definition decodePositions :: "ynode list \<Rightarrow> position_map" where
  "decodePositions content = (case content of [] \<Rightarrow> [] | document # _ \<Rightarrow> collectPositions document [] [])"

section \<open>Loading\<close>

datatype trailing = TrailingEOF | TrailingDocument | TrailingError string

record yaml_lib =
  yl_nodes :: "string \<Rightarrow> string + ynode list"
  yl_decode :: "string \<Rightarrow> string + manifest"
  yl_trailing :: "string \<Rightarrow> trailing"

datatype load_error =
    ReadError string
  | PositionsError string
  | DecodeError string
  | MultipleDocuments
  | TrailingDecodeError string
  | Invalid verrors
  | RestartRequired string

definition load :: "yaml_lib \<Rightarrow> (string \<Rightarrow> string) \<Rightarrow> gotime \<Rightarrow> string \<Rightarrow> string \<Rightarrow> load_error + snapshot" where
  "load yaml sha256 now data source =
     (case yl_nodes yaml data of
        Inl e \<Rightarrow> Inl (PositionsError e)
      | Inr content \<Rightarrow>
          (case yl_decode yaml data of
             Inl e \<Rightarrow> Inl (DecodeError e)
           | Inr raw \<Rightarrow>
               (case yl_trailing yaml data of
                  TrailingDocument \<Rightarrow> Inl MultipleDocuments
                | TrailingError e \<Rightarrow> Inl (TrailingDecodeError e)
                | TrailingEOF \<Rightarrow>
                    (let errors = validate raw (positionsOf (decodePositions content))
                     in if errors \<noteq> [] then Inl (Invalid errors)
                        else Inr (compile sha256 now raw data source)))))"

definition loadFile ::
  "yaml_lib \<Rightarrow> (string \<Rightarrow> string) \<Rightarrow> gotime \<Rightarrow> (string \<Rightarrow> string + string) \<Rightarrow> string \<Rightarrow> load_error + snapshot" where
  "loadFile yaml sha256 now readFile path =
     (case readFile path of
        Inl e \<Rightarrow> Inl (ReadError e)
      | Inr data \<Rightarrow> load yaml sha256 now data path)"

lemma load_wf: "load yaml sha now data src = Inr s \<Longrightarrow> snapshot_wf s"
  by (auto simp: load_def Let_def compile_snapshot_wf split: sum.splits trailing.splits if_splits)

lemma loadFile_wf: "loadFile yaml sha now readFile path = Inr s \<Longrightarrow> snapshot_wf s"
  by (auto simp: loadFile_def load_wf split: sum.splits)

section \<open>Fields a reload may not change\<close>

definition restartOnlyChanged :: "snapshot option \<Rightarrow> snapshot option \<Rightarrow> string option" where
  "restartOnlyChanged previous next =
     (case (previous, next) of
        (Some p, Some n) \<Rightarrow>
          (if sn_listen p \<noteq> sn_listen n then Some ''server.listen requires restart''
           else if sn_publicURL p \<noteq> sn_publicURL n then Some ''server.public_url requires restart''
           else if sn_authMode p \<noteq> sn_authMode n then Some ''auth.mode requires restart''
           else if sn_authIssuer p \<noteq> sn_authIssuer n then Some ''auth.issuer requires restart''
           else if sn_authAudience p \<noteq> sn_authAudience n then Some ''auth.audience requires restart''
           else if sn_authClientID p \<noteq> sn_authClientID n then Some ''auth.client_id requires restart''
           else if sn_authResourceParameter p \<noteq> sn_authResourceParameter n
             then Some ''auth.resource_parameter requires restart''
           else if sn_authTrustedJWKS p \<noteq> sn_authTrustedJWKS n then Some ''auth.trusted_jwks requires restart''
           else if sn_authTLS p \<noteq> sn_authTLS n then Some ''auth.tls requires restart''
           else if sn_identityKeyFile p \<noteq> sn_identityKeyFile n then Some ''server.identity_key_file requires restart''
           else if sn_identityPreviousKeyFiles p \<noteq> sn_identityPreviousKeyFiles n
             then Some ''server.identity_previous_key_files requires restart''
           else if sn_oauthTokenStoreFile p \<noteq> sn_oauthTokenStoreFile n
             then Some ''downstream_oauth.token_store_file requires restart''
           else if sn_oauthEncryptionKeyRef p \<noteq> sn_oauthEncryptionKeyRef n
             then Some ''downstream_oauth.encryption_key_ref requires restart''
           else if sn_oauthStateTTL p \<noteq> sn_oauthStateTTL n then Some ''downstream_oauth.state_ttl requires restart''
           else None)
      | _ \<Rightarrow> None)"

definition checkReloadCompatibility :: "snapshot option \<Rightarrow> snapshot option \<Rightarrow> string option" where
  "checkReloadCompatibility previous next = restartOnlyChanged previous next"

text \<open>The process-wide part of a snapshot: what the listener, the verifier and the token store were built from.\<close>

definition process_fields ::
  "snapshot \<Rightarrow> (string list \<times> tls_config \<times> string list \<times> duration)" where
  "process_fields s =
     ([sn_listen s, sn_publicURL s, sn_authMode s, sn_authIssuer s, sn_authAudience s, sn_authClientID s,
       sn_authResourceParameter s, sn_authTrustedJWKS s, sn_identityKeyFile s, sn_oauthTokenStoreFile s,
       sn_oauthEncryptionKeyRef s], sn_authTLS s, sn_identityPreviousKeyFiles s, sn_oauthStateTTL s)"

lemma restartOnlyChanged_None_iff:
  "restartOnlyChanged (Some p) (Some n) = None \<longleftrightarrow> process_fields p = process_fields n"
  by (simp add: restartOnlyChanged_def process_fields_def)

section \<open>The manager\<close>

record manifest_manager =
  mm_path :: string
  mm_current :: "snapshot option"

text \<open>\<open>filepath.Abs\<close> is an argument: it fails when the working directory is gone.\<close>

definition newManager ::
  "(string \<Rightarrow> string + string) \<Rightarrow> (string \<Rightarrow> load_error + snapshot) \<Rightarrow> string \<Rightarrow> load_error + manifest_manager" where
  "newManager absPath loadF path =
     (case absPath path of
        Inl e \<Rightarrow> Inl (ReadError e)
      | Inr absolute \<Rightarrow>
          (case loadF absolute of
             Inl e \<Rightarrow> Inl e
           | Inr s \<Rightarrow> Inr \<lparr>mm_path = absolute, mm_current = Some s\<rparr>))"

definition reload :: "(string \<Rightarrow> load_error + snapshot) \<Rightarrow> manifest_manager \<Rightarrow> load_error option \<times> manifest_manager" where
  "reload loadF m =
     (case loadF (mm_path m) of
        Inl e \<Rightarrow> (Some e, m)
      | Inr next \<Rightarrow>
          (case restartOnlyChanged (mm_current m) (Some next) of
             Some msg \<Rightarrow> (Some (RestartRequired msg), m)
           | None \<Rightarrow> (None, m\<lparr>mm_current := Some next\<rparr>)))"

fun reload_all :: "(string \<Rightarrow> load_error + snapshot) list \<Rightarrow> manifest_manager \<Rightarrow> manifest_manager" where
  "reload_all [] m = m"
| "reload_all (l # ls) m = reload_all ls (snd (reload l m))"

lemma reload_failure_keeps: "fst (reload l m) \<noteq> None \<Longrightarrow> snd (reload l m) = m"
  by (auto simp: reload_def split: sum.splits option.splits)

lemma reload_success:
  "fst (reload l m) = None \<Longrightarrow> \<exists>n. l (mm_path m) = Inr n \<and> snd (reload l m) = m\<lparr>mm_current := Some n\<rparr>"
  by (auto simp: reload_def split: sum.splits option.splits)

lemma reload_invariant:
  assumes "mm_current m = Some s"
  shows "\<exists>s'. mm_current (snd (reload l m)) = Some s' \<and> process_fields s' = process_fields s"
  using assms
  by (auto simp: reload_def restartOnlyChanged_None_iff split: sum.splits option.splits)

lemma reload_all_invariant:
  "mm_current m = Some s \<Longrightarrow>
   \<exists>s'. mm_current (reload_all ls m) = Some s' \<and> process_fields s' = process_fields s"
proof (induction ls arbitrary: m s)
  case Nil
  then show ?case by simp
next
  case (Cons l ls)
  obtain s1 where "mm_current (snd (reload l m)) = Some s1" "process_fields s1 = process_fields s"
    using reload_invariant [OF Cons.prems] by blast
  with Cons.IH show ?case by fastforce
qed

lemma reload_all_wf:
  assumes "mm_current m = Some s" "snapshot_wf s" "\<forall>l \<in> set ls. \<exists>y h t r. l = loadFile y h t r"
    "mm_current (reload_all ls m) = Some s'"
  shows "snapshot_wf s'"
  using assms
proof (induction ls arbitrary: m s)
  case Nil
  then show ?case by simp
next
  case (Cons l ls)
  obtain y h t r where l: "l = loadFile y h t r" using Cons.prems(3) by auto
  have "\<exists>s1. mm_current (snd (reload l m)) = Some s1 \<and> snapshot_wf s1"
  proof (cases "fst (reload l m) = None")
    case True
    with reload_success [OF True] l show ?thesis by (auto dest: loadFile_wf)
  next
    case False
    with reload_failure_keeps [OF False] Cons.prems(1,2) show ?thesis by simp
  qed
  then obtain s1 where s1: "mm_current (snd (reload l m)) = Some s1" "snapshot_wf s1" by blast
  show ?case by (rule Cons.IH [OF s1]) (use Cons.prems in auto)
qed

section \<open>The file watcher\<close>

text \<open>
  The select loop of \<open>Watch\<close>, which the manifest manager and the runtime manager share. The
  state is the deadline of the debounce timer when \<open>timerChannel\<close> is set. An event carries
  the instant it is received and what \<open>filepath.Abs\<close> made of its name.
\<close>

definition reloadDebounce :: duration where
  "reloadDebounce = 150 * millisecond"

datatype fs_op = OpWrite | OpCreate | OpRename | OpRemove | OpChmod

datatype watch_event =
    CtxDone
  | ErrorsClosed
  | WatchError string
  | EventsClosed
  | FsEvent gotime "string option" "fs_op list"
  | TimerFired gotime

datatype watch_action = Returned | Reported string | Reloaded

definition relevant :: "string \<Rightarrow> string option \<Rightarrow> fs_op list \<Rightarrow> bool" where
  "relevant path name ops \<longleftrightarrow>
     name = Some path \<and> (OpWrite \<in> set ops \<or> OpCreate \<in> set ops \<or> OpRename \<in> set ops)"

definition watch_step ::
  "string \<Rightarrow> gotime option \<Rightarrow> watch_event \<Rightarrow> gotime option \<times> watch_action list" where
  "watch_step path deadline e =
     (case e of
        CtxDone \<Rightarrow> (None, [Returned])
      | ErrorsClosed \<Rightarrow> (deadline, [Returned])
      | EventsClosed \<Rightarrow> (deadline, [Returned])
      | WatchError msg \<Rightarrow> (deadline, [Reported msg])
      | FsEvent now name ops \<Rightarrow>
          (if relevant path name ops then (Some (now + reloadDebounce), []) else (deadline, []))
      | TimerFired now \<Rightarrow>
          (case deadline of
             Some d \<Rightarrow> (if d \<le> now then (None, [Reloaded]) else (deadline, []))
           | None \<Rightarrow> (None, [])))"

fun watch_run :: "string \<Rightarrow> gotime option \<Rightarrow> watch_event list \<Rightarrow> watch_action list" where
  "watch_run path deadline [] = []"
| "watch_run path deadline (e # es) =
     (case watch_step path deadline e of (d, acts) \<Rightarrow>
        if Returned \<in> set acts then acts else acts @ watch_run path d es)"

text \<open>Without an armed timer nothing reloads until a relevant event arrives.\<close>

lemma watch_no_relevant:
  assumes "\<And>now name ops. FsEvent now name ops \<in> set es \<Longrightarrow> \<not> relevant path name ops"
  shows "Reloaded \<notin> set (watch_run path None es)"
  using assms
proof (induction es)
  case Nil
  then show ?case by simp
next
  case (Cons e es)
  then show ?case
    by (cases e) (auto simp: watch_step_def)
qed

text \<open>A burst of relevant events, each within the debounce window of the one before, reloads once.\<close>

fun burst :: "string \<Rightarrow> gotime \<Rightarrow> gotime list \<Rightarrow> watch_event list" where
  "burst path t [] = [TimerFired (t + reloadDebounce)]"
| "burst path t (u # us) =
     TimerFired u # FsEvent u (Some path) [OpWrite] # burst path u us"

fun in_window :: "gotime \<Rightarrow> gotime list \<Rightarrow> bool" where
  "in_window t [] = True"
| "in_window t (u # us) = (t \<le> u \<and> u < t + reloadDebounce \<and> in_window u us)"

lemma watch_burst:
  "in_window t us \<Longrightarrow> watch_run path (Some (t + reloadDebounce)) (burst path t us) = [Reloaded]"
  by (induction us arbitrary: t) (auto simp: watch_step_def relevant_def)

end
