(* ===== verification/Runtime_Gen.thy ===== *)
theory Runtime_Gen
  imports Manifest_Manager Manifest_Example
begin

text \<open>
  Reference-counted runtime generations, \<open>internal/runtime/manager.go\<close>. The methods of a
  generation run under its mutex and are functions; the manager's methods interleave, so they are
  cut at their atomic operations and run as the steps of \<open>rt_step\<close>. A generation is named by its
  position in the list of all generations built. Closing the channel \<open>drained\<close> twice and
  releasing without a lease are panics (\<open>None\<close>).
\<close>

section \<open>Generations\<close>

record generation =
  gn_id :: nat
  gn_snapshot :: snapshot
  gn_retired :: bool
  gn_active :: int
  gn_drained :: bool
  gn_closed :: bool
  gn_closes :: nat

definition newGeneration :: "nat \<Rightarrow> snapshot option \<Rightarrow> bool \<Rightarrow> string + generation" where
  "newGeneration i snapshot hasInvoker =
     (case snapshot of
        None \<Rightarrow> Inl ''runtime snapshot is required''
      | Some s \<Rightarrow>
          (if \<not> hasInvoker then Inl ''runtime invocation service is required''
           else Inr \<lparr>gn_id = i, gn_snapshot = s, gn_retired = False, gn_active = 0, gn_drained = False,
                  gn_closed = False, gn_closes = 0\<rparr>))"

definition close_drained :: "generation \<Rightarrow> generation option" where
  "close_drained g = (if gn_drained g then None else Some (g\<lparr>gn_drained := True\<rparr>))"

definition gen_acquire :: "generation \<Rightarrow> bool \<times> generation" where
  "gen_acquire g = (if gn_retired g then (False, g) else (True, g\<lparr>gn_active := gn_active g + 1\<rparr>))"

definition gen_release :: "generation \<Rightarrow> generation option" where
  "gen_release g =
     (if gn_active g \<le> 0 then None
      else (let g' = g\<lparr>gn_active := gn_active g - 1\<rparr>
            in if gn_retired g' \<and> gn_active g' = 0 then close_drained g' else Some g'))"

definition gen_retire :: "generation \<Rightarrow> generation option" where
  "gen_retire g =
     (if gn_retired g then Some g
      else (let g' = g\<lparr>gn_retired := True\<rparr> in if gn_active g' = 0 then close_drained g' else Some g'))"

definition gen_close :: "generation \<Rightarrow> generation" where
  "gen_close g = (if gn_closed g then g else g\<lparr>gn_closed := True, gn_closes := Suc (gn_closes g)\<rparr>)"

text \<open>What the reference count promises, given the number \<open>n\<close> of leases held.\<close>

definition gen_inv :: "nat \<Rightarrow> generation \<Rightarrow> bool" where
  "gen_inv n g \<longleftrightarrow> gn_active g = int n \<and> (gn_drained g \<longleftrightarrow> gn_retired g \<and> n = 0)
     \<and> (gn_closed g \<longrightarrow> gn_retired g) \<and> gn_closes g = (if gn_closed g then 1 else 0)"

lemma gen_acquire_inv:
  "gen_inv n g \<Longrightarrow> gen_acquire g = (ok, g') \<Longrightarrow> gen_inv (if ok then Suc n else n) g' \<and> (ok \<longleftrightarrow> \<not> gn_retired g)"
  by (auto simp: gen_inv_def gen_acquire_def split: if_splits)

lemma gen_release_inv:
  assumes "gen_inv (Suc n) g"
  shows "\<exists>g'. gen_release g = Some g' \<and> gen_inv n g' \<and> gn_retired g' = gn_retired g"
  using assms by (auto simp: gen_inv_def gen_release_def close_drained_def Let_def)

lemma gen_retire_inv:
  assumes "gen_inv n g"
  shows "\<exists>g'. gen_retire g = Some g' \<and> gen_inv n g' \<and> gn_retired g'"
  using assms by (auto simp: gen_inv_def gen_retire_def close_drained_def Let_def)

lemma gen_close_inv: "gen_inv n g \<Longrightarrow> gn_retired g \<Longrightarrow> gen_inv n (gen_close g) \<and> gn_retired (gen_close g)"
  by (auto simp: gen_inv_def gen_close_def)

lemma gen_close_drained [simp]: "gn_drained (gen_close g) = gn_drained g"
  by (simp add: gen_close_def)

section \<open>The manager\<close>

text \<open>
  A caller of \<open>Acquire\<close> and the life of its lease; the state of \<open>Reload\<close> (its mutex, and the
  generation it saw as current) and of \<open>Close\<close>; the goroutines draining a generation. The
  generations whose drain ended by its timeout are noted in \<open>rt_forced\<close>.
\<close>

datatype caller = Looking | Loaded nat | HasLease nat | LeaseClosed nat | Refused

datatype closing = NotClosing | ClosedFlag | Retiring nat | Waiting nat | CloseDone

record runtime =
  rt_gens :: "generation list"
  rt_current :: "nat option"
  rt_closed :: bool
  rt_callers :: "caller list"
  rt_reloading :: "nat option option"
  rt_drains :: "(nat \<times> bool) list"
  rt_closing :: closing
  rt_forced :: "nat list"

definition set_gen :: "nat \<Rightarrow> generation \<Rightarrow> runtime \<Rightarrow> runtime" where
  "set_gen i g r = r\<lparr>rt_gens := (rt_gens r)[i := g]\<rparr>"

definition set_caller :: "nat \<Rightarrow> caller \<Rightarrow> runtime \<Rightarrow> runtime" where
  "set_caller j c r = r\<lparr>rt_callers := (rt_callers r)[j := c]\<rparr>"

definition new_runtime :: "snapshot \<Rightarrow> runtime" where
  "new_runtime s =
     \<lparr>rt_gens = [\<lparr>gn_id = 1, gn_snapshot = s, gn_retired = False, gn_active = 0, gn_drained = False,
                 gn_closed = False, gn_closes = 0\<rparr>],
      rt_current = Some 0, rt_closed = False, rt_callers = [], rt_reloading = None, rt_drains = [],
      rt_closing = NotClosing, rt_forced = []\<rparr>"

inductive rt_step :: "runtime \<Rightarrow> runtime \<Rightarrow> bool" where
  acquire_refused: "rt_closed r \<Longrightarrow> rt_step r (r\<lparr>rt_callers := rt_callers r @ [Refused]\<rparr>)"
| acquire_start: "\<not> rt_closed r \<Longrightarrow> rt_step r (r\<lparr>rt_callers := rt_callers r @ [Looking]\<rparr>)"
| load_current: "j < length (rt_callers r) \<Longrightarrow> rt_callers r ! j = Looking \<Longrightarrow>
    rt_step r (set_caller j (case rt_current r of None \<Rightarrow> Refused | Some i \<Rightarrow> Loaded i) r)"
| try_acquire: "j < length (rt_callers r) \<Longrightarrow> rt_callers r ! j = Loaded i \<Longrightarrow> gen_acquire (rt_gens r ! i) = (ok, g) \<Longrightarrow>
    rt_step r (set_caller j (if ok then HasLease i else Looking) (set_gen i g r))"
| lease_close: "j < length (rt_callers r) \<Longrightarrow> rt_callers r ! j = HasLease i \<Longrightarrow> gen_release (rt_gens r ! i) = Some g \<Longrightarrow>
    rt_step r (set_caller j (LeaseClosed i) (set_gen i g r))"
| reload_begin: "rt_reloading r = None \<Longrightarrow> \<not> rt_closed r \<Longrightarrow> rt_step r (r\<lparr>rt_reloading := Some (rt_current r)\<rparr>)"
| reload_fails: "rt_reloading r = Some p \<Longrightarrow> rt_step r (r\<lparr>rt_reloading := None\<rparr>)"
| reload_publish: "rt_reloading r = Some p \<Longrightarrow> newGeneration n (Some s) True = Inr g \<Longrightarrow>
    rt_step r (r\<lparr>rt_gens := rt_gens r @ [g], rt_current := Some (length (rt_gens r)), rt_reloading := None,
                 rt_drains := (case p of None \<Rightarrow> rt_drains r | Some i \<Rightarrow> rt_drains r @ [(i, False)])\<rparr>)"
| drain_retire: "k < length (rt_drains r) \<Longrightarrow> rt_drains r ! k = (i, False) \<Longrightarrow> gen_retire (rt_gens r ! i) = Some g \<Longrightarrow>
    rt_step r ((set_gen i g r)\<lparr>rt_drains := (rt_drains r)[k := (i, True)]\<rparr>)"
| drain_done: "k < length (rt_drains r) \<Longrightarrow> rt_drains r ! k = (i, True) \<Longrightarrow> gn_drained (rt_gens r ! i) \<Longrightarrow>
    rt_step r (set_gen i (gen_close (rt_gens r ! i)) r)"
| drain_timeout: "k < length (rt_drains r) \<Longrightarrow> rt_drains r ! k = (i, True) \<Longrightarrow>
    rt_step r ((set_gen i (gen_close (rt_gens r ! i)) r)\<lparr>rt_forced := i # rt_forced r\<rparr>)"
| close_flag: "\<not> rt_closed r \<Longrightarrow> rt_step r (r\<lparr>rt_closed := True, rt_closing := ClosedFlag\<rparr>)"
| close_swap: "rt_closing r = ClosedFlag \<Longrightarrow>
    rt_step r (r\<lparr>rt_current := None, rt_closing := (case rt_current r of None \<Rightarrow> CloseDone | Some i \<Rightarrow> Retiring i)\<rparr>)"
| close_retire: "rt_closing r = Retiring i \<Longrightarrow> gen_retire (rt_gens r ! i) = Some g \<Longrightarrow>
    rt_step r ((set_gen i g r)\<lparr>rt_closing := Waiting i\<rparr>)"
| close_done: "rt_closing r = Waiting i \<Longrightarrow> gn_drained (rt_gens r ! i) \<Longrightarrow>
    rt_step r ((set_gen i (gen_close (rt_gens r ! i)) r)\<lparr>rt_closing := CloseDone\<rparr>)"
| close_timeout: "rt_closing r = Waiting i \<Longrightarrow>
    rt_step r ((set_gen i (gen_close (rt_gens r ! i)) r)\<lparr>rt_closing := CloseDone, rt_forced := i # rt_forced r\<rparr>)"

section \<open>Invariant\<close>

definition leases :: "nat \<Rightarrow> runtime \<Rightarrow> nat" where
  "leases i r = tally (\<lambda>c. c = HasLease i) (rt_callers r)"

fun caller_gen :: "caller \<Rightarrow> nat option" where
  "caller_gen (Loaded i) = Some i"
| "caller_gen (HasLease i) = Some i"
| "caller_gen (LeaseClosed i) = Some i"
| "caller_gen _ = None"

definition counts_ok :: "runtime \<Rightarrow> bool" where
  "counts_ok r \<longleftrightarrow> (\<forall>i < length (rt_gens r). gen_inv (leases i r) (rt_gens r ! i)
     \<and> (gn_closed (rt_gens r ! i) \<longrightarrow> i \<in> set (rt_forced r) \<or> gn_drained (rt_gens r ! i)))"

definition indices_ok :: "runtime \<Rightarrow> bool" where
  "indices_ok r \<longleftrightarrow> (\<forall>c \<in> set (rt_callers r). \<forall>i. caller_gen c = Some i \<longrightarrow> i < length (rt_gens r))
     \<and> (\<forall>i. rt_current r = Some i \<longrightarrow> i < length (rt_gens r))
     \<and> (\<forall>i. rt_reloading r = Some (Some i) \<longrightarrow> i < length (rt_gens r))"

text \<open>A generation being drained or closed is never the current one, and it is retired from then on.\<close>

definition drains_ok :: "runtime \<Rightarrow> bool" where
  "drains_ok r \<longleftrightarrow>
     (\<forall>i b. (i, b) \<in> set (rt_drains r) \<longrightarrow> i < length (rt_gens r) \<and> rt_current r \<noteq> Some i \<and> (b \<longrightarrow> gn_retired (rt_gens r ! i)))
     \<and> (\<forall>i. rt_closing r = Retiring i \<or> rt_closing r = Waiting i \<longrightarrow> i < length (rt_gens r) \<and> rt_current r \<noteq> Some i)
     \<and> (\<forall>i. rt_closing r = Waiting i \<longrightarrow> gn_retired (rt_gens r ! i))
     \<and> (\<forall>i. rt_current r = Some i \<longrightarrow> \<not> gn_retired (rt_gens r ! i))"

definition rt_inv :: "runtime \<Rightarrow> bool" where
  "rt_inv r \<longleftrightarrow> counts_ok r \<and> indices_ok r \<and> drains_ok r"

lemma new_runtime_inv: "rt_inv (new_runtime s)"
  by (simp add: rt_inv_def counts_ok_def indices_ok_def drains_ok_def new_runtime_def gen_inv_def leases_def)

lemma rt_fields [simp]:
  "rt_gens (set_gen i g r) = (rt_gens r)[i := g]" "rt_callers (set_gen i g r) = rt_callers r"
  "rt_current (set_gen i g r) = rt_current r" "rt_drains (set_gen i g r) = rt_drains r"
  "rt_closing (set_gen i g r) = rt_closing r" "rt_forced (set_gen i g r) = rt_forced r"
  "rt_reloading (set_gen i g r) = rt_reloading r"
  "rt_gens (set_caller j c r) = rt_gens r" "rt_callers (set_caller j c r) = (rt_callers r)[j := c]"
  "rt_current (set_caller j c r) = rt_current r" "rt_drains (set_caller j c r) = rt_drains r"
  "rt_closing (set_caller j c r) = rt_closing r" "rt_forced (set_caller j c r) = rt_forced r"
  "rt_reloading (set_caller j c r) = rt_reloading r"
  by (simp_all add: set_gen_def set_caller_def)

lemma leases_set_caller:
  "j < length (rt_callers r) \<Longrightarrow>
   leases i (set_caller j c r) + (if rt_callers r ! j = HasLease i then 1 else 0) = leases i r + (if c = HasLease i then 1 else 0)"
  using tally_update [of j "rt_callers r" "\<lambda>c. c = HasLease i" c] by (simp add: leases_def)

lemma leases_cong: "rt_callers r = rt_callers r' \<Longrightarrow> leases i r = leases i r'"
  by (simp add: leases_def)

lemma rt_invD:
  assumes "rt_inv r"
  shows "\<And>i. i < length (rt_gens r) \<Longrightarrow> gen_inv (leases i r) (rt_gens r ! i)"
    "\<And>i. i < length (rt_gens r) \<Longrightarrow> gn_closed (rt_gens r ! i) \<Longrightarrow> i \<in> set (rt_forced r) \<or> gn_drained (rt_gens r ! i)"
    "\<And>j i. j < length (rt_callers r) \<Longrightarrow> caller_gen (rt_callers r ! j) = Some i \<Longrightarrow> i < length (rt_gens r)"
    "\<And>i. rt_current r = Some i \<Longrightarrow> i < length (rt_gens r) \<and> \<not> gn_retired (rt_gens r ! i)"
    "\<And>i. rt_reloading r = Some (Some i) \<Longrightarrow> i < length (rt_gens r)"
    "\<And>k i b. k < length (rt_drains r) \<Longrightarrow> rt_drains r ! k = (i, b) \<Longrightarrow>
       i < length (rt_gens r) \<and> rt_current r \<noteq> Some i \<and> (b \<longrightarrow> gn_retired (rt_gens r ! i))"
    "\<And>i. rt_closing r = Retiring i \<or> rt_closing r = Waiting i \<Longrightarrow> i < length (rt_gens r) \<and> rt_current r \<noteq> Some i"
    "\<And>i. rt_closing r = Waiting i \<Longrightarrow> gn_retired (rt_gens r ! i)"
  using assms unfolding rt_inv_def counts_ok_def indices_ok_def drains_ok_def by (metis nth_mem)+

text \<open>Replacing one generation by a version with the same or a later life, and one caller.\<close>

lemma set_gen_caller_inv:
  assumes inv: "rt_inv r" and i: "i < length (rt_gens r)"
    and c: "\<And>k. caller_gen c = Some k \<Longrightarrow> k < length (rt_gens r)"
      "\<And>k. k \<noteq> i \<Longrightarrow> leases k (set_caller j c r) = leases k r"
    and g: "gen_inv (leases i (set_caller j c r)) g" "gn_retired g = gn_retired (rt_gens r ! i)"
      "gn_closed g \<Longrightarrow> i \<in> set (rt_forced r) \<or> gn_drained g"
  shows "rt_inv (set_caller j c (set_gen i g r))"
proof -
  have l: "leases k (set_caller j c (set_gen i g r)) = leases k (set_caller j c r)" for k by (rule leases_cong) simp
  have "counts_ok (set_caller j c (set_gen i g r))"
    using rt_invD(1,2) [OF inv] i g(1,3) c(2) by (auto simp: counts_ok_def nth_list_update l)
  moreover have "indices_ok (set_caller j c (set_gen i g r))"
    using inv c(1) by (auto simp: rt_inv_def indices_ok_def dest!: subsetD [OF set_update_subset_insert])
  moreover have "drains_ok (set_caller j c (set_gen i g r))"
    using inv i g(2) by (auto simp: rt_inv_def drains_ok_def nth_list_update)
  ultimately show ?thesis by (simp add: rt_inv_def)
qed

lemma retire_close_inv:
  assumes inv: "rt_inv r" and i: "i < length (rt_gens r)" "rt_current r \<noteq> Some i"
    and g: "gen_inv (leases i r) g" "gn_retired g"
      "gn_closed g \<Longrightarrow> i \<in> set f \<or> gn_drained g" "set (rt_forced r) \<subseteq> set f"
    and d: "\<And>k b. (k, b) \<in> set d \<Longrightarrow> (k, b) \<in> set (rt_drains r) \<or> k = i"
    and cl: "cl = rt_closing r \<or> cl = Waiting i \<or> cl = CloseDone"
  shows "rt_inv ((set_gen i g r)\<lparr>rt_drains := d, rt_closing := cl, rt_forced := f\<rparr>)" (is "rt_inv ?r")
proof -
  have l: "leases k ?r = leases k r" for k by (rule leases_cong) simp
  have "counts_ok ?r"
    using rt_invD(1,2) [OF inv] i g by (auto simp: counts_ok_def nth_list_update l)
  moreover have "indices_ok ?r" using inv by (simp add: rt_inv_def indices_ok_def)
  moreover have "drains_ok ?r"
    using inv i g(2) d cl by (auto simp: rt_inv_def drains_ok_def nth_list_update)
  ultimately show ?thesis by (simp add: rt_inv_def)
qed

lemma idle_caller_inv:
  assumes "rt_inv r" "j < length (rt_callers r)" "rt_callers r ! j = Looking"
    "\<And>k. c \<noteq> HasLease k" "\<And>k. caller_gen c = Some k \<Longrightarrow> k < length (rt_gens r)"
  shows "rt_inv (set_caller j c r)"
proof -
  have l: "leases k (set_caller j c r) = leases k r" for k
    using leases_set_caller [OF assms(2), of k c] assms(3,4) by simp
  have "counts_ok (set_caller j c r)" using assms(1) by (simp add: rt_inv_def counts_ok_def l)
  moreover have "indices_ok (set_caller j c r)"
    using assms(1,5) by (auto simp: rt_inv_def indices_ok_def dest!: subsetD [OF set_update_subset_insert])
  ultimately show ?thesis using assms(1) by (simp add: rt_inv_def drains_ok_def)
qed

lemma publish_inv:
  assumes "rt_inv r" "rt_reloading r = Some p" "newGeneration n (Some s) True = Inr g"
  shows "rt_inv (r\<lparr>rt_gens := rt_gens r @ [g], rt_current := Some (length (rt_gens r)), rt_reloading := None,
    rt_drains := (case p of None \<Rightarrow> rt_drains r | Some i \<Rightarrow> rt_drains r @ [(i, False)])\<rparr>)" (is "rt_inv ?r")
proof -
  have l: "leases k ?r = leases k r" for k by (rule leases_cong) simp
  have none: "leases (length (rt_gens r)) r = 0"
    unfolding leases_def
  proof (rule tally_zero)
    fix c assume "c \<in> set (rt_callers r)"
    then have "caller_gen c \<noteq> Some (length (rt_gens r))" using assms(1) by (auto simp: rt_inv_def indices_ok_def)
    then show "c \<noteq> HasLease (length (rt_gens r))" by auto
  qed
  have g: "gen_inv 0 g \<and> \<not> gn_retired g \<and> \<not> gn_closed g"
    using assms(3) by (auto simp: newGeneration_def gen_inv_def)
  have "counts_ok ?r"
    using rt_invD(1,2) [OF assms(1)] g none by (auto simp: counts_ok_def nth_append l less_Suc_eq)
  moreover have "indices_ok ?r"
    using assms(1) by (auto simp: rt_inv_def indices_ok_def intro: less_SucI)
  moreover have "drains_ok ?r"
    using assms(1,2) g rt_invD(5) [OF assms(1)]
    by (cases p) (auto simp: rt_inv_def drains_ok_def nth_append dest: less_SucI)
  ultimately show ?thesis by (simp add: rt_inv_def)
qed

lemma rt_step_inv: "rt_step r r' \<Longrightarrow> rt_inv r \<Longrightarrow> rt_inv r'"
proof (induction rule: rt_step.induct)
  case (load_current j r)
  have "case rt_current r of None \<Rightarrow> True | Some i \<Rightarrow> i < length (rt_gens r)"
    using rt_invD(4) [OF load_current(3)] by (simp split: option.splits)
  then show ?case using load_current by (intro idle_caller_inv) (auto split: option.splits)
next
  case (try_acquire j r i ok g)
  have i: "i < length (rt_gens r)" using rt_invD(3) [OF try_acquire(4,1)] try_acquire(2) by simp
  note acq = gen_acquire_inv [OF rt_invD(1) [OF try_acquire(4) i] try_acquire(3)]
  show ?case
    using try_acquire acq i rt_invD(2) [OF try_acquire(4) i] leases_set_caller [OF try_acquire(1), of _ "if ok then HasLease i else Looking"]
    by (intro set_gen_caller_inv) (auto simp: gen_acquire_def gen_inv_def split: if_splits)
next
  case (lease_close j r i g)
  have i: "i < length (rt_gens r)" using rt_invD(3) [OF lease_close(4,1)] lease_close(2) by simp
  note l = leases_set_caller [OF lease_close(1), of _ "LeaseClosed i"]
  have suc: "leases i r = Suc (leases i (set_caller j (LeaseClosed i) r))" using l [of i] lease_close(2) by simp
  obtain g' where g': "gen_release (rt_gens r ! i) = Some g'" "gen_inv (leases i (set_caller j (LeaseClosed i) r)) g'"
    "gn_retired g' = gn_retired (rt_gens r ! i)"
    using gen_release_inv rt_invD(1) [OF lease_close(4) i] unfolding suc by blast
  have cl: "gn_closed g = gn_closed (rt_gens r ! i)" "gn_drained (rt_gens r ! i) \<longrightarrow> gn_drained g"
    using lease_close(3) by (auto simp: gen_release_def close_drained_def Let_def split: if_splits)
  have other: "leases k (set_caller j (LeaseClosed i) r) = leases k r" if "k \<noteq> i" for k
    using l [of k] lease_close(2) that by simp
  have "gn_closed g \<Longrightarrow> i \<in> set (rt_forced r) \<or> gn_drained g" using rt_invD(2) [OF lease_close(4) i] cl by blast
  then show ?case
    using set_gen_caller_inv [OF lease_close(4) i _ other] lease_close(3) g' i by simp
next
  case (reload_publish r p n s g)
  then show ?case by (intro publish_inv)
next
  case (drain_retire k r i g)
  note k = rt_invD(6) [OF drain_retire(4,1,2)]
  obtain g' where g': "gen_retire (rt_gens r ! i) = Some g'" "gen_inv (leases i r) g'" "gn_retired g'"
    using gen_retire_inv [OF rt_invD(1) [OF drain_retire(4)]] k by blast
  have "gn_closed g \<longrightarrow> i \<in> set (rt_forced r) \<or> gn_drained g"
    using rt_invD(2) [OF drain_retire(4), of i] k drain_retire(3)
    by (auto simp: gen_retire_def close_drained_def Let_def split: if_splits)
  moreover have "(k', b) \<in> set (rt_drains r) \<or> k' = i" if "(k', b) \<in> set ((rt_drains r)[k := (i, True)])" for k' b
    using subsetD [OF set_update_subset_insert that] by auto
  ultimately have "rt_inv ((set_gen i g r)\<lparr>rt_drains := (rt_drains r)[k := (i, True)], rt_closing := rt_closing r, rt_forced := rt_forced r\<rparr>)"
    using retire_close_inv [OF drain_retire(4), of i g "rt_forced r" "(rt_drains r)[k := (i, True)]" "rt_closing r"]
      k g' drain_retire(3) by simp
  then show ?case by (simp add: set_gen_def)
next
  case (drain_done k r i)
  note k = rt_invD(6) [OF drain_done(4,1,2)]
  show ?case
    using retire_close_inv [OF drain_done(4), of i "gen_close (rt_gens r ! i)" "rt_forced r" "rt_drains r" "rt_closing r"]
      k gen_close_inv [OF rt_invD(1) [OF drain_done(4)]] drain_done(3) by (auto simp: set_gen_def)
next
  case (drain_timeout k r i)
  note k = rt_invD(6) [OF drain_timeout(3,1,2)]
  show ?case
    using retire_close_inv [OF drain_timeout(3), of i "gen_close (rt_gens r ! i)" "i # rt_forced r" "rt_drains r" "rt_closing r"]
      k gen_close_inv [OF rt_invD(1) [OF drain_timeout(3)]] by (auto simp: set_gen_def)
next
  case (close_swap r)
  then show ?case by (auto simp: rt_inv_def counts_ok_def indices_ok_def drains_ok_def leases_def split: option.splits)
next
  case (close_retire r i g)
  have k: "i < length (rt_gens r)" "rt_current r \<noteq> Some i" using rt_invD(7) [OF close_retire(3)] close_retire(1) by blast+
  obtain g' where g': "gen_retire (rt_gens r ! i) = Some g'" "gen_inv (leases i r) g'" "gn_retired g'"
    using gen_retire_inv [OF rt_invD(1) [OF close_retire(3)]] k by blast
  have "gn_closed g \<longrightarrow> i \<in> set (rt_forced r) \<or> gn_drained g"
    using rt_invD(2) [OF close_retire(3), of i] k close_retire(2)
    by (auto simp: gen_retire_def close_drained_def Let_def split: if_splits)
  then show ?case
    using retire_close_inv [OF close_retire(3), of i g "rt_forced r" "rt_drains r" "Waiting i"]
      k g' close_retire(2) by (auto simp: set_gen_def)
next
  case (close_done r i)
  have k: "i < length (rt_gens r)" "rt_current r \<noteq> Some i" "gn_retired (rt_gens r ! i)"
    using rt_invD(7,8) [OF close_done(3)] close_done(1) by blast+
  show ?case
    using retire_close_inv [OF close_done(3), of i "gen_close (rt_gens r ! i)" "rt_forced r" "rt_drains r" CloseDone]
      k gen_close_inv [OF rt_invD(1) [OF close_done(3)]] close_done(2) by (auto simp: set_gen_def)
next
  case (close_timeout r i)
  have k: "i < length (rt_gens r)" "rt_current r \<noteq> Some i" "gn_retired (rt_gens r ! i)"
    using rt_invD(7,8) [OF close_timeout(2)] close_timeout(1) by blast+
  show ?case
    using retire_close_inv [OF close_timeout(2), of i "gen_close (rt_gens r ! i)" "i # rt_forced r" "rt_drains r" CloseDone]
      k gen_close_inv [OF rt_invD(1) [OF close_timeout(2)]] by (auto simp: set_gen_def)
qed (auto simp: rt_inv_def counts_ok_def indices_ok_def drains_ok_def leases_def)

lemma rt_reachable_inv: "rt_step\<^sup>*\<^sup>* r r' \<Longrightarrow> rt_inv r \<Longrightarrow> rt_inv r'"
  by (induction rule: rtranclp_induct) (auto intro: rt_step_inv)

lemma lease_release_enabled:
  assumes "rt_inv r" "j < length (rt_callers r)" "rt_callers r ! j = HasLease i"
  shows "gen_release (rt_gens r ! i) \<noteq> None"
proof -
  have i: "i < length (rt_gens r)" using rt_invD(3) [OF assms(1,2)] assms(3) by simp
  have "0 < leases i r" unfolding leases_def using tally_pos [OF assms(2)] assms(3) by simp
  then obtain n where "leases i r = Suc n" using gr0_conv_Suc by blast
  with gen_release_inv rt_invD(1) [OF assms(1) i] show ?thesis by fastforce
qed

text \<open>C35. Leases protect generations: in every interleaving of requests, reloads, drains and shutdown, the
  count of a generation is the number of leases held on it, its components are closed at most once
  and only after it was retired, and a generation that was closed with leases still open is one whose
  drain timed out; closing a lease never panics, and neither does retiring a generation.\<close>

theorem leases_protect_generations:
  assumes "rt_step\<^sup>*\<^sup>* (new_runtime s) r" "i < length (rt_gens r)"
  shows "gn_active (rt_gens r ! i) = int (leases i r) \<and> gn_closes (rt_gens r ! i) \<le> 1
    \<and> (gn_closed (rt_gens r ! i) \<longrightarrow> gn_retired (rt_gens r ! i) \<and> (leases i r = 0 \<or> i \<in> set (rt_forced r)))
    \<and> (\<forall>j < length (rt_callers r). rt_callers r ! j = HasLease i \<longrightarrow> gen_release (rt_gens r ! i) \<noteq> None)
    \<and> gen_retire (rt_gens r ! i) \<noteq> None"
proof -
  have inv: "rt_inv r" by (rule rt_reachable_inv [OF assms(1) new_runtime_inv])
  note g = rt_invD(1,2) [OF inv assms(2)]
  have "gen_retire (rt_gens r ! i) \<noteq> None" using gen_retire_inv [OF g(1)] by auto
  then show ?thesis using g lease_release_enabled [OF inv] by (auto simp: gen_inv_def)
qed

text \<open>Acquisition is live and safe: a caller that tries the generation that is still current obtains
  a lease at once, and a lease is never granted on a generation whose components were closed.\<close>

theorem acquire_current_succeeds:
  assumes "rt_step\<^sup>*\<^sup>* (new_runtime s) r" "j < length (rt_callers r)" "rt_callers r ! j = Loaded i"
    "gen_acquire (rt_gens r ! i) = (ok, g)"
  shows "(rt_current r = Some i \<longrightarrow> ok) \<and> (ok \<longrightarrow> \<not> gn_closed (rt_gens r ! i) \<and> \<not> gn_drained (rt_gens r ! i))"
proof -
  have inv: "rt_inv r" by (rule rt_reachable_inv [OF assms(1) new_runtime_inv])
  have i: "i < length (rt_gens r)" using rt_invD(3) [OF inv assms(2)] assms(3) by simp
  have "ok \<longleftrightarrow> \<not> gn_retired (rt_gens r ! i)" using gen_acquire_inv [OF rt_invD(1) [OF inv i] assms(4)] by simp
  then show ?thesis using rt_invD(1) [OF inv i] rt_invD(4) [OF inv] by (auto simp: gen_inv_def)
qed

section \<open>Witnesses\<close>

definition loaded_runtime :: "snapshot \<Rightarrow> runtime" where
  "loaded_runtime s = (new_runtime s)\<lparr>rt_callers := [Loaded 0]\<rparr>"

lemma loaded_reachable: "rt_step\<^sup>*\<^sup>* (new_runtime s) (loaded_runtime s)"
proof -
  have a: "rt_step (new_runtime s) ((new_runtime s)\<lparr>rt_callers := [Looking]\<rparr>)"
    using acquire_start [of "new_runtime s"] by (simp add: new_runtime_def)
  have b: "rt_step ((new_runtime s)\<lparr>rt_callers := [Looking]\<rparr>) (loaded_runtime s)"
    using load_current [of 0 "(new_runtime s)\<lparr>rt_callers := [Looking]\<rparr>"]
    by (simp add: new_runtime_def set_caller_def loaded_runtime_def)
  from a b show ?thesis by (meson converse_rtranclp_into_rtranclp rtranclp.rtrancl_refl)
qed

theorem leases_protect_generations_witness:
  "gn_active (rt_gens (loaded_runtime demo_snapshot) ! 0) = int (leases 0 (loaded_runtime demo_snapshot))"
  using leases_protect_generations [OF loaded_reachable, of 0] by (simp add: loaded_runtime_def new_runtime_def)

theorem acquire_current_succeeds_witness:
  "fst (gen_acquire (rt_gens (loaded_runtime demo_snapshot) ! 0))"
  using acquire_current_succeeds [OF loaded_reachable _ _ prod.collapse [symmetric], of 0 demo_snapshot 0]
  by (simp add: loaded_runtime_def new_runtime_def)

text \<open>
  A reload that has passed its check of the closed flag when \<open>Close\<close> runs publishes its generation
  afterwards: the manager is closed, shutdown is over, and the new generation is current, never
  retired and never closed.
\<close>

theorem reload_after_close_leaks:
  "\<exists>r. rt_step\<^sup>*\<^sup>* (new_runtime s) r \<and> rt_closed r \<and> rt_closing r = CloseDone
     \<and> (\<exists>i. rt_current r = Some i \<and> \<not> gn_retired (rt_gens r ! i) \<and> \<not> gn_closed (rt_gens r ! i))"
proof -
  let ?g = "\<lambda>ret cl. \<lparr>gn_id = 1, gn_snapshot = s, gn_retired = ret, gn_active = 0, gn_drained = ret, gn_closed = cl,
     gn_closes = (if cl then 1 else 0)\<rparr>"
  let ?r = "\<lambda>gs cur cd rl dr cl. \<lparr>rt_gens = gs, rt_current = cur, rt_closed = cd, rt_callers = [], rt_reloading = rl,
     rt_drains = dr, rt_closing = cl, rt_forced = []\<rparr>"
  let ?n = "\<lparr>gn_id = 2, gn_snapshot = s, gn_retired = False, gn_active = 0, gn_drained = False, gn_closed = False, gn_closes = 0\<rparr>"
  have 1: "rt_step (new_runtime s) (?r [?g False False] (Some 0) False (Some (Some 0)) [] NotClosing)"
    using reload_begin [of "new_runtime s"] by (simp add: new_runtime_def)
  have 2: "rt_step (?r [?g False False] (Some 0) False (Some (Some 0)) [] NotClosing) (?r [?g False False] (Some 0) True (Some (Some 0)) [] ClosedFlag)"
    using close_flag [of "?r [?g False False] (Some 0) False (Some (Some 0)) [] NotClosing"] by simp
  have 3: "rt_step (?r [?g False False] (Some 0) True (Some (Some 0)) [] ClosedFlag) (?r [?g False False] None True (Some (Some 0)) [] (Retiring 0))"
    using close_swap [of "?r [?g False False] (Some 0) True (Some (Some 0)) [] ClosedFlag"] by simp
  have 4: "rt_step (?r [?g False False] None True (Some (Some 0)) [] (Retiring 0)) (?r [?g True False] None True (Some (Some 0)) [] (Waiting 0))"
    using close_retire [of "?r [?g False False] None True (Some (Some 0)) [] (Retiring 0)" 0 "?g True False"]
    by (simp add: gen_retire_def close_drained_def set_gen_def)
  have 5: "rt_step (?r [?g True False] None True (Some (Some 0)) [] (Waiting 0)) (?r [?g True True] None True (Some (Some 0)) [] CloseDone)"
    using close_done [of "?r [?g True False] None True (Some (Some 0)) [] (Waiting 0)" 0] by (simp add: gen_close_def set_gen_def)
  have 6: "rt_step (?r [?g True True] None True (Some (Some 0)) [] CloseDone) (?r [?g True True, ?n] (Some 1) True None [(0, False)] CloseDone)"
    using reload_publish [of "?r [?g True True] None True (Some (Some 0)) [] CloseDone" "Some 0" 2 s ?n] by (simp add: newGeneration_def)
  from 1 2 3 4 5 6 have "rt_step\<^sup>*\<^sup>* (new_runtime s) (?r [?g True True, ?n] (Some 1) True None [(0, False)] CloseDone)"
    by (meson converse_rtranclp_into_rtranclp rtranclp.rtrancl_refl)
  then show ?thesis by (intro exI [of _ "?r [?g True True, ?n] (Some 1) True None [(0, False)] CloseDone"]) simp
qed

end
