(* ===== verification/Token_Cache.thy ===== *)
theory Token_Cache
  imports Go_Strings
begin

text \<open>
  The token cache, \<open>internal/cache/token.go\<close>: a bounded LRU map with negative entries, stale
  tokens and one load per key. The LRU list is the list of its keys, most recent first. A load is
  cut in two at the call of the loader, which runs without the mutex: \<open>get_begin\<close> up to it and
  \<open>get_finish\<close> after it, and concurrent callers are the runs of \<open>cache_step\<close>. Clock
  readings, HMAC-SHA-256 and the loader's outcome are arguments.
\<close>

section \<open>State\<close>

record token =
  at_access :: string
  at_expires :: gotime

definition no_token :: token where
  "no_token = \<lparr>at_access = [], at_expires = zero_time\<rparr>"

datatype cache_result = ResultHit | ResultMiss | ResultWaiter | ResultStale | ResultNegative | ResultNone

record cache_entry =
  te_token :: token
  te_serveUntil :: gotime
  te_negativeUntil :: gotime
  te_negativeErr :: "go_error option"

record token_cache =
  tc_key :: string
  tc_capacity :: int
  tc_refreshSkew :: duration
  tc_negativeTTL :: duration
  tc_entries :: "(string, cache_entry) gomap"
  tc_lru :: "string list"
  tc_flights :: "(string, nat) gomap"

definition newTokenCache :: "string \<Rightarrow> int \<Rightarrow> duration \<Rightarrow> duration \<Rightarrow> string + token_cache" where
  "newTokenCache key capacity refreshSkew negativeTTL =
     (if length key < 32 then Inl ''token cache HMAC key must be at least 32 bytes''
      else if capacity \<le> 0 then Inl ''token cache capacity must be positive''
      else if refreshSkew < 0 \<or> negativeTTL < 0 then Inl ''token cache durations must not be negative''
      else Inr \<lparr>tc_key = key, tc_capacity = capacity, tc_refreshSkew = refreshSkew, tc_negativeTTL = negativeTTL,
             tc_entries = [], tc_lru = [], tc_flights = []\<rparr>)"

section \<open>Opaque keys\<close>

definition len_bytes :: "nat \<Rightarrow> string" where
  "len_bytes n = map char_of [(n div 2 ^ 24) mod 256, (n div 2 ^ 16) mod 256, (n div 2 ^ 8) mod 256, n mod 256]"

definition key_text :: "string list \<Rightarrow> string" where
  "key_text parts = concat (map (\<lambda>p. len_bytes (length p) @ p) parts)"

definition cacheKey :: "(string \<Rightarrow> string \<Rightarrow> string) \<Rightarrow> token_cache \<Rightarrow> string list \<Rightarrow> string" where
  "cacheKey hmac c parts = hexEncode (hmac (tc_key c) (key_text parts))"

section \<open>Entries\<close>

definition removeEntry :: "string \<Rightarrow> token_cache \<Rightarrow> token_cache" where
  "removeEntry key c = c\<lparr>tc_entries := del key (tc_entries c), tc_lru := removeAll key (tc_lru c)\<rparr>"

definition removeKey :: "string \<Rightarrow> token_cache \<Rightarrow> token_cache" where
  "removeKey key c = (case map_of (tc_entries c) key of None \<Rightarrow> c | Some _ \<Rightarrow> removeEntry key c)"

definition moveToFront :: "string \<Rightarrow> token_cache \<Rightarrow> token_cache" where
  "moveToFront key c = c\<lparr>tc_lru := key # removeAll key (tc_lru c)\<rparr>"

function evict :: "token_cache \<Rightarrow> token_cache" where
  "evict c =
     (if int (length (tc_entries c)) > tc_capacity c
      then (if tc_lru c = [] then c else evict (removeEntry (last (tc_lru c)) c)) else c)"
  by pat_completeness auto
termination
proof (relation "measure (\<lambda>c. length (tc_lru c))")
  fix c :: token_cache
  assume "tc_lru c \<noteq> []"
  then show "(removeEntry (last (tc_lru c)) c, c) \<in> measure (\<lambda>c. length (tc_lru c))"
    by (simp add: removeEntry_def length_removeAll_less)
qed simp

declare evict.simps [simp del]

definition insertEntry :: "string \<Rightarrow> cache_entry \<Rightarrow> token_cache \<Rightarrow> token_cache" where
  "insertEntry key e c = evict (c\<lparr>tc_entries := put key e (tc_entries c), tc_lru := key # tc_lru c\<rparr>)"

definition storeToken :: "gotime \<Rightarrow> string \<Rightarrow> token \<Rightarrow> token_cache \<Rightarrow> token_cache" where
  "storeToken now key t c =
     (let c = removeKey key c;
          su = at_expires t - tc_refreshSkew c
      in insertEntry key \<lparr>te_token = t, te_serveUntil = (if su < now then now else su),
           te_negativeUntil = zero_time, te_negativeErr = None\<rparr> c)"

definition storeNegative :: "gotime \<Rightarrow> string \<Rightarrow> go_error \<Rightarrow> token_cache \<Rightarrow> token_cache" where
  "storeNegative now key err c =
     (let c = removeKey key c
      in insertEntry key \<lparr>te_token = no_token, te_serveUntil = zero_time,
           te_negativeUntil = now + tc_negativeTTL c, te_negativeErr = Some err\<rparr> c)"

definition lookupLocked :: "gotime \<Rightarrow> string \<Rightarrow> token_cache \<Rightarrow> (token \<times> bool \<times> cache_result \<times> go_error option) \<times> token_cache" where
  "lookupLocked now key c =
     (case map_of (tc_entries c) key of
        None \<Rightarrow> ((no_token, False, ResultMiss, None), c)
      | Some e \<Rightarrow>
          (let c1 = moveToFront key c
           in case te_negativeErr e of
                Some err \<Rightarrow>
                  (if now < te_negativeUntil e then ((no_token, True, ResultNegative, Some err), c1)
                   else ((no_token, False, ResultMiss, None), removeEntry key c1))
              | None \<Rightarrow>
                  (if \<not> now < at_expires (te_token e) then ((no_token, False, ResultMiss, None), removeEntry key c1)
                   else if now < te_serveUntil e then ((te_token e, True, ResultHit, None), c1)
                   else ((te_token e, True, ResultStale, None), c1))))"

definition invalidateKey :: "string \<Rightarrow> token_cache \<Rightarrow> token_cache" where
  "invalidateKey key c = removeKey key c"

definition flush :: "token_cache \<Rightarrow> token_cache" where
  "flush c = c\<lparr>tc_entries := [], tc_lru := []\<rparr>"

section \<open>GetOrLoad\<close>

type_synonym cache_answer = "token \<times> cache_result \<times> go_error option"

datatype begun = Answered cache_answer | Waits nat | Leads token

text \<open>Lines 99 to 124; \<open>i\<close> identifies the new call when this caller becomes the loader.\<close>

definition get_begin :: "nat \<Rightarrow> gotime \<Rightarrow> string \<Rightarrow> token_cache \<Rightarrow> begun \<times> token_cache" where
  "get_begin i now key c =
     (if trimSpace key = [] then (Answered (no_token, ResultMiss, Some (PlainErr ''cache key and loader are required'')), c)
      else (case lookupLocked now key c of
              ((stale, found, result, err), c1) \<Rightarrow>
                (if found \<and> result = ResultHit then (Answered (stale, result, err), c1)
                 else if found \<and> result = ResultNegative then (Answered (no_token, result, err), c1)
                 else (case map_of (tc_flights c1) key of
                         Some j \<Rightarrow> (Waits j, c1)
                       | None \<Rightarrow> (Leads stale, c1\<lparr>tc_flights := put key i (tc_flights c1)\<rparr>)))))"

text \<open>The loader's outcome, and the clock readings at lines 128, 142 and 181 or 193.\<close>

record load_outcome =
  lo_token :: token
  lo_transient :: bool
  lo_error :: "go_error option"
  lo_checkedAt :: gotime
  lo_staleAt :: gotime
  lo_storedAt :: gotime

definition checked_outcome :: "load_outcome \<Rightarrow> bool \<times> go_error option" where
  "checked_outcome o1 =
     (if lo_error o1 = None \<and> (at_access (lo_token o1) = [] \<or> \<not> lo_checkedAt o1 < at_expires (lo_token o1))
      then (False, Some (PlainErr ''credential provider returned an empty or expired token''))
      else (lo_transient o1, lo_error o1))"

definition get_finish :: "string \<Rightarrow> token \<Rightarrow> load_outcome \<Rightarrow> token_cache \<Rightarrow> cache_answer \<times> token_cache" where
  "get_finish key stale o1 c =
     (let c = c\<lparr>tc_flights := del key (tc_flights c)\<rparr>
      in case checked_outcome o1 of
           (_, None) \<Rightarrow> ((lo_token o1, ResultMiss, None), storeToken (lo_storedAt o1) key (lo_token o1) c)
         | (transient, Some err) \<Rightarrow>
             (if transient \<and> at_access stale \<noteq> [] \<and> lo_staleAt o1 < at_expires stale
              then ((stale, ResultStale, None), c)
              else ((no_token, ResultNone, Some err),
                    if transient \<and> tc_negativeTTL c > 0 then storeNegative (lo_storedAt o1) key err c else c)))"

text \<open>A whole call during which no other caller moves; the loader is a function.\<close>

definition getOrLoad :: "gotime \<Rightarrow> string \<Rightarrow> load_outcome \<Rightarrow> token_cache \<Rightarrow> cache_answer \<times> token_cache" where
  "getOrLoad now key o1 c =
     (case get_begin 0 now key c of
        (Answered a, c1) \<Rightarrow> (a, c1)
      | (Waits _, c1) \<Rightarrow> ((no_token, ResultWaiter, Some (CtxErr ''context done'')), c1)
      | (Leads stale, c1) \<Rightarrow> get_finish key stale o1 c1)"

section \<open>Invariant\<close>

text \<open>
  The map and the LRU list hold the same keys, a positive entry holds a token, and the size is
  bounded by the capacity (\<open>cache_core\<close> leaves out the bound, which \<open>evict\<close> restores).
\<close>

definition cache_core :: "token_cache \<Rightarrow> bool" where
  "cache_core c \<longleftrightarrow>
     wf_map (tc_entries c) \<and> distinct (tc_lru c) \<and> set (tc_lru c) = set (keys (tc_entries c)) \<and> 0 < tc_capacity c
     \<and> (\<forall>k e. map_of (tc_entries c) k = Some e \<longrightarrow> te_negativeErr e = None \<longrightarrow> at_access (te_token e) \<noteq> [])"

definition cache_inv :: "token_cache \<Rightarrow> bool" where
  "cache_inv c \<longleftrightarrow> cache_core c \<and> int (length (tc_entries c)) \<le> tc_capacity c"

lemma cache_core_length: "cache_core c \<Longrightarrow> length (tc_lru c) = length (tc_entries c)"
  unfolding cache_core_def wf_map_def by (metis distinct_card length_map)

lemma removeEntry_fields [simp]:
  "tc_entries (removeEntry k c) = del k (tc_entries c)" "tc_lru (removeEntry k c) = removeAll k (tc_lru c)"
  "tc_capacity (removeEntry k c) = tc_capacity c" "tc_flights (removeEntry k c) = tc_flights c"
  "tc_negativeTTL (removeEntry k c) = tc_negativeTTL c" "tc_refreshSkew (removeEntry k c) = tc_refreshSkew c"
  "tc_key (removeEntry k c) = tc_key c"
  by (simp_all add: removeEntry_def)

lemma removeEntry_core: "cache_core c \<Longrightarrow> cache_core (removeEntry k c)"
  by (auto simp: cache_core_def keys_del distinct_removeAll split: if_splits)

lemma removeEntry_inv: "cache_inv c \<Longrightarrow> cache_inv (removeEntry k c)"
  using length_del_le [of k "tc_entries c"] by (simp add: cache_inv_def removeEntry_core)

lemma removeKey_inv: "cache_inv c \<Longrightarrow> cache_inv (removeKey k c)"
  by (simp add: removeKey_def removeEntry_inv split: option.splits)

lemma removeKey_absent: "k \<notin> set (keys (tc_entries (removeKey k c)))"
  unfolding map_of_eq_None_keys [symmetric] by (simp add: removeKey_def split: option.splits)

lemma removeKey_fields [simp]:
  "tc_capacity (removeKey k c) = tc_capacity c" "tc_flights (removeKey k c) = tc_flights c"
  "tc_negativeTTL (removeKey k c) = tc_negativeTTL c" "tc_refreshSkew (removeKey k c) = tc_refreshSkew c"
  by (simp_all add: removeKey_def split: option.splits)

lemma removeKey_other: "k' \<noteq> k \<Longrightarrow> map_of (tc_entries (removeKey k c)) k' = map_of (tc_entries c) k'"
  by (simp add: removeKey_def split: option.splits)

lemma moveToFront_inv:
  assumes "cache_inv c" "map_of (tc_entries c) k = Some e"
  shows "cache_inv (moveToFront k c)"
proof -
  have "k \<in> set (keys (tc_entries c))" using assms(2) unfolding in_keys_map_of by blast
  then show ?thesis using assms(1) by (auto simp: cache_inv_def cache_core_def moveToFront_def distinct_removeAll)
qed

lemma evict_fields [simp]:
  "tc_capacity (evict c) = tc_capacity c" "tc_flights (evict c) = tc_flights c"
  "tc_negativeTTL (evict c) = tc_negativeTTL c" "tc_refreshSkew (evict c) = tc_refreshSkew c"
  by (induction c rule: evict.induct; subst evict.simps; simp)+

lemma evict_inv: "cache_core c \<Longrightarrow> cache_inv (evict c)"
proof (induction c rule: evict.induct)
  case (1 c)
  show ?case
  proof (cases "int (length (tc_entries c)) > tc_capacity c")
    case True
    then have "tc_lru c \<noteq> []" using 1(2) cache_core_length [OF 1(2)] by (auto simp: cache_core_def)
    with True 1(1) [OF True _ removeEntry_core [OF 1(2)]] show ?thesis by (simp add: evict.simps [of c])
  next
    case False
    then show ?thesis using 1(2) by (simp add: evict.simps [of c] cache_inv_def)
  qed
qed

text \<open>Eviction only drops entries, and never the one at the front.\<close>

lemma evict_lookup:
  "map_of (tc_entries (evict c)) k = map_of (tc_entries c) k \<or> map_of (tc_entries (evict c)) k = None"
proof (induction c rule: evict.induct)
  case (1 c)
  then show ?case by (subst (1 2) evict.simps) (auto split: if_splits)
qed

lemma evict_front:
  "cache_core c \<Longrightarrow> tc_lru c = k # r \<Longrightarrow> map_of (tc_entries (evict c)) k = map_of (tc_entries c) k"
proof (induction c arbitrary: r rule: evict.induct)
  case (1 c)
  show ?case
  proof (cases "int (length (tc_entries c)) > tc_capacity c")
    case True
    have "Suc 0 < length (tc_lru c)" using True 1(2) cache_core_length [OF 1(2)] by (simp add: cache_core_def)
    then have r: "r \<noteq> []" and lk: "last (tc_lru c) \<noteq> k"
      using 1(2,3) by (auto simp: cache_core_def)
    then have "tc_lru (removeEntry (last (tc_lru c)) c) = k # removeAll (last (tc_lru c)) r"
      using 1(3) by simp
    from 1(1) [OF True _ removeEntry_core [OF 1(2)] this] True lk 1(3) show ?thesis
      by (simp add: evict.simps [of c])
  next
    case False
    then show ?thesis by (simp add: evict.simps [of c])
  qed
qed

lemma insertEntry_inv:
  assumes "cache_inv c" "k \<notin> set (keys (tc_entries c))" "te_negativeErr e = None \<Longrightarrow> at_access (te_token e) \<noteq> []"
  shows "cache_inv (insertEntry k e c) \<and> map_of (tc_entries (insertEntry k e c)) k = Some e"
proof -
  let ?c = "c\<lparr>tc_entries := put k e (tc_entries c), tc_lru := k # tc_lru c\<rparr>"
  have core: "cache_core ?c" using assms by (auto simp: cache_inv_def cache_core_def)
  then show ?thesis using evict_inv [OF core] evict_front [OF core, of k "tc_lru c"] by (simp add: insertEntry_def)
qed

lemma insertEntry_other:
  "k' \<noteq> k \<Longrightarrow> map_of (tc_entries (insertEntry k e c)) k' = map_of (tc_entries c) k'
     \<or> map_of (tc_entries (insertEntry k e c)) k' = None"
  using evict_lookup [of "c\<lparr>tc_entries := put k e (tc_entries c), tc_lru := k # tc_lru c\<rparr>" k'] by (simp add: insertEntry_def)

lemma insertEntry_fields [simp]:
  "tc_capacity (insertEntry k e c) = tc_capacity c" "tc_flights (insertEntry k e c) = tc_flights c"
  "tc_negativeTTL (insertEntry k e c) = tc_negativeTTL c"
  by (simp_all add: insertEntry_def)

lemma storeToken_inv:
  assumes "cache_inv c" "at_access t \<noteq> []"
  shows "cache_inv (storeToken now k t c)"
    and "map_of (tc_entries (storeToken now k t c)) k =
      Some \<lparr>te_token = t, te_serveUntil = max now (at_expires t - tc_refreshSkew c), te_negativeUntil = zero_time, te_negativeErr = None\<rparr>"
  using insertEntry_inv [OF removeKey_inv [OF assms(1)] removeKey_absent] assms(2)
  by (auto simp: storeToken_def Let_def max_def)

lemma storeNegative_inv:
  assumes "cache_inv c"
  shows "cache_inv (storeNegative now k err c)"
    and "map_of (tc_entries (storeNegative now k err c)) k =
      Some \<lparr>te_token = no_token, te_serveUntil = zero_time, te_negativeUntil = now + tc_negativeTTL c, te_negativeErr = Some err\<rparr>"
  using insertEntry_inv [OF removeKey_inv [OF assms(1)] removeKey_absent, where e =
      "\<lparr>te_token = no_token, te_serveUntil = zero_time, te_negativeUntil = now + tc_negativeTTL c, te_negativeErr = Some err\<rparr>"]
  by (simp_all add: storeNegative_def Let_def)

lemma lookupLocked_inv:
  assumes "cache_inv c" "lookupLocked now k c = (a, c')"
  shows "cache_inv c' \<and> tc_flights c' = tc_flights c"
  using assms(2) moveToFront_inv [OF assms(1)] assms(1)
  by (auto simp: lookupLocked_def Let_def removeEntry_inv moveToFront_def split: option.splits if_splits)


section \<open>Concurrent callers\<close>

record flight_call =
  fc_key :: string
  fc_stale :: token
  fc_answer :: "cache_answer option"

type_synonym cache_state = "token_cache \<times> flight_call list"

datatype cache_event = Get gotime string | Finish nat load_outcome | Invalidate string | Flush

fun cache_step :: "cache_event \<Rightarrow> cache_state \<Rightarrow> cache_state" where
  "cache_step (Get now key) (c, calls) =
     (case get_begin (length calls) now key c of
        (Leads stale, c1) \<Rightarrow> (c1, calls @ [\<lparr>fc_key = key, fc_stale = stale, fc_answer = None\<rparr>])
      | (_, c1) \<Rightarrow> (c1, calls))"
| "cache_step (Finish i o1) (c, calls) =
     (if i < length calls \<and> fc_answer (calls ! i) = None
      then (case get_finish (fc_key (calls ! i)) (fc_stale (calls ! i)) o1 c of
              (a, c1) \<Rightarrow> (c1, calls[i := (calls ! i)\<lparr>fc_answer := Some a\<rparr>]))
      else (c, calls))"
| "cache_step (Invalidate key) (c, calls) = (invalidateKey key c, calls)"
| "cache_step Flush (c, calls) = (flush c, calls)"

definition flights_inv :: "cache_state \<Rightarrow> bool" where
  "flights_inv st = (case st of (c, calls) \<Rightarrow>
     \<forall>k i. map_of (tc_flights c) k = Some i \<longleftrightarrow> i < length calls \<and> fc_key (calls ! i) = k \<and> fc_answer (calls ! i) = None)"

lemma flights_invD:
  "flights_inv (c, calls) \<Longrightarrow>
   map_of (tc_flights c) k = Some i \<longleftrightarrow> i < length calls \<and> fc_key (calls ! i) = k \<and> fc_answer (calls ! i) = None"
  by (simp add: flights_inv_def)

lemma flights_invI:
  "(\<And>k i. map_of (tc_flights c) k = Some i \<longleftrightarrow> i < length calls \<and> fc_key (calls ! i) = k \<and> fc_answer (calls ! i) = None)
   \<Longrightarrow> flights_inv (c, calls)"
  by (simp add: flights_inv_def)

lemma get_begin_inv:
  assumes "cache_inv c" "get_begin i now key c = (r, c')"
  shows "cache_inv c'"
proof (cases "trimSpace key = []")
  case True
  with assms show ?thesis by (simp add: get_begin_def)
next
  case False
  obtain a c1 where l: "lookupLocked now key c = (a, c1)" by (cases "lookupLocked now key c")
  have "cache_inv (c1\<lparr>tc_flights := f\<rparr>)" for f
    using lookupLocked_inv [OF assms(1) l] by (simp add: cache_inv_def cache_core_def)
  with False assms(2) l lookupLocked_inv [OF assms(1) l] show ?thesis
    by (auto simp: get_begin_def split: prod.splits option.splits if_splits)
qed

lemma get_begin_flights:
  assumes "cache_inv c" "get_begin i now key c = (r, c')"
  shows "case r of Leads _ \<Rightarrow> map_of (tc_flights c) key = None \<and> tc_flights c' = put key i (tc_flights c)
    | Waits j \<Rightarrow> map_of (tc_flights c) key = Some j \<and> tc_flights c' = tc_flights c
    | Answered _ \<Rightarrow> tc_flights c' = tc_flights c"
proof (cases "trimSpace key = []")
  case True
  with assms show ?thesis by (auto simp: get_begin_def)
next
  case False
  obtain a c1 where l: "lookupLocked now key c = (a, c1)" by (cases "lookupLocked now key c")
  with False assms(2) lookupLocked_inv [OF assms(1) l] show ?thesis
    by (auto simp: get_begin_def split: prod.splits option.splits if_splits)
qed

lemma checked_outcome_ok:
  "checked_outcome o1 = (tr, None) \<Longrightarrow>
     lo_error o1 = None \<and> at_access (lo_token o1) \<noteq> [] \<and> lo_checkedAt o1 < at_expires (lo_token o1)"
  by (auto simp: checked_outcome_def split: if_splits)

lemma drop_flight_inv: "cache_inv c \<Longrightarrow> cache_inv (c\<lparr>tc_flights := f\<rparr>)"
  by (simp add: cache_inv_def cache_core_def)

lemma get_finish_inv:
  assumes "cache_inv c" "get_finish key stale o1 c = (a, c')"
  shows "cache_inv c' \<and> tc_flights c' = del key (tc_flights c)"
proof -
  let ?c = "c\<lparr>tc_flights := del key (tc_flights c)\<rparr>"
  note inv = drop_flight_inv [OF assms(1), of "del key (tc_flights c)"]
  have flights: "tc_flights (storeToken now key t ?c) = del key (tc_flights c)"
    "tc_flights (storeNegative now key e ?c) = del key (tc_flights c)" for now t e
    by (simp_all add: storeToken_def storeNegative_def Let_def)
  obtain tr err where co: "checked_outcome o1 = (tr, err)" by (cases "checked_outcome o1")
  show ?thesis
  proof (cases err)
    case None
    then have "at_access (lo_token o1) \<noteq> []" using co checked_outcome_ok by simp
    from storeToken_inv(1) [OF inv this] None co assms(2) flights show ?thesis
      by (auto simp: get_finish_def Let_def)
  next
    case (Some e)
    then show ?thesis using co assms(2) flights inv storeNegative_inv(1) [OF inv]
      by (auto simp: get_finish_def Let_def split: if_splits)
  qed
qed

lemma cache_step_inv: "cache_inv (fst st) \<Longrightarrow> cache_inv (fst (cache_step e st))"
proof (induction e st rule: cache_step.induct)
  case (1 now key c calls)
  obtain r c' where "get_begin (length calls) now key c = (r, c')" by (cases "get_begin (length calls) now key c")
  with get_begin_inv [OF _ this] 1 show ?case by (cases r) auto
next
  case (2 i o1 c calls)
  then show ?case by (auto split: prod.splits dest: get_finish_inv)
next
  case (3 key c calls)
  then show ?case by (simp add: invalidateKey_def removeKey_inv)
next
  case (4 c calls)
  then show ?case by (simp add: flush_def cache_inv_def cache_core_def)
qed

lemma cache_step_flights:
  assumes "cache_inv (fst st)" "flights_inv st"
  shows "flights_inv (cache_step e st)"
  using assms
proof (induction e st rule: cache_step.induct)
  case (1 now key c calls)
  obtain r c' where g: "get_begin (length calls) now key c = (r, c')" by (cases "get_begin (length calls) now key c")
  have inv: "cache_inv c" using "1.prems"(1) by simp
  note f = get_begin_flights [OF inv g]
  show ?case
  proof (cases r)
    case (Leads stale)
    let ?calls = "calls @ [\<lparr>fc_key = key, fc_stale = stale, fc_answer = None\<rparr>]"
    have none: "map_of (tc_flights c) key = None" and c': "tc_flights c' = put key (length calls) (tc_flights c)"
      using f Leads by simp_all
    have "flights_inv (c', ?calls)"
    proof (rule flights_invI)
      fix k i
      show "map_of (tc_flights c') k = Some i \<longleftrightarrow>
          i < length ?calls \<and> fc_key (?calls ! i) = k \<and> fc_answer (?calls ! i) = None"
        using flights_invD [OF "1.prems"(2), of k i] none
        by (cases "i = length calls"; cases "k = key")
          (auto simp: c' nth_append map_of_put_apply simp del: not_None_eq split_paired_All)
    qed
    then show ?thesis using g Leads by simp
  qed (use f g "1.prems"(2) in \<open>auto simp: flights_inv_def\<close>)
next
  case (2 i o1 c calls)
  show ?case
  proof (cases "i < length calls \<and> fc_answer (calls ! i) = None")
    case True
    obtain a c' where g: "get_finish (fc_key (calls ! i)) (fc_stale (calls ! i)) o1 c = (a, c')"
      by (cases "get_finish (fc_key (calls ! i)) (fc_stale (calls ! i)) o1 c")
    have fl: "tc_flights c' = del (fc_key (calls ! i)) (tc_flights c)" using get_finish_inv [OF _ g] "2.prems"(1) by simp
    have uniq: "j = i" if "j < length calls" "fc_key (calls ! j) = fc_key (calls ! i)" "fc_answer (calls ! j) = None" for j
      using flights_invD [OF "2.prems"(2), of "fc_key (calls ! i)" i] flights_invD [OF "2.prems"(2), of "fc_key (calls ! i)" j]
        True that by simp
    have "flights_inv (c', calls[i := (calls ! i)\<lparr>fc_answer := Some a\<rparr>])"
    proof (rule flights_invI)
      fix k j
      show "map_of (tc_flights c') k = Some j \<longleftrightarrow> j < length (calls[i := (calls ! i)\<lparr>fc_answer := Some a\<rparr>])
          \<and> fc_key (calls[i := (calls ! i)\<lparr>fc_answer := Some a\<rparr>] ! j) = k
          \<and> fc_answer (calls[i := (calls ! i)\<lparr>fc_answer := Some a\<rparr>] ! j) = None"
        using flights_invD [OF "2.prems"(2), of k j] True uniq [of j]
        by (cases "j = i") (auto simp: fl simp del: not_None_eq split_paired_All)
    qed
    then show ?thesis using True g by simp
  qed (use "2.prems" in auto)
next
  case (3 key c calls)
  then show ?case by (simp add: flights_inv_def invalidateKey_def)
next
  case (4 c calls)
  then show ?case by (simp add: flights_inv_def flush_def)
qed

lemma cache_run_inv:
  "cache_inv (fst st) \<Longrightarrow> flights_inv st \<Longrightarrow> cache_inv (fst (fold cache_step es st)) \<and> flights_inv (fold cache_step es st)"
  by (induction es arbitrary: st) (simp_all add: cache_step_inv cache_step_flights)

lemma newTokenCache_inv: "newTokenCache k cap sk nt = Inr c \<Longrightarrow> cache_inv c \<and> flights_inv (c, [])"
  by (auto simp: newTokenCache_def cache_inv_def cache_core_def flights_inv_def split: if_splits)

text \<open>C36. The token cache stays consistent and bounded, and loads are coalesced: after any interleaving of
  lookups, finished loads, invalidations and flushes, the entries and the LRU list hold the same
  keys, their number is at most the capacity, and no two loads for one key are in flight at once.\<close>

theorem token_cache_bounded_single_flight:
  assumes "newTokenCache key capacity skew ttl = Inr c0" "fold cache_step es (c0, []) = (c, calls)"
  shows "set (tc_lru c) = set (keys (tc_entries c)) \<and> distinct (tc_lru c) \<and> int (length (tc_entries c)) \<le> tc_capacity c
    \<and> (\<forall>i j. i < length calls \<and> j < length calls \<and> fc_answer (calls ! i) = None \<and> fc_answer (calls ! j) = None
          \<and> fc_key (calls ! i) = fc_key (calls ! j) \<longrightarrow> i = j)"
proof -
  have inv: "cache_inv c" "flights_inv (c, calls)"
    using cache_run_inv [of "(c0, [])" es] newTokenCache_inv [OF assms(1)] assms(2) by auto
  have "i = j" if "i < length calls" "j < length calls" "fc_answer (calls ! i) = None" "fc_answer (calls ! j) = None"
    "fc_key (calls ! i) = fc_key (calls ! j)" for i j
    using flights_invD [OF inv(2), of "fc_key (calls ! i)" i] flights_invD [OF inv(2), of "fc_key (calls ! i)" j] that by simp
  with inv(1) show ?thesis unfolding cache_inv_def cache_core_def by blast
qed


definition demo_cache :: token_cache where
  "demo_cache = projr (newTokenCache (replicate 32 (CHR ''k'')) 2 10 5)"

definition demo_load :: "string \<Rightarrow> load_outcome" where
  "demo_load s = \<lparr>lo_token = \<lparr>at_access = s, at_expires = 100\<rparr>, lo_transient = False, lo_error = None,
     lo_checkedAt = 12, lo_staleAt = 12, lo_storedAt = 13\<rparr>"

lemma demo_cache_new: "newTokenCache (replicate 32 (CHR ''k'')) 2 10 5 = Inr demo_cache"
  by (simp add: demo_cache_def newTokenCache_def)

theorem token_cache_bounded_single_flight_witness:
  "int (length (tc_entries (fst (fold cache_step
     [Get 10 ''a'', Get 10 ''a'', Finish 0 (demo_load ''x''), Get 11 ''b'', Get 11 ''c'', Finish 1 (demo_load ''y''), Finish 2 (demo_load ''z'')]
     (demo_cache, []))))) \<le> tc_capacity (fst (fold cache_step
     [Get 10 ''a'', Get 10 ''a'', Finish 0 (demo_load ''x''), Get 11 ''b'', Get 11 ''c'', Finish 1 (demo_load ''y''), Finish 2 (demo_load ''z'')]
     (demo_cache, [])))"
  using token_cache_bounded_single_flight [OF demo_cache_new prod.collapse [symmetric]] by blast

section \<open>What is served\<close>

lemma get_begin_live:
  assumes "cache_inv c" "get_begin i now key c = (Answered (t, r, e), c')"
  shows "case e of None \<Rightarrow> r = ResultHit \<and> at_access t \<noteq> [] \<and> now < at_expires t | Some _ \<Rightarrow> t = no_token"
proof -
  have live: "at_access (te_token x) \<noteq> []" if "map_of (tc_entries c) key = Some x" "te_negativeErr x = None" for x
    using assms(1) that by (simp add: cache_inv_def cache_core_def)
  show ?thesis
    using assms(2) live
    by (auto simp: get_begin_def lookupLocked_def Let_def split: prod.splits option.splits if_splits) metis+
qed

lemma get_finish_live:
  assumes "get_finish key stale o1 c = ((t, r, e), c')"
  shows "case e of
      None \<Rightarrow> at_access t \<noteq> [] \<and> (r = ResultMiss \<and> t = lo_token o1 \<and> lo_checkedAt o1 < at_expires t
               \<or> r = ResultStale \<and> t = stale \<and> lo_staleAt o1 < at_expires t \<and> lo_transient o1 \<and> lo_error o1 \<noteq> None)
    | Some _ \<Rightarrow> t = no_token"
proof -
  obtain tr err where co: "checked_outcome o1 = (tr, err)" by (cases "checked_outcome o1")
  have tr: "lo_transient o1 \<and> lo_error o1 \<noteq> None" if "tr" "err \<noteq> None"
    using that co by (auto simp: checked_outcome_def split: if_splits)
  show ?thesis
    using assms co tr checked_outcome_ok [of o1 tr]
    by (cases err) (auto simp: get_finish_def Let_def split: if_splits)
qed

text \<open>C37. The cache never hands out an empty or expired token: a hit is unexpired at the lookup, a loaded
  token is unexpired when the load is checked, a stale token is unexpired when it is reused and is
  used only after a transient failure; an answer with an error carries no token.\<close>

theorem cache_serves_live_tokens:
  assumes "cache_inv c"
  shows "(\<forall>i t r e c'. get_begin i now key c = (Answered (t, r, e), c') \<longrightarrow>
             (case e of None \<Rightarrow> r = ResultHit \<and> at_access t \<noteq> [] \<and> now < at_expires t | Some _ \<Rightarrow> t = no_token))
    \<and> (\<forall>t r e c'. get_finish key stale o1 c = ((t, r, e), c') \<longrightarrow>
             (case e of
                None \<Rightarrow> at_access t \<noteq> [] \<and> (r = ResultMiss \<and> t = lo_token o1 \<and> lo_checkedAt o1 < at_expires t
                         \<or> r = ResultStale \<and> t = stale \<and> lo_staleAt o1 < at_expires t \<and> lo_transient o1 \<and> lo_error o1 \<noteq> None)
              | Some _ \<Rightarrow> t = no_token))"
  using get_begin_live [OF assms] get_finish_live by (intro conjI allI impI)

theorem cache_serves_live_tokens_witness:
  "case get_finish ''a'' no_token (demo_load ''x'') demo_cache of
     ((t, r, e), _) \<Rightarrow> (case e of None \<Rightarrow> at_access t \<noteq> [] | Some _ \<Rightarrow> t = no_token)"
proof -
  obtain t r e c' where g: "get_finish ''a'' no_token (demo_load ''x'') demo_cache = ((t, r, e), c')"
    by (metis prod.exhaust_sel)
  have "case e of None \<Rightarrow> at_access t \<noteq> [] | Some _ \<Rightarrow> t = no_token"
    using conjunct2 [OF cache_serves_live_tokens [OF conjunct1 [OF newTokenCache_inv [OF demo_cache_new]], of 0 "''a''" no_token "demo_load ''x''"],
        rule_format, OF g]
    by (cases e) simp_all
  with g show ?thesis by simp
qed

text \<open>Failures are cached only when they are transient, and only for the negative lifetime: after a
  transient load failure without a usable stale token, every lookup of the key before the lifetime
  is over answers that error without a load, and the first lookup after it loads again; a failure
  that is not transient leaves the entries as they were.\<close>

theorem negative_caching:
  assumes "cache_inv c" "trimSpace key \<noteq> []" "lo_error o1 = Some err" "at_access stale = []"
    "get_finish key stale o1 c = (a, c')"
  shows "if lo_transient o1 \<and> 0 < tc_negativeTTL c
    then (\<forall>now i. if now < lo_storedAt o1 + tc_negativeTTL c
             then \<exists>c''. get_begin i now key c' = (Answered (no_token, ResultNegative, Some err), c'')
             else \<exists>c''. get_begin i now key c' = (Leads no_token, c''))
    else tc_entries c' = tc_entries c"
proof -
  let ?c = "c\<lparr>tc_flights := del key (tc_flights c)\<rparr>"
  have c': "c' = (if lo_transient o1 \<and> 0 < tc_negativeTTL c then storeNegative (lo_storedAt o1) key err ?c else ?c)"
    using assms(3-5) by (auto simp: get_finish_def checked_outcome_def Let_def split: if_splits)
  have e: "map_of (tc_entries (storeNegative (lo_storedAt o1) key err ?c)) key =
      Some \<lparr>te_token = no_token, te_serveUntil = zero_time, te_negativeUntil = lo_storedAt o1 + tc_negativeTTL c,
        te_negativeErr = Some err\<rparr>"
    using storeNegative_inv(2) [OF drop_flight_inv [OF assms(1)]] by simp
  have f: "map_of (tc_flights (storeNegative (lo_storedAt o1) key err ?c)) key = None"
    by (simp add: storeNegative_def Let_def)
  show ?thesis
    using e f assms(2) by (auto simp: c' get_begin_def lookupLocked_def moveToFront_def Let_def)
qed

definition failed_load :: load_outcome where
  "failed_load = \<lparr>lo_token = no_token, lo_transient = True, lo_error = Some (EndpointErr True False),
     lo_checkedAt = 12, lo_staleAt = 12, lo_storedAt = 13\<rparr>"

theorem negative_caching_witness:
  "\<exists>c''. get_begin 1 15 ''a'' (snd (get_finish ''a'' no_token failed_load demo_cache))
     = (Answered (no_token, ResultNegative, Some (EndpointErr True False)), c'')"
proof -
  have "cache_inv demo_cache" using newTokenCache_inv [OF demo_cache_new] by simp
  moreover have "trimSpace ''a'' \<noteq> []" "lo_error failed_load = Some (EndpointErr True False)" "at_access no_token = []" "0 < tc_negativeTTL demo_cache" "15 < lo_storedAt failed_load + tc_negativeTTL demo_cache"
    "lo_transient failed_load" by code_simp+
  ultimately show ?thesis
    using negative_caching [of demo_cache "''a''" failed_load "EndpointErr True False" no_token, OF _ _ _ _ prod.collapse [symmetric]]
    by simp
qed

section \<open>Keys\<close>

lemma len_bytes_inj:
  assumes "m < 2 ^ 32" "n < 2 ^ 32" "len_bytes m = len_bytes n"
  shows "m = n"
proof -
  have b: "m div 2 ^ 24 mod 256 = n div 2 ^ 24 mod 256" "m div 2 ^ 16 mod 256 = n div 2 ^ 16 mod 256"
    "m div 2 ^ 8 mod 256 = n div 2 ^ 8 mod 256" "m mod 256 = n mod 256"
    using assms(3) by (auto simp: len_bytes_def of_char_of dest!: arg_cong [where f = "map (of_char :: char \<Rightarrow> nat)"])
  have split: "k = ((k div 2 ^ 24 mod 256 * 256 + k div 2 ^ 16 mod 256) * 256 + k div 2 ^ 8 mod 256) * 256 + k mod 256"
    if "k < 2 ^ 32" for k :: nat
  proof -
    have "k div 2 ^ 24 mod 256 = k div 2 ^ 24" using that by (intro mod_less) (simp add: less_mult_imp_div_less)
    moreover have "k div 2 ^ 24 = k div 2 ^ 16 div 256" "k div 2 ^ 16 = k div 2 ^ 8 div 256" "k div 2 ^ 8 = k div 256"
      by (simp_all add: div_mult2_eq [symmetric])
    ultimately show ?thesis by (metis div_mult_mod_eq)
  qed
  show ?thesis by (subst split [OF assms(1)], subst split [OF assms(2)]) (simp only: b)
qed

lemma key_text_inj:
  "list_all (\<lambda>p. length p < 2 ^ 32) ps \<Longrightarrow> list_all (\<lambda>p. length p < 2 ^ 32) qs \<Longrightarrow> key_text ps = key_text qs \<Longrightarrow> ps = qs"
proof (induction ps arbitrary: qs)
  case Nil
  then show ?case by (cases qs) (auto simp: key_text_def len_bytes_def)
next
  case (Cons p ps)
  then obtain q qs' where qs: "qs = q # qs'" by (cases qs) (auto simp: key_text_def len_bytes_def)
  have l: "length (len_bytes n) = 4" for n by (simp add: len_bytes_def)
  have "len_bytes (length p) @ p @ key_text ps = len_bytes (length q) @ q @ key_text qs'"
    using Cons.prems(3) qs by (simp add: key_text_def)
  then have "len_bytes (length p) = len_bytes (length q)" and r: "p @ key_text ps = q @ key_text qs'" using l by auto
  then have "length p = length q" using Cons.prems(1,2) qs by (intro len_bytes_inj) auto
  with r Cons qs show ?case by auto
qed

lemma lower_hex_inj: "d < 16 \<Longrightarrow> e < 16 \<Longrightarrow> lower_hex d = lower_hex e \<Longrightarrow> d = e"
  by (auto simp: lower_hex_def of_char_of dest!: arg_cong [where f = "of_char :: char \<Rightarrow> nat"] split: if_splits)

lemma hexEncode_inj: "hexEncode s = hexEncode t \<Longrightarrow> s = t"
proof (induction s arbitrary: t)
  case Nil
  then show ?case by (cases t) (auto simp: hexEncode_def)
next
  case (Cons c s)
  then obtain d t' where t: "t = d # t'" by (cases t) (auto simp: hexEncode_def)
  have "byte c div 16 = byte d div 16" "byte c mod 16 = byte d mod 16"
    using Cons.prems t lower_hex_inj byte_nibbles by (auto simp: hexEncode_def)
  then have "byte c = byte d" by (metis div_mult_mod_eq)
  then have "c = d" by (metis char_of_char)
  moreover have "hexEncode s = hexEncode t'" using Cons.prems t by (simp add: hexEncode_def)
  ultimately show ?case using Cons.IH t by simp
qed

lemma cacheKey_eq_iff:
  assumes "list_all (\<lambda>p. length p < 2 ^ 32) ps" "list_all (\<lambda>p. length p < 2 ^ 32) qs"
    "inj_on (hmac (tc_key c)) {key_text ps, key_text qs}"
  shows "cacheKey hmac c ps = cacheKey hmac c qs \<longleftrightarrow> ps = qs"
proof
  assume "cacheKey hmac c ps = cacheKey hmac c qs"
  then have "hmac (tc_key c) (key_text ps) = hmac (tc_key c) (key_text qs)"
    using hexEncode_inj by (simp add: cacheKey_def)
  then have "key_text ps = key_text qs" by (rule inj_onD [OF assms(3)]) simp_all
  then show "ps = qs" by (rule key_text_inj [OF assms(1,2)])
qed simp

end
