(* ===== verification/Credential_OAuth.thy ===== *)
theory Credential_OAuth
  imports Invoke_Request Token_Cache Breaker Go_Base64
begin

text \<open>
  Service credentials: secret references (\<open>internal/credential/secret.go\<close>), the token
  endpoint client (\<open>oauth.go\<close>) and the cached provider for token exchange and client
  credentials (\<open>oauthProvider\<close> in \<open>manager.go\<close>). Arguments of the model: the process
  environment and the files (\<open>secret_env\<close>), SHA-256 and HMAC, the JSON decoder for the structs
  the code decodes into (\<open>json_env\<close>), the clock readings, and the reply of the token endpoint.
\<close>

section \<open>Secrets\<close>

datatype file_read = OpenFails | ReadFails | Contents string

record secret_env =
  se_lookupEnv :: "string \<rightharpoonup> string"
  se_readFile :: "string \<Rightarrow> file_read"

definition maxSecretBytes :: int where
  "maxSecretBytes = 65536"

definition resolveSecret :: "secret_env \<Rightarrow> string \<Rightarrow> string + string" where
  "resolveSecret se reference =
     (case cut (CHR '':'') reference of (kind, value, found) \<Rightarrow>
        (if \<not> found \<or> trimSpace value = [] then Inl ''invalid secret reference''
         else if kind = ''env'' then
           (case se_lookupEnv se value of
              None \<Rightarrow> Inl ''secret environment variable is unavailable''
            | Some secret \<Rightarrow> (if secret = [] then Inl ''secret environment variable is unavailable'' else Inr secret))
         else if kind = ''file'' then
           (case se_readFile se value of
              OpenFails \<Rightarrow> Inl ''open secret file''
            | ReadFails \<Rightarrow> Inl ''read secret file''
            | Contents s \<Rightarrow>
                (if int (length s) > maxSecretBytes then Inl ''secret file exceeds 64 KiB''
                 else if trimSpace s = [] then Inl ''secret file is empty''
                 else Inr (trimSpace s)))
         else Inl ''unsupported secret reference''))"

text \<open>What a resolved reference is: a variable's text, or the trimmed contents of a small file.\<close>

lemma resolveSecret_Inr:
  assumes "resolveSecret se reference = Inr secret"
  shows "secret \<noteq> [] \<and>
    (\<exists>v. trimSpace v \<noteq> [] \<and>
      (reference = ''env:'' @ v \<and> se_lookupEnv se v = Some secret
       \<or> (\<exists>s. reference = ''file:'' @ v \<and> se_readFile se v = Contents s \<and> int (length s) \<le> maxSecretBytes
              \<and> secret = trimSpace s)))"
proof -
  obtain kind v found where c: "cut (CHR '':'') reference = (kind, v, found)" by (cases "cut (CHR '':'') reference") auto
  with assms have f: "found" "trimSpace v \<noteq> []" by (auto simp: resolveSecret_def split: if_splits)
  with c cut_found have ref: "reference = kind @ CHR '':'' # v" by auto
  show ?thesis
    using assms c f ref by (auto simp: resolveSecret_def split: if_splits option.splits file_read.splits)
qed

section \<open>Configuration digests\<close>

definition optionalURL :: "url option \<Rightarrow> string" where
  "optionalURL value = (case value of None \<Rightarrow> [] | Some u \<Rightarrow> urlString u)"

definition digest_fields :: "downstream_auth_mode \<Rightarrow> oauth_credential \<Rightarrow> string list" where
  "digest_fields mode c =
     [mode, optionalURL (oc_authorizationURL c), optionalURL (oc_tokenURL c), optionalURL (oc_revocationURL c),
      oc_clientID c, oc_clientSecretRef c, oc_tokenEndpointAuth c, oc_audience c, oc_resource c,
      join (sortStrings (oc_scopes c)) [CHR 0x1F], oc_subjectTokenType c, oc_requestedTokenType c,
      tls_caFile (oc_tls c), tls_clientCertFile (oc_tls c), tls_clientKeyFile (oc_tls c),
      if tls_insecureSkipVerify (oc_tls c) then ''true'' else ''false'']"

definition digest_text :: "downstream_auth_mode \<Rightarrow> oauth_credential \<Rightarrow> string" where
  "digest_text mode c = join (digest_fields mode c) [CHR 0x00]"

definition credentialDigest :: "(string \<Rightarrow> string) \<Rightarrow> downstream_auth_mode \<Rightarrow> oauth_credential \<Rightarrow> string" where
  "credentialDigest sha mode c = hexEncode (sha (digest_text mode c))"

text \<open>
  The digest separates configurations whose texts hold no separator (and whose scopes are not
  empty, as the manifest demands): only the order of the scopes is forgotten.
\<close>

definition digest_clean :: "downstream_auth_mode \<Rightarrow> oauth_credential \<Rightarrow> bool" where
  "digest_clean mode c \<longleftrightarrow>
     list_all (\<lambda>s. CHR 0x00 \<notin> set s) (digest_fields mode c)
     \<and> list_all (\<lambda>s. s \<noteq> [] \<and> CHR 0x1F \<notin> set s) (oc_scopes c)"

lemma digest_fields_not_Nil [simp]: "digest_fields m c \<noteq> []"
  by (simp add: digest_fields_def)

lemma digest_free: "digest_clean m c \<Longrightarrow> p \<in> set (digest_fields m c) \<Longrightarrow> CHR 0x00 \<notin> set p"
  by (auto simp: digest_clean_def list_all_iff)

lemma join_scopes_inj:
  assumes "join xs [sep] = join ys [sep]" "list_all (\<lambda>s. s \<noteq> [] \<and> sep \<notin> set s) xs"
    "list_all (\<lambda>s. s \<noteq> [] \<and> sep \<notin> set s) ys"
  shows "xs = ys"
proof -
  have ne: "join zs [sep] \<noteq> []" if "zs \<noteq> []" "list_all (\<lambda>s. s \<noteq> [] \<and> sep \<notin> set s) zs" for zs
    using that by (cases zs; cases "tl zs") auto
  show ?thesis
  proof (cases "xs = [] \<or> ys = []")
    case True
    with assms ne show ?thesis by (metis join.simps(1))
  next
    case False
    with assms show ?thesis by (intro join_inj [of xs sep ys]) (auto simp: list_all_iff)
  qed
qed

lemma credentialDigest_eq_iff:
  assumes "digest_clean m c" "digest_clean m' c'" "inj_on sha {digest_text m c, digest_text m' c'}"
  shows "credentialDigest sha m c = credentialDigest sha m' c' \<longleftrightarrow>
    m = m' \<and> optionalURL (oc_authorizationURL c) = optionalURL (oc_authorizationURL c')
    \<and> optionalURL (oc_tokenURL c) = optionalURL (oc_tokenURL c')
    \<and> optionalURL (oc_revocationURL c) = optionalURL (oc_revocationURL c')
    \<and> oc_clientID c = oc_clientID c' \<and> oc_clientSecretRef c = oc_clientSecretRef c'
    \<and> oc_tokenEndpointAuth c = oc_tokenEndpointAuth c' \<and> oc_audience c = oc_audience c' \<and> oc_resource c = oc_resource c'
    \<and> sort (oc_scopes c) = sort (oc_scopes c') \<and> oc_subjectTokenType c = oc_subjectTokenType c'
    \<and> oc_requestedTokenType c = oc_requestedTokenType c' \<and> oc_tls c = oc_tls c'"
proof -
  have "credentialDigest sha m c = credentialDigest sha m' c' \<longleftrightarrow> digest_text m c = digest_text m' c'"
    unfolding credentialDigest_def by (metis hexEncode_inj inj_onD [OF assms(3)] insertI1 insertI2)
  also have "\<dots> \<longleftrightarrow> digest_fields m c = digest_fields m' c'"
  proof
    assume "digest_text m c = digest_text m' c'"
    then show "digest_fields m c = digest_fields m' c'"
      unfolding digest_text_def 
      by (rule join_inj [OF _ digest_fields_not_Nil digest_fields_not_Nil digest_free [OF assms(1)] digest_free [OF assms(2)]])
  qed (simp add: digest_text_def)
  finally have eq: "credentialDigest sha m c = credentialDigest sha m' c' \<longleftrightarrow> digest_fields m c = digest_fields m' c'" .
  have "join (sortStrings (oc_scopes c)) [CHR 0x1F] = join (sortStrings (oc_scopes c')) [CHR 0x1F]
      \<longleftrightarrow> sort (oc_scopes c) = sort (oc_scopes c')"
    using join_scopes_inj [of "sort (oc_scopes c)" "CHR 0x1F" "sort (oc_scopes c')"] assms(1,2)
    unfolding digest_clean_def list_all_iff sortStrings_def set_sort by metis
  then show ?thesis unfolding eq by (auto simp: digest_fields_def intro: tls_config.equality split: if_splits)
qed

section \<open>The provider\<close>

record oauth_provider =
  op_mode :: downstream_auth_mode
  op_domain :: string
  op_config :: oauth_credential
  op_clientSecret :: string
  op_configDigest :: string
  op_cache :: token_cache
  op_breaker :: breaker

definition maxTokenResponse :: nat where
  "maxTokenResponse = 65536"

text \<open>
  \<open>newOAuthProvider\<close>. Arguments: SHA-256, the secret resolver and the construction of the
  transport (\<open>tokenHTTPClient\<close>, an error or nothing).
\<close>

definition newOAuthProvider ::
  "(string \<Rightarrow> string) \<Rightarrow> (string \<Rightarrow> string + string) \<Rightarrow> (bool \<Rightarrow> tls_config \<Rightarrow> string option)
   \<Rightarrow> string \<Rightarrow> compiled_command \<Rightarrow> string + oauth_provider" where
  "newOAuthProvider sha resolve transport hmacKey command =
     (case cmd_oauthCredential command of
        None \<Rightarrow> Inl ''OAuth credential configuration is missing''
      | Some c \<Rightarrow>
          (if oc_tokenURL c = None then Inl ''OAuth credential configuration is missing''
           else (case resolve (oc_clientSecretRef c) of
              Inl e \<Rightarrow> Inl (''resolve client secret: '' @ e)
            | Inr secret \<Rightarrow>
                (let cc = cmd_credentialCache command
                 in case newTokenCache hmacKey (cc_capacity cc) (cc_refreshSkew cc) (cc_negativeTTL cc) of
                      Inl e \<Rightarrow> Inl e
                    | Inr cache \<Rightarrow>
                        (case transport (oc_allowLocal c) (oc_tls c) of
                           Some e \<Rightarrow> Inl (''initialize token endpoint transport: '' @ e)
                         | None \<Rightarrow>
                             Inr \<lparr>op_mode = cmd_downstreamAuth command, op_domain = cmd_domain command, op_config = c,
                               op_clientSecret = secret,
                               op_configDigest = credentialDigest sha (cmd_downstreamAuth command) c,
                               op_cache = cache, op_breaker = newBreaker 5 (30 * second)\<rparr>)))))"

section \<open>The token response\<close>

text \<open>
  \<open>tokenResponse\<close> and the struct of \<open>requestAuthorizationCodeToken\<close> after decoding;
  \<open>expires_in\<close> is the JSON value of the raw message, \<open>None\<close> when the message is empty.
  The decoders return the struct and whether the body ends behind the value;
  \<open>jd_exp\<close> gives the text of the \<open>exp\<close> number of a JWT payload, empty when it is missing.
\<close>

record token_response =
  tr_accessToken :: string
  tr_tokenType :: string
  tr_expiresIn :: "goval option"

record grant_response = token_response +
  gr_refreshToken :: string
  gr_scope :: string
  gr_error :: string

record json_env =
  jd_token :: "string \<Rightarrow> (token_response \<times> bool) option"
  jd_grant :: "string \<Rightarrow> (grant_response \<times> bool) option"
  jd_exp :: "string \<Rightarrow> string option"

text \<open>A raw message as a \<open>json.Number\<close>: null leaves it empty, a string must spell a number.\<close>

fun unmarshalNumber :: "goval \<Rightarrow> string option" where
  "unmarshalNumber (VNum n) = Some n"
| "unmarshalNumber VNil = Some []"
| "unmarshalNumber (VStr s) = (if isValidNumber s then Some s else None)"
| "unmarshalNumber _ = None"

definition parseExpiresIn :: "goval \<Rightarrow> int option" where
  "parseExpiresIn raw =
     (case unmarshalNumber raw of
        Some n \<Rightarrow> parseInt64 n
      | None \<Rightarrow> (case raw of VStr s \<Rightarrow> parseInt64 s | _ \<Rightarrow> None))"

text \<open>\<open>time.Unix(seconds, 0)\<close>: the offset to year 1 is added in 64 bits.\<close>

definition unix_time :: "int \<Rightarrow> gotime" where
  "unix_time s = ((s + 62135596800 + 2 ^ 63) mod 2 ^ 64 - 2 ^ 63) * second"

definition tokenJWTExpiry :: "json_env \<Rightarrow> string \<Rightarrow> gotime option" where
  "tokenJWTExpiry jd raw =
     (let parts = splitOn (CHR ''.'') raw
      in if length parts \<noteq> 3 then None
         else (case b64_decode (parts ! 1) of
                 None \<Rightarrow> None
               | Some payload \<Rightarrow>
                   (case jd_exp jd payload of
                      None \<Rightarrow> None
                    | Some e \<Rightarrow> (if e = [] then None else map_option unix_time (parseInt64 e)))))"

text \<open>Lines 157 to 167: the announced lifetime, at most a day.\<close>

definition announced_expiry :: "gotime \<Rightarrow> goval option \<Rightarrow> string + gotime" where
  "announced_expiry now raw =
     (case raw of
        None \<Rightarrow> Inr zero_time
      | Some v \<Rightarrow>
          (case parseExpiresIn v of
             None \<Rightarrow> Inl ''expires_in must be an integer''
           | Some seconds \<Rightarrow>
               (if seconds \<le> 0 \<or> seconds > 86400 then Inl ''expires_in is outside the accepted range''
                else Inr (now + seconds * second))))"

text \<open>Lines 168 to 170: the earlier of the two expiries.\<close>

definition earlier_expiry :: "gotime \<Rightarrow> gotime option \<Rightarrow> gotime" where
  "earlier_expiry announced jwt =
     (case jwt of
        Some j \<Rightarrow> (if is_zero announced \<or> j < announced then j else announced)
      | None \<Rightarrow> announced)"

definition parseTokenResponse :: "json_env \<Rightarrow> string \<Rightarrow> gotime \<Rightarrow> string + token" where
  "parseTokenResponse jd body now =
     (case jd_token jd body of
        None \<Rightarrow> Inl ''invalid JSON''
      | Some (r, at_eof) \<Rightarrow>
          (if \<not> at_eof then Inl ''token response contains trailing data''
           else if tr_accessToken r = [] then Inl ''access_token is missing''
           else if \<not> equalFold (tr_tokenType r) ''Bearer'' then Inl ''token_type is not Bearer''
           else rbind (announced_expiry now (tr_expiresIn r)) (\<lambda>announced.
             (let expiresAt = earlier_expiry announced (tokenJWTExpiry jd (tr_accessToken r))
              in if is_zero expiresAt \<or> \<not> now < expiresAt then Inl ''token has no valid future expiry''
                 else Inr \<lparr>at_access = tr_accessToken r, at_expires = expiresAt\<rparr>))))"

lemma announced_expiry_Inr:
  assumes "announced_expiry now raw = Inr t"
  shows "case raw of None \<Rightarrow> t = zero_time
    | Some v \<Rightarrow> (\<exists>n. parseExpiresIn v = Some n \<and> 0 < n \<and> n \<le> 86400 \<and> t = now + n * second)"
  using assms by (auto simp: announced_expiry_def split: option.splits if_splits)

text \<open>
  An accepted response yields its access token with an expiry in the future, never later than the
  announced lifetime (which is at most a day) nor than the expiry inside a JWT.
\<close>

lemma parseTokenResponse_Inr:
  assumes "parseTokenResponse jd body now = Inr t" "0 < now"
  obtains r where "jd_token jd body = Some (r, True)" "at_access t = tr_accessToken r" "at_access t \<noteq> []"
    "equalFold (tr_tokenType r) ''Bearer''" "now < at_expires t"
    "tr_expiresIn r \<noteq> None \<Longrightarrow> at_expires t \<le> now + 24 * hour"
    "\<And>j. tokenJWTExpiry jd (tr_accessToken r) = Some j \<Longrightarrow> at_expires t \<le> j"
proof -
  obtain r where r: "jd_token jd body = Some (r, True)" "at_access t = tr_accessToken r" "at_access t \<noteq> []"
      "equalFold (tr_tokenType r) ''Bearer''" "now < at_expires t"
    using assms(1)
    by (auto simp: parseTokenResponse_def rbind_Inr Let_def split: option.splits if_splits)
  from assms(1) r obtain a where a: "announced_expiry now (tr_expiresIn r) = Inr a"
    and t: "at_expires t = earlier_expiry a (tokenJWTExpiry jd (tr_accessToken r))"
    by (auto simp: parseTokenResponse_def rbind_Inr Let_def split: if_splits)
  note ax = announced_expiry_Inr [OF a]
  have "at_expires t \<le> now + 24 * hour" if "tr_expiresIn r \<noteq> None"
  proof -
    from that ax obtain n where n: "0 < n" "n \<le> 86400" "a = now + n * second" by auto
    with assms(2) have "a \<noteq> 0" "a \<le> now + 24 * hour" by (simp_all add: dur_defs)
    with t show ?thesis by (auto simp: earlier_expiry_def is_zero_def zero_time_def split: option.splits)
  qed
  moreover have "at_expires t \<le> j" if "tokenJWTExpiry jd (tr_accessToken r) = Some j" for j
    using t that by (simp add: earlier_expiry_def split: if_splits)
  ultimately show thesis using that r by blast
qed

section \<open>The token request\<close>

definition applyOAuthClientAuthentication :: "query_values \<Rightarrow> oauth_credential \<Rightarrow> string \<Rightarrow> string + bool \<times> query_values" where
  "applyOAuthClientAuthentication form c secret =
     (if oc_tokenEndpointAuth c = [] \<or> oc_tokenEndpointAuth c = ''client_secret_basic'' then Inr (True, form)
      else if oc_tokenEndpointAuth c = ''client_secret_post''
      then Inr (False, qset ''client_secret'' secret (qset ''client_id'' (oc_clientID c) form))
      else Inl ''unsupported token endpoint authentication method'')"

text \<open>\<open>Request.SetBasicAuth\<close>: standard base64 with padding.\<close>

definition std_base64 :: "string \<Rightarrow> string" where
  "std_base64 s =
     map (\<lambda>c. if c = CHR ''-'' then CHR ''+'' else if c = CHR ''_'' then CHR ''/'' else c) (b64_encode s)
     @ replicate ((3 - length s mod 3) mod 3) (CHR ''='')"

definition setBasicAuth :: "string \<Rightarrow> string \<Rightarrow> http_header \<Rightarrow> http_header" where
  "setBasicAuth user password h = headerSet ''Authorization'' (''Basic '' @ std_base64 (user @ '':'' @ password)) h"

text \<open>Lines 50 to 70; \<open>None\<close> is the invalid mode.\<close>

definition set_if :: "bool \<Rightarrow> string \<Rightarrow> string \<Rightarrow> query_values \<Rightarrow> query_values" where
  "set_if b k v q = (if b then qset k v q else q)"

definition token_form :: "oauth_provider \<Rightarrow> string \<Rightarrow> query_values option" where
  "token_form p subjectToken =
     (let c = op_config p;
          form =
            (if op_mode p = DownstreamTokenExchange then
               Some (qset ''requested_token_type'' (oc_requestedTokenType c)
                      (qset ''subject_token_type'' (oc_subjectTokenType c)
                        (qset ''subject_token'' subjectToken
                          (qset ''grant_type'' ''urn:ietf:params:oauth:grant-type:token-exchange'' []))))
             else if op_mode p = DownstreamClientCredentials then Some (qset ''grant_type'' ''client_credentials'' [])
             else None)
      in map_option (\<lambda>f.
           set_if (oc_scopes c \<noteq> []) ''scope'' (join (oc_scopes c) '' '')
             (set_if (oc_resource c \<noteq> []) ''resource'' (oc_resource c)
               (set_if (oc_audience c \<noteq> []) ''audience'' (oc_audience c) f))) form)"

datatype token_reply = DoFails | Reply int "string option"

text \<open>
  The environment of one token request: the transport (an error, or a status and the body unless
  reading it fails), the JSON decoder, the random bytes of the trace context and the clock readings
  of \<open>Allow\<close>, of \<open>Failure\<close> and of the parsing.
\<close>

record token_env =
  tv_do :: "http_request \<Rightarrow> token_reply"
  tv_json :: json_env
  tv_random :: string
  tv_spanID :: string
  tv_allowAt :: gotime
  tv_failAt :: gotime
  tv_parseAt :: gotime

definition internalFault :: "string \<Rightarrow> api_error" where
  "internalFault message = apiError 500 ''E_INTERNAL'' message"

definition tokenFault :: "string \<Rightarrow> api_error" where
  "tokenFault message = apiError 502 ''E_TOKEN_EXCHANGE'' message"

text \<open>Lines 71 to 92. A nil token URL (which \<open>newOAuthProvider\<close> refuses) is a nil dereference.\<close>

definition token_request :: "token_env \<Rightarrow> oauth_provider \<Rightarrow> query_values \<Rightarrow> string \<Rightarrow> string \<Rightarrow> api_error + http_request" where
  "token_request tv p form trace state =
     (case applyOAuthClientAuthentication form (op_config p) (op_clientSecret p) of
        Inl e \<Rightarrow> Inl ((internalFault ''downstream OAuth client authentication is invalid'')\<lparr>ae_cause := Some e\<rparr>)
      | Inr (useBasicAuth, form') \<Rightarrow>
          (case oc_tokenURL (op_config p) of
             None \<Rightarrow> Inl (internalFault ''nil pointer dereference'')
           | Some u \<Rightarrow>
               (case newRequest ''POST'' (urlString u) (Some (encodeQuery form')) of
                  None \<Rightarrow> Inl (tokenFault ''downstream token request could not be constructed'')
                | Some rq \<Rightarrow>
                    (let h = headerSet ''Content-Type'' ''application/x-www-form-urlencoded'' (rq_header rq);
                         h = headerSet ''Accept'' ''application/json'' h;
                         h = headerSet ''User-Agent'' ''cli-gateway/token-broker'' h;
                         h = headerSet ''X-Cli-Gateway-Trace-Id'' trace h;
                         h = headerSet ''traceparent'' (traceParent (tv_random tv) (tv_spanID tv) trace) h;
                         h = (if state \<noteq> [] then headerSet ''tracestate'' state h else h);
                         h = (if useBasicAuth then setBasicAuth (oc_clientID (op_config p)) (op_clientSecret p) h else h)
                     in Inr (rq\<lparr>rq_header := h\<rparr>)))))"

type_synonym token_answer = "token \<times> bool \<times> api_error option"

text \<open>Lines 94 to 126: the reply and what it tells the breaker.\<close>

definition token_outcome :: "token_env \<Rightarrow> token_reply \<Rightarrow> breaker \<Rightarrow> token_answer \<times> breaker" where
  "token_outcome tv reply b =
     (case reply of
        DoFails \<Rightarrow> ((no_token, True, Some (tokenFault ''downstream authorization server is unavailable'')), failure (tv_failAt tv) b)
      | Reply status None \<Rightarrow> ((no_token, False, Some (tokenFault ''downstream token response could not be read'')), b)
      | Reply status (Some full) \<Rightarrow>
          (let body = take (maxTokenResponse + 1) full
           in if length body > maxTokenResponse
              then ((no_token, False, Some (tokenFault ''downstream token response is too large'')), b)
              else if status < 200 \<or> status \<ge> 300 then
                ((no_token, status = 429 \<or> status \<ge> 500,
                  Some ((tokenFault ''downstream authorization server rejected the credential request'')\<lparr>ae_upstream := status\<rparr>)),
                 if status \<ge> 500 then failure (tv_failAt tv) b else success b)
              else (case parseTokenResponse (tv_json tv) body (tv_parseAt tv) of
                      Inl e \<Rightarrow> ((no_token, False,
                                 Some ((tokenFault ''downstream authorization server returned an invalid token response'')\<lparr>ae_cause := Some e\<rparr>)),
                                success b)
                    | Inr t \<Rightarrow> ((t, False, None), success b))))"

datatype telemetry = TokenCache cache_result | TokenExchange bool | CircuitRejection

text \<open>
  One run of \<open>requestToken\<close>: its answer, the breaker afterwards, the request that went out,
  and what the observer saw.
\<close>

record token_run =
  tn_answer :: token_answer
  tn_breaker :: breaker
  tn_sent :: "http_request option"
  tn_telemetry :: "telemetry list"

definition circuitOpen :: "duration \<Rightarrow> api_error" where
  "circuitOpen retryAfter =
     (apiError 502 ''E_TOKEN_CIRCUIT_OPEN'' ''downstream authorization server is temporarily unavailable'')
       \<lparr>ae_retryAfter := retryAfter\<rparr>"

definition requestToken :: "token_env \<Rightarrow> oauth_provider \<Rightarrow> string \<Rightarrow> string \<Rightarrow> string \<Rightarrow> token_run" where
  "requestToken tv p subjectToken trace state =
     (case allow (tv_allowAt tv) (op_breaker p) of
        ((allowed, retryAfter), b) \<Rightarrow>
          (if \<not> allowed then
             \<lparr>tn_answer = (no_token, True, Some (circuitOpen retryAfter)), tn_breaker = b, tn_sent = None,
              tn_telemetry = [CircuitRejection, TokenExchange True]\<rparr>
           else (case token_form p subjectToken of
              None \<Rightarrow> \<lparr>tn_answer = (no_token, False, Some (internalFault ''downstream OAuth mode is invalid'')),
                       tn_breaker = b, tn_sent = None, tn_telemetry = [TokenExchange True]\<rparr>
            | Some form \<Rightarrow>
                (case token_request tv p form trace state of
                   Inl e \<Rightarrow> \<lparr>tn_answer = (no_token, False, Some e), tn_breaker = b, tn_sent = None,
                             tn_telemetry = [TokenExchange True]\<rparr>
                 | Inr rq \<Rightarrow>
                     (case token_outcome tv (tv_do tv rq) b of
                        (answer, b') \<Rightarrow>
                          \<lparr>tn_answer = answer, tn_breaker = b', tn_sent = Some rq,
                           tn_telemetry = [TokenExchange (snd (snd answer) \<noteq> None)]\<rparr>)))))"

section \<open>Authorize\<close>

text \<open>
  The parts of the opaque cache key. A token-exchange entry is bound to the session of the
  principal, or to its subject when there is no session.
\<close>

definition provider_key_parts :: "oauth_provider \<Rightarrow> invocation \<Rightarrow> string list" where
  "provider_key_parts p iv =
     (let pr = inv_principal iv;
          binding = (if pr_sessionID pr = [] then pr_subject pr else pr_sessionID pr);
          binding = (if op_mode p = DownstreamClientCredentials then ''service'' else binding);
          c = op_config p
      in [pr_issuer pr, pr_tenant pr, binding, pr_clientID pr, op_domain p, op_mode p, op_configDigest p,
          oc_audience c, oc_resource c, join (oc_scopes c) [CHR 0x1F], oc_requestedTokenType c])"

definition provider_key :: "(string \<Rightarrow> string \<Rightarrow> string) \<Rightarrow> oauth_provider \<Rightarrow> invocation \<Rightarrow> string" where
  "provider_key hmac p iv = cacheKey hmac (op_cache p) (provider_key_parts p iv)"

text \<open>
  The environment of one \<open>Authorize\<close>: HMAC, the clock of the cache lookup, of the checks on the
  loaded token and of its insertion, the environment of the token request, and what the caller gets
  when it waits for the load of another one (its answer, or the error of its own context).
\<close>

record authorize_env =
  az_hmac :: "string \<Rightarrow> string \<Rightarrow> string"
  az_lookupAt :: gotime
  az_checkedAt :: gotime
  az_staleAt :: gotime
  az_storedAt :: gotime
  az_token :: token_env
  az_waited :: cache_answer

definition loaded :: "authorize_env \<Rightarrow> token_answer \<Rightarrow> load_outcome" where
  "loaded az a =
     (case a of (t, transient, err) \<Rightarrow>
        \<lparr>lo_token = t, lo_transient = transient, lo_error = map_option APIErr err,
         lo_checkedAt = az_checkedAt az, lo_staleAt = az_staleAt az, lo_storedAt = az_storedAt az\<rparr>)"

record provider_run =
  pn_error :: "api_error option"
  pn_request :: http_request
  pn_provider :: oauth_provider
  pn_sent :: "http_request option"
  pn_telemetry :: "telemetry list"

definition setAuthorization :: "string \<Rightarrow> http_request \<Rightarrow> http_request" where
  "setAuthorization t rq = rq\<lparr>rq_header := headerSet ''Authorization'' (''Bearer '' @ t) (rq_header rq)\<rparr>"

definition authorize_error :: "go_error \<Rightarrow> api_error" where
  "authorize_error e =
     (case e of
        APIErr a \<Rightarrow> a
      | _ \<Rightarrow> (tokenFault ''downstream authorization server is unavailable'')\<lparr>ae_cause := Some ''credential''\<rparr>)"

definition deliver :: "http_request \<Rightarrow> oauth_provider \<Rightarrow> http_request option \<Rightarrow> telemetry list \<Rightarrow> cache_answer \<Rightarrow> provider_run" where
  "deliver rq p sent tel answer =
     (case answer of (t, result, err) \<Rightarrow>
        (case err of
           Some e \<Rightarrow> \<lparr>pn_error = Some (authorize_error e), pn_request = rq, pn_provider = p, pn_sent = sent,
                      pn_telemetry = tel @ [TokenCache result]\<rparr>
         | None \<Rightarrow> \<lparr>pn_error = None, pn_request = setAuthorization (at_access t) rq, pn_provider = p, pn_sent = sent,
                     pn_telemetry = tel @ [TokenCache result]\<rparr>))"

definition authorizeOAuth :: "authorize_env \<Rightarrow> http_request \<Rightarrow> invocation \<Rightarrow> oauth_provider \<Rightarrow> provider_run" where
  "authorizeOAuth az rq iv p =
     (if op_mode p = DownstreamTokenExchange \<and> inv_bearerToken iv = []
      then \<lparr>pn_error = Some (apiError 502 ''E_DOWNSTREAM_AUTH'' ''subject token is unavailable for downstream delegation''),
            pn_request = rq, pn_provider = p, pn_sent = None, pn_telemetry = []\<rparr>
      else (let key = provider_key (az_hmac az) p iv
            in case get_begin 0 (az_lookupAt az) key (op_cache p) of
                 (Answered a, c) \<Rightarrow> deliver rq (p\<lparr>op_cache := c\<rparr>) None [] a
               | (Waits _, c) \<Rightarrow> deliver rq (p\<lparr>op_cache := c\<rparr>) None [] (az_waited az)
               | (Leads stale, c) \<Rightarrow>
                   (let run = requestToken (az_token az) p (inv_bearerToken iv) (inv_traceID iv) (inv_traceState iv)
                    in case get_finish key stale (loaded az (tn_answer run)) c of
                         (a, c') \<Rightarrow> deliver rq (p\<lparr>op_cache := c', op_breaker := tn_breaker run\<rparr>) (tn_sent run)
                                       (tn_telemetry run) a)))"

definition invalidateOAuth :: "(string \<Rightarrow> string \<Rightarrow> string) \<Rightarrow> invocation \<Rightarrow> oauth_provider \<Rightarrow> oauth_provider" where
  "invalidateOAuth hmac iv p = p\<lparr>op_cache := invalidateKey (provider_key hmac p iv) (op_cache p)\<rparr>"

section \<open>What the token endpoint receives\<close>

lemma qget_set_if [simp]: "qget (set_if b k v q) k' = (if b \<and> k' = k then [v] else qget q k')"
  by (simp add: set_if_def)

lemma wf_set_if [simp]: "wf_map q \<Longrightarrow> wf_map (set_if b k v q)"
  by (simp add: set_if_def)

lemma client_authentication_Inr:
  assumes "applyOAuthClientAuthentication form c secret = Inr (basic, form')" "wf_map form"
  shows "wf_map form' \<and> (k \<noteq> ''client_id'' \<and> k \<noteq> ''client_secret'' \<longrightarrow> qget form' k = qget form k)"
  using assms by (auto simp: applyOAuthClientAuthentication_def split: if_splits)

lemma token_form_wf: "token_form p subject = Some form \<Longrightarrow> wf_map form"
  by (auto simp: token_form_def Let_def split: if_splits)

lemma token_request_Inr:
  assumes "token_request tv p form trace state = Inr rq" "wf_map form"
  obtains u form' basic where "oc_tokenURL (op_config p) = Some u" "rq_text rq = urlString u"
    "applyOAuthClientAuthentication form (op_config p) (op_clientSecret p) = Inr (basic, form')"
    "rq_body rq = Some (encodeQuery form')"
    "map_of (rq_header rq) ''Authorization'' =
       (if basic then Some [''Basic '' @ std_base64 (oc_clientID (op_config p) @ '':'' @ op_clientSecret p)] else None)"
proof -
  obtain basic form' where a: "applyOAuthClientAuthentication form (op_config p) (op_clientSecret p) = Inr (basic, form')"
    using assms(1) by (auto simp: token_request_def split: sum.splits)
  then obtain u rq0 where u: "oc_tokenURL (op_config p) = Some u"
      and n: "newRequest ''POST'' (urlString u) (Some (encodeQuery form')) = Some rq0"
    using assms(1) by (auto simp: token_request_def split: option.splits)
  note f = newRequest_fields [OF n]
  have k: "canonicalHeaderKey ''Authorization'' = ''Authorization''" "canonicalHeaderKey ''Content-Type'' = ''Content-Type''"
    "canonicalHeaderKey ''Accept'' = ''Accept''" "canonicalHeaderKey ''User-Agent'' = ''User-Agent''"
    "canonicalHeaderKey ''X-Cli-Gateway-Trace-Id'' = ''X-Cli-Gateway-Trace-Id''"
    "canonicalHeaderKey ''traceparent'' = ''Traceparent''" "canonicalHeaderKey ''tracestate'' = ''Tracestate''"
    by code_simp+
  show thesis
    by (rule that [OF u _ a]) (use assms(1) a u n f in \<open>auto simp: token_request_def Let_def setBasicAuth_def headerSet_def k\<close>)
qed

text \<open>What a token endpoint is told: a request that goes out is a POST of a form to the configured token
  URL; in token-exchange mode the form carries the caller's token as the subject token under the
  token-exchange grant, in client-credentials mode it carries no caller token at all, configured
  scopes, audience and resource arrive as configured, and the caller's bearer never
  becomes the request's \<open>Authorization\<close>: that is the client's Basic credential, or absent.\<close>

theorem token_request_contents:
  assumes "tn_sent (requestToken tv p subject trace state) = Some rq"
  shows "\<exists>u body. oc_tokenURL (op_config p) = Some u \<and> rq_text rq = urlString u \<and> rq_body rq = Some body
    \<and> qget (parseQuery body) ''grant_type'' =
        [if op_mode p = DownstreamTokenExchange then ''urn:ietf:params:oauth:grant-type:token-exchange'' else ''client_credentials'']
    \<and> qget (parseQuery body) ''subject_token'' = (if op_mode p = DownstreamTokenExchange then [subject] else [])
    \<and> qget (parseQuery body) ''scope'' = (if oc_scopes (op_config p) = [] then [] else [join (oc_scopes (op_config p)) '' ''])
    \<and> qget (parseQuery body) ''audience'' = (if oc_audience (op_config p) = [] then [] else [oc_audience (op_config p)])
    \<and> qget (parseQuery body) ''resource'' = (if oc_resource (op_config p) = [] then [] else [oc_resource (op_config p)])
    \<and> map_of (rq_header rq) ''Authorization'' \<in>
        {None, Some [''Basic '' @ std_base64 (oc_clientID (op_config p) @ '':'' @ op_clientSecret p)]}"
proof -
  obtain form where f: "token_form p subject = Some form" and r: "token_request tv p form trace state = Inr rq"
    using assms by (auto simp: requestToken_def split: prod.splits if_splits option.splits sum.splits)
  from token_request_Inr [OF r token_form_wf [OF f]] obtain u form' basic where
    q: "oc_tokenURL (op_config p) = Some u" "rq_text rq = urlString u"
      "applyOAuthClientAuthentication form (op_config p) (op_clientSecret p) = Inr (basic, form')"
      "rq_body rq = Some (encodeQuery form')"
    and auth: "map_of (rq_header rq) ''Authorization'' =
       (if basic then Some [''Basic '' @ std_base64 (oc_clientID (op_config p) @ '':'' @ op_clientSecret p)] else None)"
    by blast
  have "qget (parseQuery (encodeQuery form')) k = qget form k" if "k \<noteq> ''client_id''" "k \<noteq> ''client_secret''" for k
    using client_authentication_Inr [OF q(3) token_form_wf [OF f], of k] parseQuery_encodeQuery [of form' k] that by simp
  note fields = this [of "''grant_type''"] this [of "''subject_token''"] this [of "''scope''"] this [of "''audience''"]
    this [of "''resource''"]
  have auth': "map_of (rq_header rq) ''Authorization'' \<in>
      {None, Some [''Basic '' @ std_base64 (oc_clientID (op_config p) @ '':'' @ op_clientSecret p)]}"
    by (simp add: auth)
  have nil: "qget [] k = []" for k by (simp add: qget_def)
  show ?thesis
    by (intro exI conjI, rule q(1), rule q(2), rule q(4))
      (use f auth' in \<open>auto simp: fields token_form_def Let_def nil split: if_splits\<close>)
qed

text \<open>A token request answers with a token only when the endpoint said so: without an error, the request
  went out, the reply was a success of at most 64 KiB that parses to a non-empty Bearer token, the
  token is live for at most the announced time, and the breaker is closed; with an error there is no
  token; and the observer is told exactly once whether the exchange failed.\<close>

theorem requestToken_sound:
  assumes "requestToken tv p subject trace state = run" "0 < tv_parseAt tv"
  shows "(case tn_answer run of
      (t, transient, None) \<Rightarrow> \<not> transient \<and> at_access t \<noteq> [] \<and> tv_parseAt tv < at_expires t
         \<and> \<not> br_probing (tn_breaker run) \<and> is_zero (br_openUntil (tn_breaker run))
         \<and> (\<exists>rq status body. tn_sent run = Some rq \<and> tv_do tv rq = Reply status (Some body) \<and> 200 \<le> status \<and> status < 300
              \<and> length body \<le> maxTokenResponse \<and> parseTokenResponse (tv_json tv) body (tv_parseAt tv) = Inr t)
    | (t, _, Some e) \<Rightarrow> t = no_token \<and> ae_status e \<in> {500, 502})
    \<and> filter (\<lambda>x. x \<noteq> CircuitRejection) (tn_telemetry run) = [TokenExchange (snd (snd (tn_answer run)) \<noteq> None)]"
proof -
  have live: "at_access t \<noteq> [] \<and> tv_parseAt tv < at_expires t"
    if "parseTokenResponse (tv_json tv) body (tv_parseAt tv) = Inr t" for t body
    using that assms(2) by (rule parseTokenResponse_Inr) simp
  have faults: "ae_status (circuitOpen d) = 502" "ae_status (internalFault m) = 500" "ae_status (tokenFault m) = 502" for d m
    by (simp_all add: circuitOpen_def internalFault_def tokenFault_def)
  have rf: "token_request tv p form trace state = Inl e \<Longrightarrow> ae_status e \<in> {500, 502}" for form e
    by (auto simp: token_request_def Let_def faults split: sum.splits option.splits)
  have out: "case a of
        (t, transient, None) \<Rightarrow> \<not> transient \<and> b' = success b \<and>
           (\<exists>status body. reply = Reply status (Some body) \<and> 200 \<le> status \<and> status < 300
              \<and> length body \<le> maxTokenResponse \<and> parseTokenResponse (tv_json tv) body (tv_parseAt tv) = Inr t)
      | (t, _, Some e) \<Rightarrow> t = no_token \<and> ae_status e = 502"
    if "token_outcome tv reply b = (a, b')" for reply b a b'
    using that by (auto simp: token_outcome_def Let_def faults split: token_reply.splits option.splits if_splits sum.splits)
  obtain al d b where al: "allow (tv_allowAt tv) (op_breaker p) = ((al, d), b)"
    by (cases "allow (tv_allowAt tv) (op_breaker p)") auto
  show ?thesis
  proof (cases "\<exists>form rq. al \<and> token_form p subject = Some form \<and> token_request tv p form trace state = Inr rq")
    case True
    then obtain form rq where t: "al" "token_form p subject = Some form" "token_request tv p form trace state = Inr rq" by blast
    obtain t tr e b' where o1: "token_outcome tv (tv_do tv rq) b = ((t, tr, e), b')"
      by (cases "token_outcome tv (tv_do tv rq) b") auto
    from out [OF o1] live show ?thesis
      by (cases e) (auto simp: assms(1) [symmetric] requestToken_def al t o1 success_def is_zero_def)
  next
    case False
    then show ?thesis
      by (auto simp: assms(1) [symmetric] requestToken_def al faults split: option.splits sum.splits dest: rf)
  qed
qed

section \<open>The breaker of the token endpoint\<close>

text \<open>
  What the reply means for the breaker: a transport error and a server error count as failures, any
  other status that could be read is a success; a body that cannot be read or is too large resolves
  nothing.
\<close>

definition reply_resolves :: "token_reply \<Rightarrow> bool" where
  "reply_resolves reply = (case reply of DoFails \<Rightarrow> True | Reply _ None \<Rightarrow> False | Reply _ (Some b) \<Rightarrow> length b \<le> maxTokenResponse)"

lemma token_outcome_resolves:
  "token_outcome tv reply b = (a, b') \<Longrightarrow>
    (if reply_resolves reply then \<not> br_probing b' else b' = b \<and> snd (snd a) \<noteq> None)"
  by (auto simp: token_outcome_def reply_resolves_def Let_def success_def failure_fields
      split: token_reply.splits option.splits if_splits sum.splits)

text \<open>Some replies lock a provider out for good: when the half-open probe of a token endpoint is
  answered with a body that cannot be read or is larger than 64 KiB, the probe is never resolved, so
  from then on every request is refused with \<open>E_TOKEN_CIRCUIT_OPEN\<close> and none is sent, at
  whatever time and however the endpoint would answer, until the provider is rebuilt.\<close>

theorem unread_probe_locks_provider:
  assumes "\<not> is_zero (br_openUntil (op_breaker p))" "br_openUntil (op_breaker p) \<le> tv_allowAt tv"
    "\<not> br_probing (op_breaker p)" "tn_sent (requestToken tv p subject trace state) = Some rq"
    "\<not> reply_resolves (tv_do tv rq)" "p' = p\<lparr>op_breaker := tn_breaker (requestToken tv p subject trace state)\<rparr>"
  shows "tn_sent (requestToken tv' p' subject' trace' state') = None
    \<and> (\<exists>d. tn_answer (requestToken tv' p' subject' trace' state') = (no_token, True, Some (circuitOpen d)))
    \<and> tn_breaker (requestToken tv' p' subject' trace' state') = op_breaker p'"
proof -
  let ?b = "op_breaker p\<lparr>br_probing := True\<rparr>"
  have a: "allow (tv_allowAt tv) (op_breaker p) = ((True, 0), ?b)" using assms(1-3) by (simp add: allow_def)
  obtain form where f: "token_form p subject = Some form" "token_request tv p form trace state = Inr rq"
    using assms(4) by (auto simp: requestToken_def a split: option.splits sum.splits prod.splits)
  obtain ans b' where o1: "token_outcome tv (tv_do tv rq) ?b = (ans, b')" by (cases "token_outcome tv (tv_do tv rq) ?b")
  with token_outcome_resolves [OF o1] assms(5) have "b' = ?b" by simp
  then have p': "op_breaker p' = ?b" using assms(6) by (simp add: requestToken_def a f o1)
  have blocked: "\<not> admitted t (op_breaker p') \<and> snd (allow t (op_breaker p')) = op_breaker p'" for t
    by (rule unresolved_probe_blocks) (simp_all add: p' assms(1))
  obtain d where "allow (tv_allowAt tv') (op_breaker p') = ((False, d), op_breaker p')"
    using blocked [of "tv_allowAt tv'"] by (metis prod.collapse)
  then show ?thesis by (auto simp: requestToken_def)
qed

text \<open>Without such a reply no probe is left behind once a request went out.\<close>

lemma requestToken_resolves:
  assumes "tn_sent (requestToken tv p subject trace state) = Some rq" "reply_resolves (tv_do tv rq)"
  shows "\<not> br_probing (tn_breaker (requestToken tv p subject trace state))"
  using assms token_outcome_resolves
  by (auto simp: requestToken_def split: prod.splits if_splits option.splits sum.splits)

section \<open>What the upstream receives\<close>

text \<open>Cached service tokens are never shared across callers: two invocations of one provider find the
  same cache entry exactly when they agree on issuer, tenant, client and, for token exchange, on the
  session (or the subject of a principal without one), provided HMAC-SHA-256 does not collide on
  their two key texts.\<close>

theorem cached_tokens_isolated:
  assumes "list_all (\<lambda>x. length x < 2 ^ 32) (provider_key_parts p iv)" "list_all (\<lambda>x. length x < 2 ^ 32) (provider_key_parts p iv')"
    "inj_on (hmac (tc_key (op_cache p))) {key_text (provider_key_parts p iv), key_text (provider_key_parts p iv')}"
  shows "provider_key hmac p iv = provider_key hmac p iv' \<longleftrightarrow>
    pr_issuer (inv_principal iv) = pr_issuer (inv_principal iv')
    \<and> pr_tenant (inv_principal iv) = pr_tenant (inv_principal iv')
    \<and> pr_clientID (inv_principal iv) = pr_clientID (inv_principal iv')
    \<and> (op_mode p = DownstreamClientCredentials
       \<or> (if pr_sessionID (inv_principal iv) = [] then pr_subject (inv_principal iv) else pr_sessionID (inv_principal iv))
         = (if pr_sessionID (inv_principal iv') = [] then pr_subject (inv_principal iv') else pr_sessionID (inv_principal iv')))"
  unfolding provider_key_def cacheKey_eq_iff [where hmac = hmac and c = "op_cache p", OF assms]
  by (auto simp: provider_key_parts_def Let_def)

lemma deliver_simps [simp]:
  "pn_provider (deliver rq p sent tel a) = p" "pn_sent (deliver rq p sent tel a) = sent"
  by (cases a; cases "snd (snd a)"; simp add: deliver_def)+

lemma deliver_request:
  "case pn_error (deliver rq p sent tel (t, r, e)) of
     None \<Rightarrow> e = None \<and> pn_request (deliver rq p sent tel (t, r, e)) = setAuthorization (at_access t) rq
   | Some _ \<Rightarrow> e \<noteq> None \<and> pn_request (deliver rq p sent tel (t, r, e)) = rq"
  by (cases e) (simp_all add: deliver_def)

definition usable_answer :: "cache_answer \<Rightarrow> bool" where
  "usable_answer a = (case a of (t, _, None) \<Rightarrow> at_access t \<noteq> [] | _ \<Rightarrow> True)"

lemma deliver_sound:
  assumes "usable_answer a"
  shows "case pn_error (deliver rq p sent tel a) of
     None \<Rightarrow> (\<exists>t. t \<noteq> [] \<and> pn_request (deliver rq p sent tel a) = setAuthorization t rq)
   | Some _ \<Rightarrow> pn_request (deliver rq p sent tel a) = rq"
proof -
  obtain t r e where a: "a = (t, r, e)" by (cases a)
  show ?thesis using assms by (cases e) (auto simp: a deliver_def usable_answer_def)
qed

text \<open>A service credential reaches the upstream request completely or not at all: \<open>Authorize\<close> of an
  OAuth provider either returns no error and sets \<open>Authorization\<close> to a non-empty bearer token, or
  returns an error and leaves the request as it was; a token exchange without a caller token fails
  before the cache or the endpoint is consulted; and the cache stays well-formed and bounded.\<close>

theorem oauth_authorize_sound:
  assumes "cache_inv (op_cache p)" "usable_answer (az_waited az)" "authorizeOAuth az rq iv p = run"
  shows "cache_inv (op_cache (pn_provider run))
    \<and> (case pn_error run of
         None \<Rightarrow> (\<exists>t. t \<noteq> [] \<and> pn_request run = setAuthorization t rq)
       | Some _ \<Rightarrow> pn_request run = rq)
    \<and> (if op_mode p = DownstreamTokenExchange \<and> inv_bearerToken iv = []
       then pn_error run \<noteq> None \<and> pn_sent run = None \<and> pn_provider run = p else True)"
proof (cases "op_mode p = DownstreamTokenExchange \<and> inv_bearerToken iv = []")
  case True
  then show ?thesis using assms(1) by (auto simp: assms(3) [symmetric] authorizeOAuth_def)
next
  case False
  let ?key = "provider_key (az_hmac az) p iv"
  obtain g c where g: "get_begin 0 (az_lookupAt az) ?key (op_cache p) = (g, c)" by (cases "get_begin 0 (az_lookupAt az) ?key (op_cache p)")
  have c: "cache_inv c" by (rule get_begin_inv [OF assms(1) g])
  show ?thesis
  proof (cases g)
    case (Answered a)
    obtain t r e where a: "a = (t, r, e)" by (cases a)
    have "usable_answer a" using get_begin_live [OF assms(1) g [unfolded Answered a]] by (cases e) (auto simp: a usable_answer_def)
    moreover have run: "run = deliver rq (p\<lparr>op_cache := c\<rparr>) None [] a"
      using False unfolding assms(3) [symmetric] by (auto simp: authorizeOAuth_def Let_def g Answered)
    ultimately show ?thesis
      using c False deliver_sound [of a rq "p\<lparr>op_cache := c\<rparr>" None "[]"] unfolding run by auto
  next
    case (Waits j)
    have run: "run = deliver rq (p\<lparr>op_cache := c\<rparr>) None [] (az_waited az)"
      using False unfolding assms(3) [symmetric] by (auto simp: authorizeOAuth_def Let_def g Waits)
    show ?thesis
      using c False deliver_sound [OF assms(2), of rq "p\<lparr>op_cache := c\<rparr>" None "[]"] unfolding run by auto
  next
    case (Leads stale)
    let ?run = "requestToken (az_token az) p (inv_bearerToken iv) (inv_traceID iv) (inv_traceState iv)"
    obtain t r e c' where f: "get_finish ?key stale (loaded az (tn_answer ?run)) c = ((t, r, e), c')" by (metis prod.exhaust_sel)
    have "cache_inv c'" using get_finish_inv [OF c f] by simp
    moreover have "usable_answer (t, r, e)" using get_finish_live [OF f] by (cases e) (auto simp: usable_answer_def)
    moreover have run: "run = deliver rq (p\<lparr>op_cache := c', op_breaker := tn_breaker ?run\<rparr>) (tn_sent ?run) (tn_telemetry ?run) (t, r, e)"
      using False unfolding assms(3) [symmetric] by (auto simp: authorizeOAuth_def Let_def g Leads f)
    ultimately show ?thesis
      using False deliver_sound [of "(t, r, e)" rq "p\<lparr>op_cache := c', op_breaker := tn_breaker ?run\<rparr>" "tn_sent ?run" "tn_telemetry ?run"]
      unfolding run by auto
  qed
qed

section \<open>An example provider\<close>

definition example_url :: url where
  "example_url = the (urlParse ''https://idp.example/token'')"

definition example_oauth :: oauth_credential where
  "example_oauth =
     \<lparr>oc_authorizationURL = None, oc_tokenURL = Some example_url, oc_revocationURL = None, oc_clientID = ''gw'',
      oc_clientSecretRef = ''env:S'', oc_tokenEndpointAuth = [], oc_audience = ''api'', oc_resource = [],
      oc_scopes = [''read'', ''write''], oc_subjectTokenType = ''jwt'', oc_requestedTokenType = ''at'', oc_allowLocal = False,
      oc_tls = \<lparr>tls_insecureSkipVerify = False, tls_caFile = [], tls_clientCertFile = [], tls_clientKeyFile = []\<rparr>\<rparr>"

definition example_provider :: oauth_provider where
  "example_provider =
     \<lparr>op_mode = DownstreamTokenExchange, op_domain = ''demo'', op_config = example_oauth, op_clientSecret = ''s'',
      op_configDigest = ''d'', op_cache = demo_cache, op_breaker = newBreaker 5 (30 * second)\<rparr>"

definition example_json :: json_env where
  "example_json =
     \<lparr>jd_token = (\<lambda>_. Some (\<lparr>tr_accessToken = ''tok'', tr_tokenType = ''bearer'', tr_expiresIn = Some (VNum ''60'')\<rparr>, True)),
      jd_grant = (\<lambda>_. None), jd_exp = (\<lambda>_. None)\<rparr>"

definition example_env :: "token_reply \<Rightarrow> token_env" where
  "example_env reply =
     \<lparr>tv_do = (\<lambda>_. reply), tv_json = example_json, tv_random = ''0123456789abcdef'', tv_spanID = ''01234567'',
      tv_allowAt = 100, tv_failAt = 100, tv_parseAt = 100\<rparr>"

definition example_request :: http_request where
  "example_request = the (tn_sent (requestToken (example_env DoFails) example_provider ''user'' ''t'' []))"

lemma example_env_fields:
  "tv_random (example_env reply) = ''0123456789abcdef''" "tv_spanID (example_env reply) = ''01234567''"
  "tv_do (example_env reply) = (\<lambda>_. reply)" "tv_allowAt (example_env reply) = 100" "tv_parseAt (example_env reply) = 100"
  by (simp_all add: example_env_def)

lemma example_token_request:
  "token_request (example_env reply) example_provider (the (token_form example_provider ''user'')) ''t'' [] = Inr example_request"
proof -
  have same: "token_request (example_env reply) p form tr st = token_request (example_env DoFails) p form tr st" for p form tr st
    unfolding token_request_def example_env_fields by (rule refl)
  have "token_request (example_env DoFails) example_provider (the (token_form example_provider ''user'')) ''t'' [] = Inr example_request"
    by code_simp
  then show ?thesis by (simp add: same)
qed

lemma other_fields:
  "op_mode (p\<lparr>op_breaker := b\<rparr>) = op_mode p" "op_config (p\<lparr>op_breaker := b\<rparr>) = op_config p"
  "op_clientSecret (p\<lparr>op_breaker := b\<rparr>) = op_clientSecret p"
  by simp_all

lemma example_parse: "parseTokenResponse (tv_json (example_env reply)) ''{}'' 100 = Inr \<lparr>at_access = ''tok'', at_expires = 60000000100\<rparr>"
proof -
  have "parseTokenResponse example_json ''{}'' 100 = Inr \<lparr>at_access = ''tok'', at_expires = 60000000100\<rparr>" by code_simp
  then show ?thesis by (simp add: example_env_def)
qed

lemma example_runs:
  "requestToken (example_env reply) (example_provider\<lparr>op_breaker := b\<rparr>) ''user'' ''t'' [] =
     (case allow 100 b of
        ((allowed, d), b') \<Rightarrow>
          if allowed then
            (case token_outcome (example_env reply) reply b' of
               (a, b'') \<Rightarrow> \<lparr>tn_answer = a, tn_breaker = b'', tn_sent = Some example_request,
                            tn_telemetry = [TokenExchange (snd (snd a) \<noteq> None)]\<rparr>)
          else \<lparr>tn_answer = (no_token, True, Some (circuitOpen d)), tn_breaker = b', tn_sent = None,
                tn_telemetry = [CircuitRejection, TokenExchange True]\<rparr>)"
proof -
  have "token_form (example_provider\<lparr>op_breaker := b\<rparr>) x = token_form example_provider x"
    "token_request tv (example_provider\<lparr>op_breaker := b\<rparr>) form tr st = token_request tv example_provider form tr st" for x tv form tr st
    unfolding token_form_def token_request_def other_fields by (rule refl)+
  moreover have "\<exists>form. token_form example_provider ''user'' = Some form"
    by (simp add: token_form_def example_provider_def)
  ultimately show ?thesis using example_token_request [of reply]
    by (auto simp: requestToken_def example_env_fields split: prod.splits)
qed


definition tripped_breaker :: breaker where
  "tripped_breaker = \<lparr>br_threshold = 5, br_cooldown = 30, br_failures = 5, br_openUntil = 90, br_probing = False\<rparr>"

definition tripped :: oauth_provider where
  "tripped = example_provider\<lparr>op_breaker := tripped_breaker\<rparr>"

definition ok_reply :: token_reply where
  "ok_reply = Reply 200 (Some ''{}'')"

lemma tripped_run:
  "requestToken (example_env reply) tripped ''user'' ''t'' [] =
     (case token_outcome (example_env reply) reply (tripped_breaker\<lparr>br_probing := True\<rparr>) of
        (a, b'') \<Rightarrow> \<lparr>tn_answer = a, tn_breaker = b'', tn_sent = Some example_request,
                     tn_telemetry = [TokenExchange (snd (snd a) \<noteq> None)]\<rparr>)"
  by (simp add: tripped_def example_runs tripped_breaker_def allow_def is_zero_def zero_time_def)

lemma ok_outcome:
  "token_outcome (example_env ok_reply) ok_reply b = ((\<lparr>at_access = ''tok'', at_expires = 60000000100\<rparr>, False, None), success b)"
  by (simp add: token_outcome_def ok_reply_def maxTokenResponse_def example_env_fields example_parse)

lemma tripped_fields:
  "br_openUntil (op_breaker tripped) = 90" "\<not> br_probing (op_breaker tripped)" "op_config tripped = example_oauth"
  by (simp_all add: tripped_def tripped_breaker_def example_provider_def)

theorem token_request_contents_witness:
  "rq_text example_request = urlString example_url"
  using token_request_contents [of "example_env ok_reply" tripped "''user''" "''t''" "[]" example_request]
  by (auto simp: tripped_run ok_outcome tripped_fields example_oauth_def)

theorem requestToken_sound_witness:
  "fst (tn_answer (requestToken (example_env ok_reply) tripped ''user'' ''t'' [])) = \<lparr>at_access = ''tok'', at_expires = 60000000100\<rparr>
   \<and> is_zero (br_openUntil (tn_breaker (requestToken (example_env ok_reply) tripped ''user'' ''t'' [])))"
  using requestToken_sound [OF refl, of "example_env ok_reply" tripped "''user''" "''t''" "[]"]
  by (simp add: tripped_run ok_outcome example_env_fields)

theorem unread_probe_locks_provider_witness:
  "tn_sent (requestToken (example_env ok_reply)
     (tripped\<lparr>op_breaker := tn_breaker (requestToken (example_env (Reply 200 None)) tripped ''user'' ''t'' [])\<rparr>) ''user'' ''t'' []) = None"
  by (rule conjunct1 [OF unread_probe_locks_provider [where p = tripped and tv = "example_env (Reply 200 None)"
        and subject = "''user''" and trace = "''t''" and state = "[]" and rq = example_request]])
    (simp_all add: tripped_fields example_env_fields is_zero_def zero_time_def tripped_run reply_resolves_def token_outcome_def)

definition example_caller :: "string \<Rightarrow> invocation" where
  "example_caller user = (demo_invocation demo_get)\<lparr>inv_principal := (inv_principal (demo_invocation demo_get))
     \<lparr>pr_subject := user, pr_sessionID := []\<rparr>, inv_bearerToken := ''user-token''\<rparr>"

theorem cached_tokens_isolated_witness:
  "provider_key (\<lambda>k x. k @ x) example_provider (example_caller ''alice'')
   \<noteq> provider_key (\<lambda>k x. k @ x) example_provider (example_caller ''bob'')"
proof -
  have "list_all (\<lambda>x. length x < 2 ^ 32) (provider_key_parts example_provider (example_caller u))"
    if "u = ''alice'' \<or> u = ''bob''" for u
    using that by (auto simp: provider_key_parts_def example_provider_def example_caller_def example_oauth_def demo_invocation_def demo_principal_def)
  from cached_tokens_isolated [OF this this, of "''alice''" "''bob''" "\<lambda>k x. k @ x"] show ?thesis
    by (simp add: inj_on_def example_caller_def example_provider_def)
qed

definition example_authorize :: authorize_env where
  "example_authorize =
     \<lparr>az_hmac = (\<lambda>k x. k @ x), az_lookupAt = 50, az_checkedAt = 100, az_staleAt = 100, az_storedAt = 100,
      az_token = example_env ok_reply, az_waited = (no_token, ResultWaiter, Some (CtxErr ''canceled''))\<rparr>"

theorem oauth_authorize_sound_witness:
  "case pn_error (authorizeOAuth example_authorize example_request (example_caller ''alice'') example_provider) of
     None \<Rightarrow> (\<exists>t. t \<noteq> [] \<and> pn_request (authorizeOAuth example_authorize example_request (example_caller ''alice'') example_provider)
                 = setAuthorization t example_request)
   | Some _ \<Rightarrow> pn_request (authorizeOAuth example_authorize example_request (example_caller ''alice'') example_provider) = example_request"
proof -
  have c: "cache_inv (op_cache example_provider)" "usable_answer (az_waited example_authorize)"
    using newTokenCache_inv [OF demo_cache_new]
    by (simp_all add: example_provider_def example_authorize_def usable_answer_def)
  from oauth_authorize_sound [OF c refl] show ?thesis by blast
qed

end

