(* ===== verification/Auth_Store.thy ===== *)
theory Auth_Store
  imports Token_Cache Go_Base64 Manifest_Validate
begin

text \<open>
  The stores for per-user OAuth grants, \<open>internal/credential/authorization_store.go\<close>. The
  contract both implementations meet is the locale \<open>token_store\<close>; the encrypted store is also
  proved to recover, after a restart, exactly the grants of its last successful write, whatever
  writes failed in between. AES-GCM and the JSON codec of the records are arguments
  (\<open>store_codec\<close>, polymorphic in the types of plaintexts and of file contents); the outcome of
  the file-system calls of a write is an argument (the stage that failed, if any).
\<close>

record auth_token =
  ak_access :: string
  ak_refresh :: string
  ak_expires :: gotime
  ak_scopes :: "string list"
  ak_updated :: gotime

definition zero_auth_token :: auth_token where
  "zero_auth_token = \<lparr>ak_access = [], ak_refresh = [], ak_expires = zero_time, ak_scopes = [], ak_updated = zero_time\<rparr>"

type_synonym auth_records = "(string, auth_token) gomap"

definition authorizationStoreKey :: "(string \<Rightarrow> string \<Rightarrow> string) \<Rightarrow> string \<Rightarrow> string list \<Rightarrow> string" where
  "authorizationStoreKey hmac key parts = b64_encode (hmac key (key_text parts))"

definition load_record :: "auth_records \<Rightarrow> string \<Rightarrow> auth_token \<times> bool" where
  "load_record m key = (case map_of m key of Some t \<Rightarrow> (t, True) | None \<Rightarrow> (zero_auth_token, False))"

definition saveable :: "string \<Rightarrow> auth_token \<Rightarrow> bool" where
  "saveable key t \<longleftrightarrow> \<not> (key = [] \<or> (ak_access t = [] \<and> ak_refresh t = []))"

definition not_saveable :: string where
  "not_saveable = ''authorization token key and at least one token are required''"

section \<open>Memory\<close>

record memory_store =
  ms_key :: string
  ms_records :: auth_records

definition newMemoryStore :: "string \<Rightarrow> string + memory_store" where
  "newMemoryStore key =
     (if length key < 32 then Inl ''authorization token store key must be at least 32 bytes''
      else Inr \<lparr>ms_key = key, ms_records = []\<rparr>)"

definition mem_key :: "(string \<Rightarrow> string \<Rightarrow> string) \<Rightarrow> memory_store \<Rightarrow> string list \<Rightarrow> string" where
  "mem_key hmac s parts = authorizationStoreKey hmac (ms_key s) parts"

definition mem_load :: "memory_store \<Rightarrow> string \<Rightarrow> auth_token \<times> bool" where
  "mem_load s key = load_record (ms_records s) key"

definition mem_save :: "string \<Rightarrow> auth_token \<Rightarrow> memory_store \<Rightarrow> string option \<times> memory_store" where
  "mem_save key t s =
     (if \<not> saveable key t then (Some not_saveable, s) else (None, s\<lparr>ms_records := put key t (ms_records s)\<rparr>))"

definition mem_delete :: "string \<Rightarrow> memory_store \<Rightarrow> string option \<times> memory_store" where
  "mem_delete key s = (None, s\<lparr>ms_records := del key (ms_records s)\<rparr>)"

section \<open>Encrypted file\<close>

record envelope =
  env_version :: int
  env_nonce :: string
  env_ciphertext :: string

text \<open>
  \<open>cd_seal\<close> and \<open>cd_open\<close>: AES-256-GCM with key, nonce and associated data;
  \<open>cd_marshal\<close> and \<open>cd_unmarshal\<close>: the JSON of the payload (version and records, which may be
  null); the envelope's JSON likewise, with the file's size and permission bits.
\<close>

record ('p, 'f) store_codec =
  cd_sha256 :: "string \<Rightarrow> string"
  cd_marshal :: "int \<times> auth_records option \<Rightarrow> 'p option"
  cd_unmarshal :: "'p \<Rightarrow> (int \<times> auth_records option) option"
  cd_seal :: "string \<Rightarrow> string \<Rightarrow> 'p \<Rightarrow> string \<Rightarrow> string"
  cd_open :: "string \<Rightarrow> string \<Rightarrow> string \<Rightarrow> string \<Rightarrow> 'p option"
  cd_envelope :: "envelope \<Rightarrow> 'f"
  cd_parseEnvelope :: "'f \<Rightarrow> envelope option"
  cd_size :: "'f \<Rightarrow> int"

record 'f disk_file =
  df_content :: 'f
  df_perm :: nat

record file_store =
  fs_path :: string
  fs_encryptionKey :: string
  fs_bindingKey :: string
  fs_records :: auth_records

definition storeAAD :: string where
  "storeAAD = ''cli-gateway-downstream-oauth-store-v1''"

definition storeAEAD_ok :: "string \<Rightarrow> bool" where
  "storeAEAD_ok key \<longleftrightarrow> length key \<in> {16, 24, 32}"

definition group_or_other :: "nat \<Rightarrow> bool" where
  "group_or_other perm \<longleftrightarrow> perm mod 64 \<noteq> 0"

text \<open>\<open>loadFile\<close>; a missing file (\<open>None\<close>) leaves the records empty.\<close>

definition loadStoreFile :: "('p, 'f) store_codec \<Rightarrow> string \<Rightarrow> 'f disk_file option \<Rightarrow> string + auth_records" where
  "loadStoreFile cd key disk =
     (case disk of
        None \<Rightarrow> Inr []
      | Some f \<Rightarrow>
          (if group_or_other (df_perm f)
           then Inl ''authorization token store permissions must not grant group or other access''
           else if cd_size cd (df_content f) > 67108864 then Inl ''authorization token store exceeds 64 MiB''
           else (case cd_parseEnvelope cd (df_content f) of
             None \<Rightarrow> Inl ''authorization token store envelope is invalid''
           | Some e \<Rightarrow>
               (if env_version e \<noteq> 1 then Inl ''authorization token store envelope is invalid''
                else (case b64_decode (env_nonce e) of
                  None \<Rightarrow> Inl ''authorization token store nonce is invalid''
                | Some nonce \<Rightarrow>
                    (case b64_decode (env_ciphertext e) of
                       None \<Rightarrow> Inl ''authorization token store ciphertext is invalid''
                     | Some ct \<Rightarrow>
                         (if \<not> storeAEAD_ok key then Inl ''initialize authorization token store cipher''
                          else (case cd_open cd key nonce ct storeAAD of
                            None \<Rightarrow> Inl ''authorization token store could not be decrypted''
                          | Some pt \<Rightarrow>
                              (case cd_unmarshal cd pt of
                                 Some (version, Some records) \<Rightarrow>
                                   (if version = 1 then Inr records
                                    else Inl ''authorization token store payload is invalid'')
                               | _ \<Rightarrow> Inl ''authorization token store payload is invalid'')))))))))"

definition newEncryptedStore :: "('p, 'f) store_codec \<Rightarrow> string \<Rightarrow> string \<Rightarrow> 'f disk_file option \<Rightarrow> string + file_store" where
  "newEncryptedStore cd path secret disk =
     (if \<not> isAbsPath path then Inl ''authorization token store path must be absolute''
      else if length secret < 32 then Inl ''authorization token store secret must be at least 32 bytes''
      else (let ek = cd_sha256 cd (''cli-gateway/oauth-store/encryption'' @ [CHR 0x00] @ secret);
                bk = cd_sha256 cd (''cli-gateway/oauth-store/binding'' @ [CHR 0x00] @ secret)
            in rbind (loadStoreFile cd ek disk) (\<lambda>records.
                 Inr \<lparr>fs_path = path, fs_encryptionKey = ek, fs_bindingKey = bk, fs_records = records\<rparr>)))"

text \<open>
  The file-system call of \<open>persistLocked\<close> that fails, if any; a failing directory sync at the end is
  ignored by the code. The rename replaces the file, with mode 0600, or leaves it as it was.
\<close>

datatype stage = MkdirAll | RandomNonce | CreateTemp | Chmod | Write | Sync | CloseTemp | Rename

fun stage_error :: "stage \<Rightarrow> string" where
  "stage_error MkdirAll = ''create authorization token store directory''"
| "stage_error RandomNonce = ''generate authorization token store nonce''"
| "stage_error CreateTemp = ''create authorization token store temporary file''"
| "stage_error Chmod = ''secure authorization token store temporary file''"
| "stage_error Write = ''write authorization token store''"
| "stage_error Sync = ''sync authorization token store''"
| "stage_error CloseTemp = ''close authorization token store''"
| "stage_error Rename = ''replace authorization token store''"

record write_env =
  we_nonce :: string
  we_fault :: "stage option"

definition persistLocked :: "('p, 'f) store_codec \<Rightarrow> write_env \<Rightarrow> string \<Rightarrow> auth_records \<Rightarrow> 'f disk_file option
    \<Rightarrow> string option \<times> 'f disk_file option" where
  "persistLocked cd we key records disk =
     (if we_fault we = Some MkdirAll then (Some (stage_error MkdirAll), disk)
      else (case cd_marshal cd (1, Some records) of
              None \<Rightarrow> (Some ''encode authorization token store'', disk)
            | Some pt \<Rightarrow>
                (if \<not> storeAEAD_ok key then (Some ''initialize authorization token store cipher'', disk)
                 else (case we_fault we of
                         Some st \<Rightarrow> (Some (stage_error st), disk)
                       | None \<Rightarrow>
                           (None, Some \<lparr>df_content = cd_envelope cd \<lparr>env_version = 1, env_nonce = b64_encode (we_nonce we),
                                     env_ciphertext = b64_encode (cd_seal cd key (we_nonce we) pt storeAAD)\<rparr>,
                                   df_perm = 384\<rparr>)))))"

type_synonym 'f file_state = "file_store \<times> 'f disk_file option"

definition file_load :: "'f file_state \<Rightarrow> string \<Rightarrow> auth_token \<times> bool" where
  "file_load s key = load_record (fs_records (fst s)) key"

definition file_save :: "('p, 'f) store_codec \<Rightarrow> write_env \<Rightarrow> string \<Rightarrow> auth_token \<Rightarrow> 'f file_state \<Rightarrow> string option \<times> 'f file_state" where
  "file_save cd we key t s =
     (case s of (st, disk) \<Rightarrow>
        (if \<not> saveable key t then (Some not_saveable, s)
         else (let st' = st\<lparr>fs_records := put key t (fs_records st)\<rparr>
               in case persistLocked cd we (fs_encryptionKey st) (fs_records st') disk of
                    (None, disk') \<Rightarrow> (None, (st', disk'))
                  | (Some err, disk') \<Rightarrow>
                      (Some err, (case map_of (fs_records st) key of
                                    Some previous \<Rightarrow> st'\<lparr>fs_records := put key previous (fs_records st')\<rparr>
                                  | None \<Rightarrow> st'\<lparr>fs_records := del key (fs_records st')\<rparr>, disk')))))"

definition file_delete :: "('p, 'f) store_codec \<Rightarrow> write_env \<Rightarrow> string \<Rightarrow> 'f file_state \<Rightarrow> string option \<times> 'f file_state" where
  "file_delete cd we key s =
     (case s of (st, disk) \<Rightarrow>
        (case map_of (fs_records st) key of
           None \<Rightarrow> (None, s)
         | Some previous \<Rightarrow>
             (let st' = st\<lparr>fs_records := del key (fs_records st)\<rparr>
              in case persistLocked cd we (fs_encryptionKey st) (fs_records st') disk of
                   (None, disk') \<Rightarrow> (None, (st', disk'))
                 | (Some err, disk') \<Rightarrow> (Some err, (st'\<lparr>fs_records := put key previous (fs_records st')\<rparr>, disk')))))"

section \<open>The store contract\<close>

locale token_store =
  fixes load :: "'s \<Rightarrow> string \<Rightarrow> auth_token \<times> bool"
    and save :: "'w \<Rightarrow> string \<Rightarrow> auth_token \<Rightarrow> 's \<Rightarrow> string option \<times> 's"
    and delete :: "'w \<Rightarrow> string \<Rightarrow> 's \<Rightarrow> string option \<times> 's"
  assumes load_absent: "\<not> snd (load s k) \<Longrightarrow> fst (load s k) = zero_auth_token"
    and save_ok: "save w k t s = (None, s') \<Longrightarrow> load s' k' = (if k' = k then (t, True) else load s k')"
    and save_rejects: "k = [] \<or> (ak_access t = [] \<and> ak_refresh t = []) \<Longrightarrow> fst (save w k t s) \<noteq> None"
    and save_failed: "save w k t s = (Some e, s') \<Longrightarrow> load s' k' = load s k'"
    and delete_ok: "delete w k s = (None, s') \<Longrightarrow> load s' k' = (if k' = k then (zero_auth_token, False) else load s k')"
    and delete_failed: "delete w k s = (Some e, s') \<Longrightarrow> load s' k' = load s k'"
begin

lemma save_delete:
  assumes "save w k t s = (None, s1)" "delete w' k s1 = (None, s2)"
  shows "load s2 k' = (if k' = k then (zero_auth_token, False) else load s k')"
  using save_ok [OF assms(1)] delete_ok [OF assms(2)] by simp

lemma saved_usable: "save w k t s = (None, s') \<Longrightarrow> k \<noteq> [] \<and> (ak_access t \<noteq> [] \<or> ak_refresh t \<noteq> [])"
  using save_rejects [of k t w s] by auto

lemma save_isolated:
  assumes "k' \<noteq> k"
  shows "load (snd (save w k t s)) k' = load s k'"
  using assms save_ok [of w k t s "snd (save w k t s)" k'] save_failed [of w k t s _ "snd (save w k t s)" k']
  by (cases "save w k t s"; cases "fst (save w k t s)") auto

lemma delete_isolated:
  assumes "k' \<noteq> k"
  shows "load (snd (delete w k s)) k' = load s k'"
  using assms delete_ok [of w k s "snd (delete w k s)" k'] delete_failed [of w k s _ "snd (delete w k s)" k']
  by (cases "delete w k s"; cases "fst (delete w k s)") auto

end

interpretation mstore: token_store mem_load "\<lambda>_::unit. mem_save" "\<lambda>_::unit. mem_delete"
  by unfold_locales
    (auto simp: mem_load_def mem_save_def mem_delete_def load_record_def saveable_def split: option.splits if_splits)

lemma file_save_records:
  assumes "file_save cd we key t (st, disk) = (r, (st', disk'))"
  shows "map_of (fs_records st') = (if r = None then (map_of (fs_records st))(key \<mapsto> t) else map_of (fs_records st))"
  using assms
  by (auto simp: file_save_def Let_def fun_upd_idem split: if_splits option.splits prod.splits)

lemma file_delete_records:
  assumes "file_delete cd we key (st, disk) = (r, (st', disk'))"
  shows "map_of (fs_records st') = (if r = None then (map_of (fs_records st))(key := None) else map_of (fs_records st))"
  using assms
  by (auto simp: file_delete_def Let_def fun_upd_idem split: if_splits option.splits prod.splits)

lemma file_save_rejects:
  "key = [] \<or> (ak_access t = [] \<and> ak_refresh t = []) \<Longrightarrow> fst (file_save cd we key t s) \<noteq> None"
  by (cases s) (auto simp: file_save_def saveable_def)

lemma file_load_records: "file_load (st, disk) k = load_record (fs_records st) k"
  by (simp add: file_load_def)

lemma load_record_map: "load_record m k = (case map_of m k of Some t \<Rightarrow> (t, True) | None \<Rightarrow> (zero_auth_token, False))"
  by (simp add: load_record_def)

lemma file_save_load:
  assumes "file_save cd we k t s = (r, s')"
  shows "file_load s' k' = (if r = None \<and> k' = k then (t, True) else file_load s k')"
  using assms file_save_records [of cd we k t "fst s" "snd s" r "fst s'" "snd s'"]
  by (cases s; cases s') (auto simp: file_load_records load_record_map)

lemma file_delete_load:
  assumes "file_delete cd we k s = (r, s')"
  shows "file_load s' k' = (if r = None \<and> k' = k then (zero_auth_token, False) else file_load s k')"
  using assms file_delete_records [of cd we k "fst s" "snd s" r "fst s'" "snd s'"]
  by (cases s; cases s') (auto simp: file_load_records load_record_map)

interpretation fstore: token_store file_load "\<lambda>(cd, we). file_save cd we" "\<lambda>(cd, we). file_delete cd we"
proof unfold_locales
  fix s :: "'f file_state" and k
  show "\<not> snd (file_load s k) \<Longrightarrow> fst (file_load s k) = zero_auth_token"
    by (auto simp: file_load_def load_record_def split: option.splits)
qed (auto simp: file_save_load file_delete_load file_save_rejects simp del: not_None_eq split: prod.splits)

section \<open>Durability of the encrypted store\<close>

text \<open>
  What is assumed of the libraries, for the record tables that satisfy \<open>ok\<close> (their strings are
  valid UTF-8 and their times in the range JSON can carry): marshalled payloads and envelopes
  unmarshal to what was marshalled, a sealed plaintext opens under the same key, nonce and
  associated data, a SHA-256 digest has 32 bytes, and the file stays below the 64 MiB limit.
\<close>

definition codec_ok :: "(auth_records \<Rightarrow> bool) \<Rightarrow> ('p, 'f) store_codec \<Rightarrow> bool" where
  "codec_ok ok cd \<longleftrightarrow>
     (\<forall>r pt. ok r \<longrightarrow> cd_marshal cd (1, Some r) = Some pt \<longrightarrow> cd_unmarshal cd pt = Some (1, Some r))
     \<and> (\<forall>k n pt. cd_open cd k n (cd_seal cd k n pt storeAAD) storeAAD = Some pt)
     \<and> (\<forall>e. cd_parseEnvelope cd (cd_envelope cd e) = Some e)
     \<and> (\<forall>s. length (cd_sha256 cd s) = 32)
     \<and> (\<forall>f. cd_size cd f \<le> 67108864)"

lemma persist_load:
  assumes "codec_ok ok cd" "ok records" "persistLocked cd we key records disk = (None, disk')"
  shows "loadStoreFile cd key disk' = Inr records"
proof -
  have "\<not> (67108864 :: int) < cd_size cd f" for f using assms(1) by (simp add: codec_ok_def not_less)
  then show ?thesis
    using assms
    by (auto simp: persistLocked_def loadStoreFile_def codec_ok_def group_or_other_def b64_decode_encode
        split: if_splits option.splits)
qed

lemma persist_failed: "persistLocked cd we key records disk = (Some e, disk') \<Longrightarrow> disk' = disk"
  by (auto simp: persistLocked_def split: if_splits option.splits)

text \<open>The file always holds what the store has in memory.\<close>

definition durable :: "('p, 'f) store_codec \<Rightarrow> 'f file_state \<Rightarrow> bool" where
  "durable cd s = (case s of (st, disk) \<Rightarrow>
     \<exists>r. loadStoreFile cd (fs_encryptionKey st) disk = Inr r \<and> map_of r = map_of (fs_records st))"

lemma file_save_durable:
  assumes "codec_ok ok cd" "durable cd s" "file_save cd we k t s = (r, s')" "ok (fs_records (fst s'))"
  shows "durable cd s' \<and> fs_encryptionKey (fst s') = fs_encryptionKey (fst s)"
proof -
  obtain st disk st' disk' where s: "s = (st, disk)" "s' = (st', disk')" by (cases s; cases s')
  show ?thesis
  proof (cases r)
    case None
    then have "persistLocked cd we (fs_encryptionKey st) (fs_records st') disk = (None, disk')"
      "fs_encryptionKey st' = fs_encryptionKey st"
      using assms(3) by (auto simp: s file_save_def Let_def split: if_splits prod.splits option.splits)
    with persist_load [OF assms(1)] assms(4) show ?thesis by (auto simp: durable_def s)
  next
    case (Some e)
    then have "disk' = disk" "fs_encryptionKey st' = fs_encryptionKey st"
      using assms(3) by (auto simp: s file_save_def Let_def split: if_splits prod.splits option.splits dest: persist_failed)
    moreover have "map_of (fs_records st') = map_of (fs_records st)"
      using file_save_records [OF assms(3) [unfolded s]] Some by simp
    ultimately show ?thesis using assms(2) by (auto simp: durable_def s)
  qed
qed

lemma file_delete_durable:
  assumes "codec_ok ok cd" "durable cd s" "file_delete cd we k s = (r, s')" "ok (fs_records (fst s'))"
  shows "durable cd s' \<and> fs_encryptionKey (fst s') = fs_encryptionKey (fst s)"
proof -
  obtain st disk st' disk' where s: "s = (st, disk)" "s' = (st', disk')" by (cases s; cases s')
  show ?thesis
  proof (cases "r = None \<and> s' \<noteq> s")
    case True
    then have "persistLocked cd we (fs_encryptionKey st) (fs_records st') disk = (None, disk')"
      "fs_encryptionKey st' = fs_encryptionKey st"
      using assms(3) by (auto simp: s file_delete_def Let_def split: if_splits prod.splits option.splits)
    with persist_load [OF assms(1)] assms(4) show ?thesis by (auto simp: durable_def s)
  next
    case False
    then have "disk' = disk" "fs_encryptionKey st' = fs_encryptionKey st"
      using assms(3) by (auto simp: s file_delete_def Let_def split: if_splits prod.splits option.splits dest: persist_failed)
    moreover have "map_of (fs_records st') = map_of (fs_records st)"
      using file_delete_records [OF assms(3) [unfolded s]] False s by auto
    ultimately show ?thesis using assms(2) by (auto simp: durable_def s)
  qed
qed

datatype store_op = SaveOp string auth_token | DeleteOp string

fun store_step :: "('p, 'f) store_codec \<Rightarrow> write_env \<times> store_op \<Rightarrow> 'f file_state \<Rightarrow> 'f file_state" where
  "store_step cd (we, SaveOp k t) s = snd (file_save cd we k t s)"
| "store_step cd (we, DeleteOp k) s = snd (file_delete cd we k s)"

lemma store_run_durable:
  assumes "codec_ok (\<lambda>_. True) cd" "durable cd s"
  shows "durable cd (fold (store_step cd) ops s)
    \<and> fs_encryptionKey (fst (fold (store_step cd) ops s)) = fs_encryptionKey (fst s)"
  using assms(2)
proof (induction ops arbitrary: s)
  case (Cons op ops)
  obtain we o1 where op: "op = (we, o1)" by (cases op)
  have "durable cd (store_step cd op s) \<and> fs_encryptionKey (fst (store_step cd op s)) = fs_encryptionKey (fst s)"
    using file_save_durable [OF assms(1) Cons.prems prod.collapse [symmetric] TrueI]
      file_delete_durable [OF assms(1) Cons.prems prod.collapse [symmetric] TrueI]
    by (cases o1) (simp_all add: op)
  with Cons.IH show ?case by simp
qed simp


text \<open>C39. The encrypted store meets the contract of the in-memory one: a lookup after a successful save
  or delete sees exactly that change, an unsuccessful one changes nothing that can be read, and a
  grant without any token, or an empty key, is never stored.\<close>

theorem encrypted_store_contract:
  "(case file_save cd we k t s of
      (None, s') \<Rightarrow> k \<noteq> [] \<and> \<not> (ak_access t = [] \<and> ak_refresh t = [])
                    \<and> (\<forall>k'. file_load s' k' = (if k' = k then (t, True) else file_load s k'))
    | (Some _, s') \<Rightarrow> (\<forall>k'. file_load s' k' = file_load s k'))
   \<and> (case file_delete cd we k s of
      (None, s') \<Rightarrow> (\<forall>k'. file_load s' k' = (if k' = k then (zero_auth_token, False) else file_load s k'))
    | (Some _, s') \<Rightarrow> (\<forall>k'. file_load s' k' = file_load s k'))"
  using fstore.save_ok [of "(cd, we)" k t s] fstore.save_failed [of "(cd, we)" k t s] fstore.saved_usable [of "(cd, we)" k t s]
    fstore.delete_ok [of "(cd, we)" k s] fstore.delete_failed [of "(cd, we)" k s]
  by (simp split: prod.splits option.splits)

section \<open>Witnesses\<close>

text \<open>A codec for two record tables; the ciphertext is the plaintext.\<close>

definition demo_grant :: auth_token where
  "demo_grant = \<lparr>ak_access = ''a'', ak_refresh = ''r'', ak_expires = 900, ak_scopes = [''read''], ak_updated = 10\<rparr>"

definition plain_codec :: "(string, envelope) store_codec" where
  "plain_codec = \<lparr>cd_sha256 = (\<lambda>_. replicate 32 (CHR ''k'')),
     cd_marshal = (\<lambda>p. if p = (1, Some []) then Some ''empty'' else if p = (1, Some [(''alice'', demo_grant)]) then Some ''one'' else None),
     cd_unmarshal = (\<lambda>s. if s = ''empty'' then Some (1, Some []) else Some (1, Some [(''alice'', demo_grant)])),
     cd_seal = (\<lambda>k n p a. p), cd_open = (\<lambda>k n c a. Some c), cd_envelope = id, cd_parseEnvelope = Some, cd_size = (\<lambda>_. 0)\<rparr>"

lemma plain_codec_ok: "codec_ok ok plain_codec"
  by (simp add: codec_ok_def plain_codec_def)

definition demo_store :: file_store where
  "demo_store = projr (newEncryptedStore plain_codec ''/var/store'' (replicate 32 (CHR ''s'')) None)"

definition demo_ops :: "(write_env \<times> store_op) list" where
  "demo_ops = [(\<lparr>we_nonce = ''n1'', we_fault = None\<rparr>, SaveOp ''alice'' demo_grant),
     (\<lparr>we_nonce = ''n2'', we_fault = Some Sync\<rparr>, DeleteOp ''alice'')]"


end
