(* ===== verification/Auth_Broker.thy ===== *)
theory Auth_Broker
  imports Credential_OAuth Auth_Store
begin

text \<open>
  The broker for per-user OAuth grants, \<open>internal/credential/authorization_code.go\<close>. Its state
  is the token store, the pending authorizations with their index by record key, the refreshes in
  flight and the cached HTTP clients. Code between two critical sections is cut where another
  goroutine can run: completion into consuming the state and exchanging the code, an access into
  loading the grant, entering the refresh and finishing it. The store is an argument (\<open>store_ops\<close>),
  as are secrets, transports, SHA-256, the JSON decoder, the clock and the random bytes.
\<close>

section \<open>State\<close>

record ('s, 'w) store_ops =
  so_key :: "'s \<Rightarrow> string list \<Rightarrow> string"
  so_load :: "'s \<Rightarrow> string \<Rightarrow> string + auth_token \<times> bool"
  so_save :: "'w \<Rightarrow> string \<Rightarrow> auth_token \<Rightarrow> 's \<Rightarrow> string option \<times> 's"
  so_delete :: "'w \<Rightarrow> string \<Rightarrow> 's \<Rightarrow> string option \<times> 's"

record 'c pending_authorization =
  pa_domain :: string
  pa_recordKey :: string
  pa_configDigest :: string
  pa_redirectURI :: string
  pa_codeVerifier :: string
  pa_expiresAt :: gotime
  pa_config :: oauth_credential
  pa_clientSecret :: string
  pa_http :: 'c

record ('s, 'c) broker =
  bk_store :: 's
  bk_stateTTL :: duration
  bk_pending :: "(string, 'c pending_authorization) gomap"
  bk_pendingByID :: "(string, string) gomap"
  bk_refreshes :: "(string, nat) gomap"
  bk_clients :: "(string, 'c) gomap"

record authorization_start =
  as_domain :: string
  as_url :: string
  as_expiresAt :: gotime

record authorization_status =
  st_domain :: string
  st_authorized :: bool
  st_expiresAt :: gotime

text \<open>
  The environment of one call: \<open>be_write\<close> is the fate of its write to the store, \<open>be_do\<close> the
  token endpoint behind a client, and the clock readings are those before and after the endpoint
  was asked, of the parsing and of the stamp on the new token.
\<close>

record ('s, 'w, 'c) broker_env =
  be_ops :: "('s, 'w) store_ops"
  be_write :: 'w
  be_resolve :: "string \<Rightarrow> string + string"
  be_client :: "bool \<Rightarrow> tls_config \<Rightarrow> string + 'c"
  be_do :: "'c \<Rightarrow> http_request \<Rightarrow> token_reply"
  be_json :: json_env
  be_sha256 :: "string \<Rightarrow> string"
  be_now :: gotime
  be_later :: gotime
  be_parseAt :: gotime
  be_updatedAt :: gotime

definition maxPendingAuthorizations :: int where
  "maxPendingAuthorizations = 10000"

definition newBroker :: "'s \<Rightarrow> duration \<Rightarrow> string + ('s, 'c) broker" where
  "newBroker store stateTTL =
     (if stateTTL \<le> 0 \<or> stateTTL > 15 * minute then Inl ''authorization state TTL must be between zero and 15 minutes''
      else Inr \<lparr>bk_store = store, bk_stateTTL = stateTTL, bk_pending = [], bk_pendingByID = [], bk_refreshes = [], bk_clients = []\<rparr>)"

section \<open>Helpers\<close>

text \<open>The configuration of a command that passes; a nil command cannot arise in the model.\<close>

definition validateAuthorizationCommand :: "compiled_command \<Rightarrow> api_error + oauth_credential" where
  "validateAuthorizationCommand command =
     (case cmd_oauthCredential command of
        Some c \<Rightarrow>
          (if cmd_downstreamAuth command \<noteq> DownstreamAuthorizationCode \<or> oc_authorizationURL c = None \<or> oc_tokenURL c = None
           then Inl (apiError 400 ''E_DOWNSTREAM_AUTH_MODE'' ''domain does not use per-user OAuth authorization'')
           else Inr c)
      | None \<Rightarrow> Inl (apiError 400 ''E_DOWNSTREAM_AUTH_MODE'' ''domain does not use per-user OAuth authorization''))"

definition recordKey :: "('s, 'w) store_ops \<Rightarrow> 's \<Rightarrow> string \<Rightarrow> string \<Rightarrow> principal \<Rightarrow> string" where
  "recordKey ops s domain digest p = so_key ops s [pr_issuer p, pr_tenant p, pr_subject p, domain, digest]"

definition command_key :: "('s, 'w, 'c) broker_env \<Rightarrow> ('s, 'c) broker \<Rightarrow> compiled_command \<Rightarrow> oauth_credential \<Rightarrow> principal \<Rightarrow> string" where
  "command_key env b command c p =
     recordKey (be_ops env) (bk_store b) (cmd_domain command)
       (credentialDigest (be_sha256 env) (cmd_downstreamAuth command) c) p"

definition secureRandomURLValue :: "string option \<Rightarrow> string + string" where
  "secureRandomURLValue bytes = (case bytes of None \<Rightarrow> Inl ''generate OAuth state'' | Some v \<Rightarrow> Inr (b64_encode v))"

definition downstreamAuthorizationRequired :: "string \<Rightarrow> string \<Rightarrow> api_error" where
  "downstreamAuthorizationRequired cliName domain =
     (apiError 428 ''E_DOWNSTREAM_AUTH_REQUIRED'' ''downstream user authorization is required'')
       \<lparr>ae_hint := ''run '' @ cliName @ '' authorize '' @ domain\<rparr>"

definition storeUnavailable :: "string \<Rightarrow> string \<Rightarrow> api_error" where
  "storeUnavailable message cause = (apiError 503 ''E_DOWNSTREAM_AUTH'' message)\<lparr>ae_cause := Some cause\<rparr>"

definition isTransientAuthorizationError :: "go_error \<Rightarrow> bool" where
  "isTransientAuthorizationError e = (case e of EndpointErr transient _ \<Rightarrow> transient | _ \<Rightarrow> False)"

definition isInvalidAuthorizationGrant :: "go_error \<Rightarrow> bool" where
  "isInvalidAuthorizationGrant e = (case e of EndpointErr _ grantInvalid \<Rightarrow> grantInvalid | _ \<Rightarrow> False)"

definition clientFor :: "('s, 'w, 'c) broker_env \<Rightarrow> compiled_command \<Rightarrow> oauth_credential \<Rightarrow> ('s, 'c) broker \<Rightarrow> (string + 'c) \<times> ('s, 'c) broker" where
  "clientFor env command c b =
     (let digest = credentialDigest (be_sha256 env) (cmd_downstreamAuth command) c
      in case map_of (bk_clients b) digest of
           Some client \<Rightarrow> (Inr client, b)
         | None \<Rightarrow>
             (case be_client env (oc_allowLocal c) (oc_tls c) of
                Inl e \<Rightarrow> (Inl e, b)
              | Inr client \<Rightarrow> (Inr client, b\<lparr>bk_clients := put digest client (bk_clients b)\<rparr>)))"

text \<open>\<open>purgePendingLocked\<close>: the range over the map, with the deletions it makes. A missing entry
  of the index reads as the empty string.\<close>

definition id_state :: "(string, string) gomap \<Rightarrow> string \<Rightarrow> string" where
  "id_state byID rk = (case map_of byID rk of None \<Rightarrow> [] | Some st \<Rightarrow> st)"

definition drop_pending :: "string \<Rightarrow> string \<Rightarrow> ('s, 'c) broker \<Rightarrow> ('s, 'c) broker" where
  "drop_pending state rk b =
     b\<lparr>bk_pending := del state (bk_pending b),
       bk_pendingByID := (if id_state (bk_pendingByID b) rk = state then del rk (bk_pendingByID b) else bk_pendingByID b)\<rparr>"

definition purgePending :: "gotime \<Rightarrow> ('s, 'c) broker \<Rightarrow> ('s, 'c) broker" where
  "purgePending now b =
     fold (\<lambda>(state, p) b. if \<not> now < pa_expiresAt p then drop_pending state (pa_recordKey p) b else b) (bk_pending b) b"

section \<open>The token endpoint\<close>

definition endpoint_request :: "string \<Rightarrow> url \<Rightarrow> oauth_credential \<Rightarrow> string \<Rightarrow> query_values \<Rightarrow> string + http_request" where
  "endpoint_request agent u c secret form =
     (case applyOAuthClientAuthentication form c secret of
        Inl e \<Rightarrow> Inl e
      | Inr (useBasicAuth, form') \<Rightarrow>
          (case newRequest ''POST'' (urlString u) (Some (encodeQuery form')) of
             None \<Rightarrow> Inl ''invalid request''
           | Some rq \<Rightarrow>
               (let h = headerSet ''Content-Type'' ''application/x-www-form-urlencoded'' (rq_header rq);
                    h = headerSet ''Accept'' ''application/json'' h;
                    h = headerSet ''User-Agent'' agent h;
                    h = (if useBasicAuth then setBasicAuth (oc_clientID c) secret h else h)
                in Inr (rq\<lparr>rq_header := h\<rparr>))))"

text \<open>Lines 432 to 481: what the reply to a token request yields.\<close>

definition grant_outcome :: "('s, 'w, 'c) broker_env \<Rightarrow> oauth_credential \<Rightarrow> auth_token \<Rightarrow> token_reply \<Rightarrow> go_error + auth_token" where
  "grant_outcome env c previous reply =
     (case reply of
        DoFails \<Rightarrow> Inl (EndpointErr True False)
      | Reply status None \<Rightarrow> Inl (EndpointErr True False)
      | Reply status (Some full) \<Rightarrow>
          (let body = take (maxTokenResponse + 1) full
           in if length body > maxTokenResponse then Inl (PlainErr ''downstream token response is too large'')
              else (case jd_grant (be_json env) body of
                 None \<Rightarrow> Inl (PlainErr ''downstream token response is invalid'')
               | Some (d, at_eof) \<Rightarrow>
                   (if \<not> at_eof then Inl (PlainErr ''downstream token response contains trailing data'')
                    else if status < 200 \<or> status \<ge> 300 \<or> gr_error d \<noteq> [] then
                      Inl (EndpointErr (status = 429 \<or> status \<ge> 500) (gr_error d = ''invalid_grant'' \<or> gr_error d = ''invalid_token''))
                    else if tr_accessToken d = [] \<or> \<not> equalFold (tr_tokenType d) ''Bearer'' then
                      Inl (PlainErr ''downstream token response is missing a Bearer access token'')
                    else (case parseTokenResponse (be_json env) body (be_parseAt env) of
                       Inl e \<Rightarrow> Inl (PlainErr e)
                     | Inr parsed \<Rightarrow>
                         Inr \<lparr>ak_access = tr_accessToken d,
                              ak_refresh = (if gr_refreshToken d = [] then ak_refresh previous else gr_refreshToken d),
                              ak_expires = at_expires parsed,
                              ak_scopes = (if gr_scope d = [] then oc_scopes c else Go_Strings.fields (gr_scope d)),
                              ak_updated = be_updatedAt env\<rparr>)))))"

text \<open>The request sent, if any, and the outcome. A nil token URL is a nil dereference.\<close>

definition requestAuthorizationCodeToken ::
  "('s, 'w, 'c) broker_env \<Rightarrow> 'c \<Rightarrow> oauth_credential \<Rightarrow> string \<Rightarrow> query_values \<Rightarrow> auth_token
   \<Rightarrow> http_request option \<times> (go_error + auth_token)" where
  "requestAuthorizationCodeToken env client c secret form previous =
     (let form = set_if (oc_audience c \<noteq> []) ''audience'' (oc_audience c) form;
          form = set_if (oc_resource c \<noteq> []) ''resource'' (oc_resource c) form;
          form = set_if (qget form ''grant_type'' = [''refresh_token''] \<and> oc_scopes c \<noteq> []) ''scope'' (join (oc_scopes c) '' '') form
      in case oc_tokenURL c of
           None \<Rightarrow> (None, Inl (PlainErr ''nil pointer dereference''))
         | Some u \<Rightarrow>
             (case endpoint_request ''cli-gateway/downstream-oauth'' u c secret form of
                Inl e \<Rightarrow> (None, Inl (PlainErr e))
              | Inr rq \<Rightarrow> (Some rq, grant_outcome env c previous (be_do env client rq))))"

definition requestAuthorizationRevocation ::
  "('s, 'w, 'c) broker_env \<Rightarrow> 'c \<Rightarrow> oauth_credential \<Rightarrow> url \<Rightarrow> string \<Rightarrow> string \<Rightarrow> http_request option \<times> string option" where
  "requestAuthorizationRevocation env client c u secret refreshToken =
     (let form = [(''token'', [refreshToken]), (''token_type_hint'', [''refresh_token'']), (''client_id'', [oc_clientID c])]
      in case endpoint_request ''cli-gateway/downstream-oauth'' u c secret form of
           Inl e \<Rightarrow> (None, Some e)
         | Inr rq \<Rightarrow>
             (Some rq, (case be_do env client rq of
                DoFails \<Rightarrow> Some ''downstream token revocation failed''
              | Reply status _ \<Rightarrow> (if status < 200 \<or> status \<ge> 300 then Some ''downstream token revocation failed'' else None))))"

section \<open>Begin\<close>

text \<open>\<open>publicURL\<close>'s callback, and the URL the user is sent to (lines 125 to 147).\<close>

definition redirectURI :: "string \<Rightarrow> string" where
  "redirectURI publicURL = trimSuffix publicURL ''/'' @ ''/oauth/downstream/callback''"

definition authorization_query :: "(string \<Rightarrow> string) \<Rightarrow> oauth_credential \<Rightarrow> string \<Rightarrow> string \<Rightarrow> string \<Rightarrow> query_values \<Rightarrow> query_values" where
  "authorization_query sha c redirect state verifier q =
     (let q = qset ''response_type'' ''code'' q;
          q = qset ''client_id'' (oc_clientID c) q;
          q = qset ''redirect_uri'' redirect q;
          q = qset ''state'' state q;
          q = qset ''code_challenge'' (b64_encode (sha verifier)) q;
          q = qset ''code_challenge_method'' ''S256'' q;
          q = set_if (oc_scopes c \<noteq> []) ''scope'' (join (oc_scopes c) '' '') q;
          q = set_if (oc_audience c \<noteq> []) ''audience'' (oc_audience c) q
      in set_if (oc_resource c \<noteq> []) ''resource'' (oc_resource c) q)"

definition authorization_url :: "(string \<Rightarrow> string) \<Rightarrow> oauth_credential \<Rightarrow> string \<Rightarrow> string \<Rightarrow> string \<Rightarrow> url \<Rightarrow> url" where
  "authorization_url sha c redirect state verifier u =
     u\<lparr>u_rawQuery := encodeQuery (authorization_query sha c redirect state verifier (parseQuery (u_rawQuery u)))\<rparr>"

text \<open>Lines 154 to 165, the critical section that registers the state.\<close>

definition register_pending :: "gotime \<Rightarrow> string \<Rightarrow> 'c pending_authorization \<Rightarrow> ('s, 'c) broker \<Rightarrow> bool \<times> ('s, 'c) broker" where
  "register_pending now state p b =
     (let b = purgePending now b;
          previous = id_state (bk_pendingByID b) (pa_recordKey p);
          b = (if previous \<noteq> [] then b\<lparr>bk_pending := del previous (bk_pending b)\<rparr> else b)
      in if int (length (bk_pending b)) \<ge> maxPendingAuthorizations then (False, b)
         else (True, b\<lparr>bk_pending := put state p (bk_pending b),
                       bk_pendingByID := put (pa_recordKey p) state (bk_pendingByID b)\<rparr>))"

text \<open>
  \<open>Begin\<close>; \<open>rs\<close> and \<open>rv\<close> are the random bytes of the state and of the verifier. The
  expiry is computed at \<open>be_now\<close>, the purge runs at \<open>be_later\<close>.
\<close>

definition beginAuthorization ::
  "('s, 'w, 'c) broker_env \<Rightarrow> string option \<Rightarrow> string option \<Rightarrow> compiled_command \<Rightarrow> principal \<Rightarrow> string
   \<Rightarrow> ('s, 'c) broker \<Rightarrow> (go_error + authorization_start) \<times> ('s, 'c) broker" where
  "beginAuthorization env rs rv command p publicURL b =
     (case validateAuthorizationCommand command of
        Inl e \<Rightarrow> (Inl (APIErr e), b)
      | Inr c \<Rightarrow>
          (if pr_subject p = [] \<or> pr_issuer p = []
           then (Inl (APIErr (apiError 401 ''E_AUTH_INVALID'' ''authenticated user identity is incomplete'')), b)
           else (case be_resolve env (oc_clientSecretRef c) of
              Inl e \<Rightarrow> (Inl (APIErr (storeUnavailable ''downstream OAuth client is unavailable'' e)), b)
            | Inr secret \<Rightarrow>
                (case clientFor env command c b of
                   (Inl e, b) \<Rightarrow> (Inl (APIErr (storeUnavailable ''downstream OAuth transport is unavailable'' e)), b)
                 | (Inr client, b) \<Rightarrow>
                     (case secureRandomURLValue rs of
                        Inl e \<Rightarrow> (Inl (PlainErr e), b)
                      | Inr state \<Rightarrow>
                          (case secureRandomURLValue rv of
                             Inl e \<Rightarrow> (Inl (PlainErr e), b)
                           | Inr verifier \<Rightarrow>
                               (let redirect = redirectURI publicURL;
                                    expiresAt = be_now env + bk_stateTTL b;
                                    target = authorization_url (be_sha256 env) c redirect state verifier (the (oc_authorizationURL c));
                                    pending = \<lparr>pa_domain = cmd_domain command, pa_recordKey = command_key env b command c p,
                                      pa_configDigest = credentialDigest (be_sha256 env) (cmd_downstreamAuth command) c,
                                      pa_redirectURI = redirect, pa_codeVerifier = verifier, pa_expiresAt = expiresAt,
                                      pa_config = c, pa_clientSecret = secret, pa_http = client\<rparr>
                                in case register_pending (be_later env) state pending b of
                                     (False, b) \<Rightarrow>
                                       (Inl (APIErr (apiError 429 ''E_RATE_LIMITED'' ''too many downstream authorizations are pending'')), b)
                                   | (True, b) \<Rightarrow>
                                       (Inr \<lparr>as_domain = cmd_domain command, as_url = urlString target, as_expiresAt = expiresAt\<rparr>, b))))))))"

section \<open>Complete\<close>

text \<open>Lines 174 to 193: the state is consumed before anything else is looked at.\<close>

definition consume_state :: "gotime \<Rightarrow> string \<Rightarrow> ('s, 'c) broker \<Rightarrow> 'c pending_authorization option \<times> ('s, 'c) broker" where
  "consume_state now state b =
     (let b = purgePending now b
      in case map_of (bk_pending b) state of
           None \<Rightarrow> (None, b)
         | Some p \<Rightarrow> (Some p, drop_pending state (pa_recordKey p) b))"

definition complete_begin ::
  "gotime \<Rightarrow> string \<Rightarrow> string \<Rightarrow> string \<Rightarrow> ('s, 'c) broker \<Rightarrow> (string + 'c pending_authorization) \<times> ('s, 'c) broker" where
  "complete_begin now state code providerError b =
     (if trimSpace state = [] then (Inl ''authorization state is missing'', b)
      else (case consume_state now state b of
              (None, b) \<Rightarrow> (Inl ''authorization state is invalid or expired'', b)
            | (Some p, b) \<Rightarrow>
                (if providerError \<noteq> [] then (Inl ''downstream authorization was denied'', b)
                 else if trimSpace code = [] then (Inl ''authorization code is missing'', b)
                 else (Inr p, b))))"

definition code_form :: "'c pending_authorization \<Rightarrow> string \<Rightarrow> query_values" where
  "code_form p code =
     [(''grant_type'', [''authorization_code'']), (''code'', [code]), (''redirect_uri'', [pa_redirectURI p]),
      (''client_id'', [oc_clientID (pa_config p)]), (''code_verifier'', [pa_codeVerifier p])]"

definition complete_finish ::
  "('s, 'w, 'c) broker_env \<Rightarrow> 'c pending_authorization \<Rightarrow> string \<Rightarrow> ('s, 'c) broker
   \<Rightarrow> http_request option \<times> (go_error + string) \<times> ('s, 'c) broker" where
  "complete_finish env p code b =
     (case requestAuthorizationCodeToken env (pa_http p) (pa_config p) (pa_clientSecret p) (code_form p code) zero_auth_token of
        (sent, Inl e) \<Rightarrow> (sent, Inl e, b)
      | (sent, Inr t) \<Rightarrow>
          (if ak_refresh t = [] then (sent, Inl (PlainErr ''downstream authorization server did not issue a refresh token''), b)
           else (case so_save (be_ops env) (be_write env) (pa_recordKey p) t (bk_store b) of
              (Some e, s) \<Rightarrow> (sent, Inl (PlainErr (''persist downstream OAuth token: '' @ e)), b\<lparr>bk_store := s\<rparr>)
            | (None, s) \<Rightarrow> (sent, Inr (pa_domain p), b\<lparr>bk_store := s\<rparr>))))"

text \<open>A whole completion: the requests that went out, the domain or an error, the new state.\<close>

definition completeAuthorization ::
  "('s, 'w, 'c) broker_env \<Rightarrow> string \<Rightarrow> string \<Rightarrow> string \<Rightarrow> ('s, 'c) broker
   \<Rightarrow> http_request option \<times> (go_error + string) \<times> ('s, 'c) broker" where
  "completeAuthorization env state code providerError b =
     (case complete_begin (be_now env) state code providerError b of
        (Inl e, b) \<Rightarrow> (None, Inl (PlainErr e), b)
      | (Inr p, b) \<Rightarrow> complete_finish env p code b)"

section \<open>Status and disconnect\<close>

definition authorizationStatus ::
  "('s, 'w, 'c) broker_env \<Rightarrow> compiled_command \<Rightarrow> principal \<Rightarrow> ('s, 'c) broker \<Rightarrow> go_error + authorization_status" where
  "authorizationStatus env command p b =
     (case validateAuthorizationCommand command of
        Inl e \<Rightarrow> Inl (APIErr e)
      | Inr c \<Rightarrow>
          (case so_load (be_ops env) (bk_store b) (command_key env b command c p) of
             Inl e \<Rightarrow> Inl (PlainErr e)
           | Inr (t, found) \<Rightarrow>
               Inr \<lparr>st_domain = cmd_domain command, st_authorized = (found \<and> (ak_access t \<noteq> [] \<or> ak_refresh t \<noteq> [])),
                    st_expiresAt = ak_expires t\<rparr>))"

text \<open>Lines 230 to 246: the best-effort revocation. \<open>errors.Join\<close> of two optional errors.\<close>

definition revoke_grant ::
  "('s, 'w, 'c) broker_env \<Rightarrow> compiled_command \<Rightarrow> oauth_credential \<Rightarrow> auth_token \<Rightarrow> bool \<Rightarrow> ('s, 'c) broker
   \<Rightarrow> http_request option \<times> string option \<times> ('s, 'c) broker" where
  "revoke_grant env command c t found b =
     (case oc_revocationURL c of
        None \<Rightarrow> (None, None, b)
      | Some u \<Rightarrow>
          (if \<not> found \<or> ak_refresh t = [] then (None, None, b)
           else (case be_resolve env (oc_clientSecretRef c) of
              Inl e \<Rightarrow> (None, Some (''resolve downstream OAuth client for revocation: '' @ e), b)
            | Inr secret \<Rightarrow>
                (case clientFor env command c b of
                   (Inl e, b) \<Rightarrow> (None, Some e, b)
                 | (Inr client, b) \<Rightarrow>
                     (case requestAuthorizationRevocation env client c u secret (ak_refresh t) of
                        (sent, err) \<Rightarrow> (sent, err, b))))))"

definition join_errors :: "string option \<Rightarrow> string option \<Rightarrow> string option" where
  "join_errors a b =
     (case (a, b) of
        (Some x, Some y) \<Rightarrow> Some (x @ [CHR 0x0A] @ y) | (Some x, None) \<Rightarrow> Some x | (None, y) \<Rightarrow> y)"

definition disconnect ::
  "('s, 'w, 'c) broker_env \<Rightarrow> compiled_command \<Rightarrow> principal \<Rightarrow> ('s, 'c) broker
   \<Rightarrow> http_request option \<times> go_error option \<times> ('s, 'c) broker" where
  "disconnect env command p b =
     (case validateAuthorizationCommand command of
        Inl e \<Rightarrow> (None, Some (APIErr e), b)
      | Inr c \<Rightarrow>
          (let key = command_key env b command c p
           in case so_load (be_ops env) (bk_store b) key of
                Inl e \<Rightarrow> (None, Some (PlainErr e), b)
              | Inr (t, found) \<Rightarrow>
                  (case revoke_grant env command c t found b of
                     (sent, revokeErr, b) \<Rightarrow>
                       (case so_delete (be_ops env) (be_write env) key (bk_store b) of
                          (deleteErr, s) \<Rightarrow>
                            (sent, map_option PlainErr (join_errors revokeErr deleteErr), b\<lparr>bk_store := s\<rparr>)))))"

section \<open>Access tokens\<close>

text \<open>Lines 253 to 265: the stored grant decides whether it must be refreshed.\<close>

datatype access_load = Answer "go_error + string" | Refresh string auth_token

definition load_access ::
  "('s, 'w, 'c) broker_env \<Rightarrow> compiled_command \<Rightarrow> oauth_credential \<Rightarrow> principal \<Rightarrow> string \<Rightarrow> ('s, 'c) broker \<Rightarrow> access_load" where
  "load_access env command c p cliName b =
     (let key = command_key env b command c p
      in case so_load (be_ops env) (bk_store b) key of
           Inl e \<Rightarrow> Answer (Inl (APIErr (storeUnavailable ''downstream token store is unavailable'' e)))
         | Inr (t, found) \<Rightarrow>
             (if found \<and> ak_access t \<noteq> [] \<and> be_now env + cc_refreshSkew (cmd_credentialCache command) < ak_expires t
              then Answer (Inr (ak_access t))
              else if \<not> found \<or> ak_refresh t = []
              then Answer (Inl (APIErr (downstreamAuthorizationRequired cliName (cmd_domain command))))
              else Refresh key t))"

text \<open>Lines 267 to 279: wait for the refresh in flight, or lead a new one, number \<open>i\<close>.\<close>

definition enter_refresh :: "nat \<Rightarrow> string \<Rightarrow> ('s, 'c) broker \<Rightarrow> nat option \<times> ('s, 'c) broker" where
  "enter_refresh i key b =
     (case map_of (bk_refreshes b) key of
        Some j \<Rightarrow> (Some j, b)
      | None \<Rightarrow> (None, b\<lparr>bk_refreshes := put key i (bk_refreshes b)\<rparr>))"

definition refresh_form :: "oauth_credential \<Rightarrow> auth_token \<Rightarrow> query_values" where
  "refresh_form c t =
     [(''grant_type'', [''refresh_token'']), (''refresh_token'', [ak_refresh t]), (''client_id'', [oc_clientID c])]"

text \<open>Lines 281 to 316: ask the endpoint, store what it says, and answer.\<close>

definition finish_refresh ::
  "('s, 'w, 'c) broker_env \<Rightarrow> string \<Rightarrow> oauth_credential \<Rightarrow> string \<Rightarrow> string \<Rightarrow> 'c \<Rightarrow> string \<Rightarrow> auth_token \<Rightarrow> ('s, 'c) broker
   \<Rightarrow> http_request option \<times> (go_error + string) \<times> ('s, 'c) broker" where
  "finish_refresh env cliName c domain secret client key t b =
     (let ops = be_ops env;
          b0 = b\<lparr>bk_refreshes := del key (bk_refreshes b)\<rparr>;
          fallback = (\<lambda>err s.
            (if ak_access t \<noteq> [] \<and> be_later env < ak_expires t \<and> isTransientAuthorizationError err
             then (Inr (ak_access t), b0\<lparr>bk_store := s\<rparr>)
             else if isInvalidAuthorizationGrant err
             then (Inl (APIErr (downstreamAuthorizationRequired cliName domain)),
                   b0\<lparr>bk_store := snd (so_delete ops (be_write env) key s)\<rparr>)
             else (Inl err, b0\<lparr>bk_store := s\<rparr>)))
      in case requestAuthorizationCodeToken env client c secret (refresh_form c t) t of
           (sent, Inl err) \<Rightarrow> (sent, fallback err (bk_store b))
         | (sent, Inr refreshed) \<Rightarrow>
             (case so_save ops (be_write env) key refreshed (bk_store b) of
                (Some e, s) \<Rightarrow> (sent, fallback (APIErr (storeUnavailable ''refreshed downstream token could not be persisted'' e)) s)
              | (None, s) \<Rightarrow> (sent, Inr (ak_access refreshed), b0\<lparr>bk_store := s\<rparr>)))"

text \<open>A whole access during which no other goroutine moves.\<close>

definition accessToken ::
  "('s, 'w, 'c) broker_env \<Rightarrow> compiled_command \<Rightarrow> oauth_credential \<Rightarrow> principal \<Rightarrow> string \<Rightarrow> 'c \<Rightarrow> string
   \<Rightarrow> (go_error + string) \<Rightarrow> ('s, 'c) broker \<Rightarrow> http_request option \<times> (go_error + string) \<times> ('s, 'c) broker" where
  "accessToken env command c p secret client cliName waited b =
     (case load_access env command c p cliName b of
        Answer a \<Rightarrow> (None, a, b)
      | Refresh key t \<Rightarrow>
          (case enter_refresh 0 key b of
             (Some _, b) \<Rightarrow> (None, waited, b)
           | (None, b) \<Rightarrow> finish_refresh env cliName c (cmd_domain command) secret client key t b))"

definition invalidateGrant ::
  "('s, 'w, 'c) broker_env \<Rightarrow> compiled_command \<Rightarrow> oauth_credential \<Rightarrow> principal \<Rightarrow> ('s, 'c) broker \<Rightarrow> ('s, 'c) broker" where
  "invalidateGrant env command c p b =
     (let key = command_key env b command c p
      in case so_load (be_ops env) (bk_store b) key of
           Inl _ \<Rightarrow> b
         | Inr (t, found) \<Rightarrow>
             (if \<not> found then b
              else b\<lparr>bk_store := snd (so_save (be_ops env) (be_write env) key
                       (t\<lparr>ak_access := [], ak_expires := zero_time, ak_updated := be_now env\<rparr>) (bk_store b))\<rparr>))"

end
