(* ===== verification/Auth_Grants.thy ===== *)
theory Auth_Grants
  imports Auth_Broker
begin

text \<open>
  What the authorization broker guarantees: states are one-time, unexpired and bounded in number,
  the code exchange is bound to the authorization request by PKCE, a record key is refreshed by one
  caller at a time, users' grants are isolated, and what an access does to the stored grant. The
  concurrent executions are the step relation \<open>grant_step\<close>.
\<close>

section \<open>Pending authorizations\<close>

definition index_ok :: "('s, 'c) broker \<Rightarrow> bool" where
  "index_ok b \<longleftrightarrow> (\<forall>st p. map_of (bk_pending b) st = Some p \<longrightarrow> map_of (bk_pendingByID b) (pa_recordKey p) = Some st)"

definition pending_inv :: "('s, 'c) broker \<Rightarrow> bool" where
  "pending_inv b \<longleftrightarrow>
     wf_map (bk_pending b) \<and> index_ok b \<and> map_of (bk_pending b) [] = None
     \<and> int (length (bk_pending b)) \<le> maxPendingAuthorizations"

lemma drop_pending_fields [simp]:
  "bk_store (drop_pending st rk b) = bk_store b" "bk_stateTTL (drop_pending st rk b) = bk_stateTTL b"
  "bk_refreshes (drop_pending st rk b) = bk_refreshes b" "bk_clients (drop_pending st rk b) = bk_clients b"
  "bk_pending (drop_pending st rk b) = del st (bk_pending b)"
  by (simp_all add: drop_pending_def)

lemma drop_pending_index: "index_ok b \<Longrightarrow> index_ok (drop_pending st rk b)"
  by (auto simp: index_ok_def drop_pending_def id_state_def split: if_splits)

lemma drop_pending_inv: "pending_inv b \<Longrightarrow> pending_inv (drop_pending st rk b)"
  using length_del_le [of st "bk_pending b"] by (auto simp: pending_inv_def drop_pending_index)

abbreviation purge_one :: "gotime \<Rightarrow> string \<times> 'c pending_authorization \<Rightarrow> ('s, 'c) broker \<Rightarrow> ('s, 'c) broker" where
  "purge_one now \<equiv> \<lambda>(state, p) b. if \<not> now < pa_expiresAt p then drop_pending state (pa_recordKey p) b else b"

lemma purge_fold_inv: "pending_inv b \<Longrightarrow> pending_inv (fold (purge_one now) xs b)"
  by (induction xs arbitrary: b) (auto simp: drop_pending_inv)

lemma purge_fold_fields:
  "bk_store (fold (purge_one now) xs b) = bk_store b" "bk_stateTTL (fold (purge_one now) xs b) = bk_stateTTL b"
  "bk_refreshes (fold (purge_one now) xs b) = bk_refreshes b" "bk_clients (fold (purge_one now) xs b) = bk_clients b"
  by (induction xs arbitrary: b) auto

lemma purge_fold_lookup:
  "map_of (bk_pending (fold (purge_one now) xs b)) st =
     (if \<exists>p. (st, p) \<in> set xs \<and> \<not> now < pa_expiresAt p then None else map_of (bk_pending b) st)"
  by (induction xs arbitrary: b) auto

lemma purge_fields [simp]:
  "bk_store (purgePending now b) = bk_store b" "bk_stateTTL (purgePending now b) = bk_stateTTL b"
  "bk_refreshes (purgePending now b) = bk_refreshes b" "bk_clients (purgePending now b) = bk_clients b"
  by (simp_all add: purgePending_def purge_fold_fields)

lemma purge_inv: "pending_inv b \<Longrightarrow> pending_inv (purgePending now b)"
  by (simp add: purgePending_def purge_fold_inv)

lemma purge_lookup:
  assumes "pending_inv b"
  shows "map_of (bk_pending (purgePending now b)) st = Some p \<longleftrightarrow> map_of (bk_pending b) st = Some p \<and> now < pa_expiresAt p"
proof -
  have "(st, q) \<in> set (bk_pending b) \<longleftrightarrow> map_of (bk_pending b) st = Some q" for q
    using assms by (simp add: pending_inv_def wf_map_def map_of_eq_Some_iff)
  then show ?thesis by (auto simp: purgePending_def purge_fold_lookup)
qed

lemma register_inv:
  assumes "pending_inv b" "state \<noteq> []" "register_pending now state p b = (ok, b')"
  shows "pending_inv b'"
proof -
  let ?b1 = "purgePending now b"
  let ?prev = "id_state (bk_pendingByID ?b1) (pa_recordKey p)"
  let ?b2 = "if ?prev \<noteq> [] then ?b1\<lparr>bk_pending := del ?prev (bk_pending ?b1)\<rparr> else ?b1"
  have inv1: "pending_inv ?b1" by (rule purge_inv [OF assms(1)])
  have inv2: "pending_inv ?b2"
    using inv1 length_del_le [of ?prev "bk_pending ?b1"] by (auto simp: pending_inv_def index_ok_def)
  have other: "pa_recordKey q \<noteq> pa_recordKey p" if "map_of (bk_pending ?b2) st = Some q" for st q
  proof
    assume eq: "pa_recordKey q = pa_recordKey p"
    from that have q1: "map_of (bk_pending ?b1) st = Some q" by (auto split: if_splits)
    with inv1 eq have "map_of (bk_pendingByID ?b1) (pa_recordKey p) = Some st"
      unfolding pending_inv_def index_ok_def by metis
    moreover have "st \<noteq> []" using inv1 q1 by (auto simp: pending_inv_def)
    ultimately have "?prev = st" "st \<noteq> []" by (simp_all add: id_state_def)
    with that \<open>st \<noteq> []\<close> show False by simp
  qed
  show ?thesis
  proof (cases "int (length (bk_pending ?b2)) \<ge> maxPendingAuthorizations")
    case True
    then have "b' = ?b2" using assms(3) by (simp add: register_pending_def Let_def)
    with inv2 show ?thesis by simp
  next
    case False
    then have b': "b' = ?b2\<lparr>bk_pending := put state p (bk_pending ?b2), bk_pendingByID := put (pa_recordKey p) state (bk_pendingByID ?b2)\<rparr>"
      using assms(3) by (simp add: register_pending_def Let_def)
    have len: "int (length (put state p (bk_pending ?b2))) \<le> maxPendingAuthorizations"
      using False length_put [of state p "bk_pending ?b2"] by (auto simp: not_le split: if_splits)
    have "index_ok b'"
      using inv2 other by (auto simp: b' index_ok_def pending_inv_def split: if_splits)
    with inv2 assms(2) len show ?thesis by (simp add: b' pending_inv_def)
  qed
qed

lemma register_fields:
  "register_pending now state p b = (ok, b') \<Longrightarrow>
     bk_store b' = bk_store b \<and> bk_stateTTL b' = bk_stateTTL b \<and> bk_refreshes b' = bk_refreshes b"
  by (auto simp: register_pending_def Let_def split: if_splits)

text \<open>Registering only adds the new state: every other pending one was pending before.\<close>

lemma register_lookup:
  assumes "pending_inv b" "register_pending now state p b = (ok, b')"
  shows "(ok \<longrightarrow> map_of (bk_pending b') state = Some p)
    \<and> (\<forall>st q. map_of (bk_pending b') st = Some q \<longrightarrow> (ok \<and> st = state \<and> q = p) \<or> map_of (bk_pending b) st = Some q)"
proof -
  have sub: "map_of (bk_pending b) st = Some q" if "map_of (bk_pending (purgePending now b)) st = Some q" for st q
    using that purge_lookup [OF assms(1)] by simp
  show ?thesis
    using assms(2) by (auto simp: register_pending_def Let_def dest!: sub split: if_splits)
qed

lemma consume_inv: "pending_inv b \<Longrightarrow> consume_state now st b = (r, b') \<Longrightarrow> pending_inv b'"
  by (auto simp: consume_state_def Let_def purge_inv drop_pending_inv split: option.splits)

lemma consume_fields:
  "consume_state now st b = (r, b') \<Longrightarrow>
     bk_store b' = bk_store b \<and> bk_stateTTL b' = bk_stateTTL b \<and> bk_refreshes b' = bk_refreshes b"
  by (auto simp: consume_state_def Let_def split: option.splits)

text \<open>
  A consumed state was pending and unexpired and is gone; nothing becomes pending.
\<close>

lemma consume_lookup:
  assumes "pending_inv b" "consume_state now st b = (r, b')"
  shows "(case r of Some p \<Rightarrow> map_of (bk_pending b) st = Some p \<and> now < pa_expiresAt p
                 | None \<Rightarrow> (\<forall>p. map_of (bk_pending b) st = Some p \<longrightarrow> \<not> now < pa_expiresAt p))
    \<and> map_of (bk_pending b') st = None
    \<and> (\<forall>st' q. map_of (bk_pending b') st' = Some q \<longrightarrow> map_of (bk_pending b) st' = Some q)"
proof (cases "map_of (bk_pending (purgePending now b)) st")
  case None
  then have "r = None" "b' = purgePending now b" using assms(2) by (simp_all add: consume_state_def Let_def)
  moreover have "\<not> (map_of (bk_pending b) st = Some p \<and> now < pa_expiresAt p)" for p
    using None purge_lookup [OF assms(1), of now st p] by simp
  moreover have "map_of (bk_pending b) st' = Some q" if "map_of (bk_pending (purgePending now b)) st' = Some q" for st' q
    using that purge_lookup [OF assms(1)] by simp
  ultimately show ?thesis using None by auto
next
  case (Some p)
  then have "r = Some p" "b' = drop_pending st (pa_recordKey p) (purgePending now b)"
    using assms(2) by (simp_all add: consume_state_def Let_def)
  with Some show ?thesis using purge_lookup [OF assms(1)] by auto
qed

section \<open>What each operation leaves alone\<close>

lemma clientFor_fields:
  "clientFor env command c b = (r, b') \<Longrightarrow>
     bk_store b' = bk_store b \<and> bk_stateTTL b' = bk_stateTTL b \<and> bk_pending b' = bk_pending b
     \<and> bk_pendingByID b' = bk_pendingByID b \<and> bk_refreshes b' = bk_refreshes b"
  by (auto simp: clientFor_def Let_def split: option.splits sum.splits)

lemma pending_inv_cong:
  "bk_pending b' = bk_pending b \<Longrightarrow> bk_pendingByID b' = bk_pendingByID b \<Longrightarrow> pending_inv b' = pending_inv b"
  by (simp add: pending_inv_def index_ok_def)

text \<open>An error leaves the pending states as a subset; success registers exactly one new state.\<close>

lemma begin_cases:
  assumes "beginAuthorization env rs rv command p url b = (r, b')"
  obtains (refused) e where "r = Inl e" "bk_pending b' = bk_pending b" "bk_pendingByID b' = bk_pendingByID b"
      "bk_store b' = bk_store b" "bk_refreshes b' = bk_refreshes b"
  | (registered) c state verifier client b1 pend ok where
      "validateAuthorizationCommand command = Inr c" "secureRandomURLValue rs = Inr state" "secureRandomURLValue rv = Inr verifier"
      "clientFor env command c b = (Inr client, b1)" "register_pending (be_later env) state pend b1 = (ok, b')"
      "pa_recordKey pend = command_key env b command c p" "pa_codeVerifier pend = verifier"
      "pa_redirectURI pend = redirectURI url" "pa_config pend = c" "pa_expiresAt pend = be_now env + bk_stateTTL b"
      "pa_domain pend = cmd_domain command" "pa_http pend = client"
      "r = (if ok then Inr \<lparr>as_domain = cmd_domain command,
                as_url = urlString (authorization_url (be_sha256 env) c (redirectURI url) state verifier (the (oc_authorizationURL c))),
                as_expiresAt = be_now env + bk_stateTTL b\<rparr>
            else Inl (APIErr (apiError 429 ''E_RATE_LIMITED'' ''too many downstream authorizations are pending'')))"
proof -
  consider (early) e where "r = Inl e" "b' = b"
    | (client) c e b1 where "clientFor env command c b = (e, b1)" "b' = b1" "\<exists>x. r = Inl x"
    | (reg) c secret state verifier client b1 where
      "validateAuthorizationCommand command = Inr c" "be_resolve env (oc_clientSecretRef c) = Inr secret"
      "secureRandomURLValue rs = Inr state" "secureRandomURLValue rv = Inr verifier"
      "clientFor env command c b = (Inr client, b1)" "\<not> (pr_subject p = [] \<or> pr_issuer p = [])"
    using assms by (auto simp: beginAuthorization_def split: sum.splits if_splits prod.splits)
  then show thesis
  proof cases
    case early
    then show thesis using refused by simp
  next
    case client
    with clientFor_fields [OF client(1)] refused show thesis by auto
  next
    case reg
    let ?pend = "\<lparr>pa_domain = cmd_domain command, pa_recordKey = command_key env b command c p,
        pa_configDigest = credentialDigest (be_sha256 env) (cmd_downstreamAuth command) c,
        pa_redirectURI = redirectURI url, pa_codeVerifier = verifier, pa_expiresAt = be_now env + bk_stateTTL b,
        pa_config = c, pa_clientSecret = secret, pa_http = client\<rparr>"
    have cf: "bk_store b1 = bk_store b" "bk_stateTTL b1 = bk_stateTTL b" using clientFor_fields [OF reg(5)] by simp_all
    have key: "command_key env b1 command c p = command_key env b command c p" by (simp add: command_key_def cf)
    obtain ok b2 where rp: "register_pending (be_later env) state ?pend b1 = (ok, b2)" by (metis prod.exhaust)
    have "b' = b2" "r = (if ok then Inr \<lparr>as_domain = cmd_domain command,
                as_url = urlString (authorization_url (be_sha256 env) c (redirectURI url) state verifier (the (oc_authorizationURL c))),
                as_expiresAt = be_now env + bk_stateTTL b\<rparr>
            else Inl (APIErr (apiError 429 ''E_RATE_LIMITED'' ''too many downstream authorizations are pending'')))"
      using assms rp by (auto simp: beginAuthorization_def reg Let_def key cf split: bool.splits)
    with rp reg show thesis by (intro registered [where pend = ?pend]) simp_all
  qed
qed

lemma begin_inv:
  assumes "pending_inv b" "rs \<noteq> Some []" "beginAuthorization env rs rv command p url b = (r, b')"
  shows "pending_inv b'"
  using assms(3)
proof (cases rule: begin_cases)
  case refused
  then show ?thesis using assms(1) pending_inv_cong by blast
next
  case (registered c state verifier client b1 pend ok)
  have "pending_inv b1" using clientFor_fields [OF registered(4)] assms(1) pending_inv_cong by blast
  moreover have "state \<noteq> []"
    using registered(2) assms(2) b64_encode_inj [of _ "[]"] by (auto simp: secureRandomURLValue_def split: option.splits)
  ultimately show ?thesis using register_inv registered(5) by blast
qed

lemma complete_begin_consumes:
  "complete_begin now st code perr b = (r, b') \<Longrightarrow>
     (r = Inl ''authorization state is missing'' \<and> b' = b)
     \<or> (\<exists>cr. consume_state now st b = (cr, b') \<and> (\<forall>p. r = Inr p \<longrightarrow> cr = Some p \<and> perr = [] \<and> trimSpace code \<noteq> []))"
  by (auto simp: complete_begin_def split: if_splits prod.splits option.splits)

lemma complete_finish_fields:
  "complete_finish env p code b = (sent, r, b') \<Longrightarrow>
     bk_stateTTL b' = bk_stateTTL b \<and> bk_pending b' = bk_pending b \<and> bk_pendingByID b' = bk_pendingByID b
     \<and> bk_refreshes b' = bk_refreshes b"
  by (auto simp: complete_finish_def split: prod.splits sum.splits if_splits option.splits)

lemma disconnect_fields:
  "disconnect env command p b = (sent, r, b') \<Longrightarrow>
     bk_stateTTL b' = bk_stateTTL b \<and> bk_pending b' = bk_pending b \<and> bk_pendingByID b' = bk_pendingByID b
     \<and> bk_refreshes b' = bk_refreshes b"
  by (auto simp: disconnect_def revoke_grant_def Let_def dest!: clientFor_fields
      split: prod.splits sum.splits if_splits option.splits)

lemma invalidate_fields:
  "bk_stateTTL (invalidateGrant env command c p b) = bk_stateTTL b" "bk_pending (invalidateGrant env command c p b) = bk_pending b"
  "bk_pendingByID (invalidateGrant env command c p b) = bk_pendingByID b" "bk_refreshes (invalidateGrant env command c p b) = bk_refreshes b"
  by (simp_all add: invalidateGrant_def Let_def split: prod.splits sum.splits)

lemma finish_refresh_fields:
  "finish_refresh env cliName c domain secret client key t b = (sent, r, b') \<Longrightarrow>
     bk_stateTTL b' = bk_stateTTL b \<and> bk_pending b' = bk_pending b \<and> bk_pendingByID b' = bk_pendingByID b
     \<and> bk_refreshes b' = del key (bk_refreshes b)"
  by (auto simp: finish_refresh_def Let_def split: prod.splits sum.splits if_splits option.splits)

section \<open>Concurrent executions\<close>

text \<open>
  The broker with a log of the states it issued (each with its pending record), of the code
  exchanges that began (state, record, code, whether it is over), and of the accesses that found a
  grant to refresh.
\<close>

datatype call_phase = Loaded | Leading | Over

record refresh_call =
  rc_key :: string
  rc_token :: auth_token
  rc_phase :: call_phase

record ('s, 'c) grant_sys =
  gs_broker :: "('s, 'c) broker"
  gs_issued :: "(string \<times> 'c pending_authorization) list"
  gs_exchanges :: "(string \<times> 'c pending_authorization \<times> string \<times> bool) list"
  gs_calls :: "refresh_call list"

text \<open>
  The 32 random bytes of a state are taken to be new (\<open>grant_begin\<close>). A caller that waits for a
  refresh in flight is over for the broker.
\<close>

inductive grant_step :: "('s, 'w) store_ops \<Rightarrow> ('s, 'c) grant_sys \<Rightarrow> ('s, 'c) grant_sys \<Rightarrow> bool" for ops where
  grant_begin: "\<lbrakk>be_ops env = ops; beginAuthorization env (Some rs) rv command p url (gs_broker g) = (r, b); rs \<noteq> [];
      b64_encode rs \<notin> fst ` set (gs_issued g);
      issued = (case r of Inl _ \<Rightarrow> [] | Inr _ \<Rightarrow> [(b64_encode rs, the (map_of (bk_pending b) (b64_encode rs)))])\<rbrakk>
    \<Longrightarrow> grant_step ops g (g\<lparr>gs_broker := b, gs_issued := gs_issued g @ issued\<rparr>)"
| grant_consume: "\<lbrakk>complete_begin now st code perr (gs_broker g) = (r, b);
      begun = (case r of Inl _ \<Rightarrow> [] | Inr p \<Rightarrow> [(st, p, code, False)])\<rbrakk>
    \<Longrightarrow> grant_step ops g (g\<lparr>gs_broker := b, gs_exchanges := gs_exchanges g @ begun\<rparr>)"
| grant_exchange: "\<lbrakk>i < length (gs_exchanges g); gs_exchanges g ! i = (st, p, code, False);
      be_ops env = ops; complete_finish env p code (gs_broker g) = (sent, r, b)\<rbrakk>
    \<Longrightarrow> grant_step ops g (g\<lparr>gs_broker := b, gs_exchanges := (gs_exchanges g)[i := (st, p, code, True)]\<rparr>)"
| grant_load: "\<lbrakk>be_ops env = ops; load_access env command c p cliName (gs_broker g) = Refresh key t\<rbrakk>
    \<Longrightarrow> grant_step ops g (g\<lparr>gs_calls := gs_calls g @ [\<lparr>rc_key = key, rc_token = t, rc_phase = Loaded\<rparr>]\<rparr>)"
| grant_enter: "\<lbrakk>i < length (gs_calls g); rc_phase (gs_calls g ! i) = Loaded;
      enter_refresh i (rc_key (gs_calls g ! i)) (gs_broker g) = (waits, b)\<rbrakk>
    \<Longrightarrow> grant_step ops g (g\<lparr>gs_broker := b, gs_calls :=
          (gs_calls g)[i := (gs_calls g ! i)\<lparr>rc_phase := (if waits = None then Leading else Over)\<rparr>]\<rparr>)"
| grant_refreshed: "\<lbrakk>i < length (gs_calls g); rc_phase (gs_calls g ! i) = Leading;
      be_ops env = ops; finish_refresh env cliName c domain secret client (rc_key (gs_calls g ! i)) (rc_token (gs_calls g ! i)) (gs_broker g) = (sent, r, b)\<rbrakk>
    \<Longrightarrow> grant_step ops g (g\<lparr>gs_broker := b, gs_calls := (gs_calls g)[i := (gs_calls g ! i)\<lparr>rc_phase := Over\<rparr>]\<rparr>)"
| grant_invalidate: "be_ops env = ops \<Longrightarrow> grant_step ops g (g\<lparr>gs_broker := invalidateGrant env command c p (gs_broker g)\<rparr>)"
| grant_disconnect: "be_ops env = ops \<Longrightarrow> disconnect env command p (gs_broker g) = (sent, r, b) \<Longrightarrow> grant_step ops g (g\<lparr>gs_broker := b\<rparr>)"

inductive grant_reachable :: "('s, 'w) store_ops \<Rightarrow> ('s, 'c) broker \<Rightarrow> ('s, 'c) grant_sys \<Rightarrow> bool" for ops b0 where
  grant_init: "grant_reachable ops b0 \<lparr>gs_broker = b0, gs_issued = [], gs_exchanges = [], gs_calls = []\<rparr>"
| grant_next: "grant_reachable ops b0 g \<Longrightarrow> grant_step ops g g' \<Longrightarrow> grant_reachable ops b0 g'"

definition exchanged :: "('s, 'c) grant_sys \<Rightarrow> (string \<times> 'c pending_authorization) list" where
  "exchanged g = map (\<lambda>(st, p, code, over). (st, p)) (gs_exchanges g)"

definition states_inv :: "('s, 'c) grant_sys \<Rightarrow> bool" where
  "states_inv g \<longleftrightarrow>
     pending_inv (gs_broker g) \<and> distinct (map fst (gs_issued g)) \<and> distinct (map fst (exchanged g))
     \<and> (\<forall>st p. map_of (bk_pending (gs_broker g)) st = Some p \<longrightarrow> (st, p) \<in> set (gs_issued g))
     \<and> (\<forall>st p. (st, p) \<in> set (exchanged g) \<longrightarrow>
          (st, p) \<in> set (gs_issued g) \<and> map_of (bk_pending (gs_broker g)) st = None)"

definition refresh_inv :: "('s, 'c) grant_sys \<Rightarrow> bool" where
  "refresh_inv g \<longleftrightarrow>
     (\<forall>k i. map_of (bk_refreshes (gs_broker g)) k = Some i \<longleftrightarrow>
        i < length (gs_calls g) \<and> rc_key (gs_calls g ! i) = k \<and> rc_phase (gs_calls g ! i) = Leading)"

lemma states_inv_cong:
  assumes "bk_pending (gs_broker g') = bk_pending (gs_broker g)" "bk_pendingByID (gs_broker g') = bk_pendingByID (gs_broker g)"
    "gs_issued g' = gs_issued g" "exchanged g' = exchanged g"
  shows "states_inv g' = states_inv g"
  using pending_inv_cong [OF assms(1,2)] by (simp add: states_inv_def assms)

lemma begin_states:
  assumes "states_inv g" "beginAuthorization env (Some rs) rv command p url (gs_broker g) = (r, b)" "rs \<noteq> []"
    "b64_encode rs \<notin> fst ` set (gs_issued g)"
    "issued = (case r of Inl _ \<Rightarrow> [] | Inr _ \<Rightarrow> [(b64_encode rs, the (map_of (bk_pending b) (b64_encode rs)))])"
  shows "states_inv (g\<lparr>gs_broker := b, gs_issued := gs_issued g @ issued\<rparr>)"
proof -
  have inv: "pending_inv (gs_broker g)" using assms(1) by (simp add: states_inv_def)
  have inv': "pending_inv b" by (rule begin_inv [OF inv _ assms(2)]) (simp add: assms(3))
  have pend: "(\<exists>e. r = Inl e) \<and> (\<forall>st q. map_of (bk_pending b) st = Some q \<longrightarrow> map_of (bk_pending (gs_broker g)) st = Some q)
      \<or> (\<exists>x q0. r = Inr x \<and> map_of (bk_pending b) (b64_encode rs) = Some q0 \<and>
           (\<forall>st q. map_of (bk_pending b) st = Some q \<longrightarrow> st = b64_encode rs \<or> map_of (bk_pending (gs_broker g)) st = Some q))"
    using assms(2)
  proof (cases rule: begin_cases)
    case (registered c state verifier client b1 pend ok)
    have b1: "bk_pending b1 = bk_pending (gs_broker g)" and inv1: "pending_inv b1"
      using clientFor_fields [OF registered(4)] inv pending_inv_cong by (blast, blast)
    have st: "state = b64_encode rs" using registered(2) by (simp add: secureRandomURLValue_def)
    show ?thesis using register_lookup [OF inv1 registered(5)] registered(13) by (cases ok) (auto simp: b1 st)
  qed auto
  have old: "map_of (bk_pending (gs_broker g)) st = Some q \<Longrightarrow> (st, q) \<in> set (gs_issued g)" for st q
    using assms(1) by (simp add: states_inv_def)
  have new: "(st, q) \<in> set (gs_issued g @ issued)" if "map_of (bk_pending b) st = Some q" for st q
    using pend that assms(5) old [of st q] by (cases "st = b64_encode rs") auto
  have ex: "(st, q) \<in> set (gs_issued g) \<and> map_of (bk_pending b) st = None" if "(st, q) \<in> set (exchanged g)" for st q
  proof -
    have i: "(st, q) \<in> set (gs_issued g)" "map_of (bk_pending (gs_broker g)) st = None"
      using assms(1) that unfolding states_inv_def by blast+
    with assms(4) have "st \<noteq> b64_encode rs" by force
    with i pend show ?thesis by (metis option.exhaust option.distinct(1))
  qed
  have "distinct (map fst (gs_issued g @ issued))"
    using assms(1,4,5) by (auto simp: states_inv_def split: sum.splits)
  moreover have "exchanged (g\<lparr>gs_broker := b, gs_issued := gs_issued g @ issued\<rparr>) = exchanged g" by (simp add: exchanged_def)
  ultimately show ?thesis using assms(1) inv' new ex unfolding states_inv_def by auto
qed

lemma consume_states:
  assumes "states_inv g" "complete_begin now st code perr (gs_broker g) = (r, b)"
    "begun = (case r of Inl _ \<Rightarrow> [] | Inr p \<Rightarrow> [(st, p, code, False)])"
  shows "states_inv (g\<lparr>gs_broker := b, gs_exchanges := gs_exchanges g @ begun\<rparr>)"
proof -
  have inv: "pending_inv (gs_broker g)" using assms(1) by (simp add: states_inv_def)
  let ?new = "case r of Inl _ \<Rightarrow> [] | Inr p \<Rightarrow> [(st, p)]"
  have ex: "exchanged (g\<lparr>gs_broker := b, gs_exchanges := gs_exchanges g @ begun\<rparr>) = exchanged g @ ?new"
    using assms(3) by (auto simp: exchanged_def split: sum.splits)
  from complete_begin_consumes [OF assms(2)] show ?thesis
  proof (elim disjE exE conjE)
    assume "r = Inl ''authorization state is missing''" "b = gs_broker g"
    with assms(1) ex show ?thesis by (simp add: states_inv_def)
  next
    fix cr
    assume c: "consume_state now st (gs_broker g) = (cr, b)"
      and cr: "\<forall>p. r = Inr p \<longrightarrow> cr = Some p \<and> perr = [] \<and> trimSpace code \<noteq> []"
    note l = consume_lookup [OF inv c]
    have "pending_inv b" by (rule consume_inv [OF inv c])
    moreover have "distinct (map fst (exchanged g @ ?new))"
    proof (cases r)
      case (Inr p)
      then have "map_of (bk_pending (gs_broker g)) st = Some p" using l cr by simp
      then have "st \<notin> fst ` set (exchanged g)" using assms(1) unfolding states_inv_def by force
      with Inr assms(1) show ?thesis by (simp add: states_inv_def)
    qed (use assms(1) in \<open>simp add: states_inv_def\<close>)
    moreover have "(st', p) \<in> set (gs_issued g) \<and> map_of (bk_pending b) st' = None"
      if "(st', p) \<in> set (exchanged g @ ?new)" for st' p
    proof (cases "(st', p) \<in> set (exchanged g)")
      case True
      then have "(st', p) \<in> set (gs_issued g)" "map_of (bk_pending (gs_broker g)) st' = None"
        using assms(1) unfolding states_inv_def by blast+
      with l show ?thesis by (metis option.exhaust option.distinct(1))
    next
      case False
      with that have "st' = st" "r = Inr p" by (auto split: sum.splits)
      with l cr have "map_of (bk_pending (gs_broker g)) st = Some p" "map_of (bk_pending b) st = None" by simp_all
      with assms(1) \<open>st' = st\<close> show ?thesis by (simp add: states_inv_def)
    qed
    moreover have "(st', q) \<in> set (gs_issued g)" if "map_of (bk_pending b) st' = Some q" for st' q
      using l that assms(1) unfolding states_inv_def by blast
    ultimately show ?thesis using assms(1) unfolding states_inv_def ex by auto
  qed
qed

lemma grant_step_states: "grant_step ops g g' \<Longrightarrow> states_inv g \<Longrightarrow> states_inv g'"
proof (induction rule: grant_step.induct)
  case (grant_begin env rs rv command p url g r b issued)
  then show ?case by (intro begin_states)
next
  case (grant_consume now st code perr g r b begun)
  then show ?case by (intro consume_states)
next
  case (grant_exchange i g st p code env sent r b)
  have "exchanged (g\<lparr>gs_broker := b, gs_exchanges := (gs_exchanges g)[i := (st, p, code, True)]\<rparr>) = exchanged g"
    using grant_exchange(1,2) by (auto simp: exchanged_def map_update nth_list_update intro!: nth_equalityI)
  with complete_finish_fields [OF grant_exchange(4)] grant_exchange(5) states_inv_cong show ?case by (metis grant_sys.select_convs(1,2) grant_sys.surjective grant_sys.update_convs(1,3))
next
  case (grant_enter i g waits b)
  then have "bk_pending b = bk_pending (gs_broker g)" "bk_pendingByID b = bk_pendingByID (gs_broker g)"
    by (auto simp: enter_refresh_def split: option.splits)
  with grant_enter(4) show ?case by (subst states_inv_cong [of _ g]) (simp_all add: exchanged_def)
next
  case (grant_refreshed i g env cliName c domain secret client sent r b)
  with finish_refresh_fields [OF grant_refreshed(4)] show ?case by (subst states_inv_cong [of _ g]) (simp_all add: exchanged_def)
next
  case (grant_disconnect env command p g sent r b)
  with disconnect_fields [OF grant_disconnect(2)] show ?case by (subst states_inv_cong [of _ g]) (simp_all add: exchanged_def)
qed (subst states_inv_cong, simp_all add: exchanged_def invalidate_fields)+

lemma refresh_inv_cong:
  "refresh_inv g \<Longrightarrow> bk_refreshes (gs_broker g') = bk_refreshes (gs_broker g) \<Longrightarrow> gs_calls g' = gs_calls g \<Longrightarrow> refresh_inv g'"
  by (simp add: refresh_inv_def)

lemma enter_refresh_inv:
  assumes "refresh_inv g" "i < length (gs_calls g)" "rc_phase (gs_calls g ! i) = Loaded"
    "enter_refresh i (rc_key (gs_calls g ! i)) (gs_broker g) = (waits, b)"
  shows "refresh_inv (g\<lparr>gs_broker := b, gs_calls :=
      (gs_calls g)[i := (gs_calls g ! i)\<lparr>rc_phase := (if waits = None then Leading else Over)\<rparr>]\<rparr>)"
proof -
  have iff: "map_of (bk_refreshes (gs_broker g)) k = Some j \<longleftrightarrow>
      j < length (gs_calls g) \<and> rc_key (gs_calls g ! j) = k \<and> rc_phase (gs_calls g ! j) = Leading" for k j
    using assms(1) by (simp add: refresh_inv_def)
  show ?thesis
  proof (cases "map_of (bk_refreshes (gs_broker g)) (rc_key (gs_calls g ! i))")
    case None
    then have b: "bk_refreshes b = put (rc_key (gs_calls g ! i)) i (bk_refreshes (gs_broker g))" "waits = None"
      using assms(4) by (auto simp: enter_refresh_def)
    have "\<not> (j < length (gs_calls g) \<and> rc_key (gs_calls g ! j) = rc_key (gs_calls g ! i) \<and> rc_phase (gs_calls g ! j) = Leading)" for j
      using None iff [of "rc_key (gs_calls g ! i)" j] by simp
    then show ?thesis using assms(2,3) iff by (auto simp: refresh_inv_def b nth_list_update)
  next
    case (Some j)
    then have "enter_refresh i (rc_key (gs_calls g ! i)) (gs_broker g) = (Some j, gs_broker g)" by (simp add: enter_refresh_def)
    with assms(4) have "b = gs_broker g" "waits = Some j" by simp_all
    then show ?thesis using assms(2,3) iff by (auto simp: refresh_inv_def nth_list_update)
  qed
qed

lemma finish_refresh_inv:
  assumes "refresh_inv g" "i < length (gs_calls g)" "rc_phase (gs_calls g ! i) = Leading"
    "bk_refreshes b = del (rc_key (gs_calls g ! i)) (bk_refreshes (gs_broker g))"
  shows "refresh_inv (g\<lparr>gs_broker := b, gs_calls := (gs_calls g)[i := (gs_calls g ! i)\<lparr>rc_phase := Over\<rparr>]\<rparr>)"
proof -
  have iff: "map_of (bk_refreshes (gs_broker g)) k = Some j \<longleftrightarrow>
      j < length (gs_calls g) \<and> rc_key (gs_calls g ! j) = k \<and> rc_phase (gs_calls g ! j) = Leading" for k j
    using assms(1) by (simp add: refresh_inv_def)
  have "map_of (bk_refreshes (gs_broker g)) (rc_key (gs_calls g ! i)) = Some i" using assms(2,3) iff by simp
  then have other: "j = i" if "j < length (gs_calls g)" "rc_key (gs_calls g ! j) = rc_key (gs_calls g ! i)"
      "rc_phase (gs_calls g ! j) = Leading" for j
    using that iff by (metis option.inject)
  show ?thesis using assms(2,3) iff other by (auto simp: refresh_inv_def assms(4) nth_list_update)
qed

lemma grant_step_refresh: "grant_step ops g g' \<Longrightarrow> refresh_inv g \<Longrightarrow> refresh_inv g'"
proof (induction rule: grant_step.induct)
  case (grant_begin env rs rv command p url g r b issued)
  from grant_begin(2) have "bk_refreshes b = bk_refreshes (gs_broker g)"
  proof (cases rule: begin_cases)
    case (registered c state verifier client b1 pend ok)
    with register_fields [OF registered(5)] clientFor_fields [OF registered(4)] show ?thesis by simp
  qed simp
  with grant_begin(6) show ?case by (elim refresh_inv_cong) simp_all
next
  case (grant_consume now st code perr g r b begun)
  have "bk_refreshes b = bk_refreshes (gs_broker g)"
    using complete_begin_consumes [OF grant_consume(1)] by (auto dest: consume_fields)
  with grant_consume(3) show ?case by (elim refresh_inv_cong) simp_all
next
  case (grant_exchange i g st p code env sent r b)
  with complete_finish_fields [OF grant_exchange(4)] show ?case by (elim refresh_inv_cong) simp_all
next
  case (grant_load env command c p cliName g key t)
  then show ?case by (auto simp: refresh_inv_def nth_append)
next
  case (grant_enter i g waits b)
  then show ?case by (intro enter_refresh_inv)
next
  case (grant_refreshed i g env cliName c domain secret client sent r b)
  with finish_refresh_fields [OF grant_refreshed(4)] show ?case by (intro finish_refresh_inv) simp_all
next
  case (grant_invalidate env g command c p)
  then show ?case by (elim refresh_inv_cong) (simp_all add: invalidate_fields)
next
  case (grant_disconnect env command p g sent r b)
  with disconnect_fields [OF grant_disconnect(2)] show ?case by (elim refresh_inv_cong) simp_all
qed

lemma newBroker_inv:
  "newBroker s ttl = Inr b \<Longrightarrow>
    states_inv \<lparr>gs_broker = b, gs_issued = [], gs_exchanges = [], gs_calls = []\<rparr>
    \<and> refresh_inv \<lparr>gs_broker = b, gs_issued = [], gs_exchanges = [], gs_calls = []\<rparr>"
  by (auto simp: newBroker_def states_inv_def refresh_inv_def pending_inv_def index_ok_def exchanged_def
      maxPendingAuthorizations_def split: if_splits)

lemma grant_reachable_inv:
  assumes "grant_reachable ops b0 g" "newBroker s ttl = Inr b0"
  shows "states_inv g \<and> refresh_inv g"
  using assms(1) by induction (use newBroker_inv [OF assms(2)] grant_step_states grant_step_refresh in blast)+

text \<open>C16. Authorization states are one-time: in every execution of the broker, however begins, completions,
  accesses, invalidations and disconnects interleave, no state is exchanged for a token twice, every
  exchanged state was issued before by a begin (with exactly the record the exchange uses), and a
  state that was exchanged is not pending any more.\<close>

theorem authorization_states_one_time:
  assumes "newBroker store ttl = Inr b0" "grant_reachable ops b0 g"
  shows "distinct (map fst (exchanged g)) \<and> set (exchanged g) \<subseteq> set (gs_issued g)
    \<and> fst ` set (exchanged g) \<inter> fst ` set (bk_pending (gs_broker g)) = {}"
proof -
  have inv: "states_inv g" using grant_reachable_inv [OF assms(2,1)] by simp
  have "fst x \<notin> fst ` set (bk_pending (gs_broker g))" if "x \<in> set (exchanged g)" for x
  proof -
    have "map_of (bk_pending (gs_broker g)) (fst x) = None" using inv that by (cases x) (simp add: states_inv_def)
    then show ?thesis by (simp add: map_of_eq_None_iff)
  qed
  then have "fst ` set (exchanged g) \<inter> fst ` set (bk_pending (gs_broker g)) = {}" by blast
  then show ?thesis using inv by (auto simp: states_inv_def)
qed

text \<open>At most 10,000 authorizations are pending at a time, and at most one per user, domain and
  configuration: two pending states with the same record key are the same state.\<close>

theorem pending_authorizations_bounded:
  assumes "newBroker store ttl = Inr b0" "grant_reachable ops b0 g"
  shows "int (length (bk_pending (gs_broker g))) \<le> 10000
    \<and> distinct (map (\<lambda>(st, p). pa_recordKey p) (bk_pending (gs_broker g)))"
proof -
  have inv: "pending_inv (gs_broker g)" using grant_reachable_inv [OF assms(2,1)] by (simp add: states_inv_def)
  have "inj_on (\<lambda>(st, p). pa_recordKey p) (set (bk_pending (gs_broker g)))"
  proof (rule inj_onI, clarify)
    fix s1 p1 s2 p2
    assume m: "(s1, p1) \<in> set (bk_pending (gs_broker g))" "(s2, p2) \<in> set (bk_pending (gs_broker g))"
      and k: "pa_recordKey p1 = pa_recordKey p2"
    then have l: "map_of (bk_pending (gs_broker g)) s1 = Some p1" "map_of (bk_pending (gs_broker g)) s2 = Some p2"
      using inv by (simp_all add: pending_inv_def wf_map_def)
    with inv k have "s1 = s2" unfolding pending_inv_def index_ok_def by (metis option.inject)
    with l show "s1 = s2 \<and> p1 = p2" by simp
  qed
  moreover have "distinct (bk_pending (gs_broker g))" using inv by (simp add: pending_inv_def wf_map_def distinct_map)
  ultimately show ?thesis using inv by (simp add: pending_inv_def maxPendingAuthorizations_def distinct_map)
qed

text \<open>Each user's grant is refreshed by one caller at a time: in every execution, for every record key, at
  most one access is asking the token endpoint with the refresh token of that key.\<close>

theorem refresh_single_flight:
  assumes "newBroker store ttl = Inr b0" "grant_reachable ops b0 g"
  shows "card {i. i < length (gs_calls g) \<and> rc_phase (gs_calls g ! i) = Leading \<and> rc_key (gs_calls g ! i) = key} \<le> 1"
proof -
  have inv: "refresh_inv g" using grant_reachable_inv [OF assms(2,1)] by simp
  have "{i. i < length (gs_calls g) \<and> rc_phase (gs_calls g ! i) = Leading \<and> rc_key (gs_calls g ! i) = key}
      \<subseteq> set_option (map_of (bk_refreshes (gs_broker g)) key)"
    using inv by (auto simp: refresh_inv_def)
  moreover have "card (set_option x) \<le> 1" "finite (set_option x)" for x :: "nat option" by (cases x; simp)+
  ultimately show ?thesis by (meson card_mono le_trans)
qed

text \<open>A user who comes back with the state and a code before it lapses gets to the code exchange.\<close>

lemma begun_completes:
  assumes "pending_inv b" "beginAuthorization env (Some rs) rv command p url b = (Inr start, b1)"
    "now < as_expiresAt start" "trimSpace (b64_encode rs) \<noteq> []" "trimSpace code \<noteq> []"
  shows "\<exists>pend b2. complete_begin now (b64_encode rs) code [] b1 = (Inr pend, b2) \<and> pa_expiresAt pend = as_expiresAt start
    \<and> pa_recordKey pend = command_key env b command (pa_config pend) p"
  using assms(2)
proof (cases rule: begin_cases)
  case (registered c state verifier client b0 pend ok)
  have ok: "ok" using registered(13) by (cases ok) simp_all
  have st: "state = b64_encode rs" using registered(2) by (simp add: secureRandomURLValue_def)
  have b0: "pending_inv b0" using clientFor_fields [OF registered(4)] assms(1) pending_inv_cong by blast
  from register_lookup [OF b0 registered(5)] ok have p: "map_of (bk_pending b1) (b64_encode rs) = Some pend" by (simp add: st)
  have "b64_encode rs \<noteq> []" using assms(4) length_trimSpace [of "b64_encode rs"] by auto
  from register_inv [OF b0 _ registered(5)] this have inv: "pending_inv b1" by (simp add: st)
  obtain r b2 where c: "consume_state now (b64_encode rs) b1 = (r, b2)" by (metis prod.exhaust)
  have "pa_expiresAt pend = as_expiresAt start" using registered(10,13) ok by simp
  moreover from this consume_lookup [OF inv c] p assms(3) have "r = Some pend" by (cases r) auto
  ultimately show ?thesis using c assms(4,5) registered(6,9) by (simp add: complete_begin_def)
qed simp

section \<open>The code exchange is bound to the authorization request\<close>

lemma client_authentication_fields:
  assumes "applyOAuthClientAuthentication form c secret = Inr (basic, form')" "wf_map form" "k \<noteq> ''client_id''" "k \<noteq> ''client_secret''"
  shows "qget (parseQuery (encodeQuery form')) k = qget form k"
  using client_authentication_Inr [OF assms(1,2), of k] parseQuery_encodeQuery [of form' k] assms(3,4) by simp

lemma endpoint_request_ok:
  "applyOAuthClientAuthentication form c secret = Inr (basic, form') \<Longrightarrow> newRequest ''POST'' (urlString u) (Some (encodeQuery form')) = Some rq0
   \<Longrightarrow> \<exists>rq. endpoint_request agent u c secret form = Inr rq"
  by (simp add: endpoint_request_def Let_def)

lemma endpoint_request_body:
  assumes "endpoint_request agent u c secret form = Inr rq" "wf_map form" "k \<noteq> ''client_id''" "k \<noteq> ''client_secret''"
  shows "\<exists>body. rq_text rq = urlString u \<and> rq_body rq = Some body \<and> qget (parseQuery body) k = qget form k"
proof -
  obtain basic form' rq0 where a: "applyOAuthClientAuthentication form c secret = Inr (basic, form')"
    and n: "newRequest ''POST'' (urlString u) (Some (encodeQuery form')) = Some rq0"
    and rq: "rq_text rq = rq_text rq0" "rq_body rq = rq_body rq0"
    using assms(1) by (auto simp: endpoint_request_def Let_def split: sum.splits option.splits)
  from newRequest_fields [OF n] rq client_authentication_fields [OF a assms(2-)] show ?thesis by auto
qed

lemma code_request_sent:
  assumes "complete_finish env p code b = (Some rq, r, b')" "k \<in> {''code'', ''redirect_uri'', ''code_verifier'', ''grant_type''}"
  shows "\<exists>body. rq_body rq = Some body \<and> qget (parseQuery body) k = qget (code_form p code) k"
proof -
  let ?c = "pa_config p"
  let ?f1 = "set_if (oc_audience ?c \<noteq> []) ''audience'' (oc_audience ?c) (code_form p code)"
  let ?f2 = "set_if (oc_resource ?c \<noteq> []) ''resource'' (oc_resource ?c) ?f1"
  let ?f3 = "set_if (qget ?f2 ''grant_type'' = [''refresh_token''] \<and> oc_scopes ?c \<noteq> []) ''scope'' (join (oc_scopes ?c) '' '') ?f2"
  have wf: "wf_map (code_form p code)" by (simp add: code_form_def wf_map_def)
  obtain u where "oc_tokenURL ?c = Some u" and e: "endpoint_request ''cli-gateway/downstream-oauth'' u ?c (pa_clientSecret p) ?f3 = Inr rq"
    using assms(1)
    by (auto simp: complete_finish_def requestAuthorizationCodeToken_def Let_def split: prod.splits sum.splits option.splits if_splits)
  have "k \<noteq> ''client_id''" "k \<noteq> ''client_secret''" using assms(2) by auto
  from endpoint_request_body [OF e _ this] wf obtain body where "rq_body rq = Some body" "qget (parseQuery body) k = qget ?f3 k" by auto
  moreover have "k \<noteq> ''audience''" "k \<noteq> ''resource''" "k \<noteq> ''scope''" using assms(2) by auto
  then have "qget ?f3 k = qget (code_form p code) k" by simp
  ultimately show ?thesis by auto
qed

lemma authorization_query_fields:
  "qget (authorization_query sha c redirect state verifier q) ''state'' = [state]"
  "qget (authorization_query sha c redirect state verifier q) ''redirect_uri'' = [redirect]"
  "qget (authorization_query sha c redirect state verifier q) ''code_challenge'' = [b64_encode (sha verifier)]"
  "qget (authorization_query sha c redirect state verifier q) ''code_challenge_method'' = [''S256'']"
  by (simp_all add: authorization_query_def Let_def)

lemma wf_qadd: "wf_map q \<Longrightarrow> wf_map (qadd k v q)"
  by (simp add: qadd_def)

lemma parseQuery_wf: "wf_map (parseQuery s)"
proof -
  have "wf_map (fold (\<lambda>kv q. case parse_pair kv of None \<Rightarrow> q | Some (k, v) \<Rightarrow> qadd k v q) xs q)" if "wf_map q" for xs q
    using that by (induction xs arbitrary: q) (auto simp: wf_qadd split: option.splits)
  then show ?thesis by (simp add: parseQuery_def)
qed

lemma authorization_query_wf: "wf_map q \<Longrightarrow> wf_map (authorization_query sha c redirect state verifier q)"
  by (simp add: authorization_query_def Let_def)

text \<open>C17. The code exchange is bound to the browser's authorization request: a successful begin registers a
  record under the random state such that the URL it returns carries that state, the S256 challenge
  of the record's verifier and the record's callback; and whenever that record is exchanged, at any
  later time and in any later state of the broker, the token request carries the same callback, the
  verifier whose hash is the challenge, and the code. The state lapses after the configured lifetime.\<close>

theorem pkce_binds_exchange:
  assumes "pending_inv b" "beginAuthorization env (Some rs) (Some rv) command p url b = (Inr start, b1)"
  shows "\<exists>pend target.
      map_of (bk_pending b1) (b64_encode rs) = Some pend \<and> as_url start = urlString target
      \<and> qget (parseQuery (u_rawQuery target)) ''state'' = [b64_encode rs]
      \<and> qget (parseQuery (u_rawQuery target)) ''redirect_uri'' = [pa_redirectURI pend]
      \<and> qget (parseQuery (u_rawQuery target)) ''code_challenge'' = [b64_encode (be_sha256 env (pa_codeVerifier pend))]
      \<and> qget (parseQuery (u_rawQuery target)) ''code_challenge_method'' = [''S256'']
      \<and> pa_expiresAt pend = as_expiresAt start \<and> as_expiresAt start = be_now env + bk_stateTTL b
      \<and> (case complete_finish env' pend code b2 of
           (Some rq, _, _) \<Rightarrow> (\<exists>body. rq_body rq = Some body
              \<and> qget (parseQuery body) ''redirect_uri'' = [pa_redirectURI pend]
              \<and> qget (parseQuery body) ''code_verifier'' = [pa_codeVerifier pend]
              \<and> qget (parseQuery body) ''code'' = [code])
         | (None, _, _) \<Rightarrow> True)"
  using assms(2)
proof (cases rule: begin_cases)
  case (registered c state verifier client b0 pend ok)
  let ?t = "authorization_url (be_sha256 env) c (redirectURI url) state verifier (the (oc_authorizationURL c))"
  let ?q = "authorization_query (be_sha256 env) c (redirectURI url) state verifier (parseQuery (u_rawQuery (the (oc_authorizationURL c))))"
  have ok: "ok" using registered(13) by (cases ok) simp_all
  have st: "state = b64_encode rs" using registered(2) by (simp add: secureRandomURLValue_def)
  have "pending_inv b0" using clientFor_fields [OF registered(4)] assms(1) pending_inv_cong by blast
  from register_lookup [OF this registered(5)] ok have p: "map_of (bk_pending b1) (b64_encode rs) = Some pend" by (simp add: st)
  have q: "qget (parseQuery (u_rawQuery ?t)) k = qget ?q k" for k
    using parseQuery_encodeQuery [OF authorization_query_wf [OF parseQuery_wf]] by (simp add: authorization_url_def)
  obtain sent r b3 where f: "complete_finish env' pend code b2 = (sent, r, b3)" by (metis prod.exhaust)
  have body: "\<exists>body. rq_body rq = Some body
              \<and> qget (parseQuery body) ''redirect_uri'' = [pa_redirectURI pend]
              \<and> qget (parseQuery body) ''code_verifier'' = [pa_codeVerifier pend]
              \<and> qget (parseQuery body) ''code'' = [code]" if "sent = Some rq" for rq
    using code_request_sent [OF f [unfolded that], of "''redirect_uri''"] code_request_sent [OF f [unfolded that], of "''code_verifier''"]
      code_request_sent [OF f [unfolded that], of "''code''"]
    by (auto simp: code_form_def qget_def)
  have verifier: "pa_codeVerifier pend = verifier" by (rule registered(7))
  note fields = q [of "''state''", unfolded authorization_query_fields] q [of "''redirect_uri''", unfolded authorization_query_fields]
    q [of "''code_challenge''", unfolded authorization_query_fields] q [of "''code_challenge_method''", unfolded authorization_query_fields]
  show ?thesis
  proof (intro exI conjI)
    show "as_url start = urlString ?t" using registered(13) ok by simp
    show "case complete_finish env' pend code b2 of
           (Some rq, _, _) \<Rightarrow> (\<exists>body. rq_body rq = Some body
              \<and> qget (parseQuery body) ''redirect_uri'' = [pa_redirectURI pend]
              \<and> qget (parseQuery body) ''code_verifier'' = [pa_codeVerifier pend]
              \<and> qget (parseQuery body) ''code'' = [code])
         | (None, _, _) \<Rightarrow> True" using body by (cases sent) (simp_all add: f)
  qed (use p registered(7,8,10,13) ok fields in \<open>simp_all add: st\<close>)
qed simp

section \<open>The broker on a store\<close>

text \<open>A successful reply: a live, non-empty token; the refresh token is kept when none is sent.\<close>

lemma grant_outcome_Inr:
  assumes "grant_outcome env c previous reply = Inr t" "0 < be_parseAt env"
  shows "ak_access t \<noteq> [] \<and> be_parseAt env < ak_expires t \<and> (ak_refresh previous \<noteq> [] \<longrightarrow> ak_refresh t \<noteq> [])
    \<and> ak_updated t = be_updatedAt env"
proof -
  obtain body parsed where p: "parseTokenResponse (be_json env) body (be_parseAt env) = Inr parsed"
    and t: "ak_expires t = at_expires parsed" "ak_access t \<noteq> []" "ak_refresh previous \<noteq> [] \<Longrightarrow> ak_refresh t \<noteq> []"
      "ak_updated t = be_updatedAt env"
    using assms(1)
    by (auto simp: grant_outcome_def Let_def split: token_reply.splits option.splits if_splits sum.splits)
  from parseTokenResponse_Inr [OF p assms(2)] have "be_parseAt env < at_expires parsed" by blast
  with t show ?thesis by simp
qed

lemma requested_token_Inr:
  assumes "requestAuthorizationCodeToken env client c secret form previous = (sent, Inr t)" "0 < be_parseAt env"
  shows "ak_access t \<noteq> [] \<and> be_parseAt env < ak_expires t \<and> (ak_refresh previous \<noteq> [] \<longrightarrow> ak_refresh t \<noteq> []) \<and> sent \<noteq> None"
proof -
  obtain rq where "sent = Some rq" "grant_outcome env c previous (be_do env client rq) = Inr t"
    using assms(1) by (auto simp: requestAuthorizationCodeToken_def Let_def split: option.splits sum.splits)
  with grant_outcome_Inr [OF _ assms(2)] show ?thesis by blast
qed

locale grant_store = token_store load save delete
  for load :: "'s \<Rightarrow> string \<Rightarrow> auth_token \<times> bool"
    and save :: "'w \<Rightarrow> string \<Rightarrow> auth_token \<Rightarrow> 's \<Rightarrow> string option \<times> 's"
    and delete :: "'w \<Rightarrow> string \<Rightarrow> 's \<Rightarrow> string option \<times> 's" +
  fixes ops :: "('s, 'w) store_ops"
  assumes ops_load: "so_load ops s k = Inr (load s k)"
    and ops_save: "so_save ops = save"
    and ops_delete: "so_delete ops = delete"
begin

lemma delete_load: "load (snd (delete w k s)) k' = load s k' \<or> (k' = k \<and> load (snd (delete w k s)) k' = (zero_auth_token, False))"
  using delete_ok [of w k s "snd (delete w k s)" k'] delete_failed [of w k s _ "snd (delete w k s)" k']
  by (cases "delete w k s"; cases "fst (delete w k s)") auto

text \<open>The four ways a refresh ends, and what each leaves in the store.\<close>

lemma finish_refresh_effect:
  assumes "be_ops env = ops" "finish_refresh env cliName c domain secret client key t b = (sent, r, b')"
    "requestAuthorizationCodeToken env client c secret (refresh_form c t) t = (sent', out)"
  shows "sent = sent' \<and> (\<forall>k. k \<noteq> key \<longrightarrow> load (bk_store b') k = load (bk_store b) k)
    \<and> (case out of
         Inr new \<Rightarrow> (if fst (save (be_write env) key new (bk_store b)) = None
                     then r = Inr (ak_access new) \<and> load (bk_store b') key = (new, True)
                     else isl r \<and> load (bk_store b') key = load (bk_store b) key)
       | Inl err \<Rightarrow>
           (if ak_access t \<noteq> [] \<and> be_later env < ak_expires t \<and> isTransientAuthorizationError err
            then r = Inr (ak_access t) \<and> bk_store b' = bk_store b
            else if isInvalidAuthorizationGrant err
            then r = Inl (APIErr (downstreamAuthorizationRequired cliName domain))
                 \<and> load (bk_store b') key \<in> {(zero_auth_token, False), load (bk_store b) key}
            else r = Inl err \<and> bk_store b' = bk_store b))"
proof (cases out)
  case (Inl err)
  then show ?thesis
    using assms delete_load [of "be_write env" key "bk_store b" key]
    by (auto simp: finish_refresh_def Let_def ops_delete delete_isolated split: if_splits)
next
  case (Inr new)
  obtain e s where sv: "save (be_write env) key new (bk_store b) = (e, s)" by (cases "save (be_write env) key new (bk_store b)")
  show ?thesis
  proof (cases e)
    case None
    with Inr assms sv save_ok [OF sv [unfolded None]] show ?thesis
      by (auto simp: finish_refresh_def Let_def ops_save)
  next
    case (Some err)
    with Inr assms sv save_failed [OF sv [unfolded Some]] show ?thesis
      by (auto simp: finish_refresh_def Let_def ops_save isTransientAuthorizationError_def isInvalidAuthorizationGrant_def)
  qed
qed

lemma disconnect_effect:
  assumes "be_ops env = ops" "validateAuthorizationCommand command = Inr c" "disconnect env command p b = (sent, r, b')"
    "fst (delete (be_write env) (command_key env b command c p) (bk_store b)) = None"
  shows "bk_store b' = snd (delete (be_write env) (command_key env b command c p) (bk_store b))
    \<and> load (bk_store b') (command_key env b command c p) = (zero_auth_token, False)
    \<and> (\<forall>k. k \<noteq> command_key env b command c p \<longrightarrow> load (bk_store b') k = load (bk_store b) k)"
proof -
  let ?key = "command_key env b command c p"
  obtain t found where l: "load (bk_store b) ?key = (t, found)" by (cases "load (bk_store b) ?key")
  obtain sent1 e1 b1 where rv: "revoke_grant env command c t found b = (sent1, e1, b1)" by (metis prod.exhaust)
  have s1: "bk_store b1 = bk_store b"
    using rv by (auto simp: revoke_grant_def dest: clientFor_fields split: option.splits if_splits sum.splits prod.splits)
  obtain s where d: "delete (be_write env) ?key (bk_store b) = (None, s)"
    using assms(4) by (cases "delete (be_write env) ?key (bk_store b)") simp
  have "bk_store b' = s" using assms(1-3) l rv s1 d by (auto simp: disconnect_def Let_def ops_load ops_delete)
  with delete_ok [OF d] d show ?thesis by auto
qed

end

section \<open>The two stores\<close>

definition file_ops :: "('p, 'f) store_codec \<Rightarrow> (string \<Rightarrow> string \<Rightarrow> string) \<Rightarrow> ('f file_state, write_env) store_ops" where
  "file_ops cd hmac =
     \<lparr>so_key = (\<lambda>s parts. authorizationStoreKey hmac (fs_bindingKey (fst s)) parts),
      so_load = (\<lambda>s k. Inr (file_load s k)), so_save = file_save cd, so_delete = file_delete cd\<rparr>"

definition mem_ops :: "(string \<Rightarrow> string \<Rightarrow> string) \<Rightarrow> (memory_store, unit) store_ops" where
  "mem_ops hmac =
     \<lparr>so_key = mem_key hmac, so_load = (\<lambda>s k. Inr (mem_load s k)), so_save = (\<lambda>_. mem_save), so_delete = (\<lambda>_. mem_delete)\<rparr>"

interpretation fgrants: grant_store file_load "file_save cd" "file_delete cd" "file_ops cd hmac" for cd hmac
proof (unfold_locales, goal_cases)
  case (1 s k)
  then show ?case by (rule fstore.load_absent)
qed (auto simp: file_ops_def file_save_load file_delete_load file_save_rejects simp del: not_None_eq)

interpretation mgrants: grant_store mem_load "\<lambda>_::unit. mem_save" "\<lambda>_::unit. mem_delete" "mem_ops hmac" for hmac
  by unfold_locales (simp_all add: mem_ops_def)

lemma file_delete_binding: "fs_bindingKey (fst (snd (file_delete cd we k s))) = fs_bindingKey (fst s)"
  by (simp add: file_delete_def Let_def split: prod.splits option.splits)

text \<open>What refreshing a grant does, on the encrypted store: a token from the endpoint is stored under the
  user's record key before it is used, and a refresh token the endpoint does not rotate is kept; if
  the endpoint is unavailable, an access token that is still live is used and the grant kept; if the
  grant was withdrawn, the user is asked to authorize again and the grant is deleted; after any other
  error, or when the new token cannot be stored, the access fails and the grant is kept. No other
  record is touched, and a token that is answered is never empty.\<close>

theorem refresh_outcomes:
  assumes "be_ops env = file_ops cd hmac" "0 < be_parseAt env" "ak_refresh t \<noteq> []"
    "finish_refresh env cliName c domain secret client key t b = (sent, r, b')"
    "requestAuthorizationCodeToken env client c secret (refresh_form c t) t = (sent', out)"
  shows "(\<forall>k. k \<noteq> key \<longrightarrow> file_load (bk_store b') k = file_load (bk_store b) k)
    \<and> (\<forall>tok. r = Inr tok \<longrightarrow> tok \<noteq> [])
    \<and> (case out of
         Inr new \<Rightarrow> (case r of
             Inr tok \<Rightarrow> tok = ak_access new \<and> be_parseAt env < ak_expires new \<and> ak_refresh new \<noteq> []
                        \<and> file_load (bk_store b') key = (new, True)
           | Inl _ \<Rightarrow> file_load (bk_store b') key = file_load (bk_store b) key)
       | Inl err \<Rightarrow>
           (if ak_access t \<noteq> [] \<and> be_later env < ak_expires t \<and> isTransientAuthorizationError err
            then r = Inr (ak_access t) \<and> bk_store b' = bk_store b
            else if isInvalidAuthorizationGrant err
            then r = Inl (APIErr (downstreamAuthorizationRequired cliName domain))
                 \<and> file_load (bk_store b') key \<in> {(zero_auth_token, False), file_load (bk_store b) key}
            else r = Inl err \<and> bk_store b' = bk_store b))"
proof -
  note eff = fgrants.finish_refresh_effect [OF assms(1,4,5)]
  show ?thesis
  proof (cases out)
    case (Inl err)
    then show ?thesis using eff by (auto split: if_splits)
  next
    case (Inr new)
    from requested_token_Inr [OF assms(5) [unfolded Inr] assms(2)] assms(3)
    have "ak_access new \<noteq> []" "be_parseAt env < ak_expires new" "ak_refresh new \<noteq> []" by auto
    with Inr eff show ?thesis by (auto simp: isl_def split: if_splits)
  qed
qed

text \<open>Users never share a grant: on the encrypted store two record keys are equal exactly when issuer,
  tenant, subject, domain and configuration digest all are, provided HMAC-SHA-256 does not collide
  on the two key texts.\<close>

theorem grants_isolated:
  assumes "list_all (\<lambda>x. length x < 2 ^ 32) [pr_issuer p, pr_tenant p, pr_subject p, domain, digest]"
    "list_all (\<lambda>x. length x < 2 ^ 32) [pr_issuer p', pr_tenant p', pr_subject p', domain', digest']"
    "inj_on (hmac (fs_bindingKey (fst s)))
       {key_text [pr_issuer p, pr_tenant p, pr_subject p, domain, digest], key_text [pr_issuer p', pr_tenant p', pr_subject p', domain', digest']}"
  shows "recordKey (file_ops cd hmac) s domain digest p = recordKey (file_ops cd hmac) s domain' digest' p' \<longleftrightarrow>
    pr_issuer p = pr_issuer p' \<and> pr_tenant p = pr_tenant p' \<and> pr_subject p = pr_subject p' \<and> domain = domain' \<and> digest = digest'"
proof
  assume "recordKey (file_ops cd hmac) s domain digest p = recordKey (file_ops cd hmac) s domain' digest' p'"
  then have "hmac (fs_bindingKey (fst s)) (key_text [pr_issuer p, pr_tenant p, pr_subject p, domain, digest])
      = hmac (fs_bindingKey (fst s)) (key_text [pr_issuer p', pr_tenant p', pr_subject p', domain', digest'])"
    by (intro b64_encode_inj [of "hmac _ _" "hmac _ _"]) (simp add: recordKey_def file_ops_def authorizationStoreKey_def)
  then have "key_text [pr_issuer p, pr_tenant p, pr_subject p, domain, digest] = key_text [pr_issuer p', pr_tenant p', pr_subject p', domain', digest']"
    by (rule inj_onD [OF assms(3)]) simp_all
  from key_text_inj [OF assms(1,2) this]
  show "pr_issuer p = pr_issuer p' \<and> pr_tenant p = pr_tenant p' \<and> pr_subject p = pr_subject p' \<and> domain = domain' \<and> digest = digest'"
    by simp
qed (simp add: recordKey_def)

text \<open>Disconnecting forgets the grant whatever the provider says: once the record could be deleted, the
  user's grant is gone from the store and its status is not authorized, whether the revocation at
  the provider succeeded, failed or was not attempted; no other record is touched.\<close>

theorem disconnect_forgets:
  assumes "be_ops env = file_ops cd hmac" "validateAuthorizationCommand command = Inr c" "disconnect env command p b = (sent, r, b')"
    "fst (file_delete cd (be_write env) (command_key env b command c p) (bk_store b)) = None"
  shows "file_load (bk_store b') (command_key env b command c p) = (zero_auth_token, False)
    \<and> (\<forall>k. k \<noteq> command_key env b command c p \<longrightarrow> file_load (bk_store b') k = file_load (bk_store b) k)
    \<and> (\<exists>st. authorizationStatus env command p b' = Inr st \<and> \<not> st_authorized st)"
proof -
  note eff = fgrants.disconnect_effect [OF assms(1-4)]
  have "fs_bindingKey (fst (bk_store b')) = fs_bindingKey (fst (bk_store b))" using eff file_delete_binding by simp
  then have "command_key env b' command c p = command_key env b command c p"
    using assms(1) by (simp add: command_key_def recordKey_def file_ops_def)
  then have "authorizationStatus env command p b' = Inr \<lparr>st_domain = cmd_domain command, st_authorized = False, st_expiresAt = zero_time\<rparr>"
    using conjunct1 [OF conjunct2 [OF eff]] assms(1,2)
    by (simp add: authorizationStatus_def fgrants.ops_load zero_auth_token_def)
  with eff show ?thesis by auto
qed

section \<open>Races between an access and other callers\<close>

text \<open>
  An access that loaded the grant before a disconnect, and finishes its refresh after it, stores the
  grant again: the user stays authorized although \<open>Disconnect\<close> had returned without an error.
\<close>

theorem refresh_undoes_disconnect:
  assumes "be_ops env = file_ops cd hmac" "file_load (bk_store b) key = (zero_auth_token, False)"
    "requestAuthorizationCodeToken env client c secret (refresh_form c t) t = (sent, Inr new)"
    "fst (file_save cd (be_write env) key new (bk_store b)) = None"
    "finish_refresh env cliName c domain secret client key t b = (sent', r, b')"
  shows "file_load (bk_store b') key = (new, True)"
  using fgrants.finish_refresh_effect [OF assms(1,5,3)] assms(4) by simp

text \<open>
  An access that loaded a grant before another one refreshed it enters the next refresh with the old
  refresh token; when the endpoint has rotated that token, its refusal deletes the new grant.
\<close>

theorem stale_refresh_drops_new_grant:
  assumes "be_ops env = file_ops cd hmac" "file_load (bk_store b) key = (new, True)" "ak_refresh t \<noteq> ak_refresh new"
    "requestAuthorizationCodeToken env client c secret (refresh_form c t) t = (sent, Inl (EndpointErr False True))"
    "fst (file_delete cd (be_write env) key (bk_store b)) = None"
    "finish_refresh env cliName c domain secret client key t b = (sent', r, b')"
  shows "file_load (bk_store b') key = (zero_auth_token, False)"
proof -
  obtain s where d: "file_delete cd (be_write env) key (bk_store b) = (None, s)"
    using assms(5) by (cases "file_delete cd (be_write env) key (bk_store b)") simp
  have "bk_store b' = s"
    using assms(1,4,6) d
    by (auto simp: finish_refresh_def Let_def file_ops_def isTransientAuthorizationError_def isInvalidAuthorizationGrant_def)
  then show ?thesis using fgrants.delete_ok [OF d] by simp
qed

section \<open>An example execution\<close>

definition example_codec :: "(unit, envelope) store_codec" where
  "example_codec = \<lparr>cd_sha256 = (\<lambda>_. replicate 32 (CHR ''k'')), cd_marshal = (\<lambda>_. Some ()),
     cd_unmarshal = (\<lambda>_. Some (1, Some [])), cd_seal = (\<lambda>_ _ _ _. []), cd_open = (\<lambda>_ _ _ _. Some ()),
     cd_envelope = id, cd_parseEnvelope = Some, cd_size = (\<lambda>_. 0)\<rparr>"

definition plain_mac :: "string \<Rightarrow> string \<Rightarrow> string" where
  "plain_mac k x = ''m''"

definition grant_config :: oauth_credential where
  "grant_config = example_oauth\<lparr>oc_authorizationURL := urlParse ''https://idp.example/authorize'',
     oc_revocationURL := urlParse ''https://idp.example/revoke''\<rparr>"

definition grant_command :: compiled_command where
  "grant_command = demo_get\<lparr>cmd_downstreamAuth := DownstreamAuthorizationCode, cmd_oauthCredential := Some grant_config,
     cmd_credentialCache := \<lparr>cc_capacity = 8, cc_refreshSkew = 60, cc_negativeTTL = 5\<rparr>\<rparr>"

definition grant_env :: "(envelope file_state, write_env, unit) broker_env" where
  "grant_env = \<lparr>be_ops = file_ops example_codec plain_mac, be_write = \<lparr>we_nonce = ''n'', we_fault = None\<rparr>,
     be_resolve = (\<lambda>_. Inr ''secret''), be_client = (\<lambda>_ _. Inr ()), be_do = (\<lambda>_ _. DoFails), be_json = example_json,
     be_sha256 = (\<lambda>_. ''d''), be_now = 10, be_later = 20, be_parseAt = 15, be_updatedAt = 16\<rparr>"

definition grant_files :: "auth_records \<Rightarrow> envelope file_state" where
  "grant_files r = (\<lparr>fs_path = ''/var/store'', fs_encryptionKey = replicate 32 (CHR ''k''),
     fs_bindingKey = replicate 32 (CHR ''b''), fs_records = r\<rparr>, None)"

definition grant_broker :: "auth_records \<Rightarrow> (envelope file_state, unit) broker" where
  "grant_broker r = projr (newBroker (grant_files r) (10 * minute))"

lemma grant_broker_new: "newBroker (grant_files r) (10 * minute) = Inr (grant_broker r)"
  by (simp add: grant_broker_def newBroker_def dur_defs)

definition begun :: "(go_error + authorization_start) \<times> (envelope file_state, unit) broker" where
  "begun = beginAuthorization grant_env (Some ''state'') (Some ''verifier'') grant_command demo_principal ''https://gw.example/'' (grant_broker [])"

definition consumed :: "(string + unit pending_authorization) \<times> (envelope file_state, unit) broker" where
  "consumed = complete_begin 30 (b64_encode ''state'') ''code'' [] (snd begun)"

definition example_run :: "(envelope file_state, unit) grant_sys" where
  "example_run = \<lparr>gs_broker = snd consumed,
     gs_issued = [(b64_encode ''state'', the (map_of (bk_pending (snd begun)) (b64_encode ''state'')))],
     gs_exchanges = [(b64_encode ''state'', projr (fst consumed), ''code'', False)], gs_calls = []\<rparr>"

lemma grant_config_ok: "validateAuthorizationCommand grant_command = Inr grant_config"
proof -
  have "urlParse ''https://idp.example/authorize'' \<noteq> None" by code_simp
  then show ?thesis by (simp add: validateAuthorizationCommand_def grant_command_def grant_config_def example_oauth_def)
qed

lemma grant_env_fields [simp]:
  "be_ops grant_env = file_ops example_codec plain_mac" "be_resolve grant_env = (\<lambda>_. Inr ''secret'')"
  "be_client grant_env = (\<lambda>_ _. Inr ())" "be_do grant_env = (\<lambda>_ _. DoFails)" "be_now grant_env = 10" "be_later grant_env = 20"
  "be_parseAt grant_env = 15" "be_write grant_env = \<lparr>we_nonce = ''n'', we_fault = None\<rparr>"
  by (simp_all add: grant_env_def)

lemma grant_broker_fields [simp]:
  "bk_store (grant_broker r) = grant_files r" "bk_pending (grant_broker r) = []" "bk_clients (grant_broker r) = []"
  "bk_pendingByID (grant_broker r) = []" "bk_stateTTL (grant_broker r) = 600000000000" "bk_refreshes (grant_broker r) = []"
  by (simp_all add: grant_broker_def newBroker_def dur_defs)

lemma begun_ok: "\<exists>start. fst begun = Inr start \<and> as_expiresAt start = 600000000010"
  by (simp add: begun_def beginAuthorization_def grant_config_ok clientFor_def demo_principal_def secureRandomURLValue_def
      register_pending_def purgePending_def id_state_def maxPendingAuthorizations_def Let_def)

lemma grant_broker_inv: "pending_inv (grant_broker r)"
  using newBroker_inv [OF grant_broker_new, of r] by (simp add: states_inv_def)

lemma consumed_ok: "\<exists>pend. fst consumed = Inr pend"
proof -
  obtain start where b: "begun = (Inr start, snd begun)" "as_expiresAt start = 600000000010" using begun_ok by (metis prod.collapse)
  have "trimSpace (b64_encode ''state'') \<noteq> []" "trimSpace ''code'' \<noteq> []" by code_simp+
  from begun_completes [OF grant_broker_inv b(1) [unfolded begun_def], of 30 "''code''"] this b(2) show ?thesis
    by (auto simp: consumed_def begun_def)
qed

lemma example_run_reachable: "grant_reachable (file_ops example_codec plain_mac) (grant_broker []) example_run"
proof -
  let ?g0 = "\<lparr>gs_broker = grant_broker [], gs_issued = [], gs_exchanges = [], gs_calls = []\<rparr>"
  let ?i = "[(b64_encode ''state'', the (map_of (bk_pending (snd begun)) (b64_encode ''state'')))]"
  let ?g1 = "?g0\<lparr>gs_broker := snd begun, gs_issued := gs_issued ?g0 @ ?i\<rparr>"
  let ?e = "[(b64_encode ''state'', projr (fst consumed), ''code'', False)]"
  obtain start where b: "fst begun = Inr start" using begun_ok by blast
  obtain pend where c: "fst consumed = Inr pend" using consumed_ok by blast
  have bb: "beginAuthorization grant_env (Some ''state'') (Some ''verifier'') grant_command demo_principal ''https://gw.example/'' (grant_broker [])
      = (fst begun, snd begun)" by (simp only: begun_def prod.collapse)
  have cb: "complete_begin 30 (b64_encode ''state'') ''code'' [] (snd begun) = (fst consumed, snd consumed)"
    by (simp only: consumed_def prod.collapse)
  have "grant_step (file_ops example_codec plain_mac) ?g0 ?g1"
    by (rule grant_begin [where env = grant_env and rs = "''state''" and rv = "Some ''verifier''" and command = grant_command
          and p = demo_principal and url = "''https://gw.example/''" and r = "fst begun"])
      (simp_all add: bb b del: b64_encode.simps)
  moreover have "grant_step (file_ops example_codec plain_mac) ?g1 (?g1\<lparr>gs_broker := snd consumed, gs_exchanges := gs_exchanges ?g1 @ ?e\<rparr>)"
    by (rule grant_consume [where now = 30 and st = "b64_encode ''state''" and code = "''code''" and perr = "[]" and r = "fst consumed"])
      (simp_all add: cb c del: b64_encode.simps)
  ultimately have "grant_reachable (file_ops example_codec plain_mac) (grant_broker [])
      (?g1\<lparr>gs_broker := snd consumed, gs_exchanges := gs_exchanges ?g1 @ ?e\<rparr>)"
    by (intro grant_next [OF grant_next [OF grant_init]])
  then show ?thesis by (simp add: example_run_def)
qed

theorem authorization_states_one_time_witness:
  "length (exchanged example_run) = 1 \<and> set (exchanged example_run) \<subseteq> set (gs_issued example_run)"
  using authorization_states_one_time [OF grant_broker_new example_run_reachable] by (simp add: exchanged_def example_run_def)

theorem pending_authorizations_bounded_witness:
  "int (length (bk_pending (gs_broker example_run))) \<le> 10000"
  using pending_authorizations_bounded [OF grant_broker_new example_run_reachable] by simp

theorem pkce_binds_exchange_witness:
  "\<exists>pend. map_of (bk_pending (snd begun)) (b64_encode ''state'') = Some pend \<and> pa_expiresAt pend = 600000000010"
proof -
  obtain start where b: "begun = (Inr start, snd begun)" "as_expiresAt start = 600000000010" using begun_ok by (metis prod.collapse)
  from pkce_binds_exchange [OF grant_broker_inv b(1) [unfolded begun_def], where env' = grant_env and code = "[]" and ?b2.0 = "grant_broker []"] b(2)
  show ?thesis by (auto simp: begun_def)
qed

definition old_grant :: auth_token where
  "old_grant = \<lparr>ak_access = ''old'', ak_refresh = ''r0'', ak_expires = 50, ak_scopes = [], ak_updated = 1\<rparr>"

definition grant_key :: string where
  "grant_key = b64_encode ''m''"

lemma grant_key_eq: "command_key grant_env (grant_broker r) grant_command grant_config demo_principal = grant_key"
  by (simp add: command_key_def recordKey_def file_ops_def authorizationStoreKey_def plain_mac_def grant_key_def)

lemma grant_skew: "cc_refreshSkew (cmd_credentialCache grant_command) = 60"
  by (simp add: grant_command_def)

lemma grant_load_old: "load_access grant_env grant_command grant_config demo_principal cli (grant_broker [(grant_key, old_grant)]) = Refresh grant_key old_grant"
  by (simp add: load_access_def grant_key_eq Let_def fgrants.ops_load file_load_def grant_files_def load_record_def old_grant_def
      grant_skew)

definition refreshing :: "(envelope file_state, unit) grant_sys" where
  "refreshing = \<lparr>gs_broker = (grant_broker [(grant_key, old_grant)])\<lparr>bk_refreshes := [(grant_key, 0)]\<rparr>, gs_issued = [], gs_exchanges = [],
     gs_calls = [\<lparr>rc_key = grant_key, rc_token = old_grant, rc_phase = Leading\<rparr>, \<lparr>rc_key = grant_key, rc_token = old_grant, rc_phase = Over\<rparr>]\<rparr>"

lemma refreshing_reachable: "grant_reachable (file_ops example_codec plain_mac) (grant_broker [(grant_key, old_grant)]) refreshing"
proof -
  let ?b = "grant_broker [(grant_key, old_grant)]"
  let ?c = "\<lambda>ph. \<lparr>rc_key = grant_key, rc_token = old_grant, rc_phase = ph\<rparr>"
  let ?g = "\<lambda>b calls. \<lparr>gs_broker = b, gs_issued = [], gs_exchanges = [], gs_calls = calls\<rparr>"
  let ?b1 = "?b\<lparr>bk_refreshes := [(grant_key, 0)]\<rparr>"
  let ?ops = "file_ops example_codec plain_mac"
  have 1: "grant_step ?ops (?g ?b []) (?g ?b [?c Loaded])"
    using grant_load [of grant_env ?ops grant_command grant_config demo_principal "[]" "?g ?b []"] grant_load_old by simp
  have 2: "grant_step ?ops (?g ?b [?c Loaded]) (?g ?b [?c Loaded, ?c Loaded])"
    using grant_load [of grant_env ?ops grant_command grant_config demo_principal "[]" "?g ?b [?c Loaded]"] grant_load_old by simp
  have 3: "grant_step ?ops (?g ?b [?c Loaded, ?c Loaded]) (?g ?b1 [?c Leading, ?c Loaded])"
    using grant_enter [of 0 "?g ?b [?c Loaded, ?c Loaded]" None ?b1 ?ops] by (simp add: enter_refresh_def)
  have 4: "grant_step ?ops (?g ?b1 [?c Leading, ?c Loaded]) (?g ?b1 [?c Leading, ?c Over])"
    using grant_enter [of 1 "?g ?b1 [?c Leading, ?c Loaded]" "Some 0" ?b1 ?ops] by (simp add: enter_refresh_def)
  from grant_next [OF grant_next [OF grant_next [OF grant_next [OF grant_init 1] 2] 3] 4] show ?thesis
    by (simp add: refreshing_def)
qed

theorem refresh_single_flight_witness:
  "card {i. i < length (gs_calls refreshing) \<and> rc_phase (gs_calls refreshing ! i) = Leading \<and> rc_key (gs_calls refreshing ! i) = grant_key} \<le> 1"
  by (rule refresh_single_flight [OF grant_broker_new refreshing_reachable])

theorem refresh_outcomes_witness:
  "fst (snd (finish_refresh grant_env ''cg'' grant_config ''demo'' ''secret'' () grant_key old_grant (grant_broker [(grant_key, old_grant)]))) = Inr ''old''"
proof -
  obtain sent r b' where f: "finish_refresh grant_env ''cg'' grant_config ''demo'' ''secret'' () grant_key old_grant
      (grant_broker [(grant_key, old_grant)]) = (sent, r, b')" by (metis prod.exhaust)
  let ?c = grant_config
  let ?f1 = "set_if (oc_audience ?c \<noteq> []) ''audience'' (oc_audience ?c) (refresh_form ?c old_grant)"
  let ?f2 = "set_if (oc_resource ?c \<noteq> []) ''resource'' (oc_resource ?c) ?f1"
  let ?f3 = "set_if (qget ?f2 ''grant_type'' = [''refresh_token''] \<and> oc_scopes ?c \<noteq> []) ''scope'' (join (oc_scopes ?c) '' '') ?f2"
  have "newRequest ''POST'' (urlString example_url) None \<noteq> None" by code_simp
  then obtain rq0 where "newRequest ''POST'' (urlString example_url) (Some (encodeQuery ?f3)) = Some rq0"
    by (auto simp: newRequest_def Let_def split: if_splits)
  moreover have "applyOAuthClientAuthentication form ?c secret = Inr (True, form)" for form secret
    by (simp add: applyOAuthClientAuthentication_def grant_config_def example_oauth_def)
  ultimately obtain rq where e: "endpoint_request ''cli-gateway/downstream-oauth'' example_url ?c ''secret'' ?f3 = Inr rq"
    using endpoint_request_ok by blast
  have u: "oc_tokenURL ?c = Some example_url" by (simp add: grant_config_def example_oauth_def)
  have q: "requestAuthorizationCodeToken grant_env () ?c ''secret'' (refresh_form ?c old_grant) old_grant = (Some rq, Inl (EndpointErr True False))"
    unfolding requestAuthorizationCodeToken_def Let_def u option.case e sum.case by (simp add: grant_outcome_def)
  from refresh_outcomes [OF grant_env_fields(1) _ _ f q] f show ?thesis
    by (simp add: old_grant_def isTransientAuthorizationError_def)
qed

theorem grants_isolated_witness:
  "recordKey (file_ops example_codec (\<lambda>k x. x)) (grant_files []) ''demo'' ''d'' demo_principal
   \<noteq> recordKey (file_ops example_codec (\<lambda>k x. x)) (grant_files []) ''demo'' ''d'' (demo_principal\<lparr>pr_subject := ''bob''\<rparr>)"
  using grants_isolated [of demo_principal "''demo''" "''d''" "demo_principal\<lparr>pr_subject := ''bob''\<rparr>" "''demo''" "''d''" "\<lambda>k x. x" "grant_files []" example_codec]
  by (simp add: demo_principal_def inj_on_def)

theorem disconnect_forgets_witness:
  "file_load (bk_store (snd (snd (disconnect grant_env grant_command demo_principal (grant_broker [(grant_key, old_grant)]))))) grant_key
   = (zero_auth_token, False)"
proof -
  let ?b = "grant_broker [(grant_key, old_grant)]"
  obtain sent r b' where d: "disconnect grant_env grant_command demo_principal ?b = (sent, r, b')" by (metis prod.exhaust)
  have "fst (file_delete example_codec (be_write grant_env) grant_key (grant_files [(grant_key, old_grant)])) = None"
    by (simp add: file_delete_def grant_files_def Let_def persistLocked_def example_codec_def storeAEAD_ok_def)
  with disconnect_forgets [OF grant_env_fields(1) grant_config_ok d] d show ?thesis by (simp add: grant_key_eq)
qed

end
