(* ===== verification/Credential_Manager.thy ===== *)
theory Credential_Manager
  imports Auth_Grants Manifest_Compile
begin

text \<open>
  The generation-scoped credential broker, \<open>Manager\<close> of \<open>internal/credential/manager.go\<close>: one
  provider per domain, built from the snapshot's commands in order, and the dispatch of
  \<open>Authorize\<close> and \<open>Invalidate\<close> to it. The authorization-code broker is shared with the rest of
  the process and is passed along; the signer is an argument.
\<close>

section \<open>Providers\<close>

record 'c authorization_code_provider =
  ap_command :: compiled_command
  ap_config :: oauth_credential
  ap_clientSecret :: string
  ap_http :: 'c
  ap_cliName :: string

datatype 'c provider =
    SignedIdentityProvider
  | BearerPassthroughProvider
  | OAuthProvider oauth_provider
  | AuthorizationCodeProvider "'c authorization_code_provider"

definition newAuthorizationCodeProvider ::
  "('s, 'w, 'c) broker_env \<Rightarrow> compiled_command \<Rightarrow> string \<Rightarrow> ('s, 'c) broker option
   \<Rightarrow> (string + 'c authorization_code_provider) \<times> ('s, 'c) broker option" where
  "newAuthorizationCodeProvider env command cliName broker =
     (case broker of
        None \<Rightarrow> (Inl ''authorization-code broker is unavailable'', broker)
      | Some b \<Rightarrow>
          (case validateAuthorizationCommand command of
             Inl e \<Rightarrow> (Inl (apiErrorText e), broker)
           | Inr c \<Rightarrow>
               (case be_resolve env (oc_clientSecretRef c) of
                  Inl e \<Rightarrow> (Inl (''resolve client secret: '' @ e), broker)
                | Inr secret \<Rightarrow>
                    (case clientFor env command c b of
                       (Inl e, b') \<Rightarrow> (Inl (''initialize downstream OAuth transport: '' @ e), Some b')
                     | (Inr client, b') \<Rightarrow>
                         (if trimSpace cliName = [] then (Inl ''CLI name is required'', Some b')
                          else (Inr \<lparr>ap_command = command, ap_config = c, ap_clientSecret = secret, ap_http = client, ap_cliName = cliName\<rparr>,
                                Some b'))))))"

text \<open>
  The environment of a construction: whether there is a signer, the cache key, and the arguments of
  the OAuth constructors.
\<close>

record ('s, 'w, 'c) manager_env =
  me_signer :: "(invocation \<Rightarrow> string + string) option"
  me_cacheKey :: string
  me_transport :: "bool \<Rightarrow> tls_config \<Rightarrow> string option"
  me_broker :: "('s, 'w, 'c) broker_env"

definition select_provider ::
  "('s, 'w, 'c) manager_env \<Rightarrow> string \<Rightarrow> compiled_command \<Rightarrow> ('s, 'c) broker option
   \<Rightarrow> (string + 'c provider) \<times> ('s, 'c) broker option" where
  "select_provider env cliName command broker =
     (let mode = cmd_downstreamAuth command
      in if mode = DownstreamSignedIdentity then
           (if me_signer env = None then (Inl ''identity signer is unavailable'', broker) else (Inr SignedIdentityProvider, broker))
         else if mode = DownstreamBearerPassthrough then (Inr BearerPassthroughProvider, broker)
         else if mode = DownstreamTokenExchange \<or> mode = DownstreamClientCredentials then
           (case newOAuthProvider (be_sha256 (me_broker env)) (be_resolve (me_broker env)) (me_transport env) (me_cacheKey env) command of
              Inl e \<Rightarrow> (Inl e, broker) | Inr p \<Rightarrow> (Inr (OAuthProvider p), broker))
         else if mode = DownstreamAuthorizationCode then
           (case newAuthorizationCodeProvider (me_broker env) command cliName broker of
              (Inl e, b) \<Rightarrow> (Inl e, b) | (Inr p, b) \<Rightarrow> (Inr (AuthorizationCodeProvider p), b))
         else (Inl ''unsupported downstream credential mode'', broker))"

type_synonym 'c providers = "(string, 'c provider) gomap"

text \<open>The loop over the command keys; a key without a command is a nil dereference.\<close>

fun add_providers ::
  "('s, 'w, 'c) manager_env \<Rightarrow> snapshot \<Rightarrow> string list \<Rightarrow> 'c providers \<Rightarrow> ('s, 'c) broker option
   \<Rightarrow> (string + 'c providers) \<times> ('s, 'c) broker option" where
  "add_providers env sn [] ps broker = (Inr ps, broker)"
| "add_providers env sn (key # ks) ps broker =
     (case sn_commands sn key of
        None \<Rightarrow> (Inl ''nil pointer dereference'', broker)
      | Some command \<Rightarrow>
          (if map_of ps (cmd_domain command) \<noteq> None then add_providers env sn ks ps broker
           else (case select_provider env (sn_cliName sn) command broker of
                   (Inl e, b) \<Rightarrow> (Inl (''domain '' @ cmd_domain command @ '': '' @ e), b)
                 | (Inr p, b) \<Rightarrow> add_providers env sn ks (put (cmd_domain command) p ps) b)))"

definition newCredentialManager ::
  "('s, 'w, 'c) manager_env \<Rightarrow> snapshot option \<Rightarrow> ('s, 'c) broker option \<Rightarrow> (string + 'c providers) \<times> ('s, 'c) broker option" where
  "newCredentialManager env sn broker =
     (case sn of
        None \<Rightarrow> (Inl ''credential manager snapshot is required'', broker)
      | Some s \<Rightarrow> add_providers env s (sn_commandKeys s) [] broker)"

section \<open>Authorize and Invalidate\<close>

text \<open>The environment of one call; \<open>ce_waited\<close> is the answer of a refresh another caller leads.\<close>

record ('s, 'w, 'c) call_env =
  ce_manager :: "('s, 'w, 'c) manager_env"
  ce_oauth :: authorize_env
  ce_waited :: "go_error + string"

type_synonym ('s, 'c) manager_state = "'c providers \<times> ('s, 'c) broker"

definition authorizeSignedIdentity :: "(invocation \<Rightarrow> string + string) option \<Rightarrow> http_request \<Rightarrow> invocation \<Rightarrow> go_error + http_request" where
  "authorizeSignedIdentity signer rq iv =
     (case signer of
        None \<Rightarrow> Inl (APIErr (internalFault ''nil pointer dereference''))
      | Some sign \<Rightarrow>
          (case sign iv of
             Inl e \<Rightarrow> Inl (APIErr ((internalFault ''identity signing failed'')\<lparr>ae_cause := Some e\<rparr>))
           | Inr token \<Rightarrow> Inr (rq\<lparr>rq_header := headerSet ''X-Cli-Gateway-Identity'' token (rq_header rq)\<rparr>)))"

definition authorizeBearerPassthrough :: "http_request \<Rightarrow> invocation \<Rightarrow> go_error + http_request" where
  "authorizeBearerPassthrough rq iv =
     (if inv_bearerToken iv = [] then Inl (APIErr (apiError 502 ''E_DOWNSTREAM_AUTH'' ''inbound bearer is unavailable''))
      else Inr (setAuthorization (inv_bearerToken iv) rq))"

definition authorizeAuthorizationCode ::
  "('s, 'w, 'c) call_env \<Rightarrow> 'c authorization_code_provider \<Rightarrow> http_request \<Rightarrow> invocation \<Rightarrow> ('s, 'c) broker
   \<Rightarrow> (go_error + http_request) \<times> ('s, 'c) broker" where
  "authorizeAuthorizationCode ce p rq iv b =
     (case accessToken (me_broker (ce_manager ce)) (ap_command p) (ap_config p) (inv_principal iv) (ap_clientSecret p) (ap_http p)
             (ap_cliName p) (ce_waited ce) b of
        (_, Inl e, b') \<Rightarrow> (Inl e, b')
      | (_, Inr t, b') \<Rightarrow> (Inr (setAuthorization t rq), b'))"

definition managerAuthorize ::
  "('s, 'w, 'c) call_env \<Rightarrow> http_request \<Rightarrow> invocation \<Rightarrow> ('s, 'c) manager_state \<Rightarrow> (go_error + http_request) \<times> ('s, 'c) manager_state" where
  "managerAuthorize ce rq iv st =
     (case st of (ps, b) \<Rightarrow>
        (let domain = cmd_domain (inv_command iv)
         in case map_of ps domain of
              None \<Rightarrow> (Inl (APIErr (internalFault ''downstream credential provider is unavailable'')), st)
            | Some SignedIdentityProvider \<Rightarrow> (authorizeSignedIdentity (me_signer (ce_manager ce)) rq iv, st)
            | Some BearerPassthroughProvider \<Rightarrow> (authorizeBearerPassthrough rq iv, st)
            | Some (OAuthProvider p) \<Rightarrow>
                (let run = authorizeOAuth (ce_oauth ce) rq iv p;
                     st' = (put domain (OAuthProvider (pn_provider run)) ps, b)
                 in case pn_error run of
                      Some e \<Rightarrow> (Inl (APIErr e), st')
                    | None \<Rightarrow> (Inr (pn_request run), st'))
            | Some (AuthorizationCodeProvider p) \<Rightarrow>
                (case authorizeAuthorizationCode ce p rq iv b of (r, b') \<Rightarrow> (r, (ps, b')))))"

definition managerInvalidate :: "('s, 'w, 'c) call_env \<Rightarrow> invocation \<Rightarrow> ('s, 'c) manager_state \<Rightarrow> ('s, 'c) manager_state" where
  "managerInvalidate ce iv st =
     (case st of (ps, b) \<Rightarrow>
        (let domain = cmd_domain (inv_command iv)
         in case map_of ps domain of
              Some (OAuthProvider p) \<Rightarrow> (put domain (OAuthProvider (invalidateOAuth (az_hmac (ce_oauth ce)) iv p)) ps, b)
            | Some (AuthorizationCodeProvider p) \<Rightarrow>
                (ps, invalidateGrant (me_broker (ce_manager ce)) (ap_command p) (ap_config p) (inv_principal iv) b)
            | _ \<Rightarrow> st))"

section \<open>One provider per domain\<close>

text \<open>The provider that a command's mode calls for.\<close>

fun serves :: "compiled_command \<Rightarrow> 'c provider \<Rightarrow> bool" where
  "serves c SignedIdentityProvider = (cmd_downstreamAuth c = DownstreamSignedIdentity)"
| "serves c BearerPassthroughProvider = (cmd_downstreamAuth c = DownstreamBearerPassthrough)"
| "serves c (OAuthProvider p) =
     (cmd_downstreamAuth c \<in> {DownstreamTokenExchange, DownstreamClientCredentials} \<and> op_mode p = cmd_downstreamAuth c
      \<and> op_domain p = cmd_domain c \<and> cmd_oauthCredential c = Some (op_config p) \<and> oc_tokenURL (op_config p) \<noteq> None)"
| "serves c (AuthorizationCodeProvider p) =
     (cmd_downstreamAuth c = DownstreamAuthorizationCode \<and> cmd_domain (ap_command p) = cmd_domain c
      \<and> cmd_downstreamAuth (ap_command p) = cmd_downstreamAuth c \<and> cmd_oauthCredential c = Some (ap_config p)
      \<and> oc_tokenURL (ap_config p) \<noteq> None)"

lemma newOAuthProvider_serves:
  assumes "newOAuthProvider sha resolve transport hmacKey c = Inr p"
    "cmd_downstreamAuth c \<in> {DownstreamTokenExchange, DownstreamClientCredentials}"
  shows "serves c (OAuthProvider p)"
  using assms
  by (auto simp: newOAuthProvider_def Let_def split: option.splits if_splits sum.splits)

lemma validateAuthorizationCommand_Inr:
  "validateAuthorizationCommand c = Inr cfg \<Longrightarrow>
     cmd_downstreamAuth c = DownstreamAuthorizationCode \<and> cmd_oauthCredential c = Some cfg \<and> oc_authorizationURL cfg \<noteq> None
     \<and> oc_tokenURL cfg \<noteq> None"
  by (auto simp: validateAuthorizationCommand_def split: option.splits if_splits)

lemma newAuthorizationCodeProvider_serves:
  "newAuthorizationCodeProvider env c cliName broker = (Inr p, b) \<Longrightarrow> serves c (AuthorizationCodeProvider p)"
  by (auto simp: newAuthorizationCodeProvider_def dest!: validateAuthorizationCommand_Inr
      split: option.splits sum.splits prod.splits if_splits)

lemma select_provider_serves:
  "select_provider env cliName c broker = (Inr p, b) \<Longrightarrow> serves c p"
  by (auto simp: select_provider_def Let_def simp del: serves.simps(3,4) split: if_splits sum.splits prod.splits
      intro: newOAuthProvider_serves newAuthorizationCodeProvider_serves)

text \<open>
  A built manager has a provider for the domain of every command, made for the first command of that
  domain in key order; domains of no command have none.
\<close>

lemma add_providers_covers:
  assumes "add_providers env sn ks ps broker = (Inr ps', broker')"
    "\<forall>d p. map_of ps d = Some p \<longrightarrow> (\<exists>k c. sn_commands sn k = Some c \<and> cmd_domain c = d \<and> serves c p)"
  shows "(\<forall>d p. map_of ps' d = Some p \<longrightarrow> (\<exists>k c. sn_commands sn k = Some c \<and> cmd_domain c = d \<and> serves c p))
    \<and> (\<forall>k \<in> set ks. \<exists>c p. sn_commands sn k = Some c \<and> map_of ps' (cmd_domain c) = Some p)
    \<and> (\<forall>d p. map_of ps d = Some p \<longrightarrow> map_of ps' d = Some p)"
  using assms
proof (induction env sn ks ps broker rule: add_providers.induct)
  case (1 env sn ps broker)
  then show ?case by simp
next
  case (2 env sn key ks ps broker)
  obtain command where c: "sn_commands sn key = Some command" using "2.prems"(1) by (cases "sn_commands sn key") simp_all
  show ?case
  proof (cases "map_of ps (cmd_domain command)")
    case (Some p)
    then have "add_providers env sn ks ps broker = (Inr ps', broker')" using "2.prems"(1) c by simp
    from "2.IH"(1) [OF c _ this "2.prems"(2)] Some c show ?thesis by auto
  next
    case None
    obtain p b where s: "select_provider env (sn_cliName sn) command broker = (Inr p, b)"
      and r: "add_providers env sn ks (put (cmd_domain command) p ps) b = (Inr ps', broker')"
      using "2.prems"(1) c None by (auto split: prod.splits sum.splits)
    have inv: "\<forall>d q. map_of (put (cmd_domain command) p ps) d = Some q \<longrightarrow> (\<exists>k c. sn_commands sn k = Some c \<and> cmd_domain c = d \<and> serves c q)"
      using "2.prems"(2) c select_provider_serves [OF s] by auto
    note ih = "2.IH"(2) [OF c _ s [symmetric] refl r inv]
    have dom: "map_of ps' (cmd_domain command) = Some p" using ih None by simp
    have "map_of ps' d = Some q" if "map_of ps d = Some q" for d q
      using ih None that by (metis map_of_put_apply option.distinct(1))
    with ih None dom c show ?thesis by auto
  qed
qed

section \<open>Domains of an accepted manifest\<close>

text \<open>All commands of a domain carry the domain's credential configuration.\<close>

definition domains_uniform :: "snapshot \<Rightarrow> bool" where
  "domains_uniform s \<longleftrightarrow>
     (\<forall>k k' c c'. sn_commands s k = Some c \<longrightarrow> sn_commands s k' = Some c' \<longrightarrow> cmd_domain c = cmd_domain c' \<longrightarrow>
        cmd_downstreamAuth c = cmd_downstreamAuth c' \<and> cmd_oauthCredential c = cmd_oauthCredential c')"

lemma compile_domains_uniform:
  assumes "validate raw pos = []"
  shows "domains_uniform (compile sha now raw data src)"
proof -
  have d: "distinct (map rd_name (m_domains raw))" using validate_manifest_ok [OF assms] by (simp add: manifest_ok_def)
  have same: "cmd_downstreamAuth c = cmd_downstreamAuth c' \<and> cmd_oauthCredential c = cmd_oauthCredential c'"
    if c: "c \<in> set (compiledCommands (m_domains raw))" "c' \<in> set (compiledCommands (m_domains raw))" "cmd_domain c = cmd_domain c'" for c c'
  proof -
    from c(1,2) obtain e r e' r' where e: "e \<in> set (m_domains raw)" "c = compileCommand e r" "e' \<in> set (m_domains raw)" "c' = compileCommand e' r'"
      by (auto simp: in_compiledCommands)
    with c(3) have "rd_name e = rd_name e'" by (simp add: compileCommand_def)
    with d e have "e = e'" by (metis distinct_map inj_onD)
    with e show ?thesis by (simp add: compileCommand_def)
  qed
  have "c \<in> set (compiledCommands (m_domains raw))" if "sn_commands (compile sha now raw data src) k = Some c" for k c
    using map_of_SomeD [OF that [unfolded compile_simps]] by auto
  with same show ?thesis unfolding domains_uniform_def by blast
qed

lemma serves_uniform:
  assumes "serves c p" "cmd_domain c = cmd_domain c'" "cmd_downstreamAuth c = cmd_downstreamAuth c'"
    "cmd_oauthCredential c = cmd_oauthCredential c'"
  shows "serves c' p"
  using assms by (cases p) auto

lemma manager_provider:
  assumes "newCredentialManager env (Some s) broker = (Inr ps, broker')" "snapshot_wf s" "domains_uniform s" "sn_commands s k = Some c"
  shows "\<exists>p. map_of ps (cmd_domain c) = Some p \<and> serves c p"
proof -
  have a: "add_providers env s (sn_commandKeys s) [] broker = (Inr ps, broker')" using assms(1) by (simp add: newCredentialManager_def)
  have cov: "(\<forall>d p. map_of ps d = Some p \<longrightarrow> (\<exists>k c. sn_commands s k = Some c \<and> cmd_domain c = d \<and> serves c p))"
    "(\<forall>k \<in> set (sn_commandKeys s). \<exists>c p. sn_commands s k = Some c \<and> map_of ps (cmd_domain c) = Some p)"
    using add_providers_covers [OF a] by simp_all
  have "k \<in> set (sn_commandKeys s)" using snapshot_wf_command [OF assms(2,4)] by simp
  with cov(2) assms(4) obtain p where p: "map_of ps (cmd_domain c) = Some p" by force
  with cov(1) obtain k' c' where c': "sn_commands s k' = Some c'" "cmd_domain c' = cmd_domain c" "serves c' p" by blast
  have "cmd_downstreamAuth c' = cmd_downstreamAuth c \<and> cmd_oauthCredential c' = cmd_oauthCredential c"
    using assms(3,4) c'(1,2) unfolding domains_uniform_def by blast
  with c' p serves_uniform show ?thesis by blast
qed

section \<open>What each mode adds to the request\<close>

text \<open>
  The request after a successful \<open>Authorize\<close>: the identity assertion and nothing else for
  signed identities, the caller's own bearer for passthrough, a bearer of the broker otherwise.
\<close>

lemma managerAuthorize_Inr:
  assumes "managerAuthorize ce rq iv (ps, b) = (Inr rq', st')" "map_of ps (cmd_domain (inv_command iv)) = Some p"
    "serves (inv_command iv) p"
  shows "if cmd_downstreamAuth (inv_command iv) = DownstreamSignedIdentity
     then (\<exists>sign token. me_signer (ce_manager ce) = Some sign \<and> sign iv = Inr token
            \<and> rq' = rq\<lparr>rq_header := headerSet ''X-Cli-Gateway-Identity'' token (rq_header rq)\<rparr>)
     else if cmd_downstreamAuth (inv_command iv) = DownstreamBearerPassthrough
     then inv_bearerToken iv \<noteq> [] \<and> rq' = setAuthorization (inv_bearerToken iv) rq
     else (\<exists>t. rq' = setAuthorization t rq)"
proof (cases p)
  case SignedIdentityProvider
  then show ?thesis using assms
    by (auto simp: managerAuthorize_def Let_def authorizeSignedIdentity_def split: option.splits sum.splits)
next
  case BearerPassthroughProvider
  then show ?thesis using assms
    by (auto simp: managerAuthorize_def Let_def authorizeBearerPassthrough_def split: if_splits)
next
  case (OAuthProvider o1)
  let ?run = "authorizeOAuth (ce_oauth ce) rq iv o1"
  have r: "pn_error ?run = None" "rq' = pn_request ?run"
    using assms(1,2) OAuthProvider by (auto simp: managerAuthorize_def Let_def split: option.splits)
  have "\<exists>t. pn_request ?run = setAuthorization t rq"
    using r(1) by (auto simp: authorizeOAuth_def deliver_def Let_def split: if_splits prod.splits begun.splits option.splits)
  with r assms(3) OAuthProvider show ?thesis by auto
next
  case (AuthorizationCodeProvider a)
  then have "\<exists>t. rq' = setAuthorization t rq"
    using assms(1,2) by (auto simp: managerAuthorize_def Let_def authorizeAuthorizationCode_def split: prod.splits sum.splits)
  with assms(3) AuthorizationCodeProvider show ?thesis by auto
qed

section \<open>Calls in sequence\<close>

text \<open>
  Calls change the caches and breakers of the providers and the grants of the broker, never which
  provider a domain has.
\<close>

datatype ('s, 'w, 'c) manager_call =
    AuthorizeCall "('s, 'w, 'c) call_env" http_request invocation
  | InvalidateCall "('s, 'w, 'c) call_env" invocation

fun manager_step :: "('s, 'w, 'c) manager_call \<Rightarrow> ('s, 'c) manager_state \<Rightarrow> ('s, 'c) manager_state" where
  "manager_step (AuthorizeCall ce rq iv) st = snd (managerAuthorize ce rq iv st)"
| "manager_step (InvalidateCall ce iv) st = managerInvalidate ce iv st"

definition covers :: "snapshot \<Rightarrow> 'c providers \<Rightarrow> bool" where
  "covers s ps \<longleftrightarrow> (\<forall>k c. sn_commands s k = Some c \<longrightarrow> (\<exists>p. map_of ps (cmd_domain c) = Some p \<and> serves c p))"

lemma authorizeOAuth_keeps:
  "op_mode (pn_provider (authorizeOAuth az rq iv p)) = op_mode p
   \<and> op_domain (pn_provider (authorizeOAuth az rq iv p)) = op_domain p
   \<and> op_config (pn_provider (authorizeOAuth az rq iv p)) = op_config p"
  by (auto simp: authorizeOAuth_def Let_def split: prod.splits begun.splits)

lemma covers_put_oauth:
  assumes "covers s ps" "map_of ps d = Some (OAuthProvider p)"
    "op_mode p' = op_mode p" "op_domain p' = op_domain p" "op_config p' = op_config p"
  shows "covers s (put d (OAuthProvider p') ps)"
  unfolding covers_def
proof (intro allI impI)
  fix k c assume "sn_commands s k = Some c"
  then obtain q where q: "map_of ps (cmd_domain c) = Some q" "serves c q" using assms(1) unfolding covers_def by blast
  show "\<exists>q. map_of (put d (OAuthProvider p') ps) (cmd_domain c) = Some q \<and> serves c q"
    using q assms(2-) by (cases "cmd_domain c = d") auto
qed

lemma manager_step_covers: "covers s (fst st) \<Longrightarrow> covers s (fst (manager_step call st))"
  by (cases call; cases st)
    (auto simp: managerAuthorize_def managerInvalidate_def invalidateOAuth_def Let_def authorizeOAuth_keeps
      split: option.splits provider.splits prod.splits intro!: covers_put_oauth)

lemma manager_calls_cover: "covers s (fst st) \<Longrightarrow> covers s (fst (fold manager_step calls st))"
  by (induction calls arbitrary: st) (simp_all add: manager_step_covers)

lemma manager_covers:
  assumes "newCredentialManager env (Some s) broker = (Inr ps, broker')" "snapshot_wf s" "domains_uniform s"
  shows "covers s ps"
  using manager_provider [OF assms] unfolding covers_def by blast

end
