(* ===== verification/Upstream_Dialer.thy ===== *)
theory Upstream_Dialer
  imports Manifest_Accepted Gateway_Model
begin

text \<open>
  The network boundary of every outgoing connection, \<open>internal/upstream\<close>: the dialer that
  resolves, checks and dials (\<open>dialer.go\<close>), and the configuration of the HTTP clients
  (\<open>client.go\<close>). DNS, the outcome of a dial, the files and the certificate parsers are arguments.
\<close>

section \<open>Addresses\<close>

text \<open>
  A \<open>netip.Addr\<close>: its bytes in the IPv4-in-IPv6 form and its zone. \<open>Unmap\<close> makes an
  IPv4-mapped address an IPv4 one, which has no zone; on its result the predicates of
  \<open>netip.Addr\<close> are those of \<open>net.IP\<close>, except that the unspecified address has no zone.
\<close>

record netaddr =
  na_bytes :: ip
  na_zone :: string

definition unmap :: "netaddr \<Rightarrow> netaddr" where
  "unmap a = (if to4 (na_bytes a) \<noteq> None then a\<lparr>na_zone := []\<rparr> else a)"

definition parseNetAddr :: "string \<Rightarrow> netaddr option" where
  "parseNetAddr host =
     map_option (\<lambda>(b, _, has_zone). \<lparr>na_bytes = b, na_zone = (if has_zone then fst (snd (cut (CHR ''%'') host)) else [])\<rparr>)
       (parseAddr host)"

definition addrUnspecified :: "netaddr \<Rightarrow> bool" where
  "addrUnspecified a \<longleftrightarrow> isUnspecified (na_bytes a) \<and> na_zone a = []"

text \<open>The zero \<open>Addr\<close> is \<open>None\<close>.\<close>

definition validateAddress :: "netaddr option \<Rightarrow> bool \<Rightarrow> string option" where
  "validateAddress address allowLocal =
     (case address of
        None \<Rightarrow> Some ''unspecified address''
      | Some a \<Rightarrow>
          (if addrUnspecified a then Some ''unspecified address''
           else if isMulticast (na_bytes a) \<or> isLinkLocalUnicast (na_bytes a)
           then Some ''multicast and link-local addresses are forbidden''
           else if isLoopback (na_bytes a) \<and> \<not> allowLocal then Some ''loopback requires network.allow_local=true''
           else None))"

section \<open>Dialing\<close>

text \<open>\<open>net.SplitHostPort\<close>.\<close>

definition splitHostPort :: "string \<Rightarrow> (string \<times> string) option" where
  "splitHostPort hostport =
     (case split_last (CHR '':'') hostport of
        None \<Rightarrow> None
      | Some (before, port) \<Rightarrow>
          (if hd hostport = CHR ''['' then
             (case cut (CHR '']'') (tl hostport) of
                (host, rest, found) \<Rightarrow>
                  (if \<not> found \<or> rest \<noteq> CHR '':'' # port \<or> CHR ''['' \<in> set host \<or> CHR ''['' \<in> set rest \<or> CHR '']'' \<in> set rest
                   then None else Some (host, port)))
           else if CHR '':'' \<in> set before \<or> CHR ''['' \<in> set hostport \<or> CHR '']'' \<in> set hostport then None
           else Some (before, port)))"

record dial_env =
  dl_lookup :: "string \<Rightarrow> netaddr option list option"
  dl_dial :: "netaddr option \<Rightarrow> string \<Rightarrow> string option"

definition resolveHost :: "dial_env \<Rightarrow> string \<Rightarrow> string + netaddr option list" where
  "resolveHost env host =
     (case parseNetAddr host of
        Some direct \<Rightarrow> Inr [Some (unmap direct)]
      | None \<Rightarrow>
          (case dl_lookup env host of
             None \<Rightarrow> Inl ''resolve upstream host''
           | Some [] \<Rightarrow> Inl ''resolve upstream host: no addresses''
           | Some as \<Rightarrow> Inr (map (map_option unmap) as)))"

text \<open>The addresses dialled, in order, and the connection: the address it goes to, or an error.\<close>

fun dial_candidates :: "dial_env \<Rightarrow> string \<Rightarrow> netaddr option list \<Rightarrow> netaddr option list \<times> (string + netaddr option)" where
  "dial_candidates env port [] = ([], Inl ''dial upstream'')"
| "dial_candidates env port (a # as) =
     (case dl_dial env a port of
        None \<Rightarrow> ([a], Inr a)
      | Some _ \<Rightarrow> (case dial_candidates env port as of (ds, r) \<Rightarrow> (a # ds, r)))"

definition dialContext :: "dial_env \<Rightarrow> bool \<Rightarrow> string \<Rightarrow> netaddr option list \<times> (string + netaddr option)" where
  "dialContext env allowLocal address =
     (case splitHostPort address of
        None \<Rightarrow> ([], Inl ''split upstream address'')
      | Some (host, port) \<Rightarrow>
          (case resolveHost env host of
             Inl e \<Rightarrow> ([], Inl e)
           | Inr as \<Rightarrow>
               (case first_some (\<lambda>a. validateAddress a allowLocal) as of
                  Some e \<Rightarrow> ([], Inl (''upstream address rejected: '' @ e))
                | None \<Rightarrow> dial_candidates env port as)))"

lemma dial_candidates_subset:
  "dial_candidates env port as = (ds, r) \<Longrightarrow> set ds \<subseteq> set as \<and> (\<forall>a. r = Inr a \<longrightarrow> a \<in> set ds \<and> dl_dial env a port = None)"
  by (induction as arbitrary: ds r) (auto split: option.splits prod.splits)

text \<open>What must never be dialled, by address range.\<close>

definition forbidden_address :: "bool \<Rightarrow> ip \<Rightarrow> bool" where
  "forbidden_address allowLocal b \<longleftrightarrow>
     (case to4 b of
        Some v4 \<Rightarrow> v4 = [0, 0, 0, 0] \<or> v4 ! 0 div 16 = 14 \<or> (v4 ! 0 = 169 \<and> v4 ! 1 = 254) \<or> (v4 ! 0 = 127 \<and> \<not> allowLocal)
      | None \<Rightarrow> (length b = 16 \<and> (b ! 0 = 255 \<or> (b ! 0 = 254 \<and> b ! 1 div 64 = 2))) \<or> (b = replicate 15 0 @ [1] \<and> \<not> allowLocal))"

lemma to4_zero: "to4 b = Some [0, 0, 0, 0] \<Longrightarrow> isUnspecified b"
  unfolding isUnspecified_def to4_def by (metis append_take_drop_id append.assoc append_Cons append_Nil option.distinct(1) option.inject)

lemma validateAddress_allowed:
  assumes "validateAddress (Some a) allowLocal = None" "unmap a = a"
  shows "\<not> forbidden_address allowLocal (na_bytes a) \<and> (na_bytes a = replicate 16 0 \<longrightarrow> na_zone a \<noteq> [])"
proof -
  have v4: "na_zone a = []" if "to4 (na_bytes a) = Some v" for v
    using assms(2) that by (cases a) (simp add: unmap_def)
  have z: "to4 (na_bytes a) \<noteq> Some [0, 0, 0, 0]"
    using assms(1) v4 to4_zero by (auto simp: validateAddress_def addrUnspecified_def split: if_splits)
  show ?thesis
    using assms(1) z
    by (auto simp: validateAddress_def addrUnspecified_def forbidden_address_def isMulticast_def isLinkLocalUnicast_def isLoopback_def
        isUnspecified_def split: if_splits option.splits)
qed

lemma unmap_idem [simp]: "unmap (unmap a) = unmap a"
  by (simp add: unmap_def)


text \<open>
  Validation of the manifest and the dialer agree on literal addresses: an upstream whose host is an
  IP literal (without a zone) is accepted by the one exactly when it is accepted by the other.
\<close>

lemma manifest_dialer_agree:
  assumes "parseIP host = Some a"
  shows "(\<exists>d. parseNetAddr host = Some d \<and> (validateAddress (Some (unmap d)) allowLocal = None \<longleftrightarrow> ip_ok allowLocal a))"
proof -
  from assms obtain v4 where p: "parseAddr host = Some (a, v4, False)"
    by (auto simp: parseIP_def split: option.splits bool.splits)
  then show ?thesis
    using linkLocalMulticast_is_multicast [of a]
    by (auto simp: parseNetAddr_def unmap_def validateAddress_def addrUnspecified_def ip_ok_def)
qed

text \<open>
  The unspecified IPv6 address with a zone passes both: the manifest takes \<open>::%lo\<close> for a host
  name, and \<open>netip.Addr.IsUnspecified\<close> is false for an address with a zone.
\<close>

theorem zoned_unspecified_accepted:
  "parseIP ''::%lo'' = None
   \<and> (\<exists>d. parseNetAddr ''::%lo'' = Some d \<and> na_bytes d = replicate 16 0 \<and> validateAddress (Some (unmap d)) False = None)"
proof -
  have "parseIP ''::%lo'' = None" "parseNetAddr ''::%lo'' = Some \<lparr>na_bytes = replicate 16 0, na_zone = ''lo''\<rparr>"
    "validateAddress (Some (unmap \<lparr>na_bytes = replicate 16 0, na_zone = ''lo''\<rparr>)) False = None"
    by code_simp+
  then show ?thesis by simp
qed

section \<open>Clients\<close>

text \<open>
  The parts of an \<open>http.Client\<close> the gateway sets. Certificates are opaque: \<open>tl_readFile\<close> and
  the parsers are arguments.
\<close>

record tls_files =
  tl_readFile :: "string \<Rightarrow> string option"
  tl_systemPool :: "string list option"
  tl_certsOf :: "string \<Rightarrow> string list"
  tl_keyPair :: "string \<Rightarrow> string \<Rightarrow> string option"

record tls_setup =
  ts_minVersion :: int
  ts_insecure :: bool
  ts_roots :: "string list option"
  ts_certificate :: "string option"

record http_client =
  hc_timeout :: duration
  hc_headerTimeout :: duration
  hc_allowLocal :: bool
  hc_followRedirects :: bool
  hc_useProxy :: bool
  hc_forceHTTP2 :: bool
  hc_maxIdleConns :: int
  hc_maxIdleConnsPerHost :: int
  hc_maxConnsPerHost :: int
  hc_idleConnTimeout :: duration
  hc_tlsHandshakeTimeout :: duration
  hc_tls :: tls_setup

text \<open>\<open>tls.VersionTLS12\<close>.\<close>

definition versionTLS12 :: int where
  "versionTLS12 = 0x303"

definition loadTLSConfig :: "tls_files \<Rightarrow> tls_config \<Rightarrow> string + tls_setup" where
  "loadTLSConfig fs options =
     rbind
       (if tls_caFile options = [] then Inr None
        else (case tl_readFile fs (tls_caFile options) of
                None \<Rightarrow> Inl ''read TLS CA file''
              | Some contents \<Rightarrow>
                  (case tl_systemPool fs of
                     None \<Rightarrow> Inl ''load system certificate pool''
                   | Some roots \<Rightarrow>
                       (if tl_certsOf fs contents = [] then Inl ''TLS CA file contains no certificates''
                        else Inr (Some (roots @ tl_certsOf fs contents))))))
       (\<lambda>roots.
          if (tls_clientCertFile options = []) \<noteq> (tls_clientKeyFile options = [])
          then Inl ''TLS client certificate and key must be configured together''
          else if tls_clientCertFile options \<noteq> [] then
            (case tl_keyPair fs (tls_clientCertFile options) (tls_clientKeyFile options) of
               None \<Rightarrow> Inl ''load TLS client certificate''
             | Some cert \<Rightarrow>
                 Inr \<lparr>ts_minVersion = versionTLS12, ts_insecure = tls_insecureSkipVerify options, ts_roots = roots, ts_certificate = Some cert\<rparr>)
          else Inr \<lparr>ts_minVersion = versionTLS12, ts_insecure = tls_insecureSkipVerify options, ts_roots = roots, ts_certificate = None\<rparr>)"

definition newClient :: "tls_files \<Rightarrow> duration \<Rightarrow> duration \<Rightarrow> bool \<Rightarrow> tls_config \<Rightarrow> string + http_client" where
  "newClient fs overall headerTimeout allowLocal options =
     rbind (loadTLSConfig fs options) (\<lambda>t.
       Inr \<lparr>hc_timeout = overall, hc_headerTimeout = (if headerTimeout > 30 * second then 30 * second else headerTimeout),
            hc_allowLocal = allowLocal, hc_followRedirects = False, hc_useProxy = False, hc_forceHTTP2 = True,
            hc_maxIdleConns = 512, hc_maxIdleConnsPerHost = 128, hc_maxConnsPerHost = 256, hc_idleConnTimeout = 90 * second,
            hc_tlsHandshakeTimeout = 5 * second, hc_tls = t\<rparr>)"

definition newClientWithTLS :: "tls_files \<Rightarrow> duration \<Rightarrow> bool \<Rightarrow> tls_config \<Rightarrow> string + http_client" where
  "newClientWithTLS fs timeout allowLocal options = newClient fs timeout timeout allowLocal options"

definition newStreamingClientWithTLS :: "tls_files \<Rightarrow> duration \<Rightarrow> bool \<Rightarrow> tls_config \<Rightarrow> string + http_client" where
  "newStreamingClientWithTLS fs headerTimeout allowLocal options = newClient fs 0 headerTimeout allowLocal options"

text \<open>A client never verifies less than configured and waits at most half a minute for headers.\<close>

lemma newClient_config:
  assumes "newClient fs overall headerTimeout allowLocal options = Inr c"
  shows "hc_headerTimeout c \<le> 30 * second \<and> hc_timeout c = overall \<and> hc_allowLocal c = allowLocal \<and> \<not> hc_followRedirects c
    \<and> \<not> hc_useProxy c \<and> ts_insecure (hc_tls c) = tls_insecureSkipVerify options
    \<and> (ts_certificate (hc_tls c) \<noteq> None \<longleftrightarrow> tls_clientCertFile options \<noteq> [])
    \<and> (ts_roots (hc_tls c) \<noteq> None \<longleftrightarrow> tls_caFile options \<noteq> [])"
  using assms by (auto simp: newClient_def loadTLSConfig_def rbind_Inr split: if_splits option.splits)

section \<open>Example\<close>

definition example_dial :: dial_env where
  "example_dial = \<lparr>dl_lookup = (\<lambda>h. if h = ''api'' then Some [Some \<lparr>na_bytes = replicate 10 0 @ [255, 255, 10, 0, 0, 7], na_zone = []\<rparr>]
       else Some [Some \<lparr>na_bytes = replicate 10 0 @ [255, 255, 169, 254, 169, 254], na_zone = []\<rparr>]), dl_dial = (\<lambda>_ _. None)\<rparr>"


end
