(* ===== verification/Auth_Keys.thy ===== *)
theory Auth_Keys
  imports Invoke_Request Upstream_Dialer
begin

text \<open>
  The trusted key set, \<open>internal/auth/jwks.go\<close>: its refresh from the issuer's endpoint with
  validators and freshness lifetime, the overlap of a key rotation, the window in which old keys
  outlive a failing endpoint, and the throttle on unknown key identifiers. The parser of key sets,
  the transport and the clock readings are arguments.
\<close>

section \<open>Key sets\<close>

text \<open>A key of the JOSE library: its \<open>kid\<close> and its material, which the gateway does not look at.\<close>

record 'k jwk_key =
  jk_id :: string
  jk_raw :: 'k

type_synonym 'k key_set = "'k jwk_key list"

text \<open>\<open>Set.AddKey\<close> refuses a key that is in the set, and the sources ignore the refusal.\<close>

definition addKey :: "'k jwk_key \<Rightarrow> 'k key_set \<Rightarrow> 'k key_set" where
  "addKey k ks = (if k \<in> set ks then ks else ks @ [k])"

definition containsKeyID :: "'k key_set option \<Rightarrow> string \<Rightarrow> bool" where
  "containsKeyID fresh expected = (case fresh of None \<Rightarrow> False | Some ks \<Rightarrow> list_ex (\<lambda>k. jk_id k = expected) ks)"

definition copyKeySet :: "'k key_set \<Rightarrow> 'k key_set" where
  "copyKeySet source = fold addKey source []"

fun check_ids :: "string list \<Rightarrow> 'k key_set \<Rightarrow> string option" where
  "check_ids seen [] = None"
| "check_ids seen (k # ks) =
     (if jk_id k = [] then Some ''every JWKS key must have a kid''
      else if jk_id k \<in> set seen then Some (''JWKS contains duplicate kid '' @ jk_id k)
      else check_ids (jk_id k # seen) ks)"

definition validateKeyIDs :: "'k key_set \<Rightarrow> string option" where
  "validateKeyIDs ks = check_ids [] ks"

text \<open>The previous keys whose identifiers the new set does not use.\<close>

definition merge_previous :: "'k key_set \<Rightarrow> 'k key_set \<Rightarrow> 'k key_set" where
  "merge_previous previous combined =
     fold (\<lambda>k acc. if containsKeyID (Some acc) (jk_id k) then acc else addKey k acc) previous combined"

section \<open>Freshness lifetimes\<close>

definition trimQuotes :: "string \<Rightarrow> string" where
  "trimQuotes s = rev (dropWhile (\<lambda>c. c = CHR 0x22) (rev (dropWhile (\<lambda>c. c = CHR 0x22) s)))"

fun max_age_of :: "string list \<Rightarrow> duration" where
  "max_age_of [] = 0"
| "max_age_of (directive # ds) =
     (case cut (CHR ''='') (trimSpace directive) of (name, raw, found) \<Rightarrow>
        (if \<not> found \<or> \<not> equalFold name ''max-age'' then max_age_of ds
         else (case parseInt64 (trimQuotes raw) of
                 Some seconds \<Rightarrow> (if 0 < seconds \<and> seconds \<le> 86400 then seconds * second else max_age_of ds)
               | None \<Rightarrow> max_age_of ds)))"

definition cacheMaxAge :: "string \<Rightarrow> duration" where
  "cacheMaxAge value = max_age_of (splitOn (CHR '','') value)"

section \<open>The manager\<close>

definition maxJWKSBytes :: nat where
  "maxJWKSBytes = 2 ^ 20"

record jwks_options =
  jo_refreshInterval :: duration
  jo_previousOverlap :: duration
  jo_staleIfError :: duration

record 'k key_snapshot =
  ks_current :: "'k key_set"
  ks_withPrevious :: "'k key_set"
  ks_previousUntil :: gotime
  ks_fetchedAt :: gotime

record 'k jwks_manager =
  jm_url :: string
  jm_client :: http_client
  jm_refreshInterval :: duration
  jm_previousOverlap :: duration
  jm_staleIfError :: duration
  jm_current :: "'k key_snapshot option"
  jm_etag :: string
  jm_modified :: string
  jm_lastAttempt :: gotime
  jm_missing :: "(string, gotime) gomap"

definition newJWKSManager :: "tls_files \<Rightarrow> string \<Rightarrow> bool \<Rightarrow> jwks_options \<Rightarrow> tls_config \<Rightarrow> string + 'k jwks_manager" where
  "newJWKSManager fs url allowLocal options tls =
     (if trimSpace url = [] then Inl ''JWKS URL is required''
      else (case newClientWithTLS fs (10 * second) allowLocal tls of
              Inl e \<Rightarrow> Inl (''initialize JWKS transport: '' @ e)
            | Inr client \<Rightarrow>
                Inr \<lparr>jm_url = url, jm_client = client,
                     jm_refreshInterval = (if jo_refreshInterval options \<le> 0 then 5 * minute else jo_refreshInterval options),
                     jm_previousOverlap = (if jo_previousOverlap options \<le> 0 then 15 * minute else jo_previousOverlap options),
                     jm_staleIfError = (if jo_staleIfError options \<le> 0 then 24 * hour else jo_staleIfError options),
                     jm_current = None, jm_etag = [], jm_modified = [], jm_lastAttempt = zero_time, jm_missing = []\<rparr>))"

text \<open>\<open>Current\<close> reads the clock twice.\<close>

definition currentKeys :: "gotime \<Rightarrow> gotime \<Rightarrow> 'k jwks_manager \<Rightarrow> 'k key_set option" where
  "currentKeys since now m =
     (case jm_current m of
        None \<Rightarrow> None
      | Some s \<Rightarrow>
          (if time_sub since (ks_fetchedAt s) > jm_staleIfError m then None
           else if now < ks_previousUntil s then Some (ks_withPrevious s)
           else Some (ks_current s)))"

text \<open>
  The environment of one refresh: the reply of the endpoint (an error of the transport, or status,
  header and body unless reading it fails), the key-set parser, and the clock readings in the order
  the code takes them.
\<close>

datatype jwks_reply = JwksFails string | JwksReply int http_header "string option"

record 'k jwks_env =
  je_do :: "http_request \<Rightarrow> jwks_reply"
  je_parse :: "string \<Rightarrow> string + 'k key_set"
  je_checkAt :: gotime
  je_since :: gotime
  je_now :: gotime
  je_missAt :: gotime
  je_attemptAt :: gotime
  je_doneAt :: gotime

definition jwks_request :: "'k jwks_manager \<Rightarrow> http_request option" where
  "jwks_request m =
     map_option (\<lambda>rq.
       (let h = headerSet ''Accept'' ''application/json'' (rq_header rq);
            h = (if jm_etag m \<noteq> [] then headerSet ''If-None-Match'' (jm_etag m) h else h);
            h = (if jm_modified m \<noteq> [] then headerSet ''If-Modified-Since'' (jm_modified m) h else h)
        in rq\<lparr>rq_header := h\<rparr>))
     (newRequest ''GET'' (jm_url m) None)"

text \<open>The body of a reply of status 2xx; the transport delivers at most one byte beyond the limit.\<close>

definition accepted_keys :: "'k jwks_env \<Rightarrow> string option \<Rightarrow> string + 'k key_set" where
  "accepted_keys je body =
     (case body of
        None \<Rightarrow> Inl ''read''
      | Some text \<Rightarrow>
          (if length text > maxJWKSBytes then Inl ''JWKS response exceeds 1 MiB''
           else (case je_parse je text of
                   Inl e \<Rightarrow> Inl (''parse JWKS: '' @ e)
                 | Inr fresh \<Rightarrow>
                     (if fresh = [] then Inl ''trusted JWKS contains no keys''
                      else (case validateKeyIDs fresh of Some e \<Rightarrow> Inl e | None \<Rightarrow> Inr fresh)))))"

definition publish_keys :: "gotime \<Rightarrow> http_header \<Rightarrow> 'k key_set \<Rightarrow> 'k jwks_manager \<Rightarrow> 'k jwks_manager" where
  "publish_keys now h fresh m =
     (let combined = merge_previous (case jm_current m of None \<Rightarrow> [] | Some s \<Rightarrow> ks_current s) (copyKeySet fresh);
          maxAge = cacheMaxAge (headerGet h ''Cache-Control'')
      in m\<lparr>jm_current := Some \<lparr>ks_current = fresh, ks_withPrevious = combined,
                               ks_previousUntil = now + jm_previousOverlap m, ks_fetchedAt = now\<rparr>,
           jm_etag := headerGet h ''ETag'', jm_modified := headerGet h ''Last-Modified'',
           jm_refreshInterval := (if maxAge > 0 then maxAge else jm_refreshInterval m)\<rparr>)"

definition apply_reply :: "'k jwks_env \<Rightarrow> jwks_reply \<Rightarrow> 'k jwks_manager \<Rightarrow> string option \<times> 'k jwks_manager" where
  "apply_reply je reply m =
     (case reply of
        JwksFails e \<Rightarrow> (Some e, m)
      | JwksReply st h body \<Rightarrow>
          (if st = 304 then
             (case jm_current m of
                None \<Rightarrow> (Some ''JWKS returned 304 without a cached key set'', m)
              | Some s \<Rightarrow> (None, m\<lparr>jm_current := Some (s\<lparr>ks_fetchedAt := je_doneAt je\<rparr>)\<rparr>))
           else if st < 200 \<or> st \<ge> 300 then (Some (''JWKS endpoint returned status '' @ formatInt st), m)
           else (case accepted_keys je body of
                   Inl e \<Rightarrow> (Some e, m)
                 | Inr fresh \<Rightarrow> (None, publish_keys (je_doneAt je) h fresh m))))"

text \<open>\<open>refreshLocked\<close>: the request sent, the error and the manager afterwards.\<close>

definition refreshLocked :: "'k jwks_env \<Rightarrow> 'k jwks_manager \<Rightarrow> http_request option \<times> string option \<times> 'k jwks_manager" where
  "refreshLocked je m0 =
     (let m = m0\<lparr>jm_lastAttempt := je_attemptAt je\<rparr>
      in case jwks_request m of
           None \<Rightarrow> (None, Some ''request'', m)
         | Some rq \<Rightarrow> (Some rq, apply_reply je (je_do je rq) m))"

definition refreshKeys :: "'k jwks_env \<Rightarrow> 'k jwks_manager \<Rightarrow> http_request option \<times> string option \<times> 'k jwks_manager" where
  "refreshKeys je m =
     (if \<not> is_zero (jm_lastAttempt m) \<and> time_sub (je_checkAt je) (jm_lastAttempt m) < second
         \<and> currentKeys (je_since je) (je_now je) m \<noteq> None
      then (None, None, m) else refreshLocked je m)"

definition missing_attempt :: "'k jwks_manager \<Rightarrow> string \<Rightarrow> gotime" where
  "missing_attempt m kid = (case map_of (jm_missing m) kid of Some t \<Rightarrow> t | None \<Rightarrow> zero_time)"

definition refreshUnknownKey :: "'k jwks_env \<Rightarrow> string \<Rightarrow> 'k jwks_manager \<Rightarrow> http_request option \<times> string option \<times> 'k jwks_manager" where
  "refreshUnknownKey je kid m =
     (if containsKeyID (currentKeys (je_since je) (je_now je) m) kid then (None, None, m)
      else if \<not> is_zero (missing_attempt m kid) \<and> time_sub (je_checkAt je) (missing_attempt m kid) < minute then (None, None, m)
      else (let cleared = (if length (jm_missing m) > 1024 then [] else jm_missing m)
            in refreshLocked je (m\<lparr>jm_missing := put kid (je_missAt je) cleared\<rparr>)))"

text \<open>
  Calls on one manager, which its mutex puts in some order: \<open>Refresh\<close>, which the background loop of
  \<open>Start\<close> makes too whenever its timer of one refresh interval expires, and \<open>RefreshUnknownKey\<close>.
\<close>

datatype 'k jwks_call = RefreshCall "'k jwks_env" | UnknownCall "'k jwks_env" string

fun jwks_run :: "'k jwks_call \<Rightarrow> 'k jwks_manager \<Rightarrow> http_request option \<times> string option \<times> 'k jwks_manager" where
  "jwks_run (RefreshCall je) m = refreshKeys je m"
| "jwks_run (UnknownCall je kid) m = refreshUnknownKey je kid m"

definition jwks_step :: "'k jwks_call \<Rightarrow> 'k jwks_manager \<Rightarrow> 'k jwks_manager" where
  "jwks_step c m = snd (snd (jwks_run c m))"

definition start_wait :: "'k jwks_manager \<Rightarrow> duration" where
  "start_wait m = jm_refreshInterval m"

section \<open>Identifiers\<close>

lemma check_ids_None:
  "check_ids seen ks = None \<longleftrightarrow> [] \<notin> set (map jk_id ks) \<and> distinct (map jk_id ks) \<and> set (map jk_id ks) \<inter> set seen = {}"
  by (induction ks arbitrary: seen) auto

lemma validateKeyIDs_None: "validateKeyIDs ks = None \<longleftrightarrow> [] \<notin> set (map jk_id ks) \<and> distinct (map jk_id ks)"
  by (simp add: validateKeyIDs_def check_ids_None)

lemma containsKeyID_iff: "containsKeyID (Some ks) kid \<longleftrightarrow> kid \<in> set (map jk_id ks)"
  by (auto simp: containsKeyID_def list_ex_iff)

lemma fold_addKey: "distinct (map jk_id (acc @ ks)) \<Longrightarrow> fold addKey ks acc = acc @ ks"
  by (induction ks arbitrary: acc) (auto simp: addKey_def)

lemma copyKeySet_distinct: "distinct (map jk_id ks) \<Longrightarrow> copyKeySet ks = ks"
  by (simp add: copyKeySet_def fold_addKey)

text \<open>Merging appends exactly the previous keys whose identifiers are new.\<close>

lemma merge_previous_eq:
  assumes "distinct (map jk_id previous)"
  shows "merge_previous previous ks = ks @ filter (\<lambda>k. jk_id k \<notin> set (map jk_id ks)) previous"
  using assms
proof (induction previous arbitrary: ks)
  case (Cons k previous)
  have tail: "filter (\<lambda>x. jk_id x \<notin> set (map jk_id (ks @ [k]))) previous = filter (\<lambda>x. jk_id x \<notin> set (map jk_id ks)) previous"
  proof (rule filter_cong [OF refl])
    fix x assume "x \<in> set previous"
    then have "jk_id x \<noteq> jk_id k" using Cons.prems by (metis distinct.simps(2) image_eqI list.simps(9) set_map)
    then show "jk_id x \<notin> set (map jk_id (ks @ [k])) \<longleftrightarrow> jk_id x \<notin> set (map jk_id ks)" by simp
  qed
  show ?case
  proof (cases "jk_id k \<in> set (map jk_id ks)")
    case True
    then show ?thesis using Cons by (simp add: merge_previous_def containsKeyID_iff del: set_map)
  next
    case False
    then have "k \<notin> set ks" by auto
    then have "merge_previous (k # previous) ks = merge_previous previous (ks @ [k])"
      using False by (simp add: merge_previous_def containsKeyID_iff addKey_def del: set_map)
    then show ?thesis using Cons.IH [of "ks @ [k]"] Cons.prems tail False by simp
  qed
qed (simp add: merge_previous_def)

section \<open>What a refresh does\<close>

definition key_set_ok :: "'k key_set \<Rightarrow> bool" where
  "key_set_ok ks \<longleftrightarrow> ks \<noteq> [] \<and> [] \<notin> set (map jk_id ks) \<and> distinct (map jk_id ks)"

lemma accepted_keys_Inr:
  "accepted_keys je body = Inr ks \<Longrightarrow> \<exists>doc. body = Some doc \<and> length doc \<le> maxJWKSBytes \<and> je_parse je doc = Inr ks \<and> key_set_ok ks"
  by (auto simp: accepted_keys_def key_set_ok_def validateKeyIDs_None split: option.splits if_splits sum.splits)

lemma apply_reply_cases:
  obtains (failed) e where "apply_reply je r m = (Some e, m)"
    | (unchanged) s where "jm_current m = Some s" "apply_reply je r m = (None, m\<lparr>jm_current := Some (s\<lparr>ks_fetchedAt := je_doneAt je\<rparr>)\<rparr>)"
    | (published) st h doc ks where "r = JwksReply st h (Some doc)" "200 \<le> st" "st < 300" "je_parse je doc = Inr ks" "key_set_ok ks"
        "length doc \<le> maxJWKSBytes" "apply_reply je r m = (None, publish_keys (je_doneAt je) h ks m)"
proof -
  have "(\<exists>e. apply_reply je r m = (Some e, m))
    \<or> (\<exists>s. jm_current m = Some s \<and> apply_reply je r m = (None, m\<lparr>jm_current := Some (s\<lparr>ks_fetchedAt := je_doneAt je\<rparr>)\<rparr>))
    \<or> (\<exists>st h body ks. r = JwksReply st h body \<and> 200 \<le> st \<and> st < 300 \<and> accepted_keys je body = Inr ks
         \<and> apply_reply je r m = (None, publish_keys (je_doneAt je) h ks m))"
    by (cases r) (simp_all add: apply_reply_def split: option.splits sum.splits)
  then show thesis
  proof (elim disjE exE conjE)
    fix st h body ks
    assume r: "r = JwksReply st h body" "200 \<le> st" "st < 300" "accepted_keys je body = Inr ks"
      "apply_reply je r m = (None, publish_keys (je_doneAt je) h ks m)"
    obtain doc where "body = Some doc" "length doc \<le> maxJWKSBytes" "je_parse je doc = Inr ks" "key_set_ok ks"
      using accepted_keys_Inr [OF r(4)] by blast
    with r show thesis using published by blast
  qed (rule failed unchanged; assumption)+
qed

lemma publish_keys_current:
  assumes "key_set_ok ks" "\<And>s. jm_current m = Some s \<Longrightarrow> key_set_ok (ks_current s)"
  shows "jm_current (publish_keys now h ks m) = Some \<lparr>ks_current = ks,
     ks_withPrevious = ks @ filter (\<lambda>k. jk_id k \<notin> set (map jk_id ks)) (case jm_current m of None \<Rightarrow> [] | Some s \<Rightarrow> ks_current s),
     ks_previousUntil = now + jm_previousOverlap m, ks_fetchedAt = now\<rparr>"
proof -
  let ?p = "case jm_current m of None \<Rightarrow> [] | Some s \<Rightarrow> ks_current s"
  have "distinct (map jk_id ?p)" using assms(2) by (auto simp: key_set_ok_def split: option.splits)
  then show ?thesis using assms(1) merge_previous_eq [of ?p ks]
    by (simp add: publish_keys_def Let_def key_set_ok_def copyKeySet_distinct)
qed

lemma publish_keys_fields [simp]:
  "jm_missing (publish_keys now h ks m) = jm_missing m" "jm_previousOverlap (publish_keys now h ks m) = jm_previousOverlap m"
  "jm_staleIfError (publish_keys now h ks m) = jm_staleIfError m" "jm_url (publish_keys now h ks m) = jm_url m"
  by (simp_all add: publish_keys_def Let_def)

lemma max_age_range: "0 \<le> max_age_of ds \<and> max_age_of ds \<le> 24 * hour"
  by (induction ds) (auto simp: dur_defs split: prod.splits option.splits)

section \<open>The invariant\<close>

text \<open>
  Every published set has keys, each with an identifier of its own; the overlap set extends the
  current one; the throttle table is bounded.
\<close>

definition snapshot_keys_ok :: "'k key_snapshot \<Rightarrow> bool" where
  "snapshot_keys_ok s \<longleftrightarrow> key_set_ok (ks_current s) \<and> key_set_ok (ks_withPrevious s)
     \<and> (\<exists>old. ks_withPrevious s = ks_current s @ old)"

definition jwks_inv :: "'k jwks_manager \<Rightarrow> bool" where
  "jwks_inv m \<longleftrightarrow> (\<forall>s. jm_current m = Some s \<longrightarrow> snapshot_keys_ok s) \<and> wf_map (jm_missing m) \<and> length (jm_missing m) \<le> 1025
     \<and> 0 < jm_refreshInterval m \<and> 0 < jm_previousOverlap m \<and> 0 < jm_staleIfError m"

lemma key_set_ok_merge:
  assumes "key_set_ok ks" "[] \<notin> set (map jk_id p)" "distinct (map jk_id p)"
  shows "key_set_ok (ks @ filter (\<lambda>k. jk_id k \<notin> set (map jk_id ks)) p)"
proof -
  let ?q = "filter (\<lambda>k. jk_id k \<notin> set (map jk_id ks)) p"
  have "x \<notin> set (map jk_id ks) \<and> x \<noteq> []" if x: "x \<in> set (map jk_id ?q)" for x
  proof -
    obtain y where "y \<in> set ?q" "x = jk_id y" using x by auto
    then show ?thesis using assms(2) by simp (metis imageI)
  qed
  then have "set (map jk_id ks) \<inter> set (map jk_id ?q) = {}" "[] \<notin> set (map jk_id ?q)" by blast+
  moreover have "distinct (map jk_id ?q)" by (rule distinct_map_filter [OF assms(3)])
  ultimately show ?thesis
    using assms(1) unfolding key_set_ok_def map_append distinct_append set_append by simp
qed

lemma publish_keys_inv:
  assumes "jwks_inv m" "key_set_ok ks"
  shows "jwks_inv (publish_keys now h ks m)"
proof -
  let ?p = "case jm_current m of None \<Rightarrow> [] | Some s \<Rightarrow> ks_current s"
  have old: "key_set_ok (ks_current s)" if "jm_current m = Some s" for s
    using assms(1) that by (simp add: jwks_inv_def snapshot_keys_ok_def)
  have p: "[] \<notin> set (map jk_id ?p)" "distinct (map jk_id ?p)"
    by (cases "jm_current m"; use old in \<open>simp add: key_set_ok_def\<close>)+
  have "key_set_ok (ks @ filter (\<lambda>k. jk_id k \<notin> set (map jk_id ks)) ?p)" by (rule key_set_ok_merge [OF assms(2) p])
  then have "snapshot_keys_ok s" if "jm_current (publish_keys now h ks m) = Some s" for s
    using that assms(2) by (auto simp: snapshot_keys_ok_def publish_keys_current [of ks m now h, OF assms(2) old])
  moreover have "0 < jm_refreshInterval (publish_keys now h ks m)"
    using assms(1) by (simp add: publish_keys_def Let_def jwks_inv_def)
  ultimately show ?thesis using assms(1) by (auto simp: jwks_inv_def)
qed

lemma apply_reply_inv: "jwks_inv m \<Longrightarrow> jwks_inv (snd (apply_reply je r m))"
proof (rule apply_reply_cases [of je r m])
  fix s assume "jwks_inv m" "jm_current m = Some s" "apply_reply je r m = (None, m\<lparr>jm_current := Some (s\<lparr>ks_fetchedAt := je_doneAt je\<rparr>)\<rparr>)"
  then show ?thesis by (simp add: jwks_inv_def snapshot_keys_ok_def)
qed (simp_all add: publish_keys_inv)

lemma refreshLocked_inv: "jwks_inv m \<Longrightarrow> jwks_inv (snd (snd (refreshLocked je m)))"
  using apply_reply_inv [of "m\<lparr>jm_lastAttempt := je_attemptAt je\<rparr>"]
  by (simp add: refreshLocked_def Let_def jwks_inv_def split: option.splits)

lemma jwks_step_inv: "jwks_inv m \<Longrightarrow> jwks_inv (jwks_step c m)"
proof (cases c)
  case (RefreshCall je)
  then show "jwks_inv m \<Longrightarrow> jwks_inv (jwks_step c m)"
    by (simp add: jwks_step_def refreshKeys_def refreshLocked_inv)
next
  case (UnknownCall je kid)
  let ?cleared = "if length (jm_missing m) > 1024 then [] else jm_missing m"
  assume inv: "jwks_inv m"
  then have "jwks_inv (m\<lparr>jm_missing := put kid (je_missAt je) ?cleared\<rparr>)"
    by (simp add: jwks_inv_def length_put)
  from refreshLocked_inv [OF this] inv UnknownCall show "jwks_inv (jwks_step c m)"
    by (simp add: jwks_step_def refreshUnknownKey_def Let_def)
qed

lemma jwks_steps_inv: "jwks_inv m \<Longrightarrow> jwks_inv (fold jwks_step cs m)"
  by (induction cs arbitrary: m) (simp_all add: jwks_step_inv)

lemma newJWKSManager_inv: "newJWKSManager fs url allowLocal options tls = Inr m \<Longrightarrow> jwks_inv m \<and> jm_current m = None"
  by (auto simp: newJWKSManager_def jwks_inv_def dur_defs split: if_splits sum.splits)

section \<open>Where served keys come from\<close>

text \<open>A key of an accepted reply of the endpoint.\<close>

definition published :: "'k jwks_env \<Rightarrow> 'k jwk_key \<Rightarrow> bool" where
  "published je k \<longleftrightarrow> (\<exists>rq st h doc ks. je_do je rq = JwksReply st h (Some doc) \<and> 200 \<le> st \<and> st < 300
     \<and> length doc \<le> maxJWKSBytes \<and> je_parse je doc = Inr ks \<and> k \<in> set ks)"

fun env_of :: "'k jwks_call \<Rightarrow> 'k jwks_env" where
  "env_of (RefreshCall je) = je"
| "env_of (UnknownCall je kid) = je"

definition keys_within :: "'k jwk_key set \<Rightarrow> 'k jwks_manager \<Rightarrow> bool" where
  "keys_within K m \<longleftrightarrow> (\<forall>s. jm_current m = Some s \<longrightarrow> set (ks_current s) \<union> set (ks_withPrevious s) \<subseteq> K)"

lemma refreshLocked_within:
  assumes "jwks_inv m" "keys_within K m" "Collect (published je) \<subseteq> K"
  shows "keys_within K (snd (snd (refreshLocked je m)))"
proof (cases "jwks_request (m\<lparr>jm_lastAttempt := je_attemptAt je\<rparr>)")
  case None
  then show ?thesis using assms(2) by (simp add: refreshLocked_def Let_def keys_within_def)
next
  case (Some rq)
  let ?m = "m\<lparr>jm_lastAttempt := je_attemptAt je\<rparr>"
  have m: "snd (snd (refreshLocked je m)) = snd (apply_reply je (je_do je rq) ?m)"
    by (simp add: refreshLocked_def Let_def Some)
  show ?thesis
  proof (rule apply_reply_cases [of je "je_do je rq" ?m])
    fix st h doc ks
    assume a: "je_do je rq = JwksReply st h (Some doc)" "200 \<le> st" "st < 300" "je_parse je doc = Inr ks" "key_set_ok ks"
      "length doc \<le> maxJWKSBytes" "apply_reply je (je_do je rq) ?m = (None, publish_keys (je_doneAt je) h ks ?m)"
    have "set ks \<subseteq> Collect (published je)" using a unfolding published_def by blast
    with assms(3) have ks: "set ks \<subseteq> K" by blast
    have old: "key_set_ok (ks_current s)" if "jm_current ?m = Some s" for s
      using assms(1) that by (simp add: jwks_inv_def snapshot_keys_ok_def)
    show ?thesis
      using assms(2) ks publish_keys_current [of ks ?m "je_doneAt je" h, OF a(5) old]
      by (cases "jm_current m") (auto simp: m a(7) keys_within_def)
  qed (use assms(2) in \<open>simp_all add: m keys_within_def\<close>)
qed

lemma jwks_step_within:
  assumes "jwks_inv m" "keys_within K m" "Collect (published (env_of c)) \<subseteq> K"
  shows "keys_within K (jwks_step c m)"
proof (cases c)
  case (RefreshCall je)
  then show ?thesis using assms by (simp add: jwks_step_def refreshKeys_def refreshLocked_within)
next
  case (UnknownCall je kid)
  let ?m = "m\<lparr>jm_missing := put kid (je_missAt je) (if length (jm_missing m) > 1024 then [] else jm_missing m)\<rparr>"
  have "jwks_inv ?m" "keys_within K ?m" using assms(1,2) by (simp_all add: jwks_inv_def keys_within_def length_put)
  from refreshLocked_within [OF this] show ?thesis
    using assms UnknownCall by (simp add: jwks_step_def refreshUnknownKey_def Let_def)
qed

lemma jwks_steps_within:
  assumes "jwks_inv m" "keys_within K m" "\<And>c. c \<in> set cs \<Longrightarrow> Collect (published (env_of c)) \<subseteq> K"
  shows "keys_within K (fold jwks_step cs m)"
  using assms
proof (induction cs arbitrary: m)
  case (Cons c cs)
  then show ?case using Cons.IH [OF jwks_step_inv jwks_step_within] by simp
qed simp

lemma currentKeys_lastAttempt [simp]: "currentKeys since now (m\<lparr>jm_lastAttempt := t\<rparr>) = currentKeys since now m"
  by (cases "jm_current m") (simp_all add: currentKeys_def)

lemma currentKeys_Some:
  assumes "currentKeys since now m = Some ks"
  obtains s where "jm_current m = Some s" "time_sub since (ks_fetchedAt s) \<le> jm_staleIfError m" "ks = ks_current s \<or> ks = ks_withPrevious s"
  using assms by (auto simp: currentKeys_def split: option.splits if_splits)

text \<open>Only keys the issuer published are trusted: after any calls on a new manager, the keys that
  \<open>Current\<close> serves are a non-empty set with pairwise different, non-empty identifiers, each of which an
  accepted reply of the key endpoint contained, and the table of unknown identifiers has at most
  1025 entries, however many identifiers callers make up.\<close>

theorem served_keys_published:
  assumes "newJWKSManager fs url allowLocal options tls = Inr m" "currentKeys since now (fold jwks_step calls m) = Some ks"
  shows "ks \<noteq> [] \<and> [] \<notin> set (map jk_id ks) \<and> distinct (map jk_id ks)
    \<and> set ks \<subseteq> {k. list_ex (\<lambda>c. published (env_of c) k) calls}
    \<and> length (jm_missing (fold jwks_step calls m)) \<le> 1025"
proof -
  let ?K = "{k. list_ex (\<lambda>c. published (env_of c) k) calls}" and ?m = "fold jwks_step calls m"
  have new: "jwks_inv m" "keys_within ?K m" using newJWKSManager_inv [OF assms(1)] by (simp_all add: keys_within_def)
  have inv: "jwks_inv ?m" by (rule jwks_steps_inv [OF new(1)])
  have within: "keys_within ?K ?m"
    by (rule jwks_steps_within [OF new]) (auto simp: list_ex_iff)
  obtain s where s: "jm_current ?m = Some s" "ks = ks_current s \<or> ks = ks_withPrevious s"
    by (rule currentKeys_Some [OF assms(2)])
  have "key_set_ok ks" using s inv by (auto simp: jwks_inv_def snapshot_keys_ok_def)
  moreover have "set ks \<subseteq> ?K" using s within unfolding keys_within_def by blast
  ultimately show ?thesis using inv by (simp add: key_set_ok_def jwks_inv_def)
qed

section \<open>Rotation and failure\<close>

text \<open>A refresh publishes a whole new key set or keeps the old one: when it fails, \<open>Current\<close> answers as
  before; when the endpoint reports no change, the same keys stay fresh for another staleness
  window; and when it sends a set, \<open>Current\<close> serves that set together with the previous keys of other
  identifiers until the overlap ends, and exactly that set afterwards, up to the staleness limit.\<close>

theorem refresh_publishes_atomically:
  assumes "jwks_inv m" "refreshLocked je m = (Some rq, err, m')"
  shows "case err of
      Some _ \<Rightarrow> (\<forall>since now. currentKeys since now m' = currentKeys since now m)
    | None \<Rightarrow>
        (\<exists>s. jm_current m' = Some s \<and> ks_fetchedAt s = je_doneAt je
          \<and> (\<forall>since now. currentKeys since now m' =
                (if time_sub since (je_doneAt je) > jm_staleIfError m then None
                 else if now < ks_previousUntil s then Some (ks_withPrevious s) else Some (ks_current s)))
          \<and> (case je_do je rq of
                JwksFails _ \<Rightarrow> False
              | JwksReply st h body \<Rightarrow>
                  (if st = 304 then (\<exists>s0. jm_current m = Some s0 \<and> s = s0\<lparr>ks_fetchedAt := je_doneAt je\<rparr>)
                   else (\<exists>doc ks. body = Some doc \<and> je_parse je doc = Inr ks \<and> ks_current s = ks
                          \<and> ks_previousUntil s = je_doneAt je + jm_previousOverlap m
                          \<and> ks_withPrevious s = ks @ filter (\<lambda>k. jk_id k \<notin> set (map jk_id ks))
                               (case jm_current m of None \<Rightarrow> [] | Some s0 \<Rightarrow> ks_current s0)))))"
proof -
  let ?m = "m\<lparr>jm_lastAttempt := je_attemptAt je\<rparr>"
  have a: "apply_reply je (je_do je rq) ?m = (err, m')"
    using assms(2) by (auto simp: refreshLocked_def Let_def split: option.splits)
  show ?thesis
  proof (rule apply_reply_cases [of je "je_do je rq" ?m])
    fix e assume "apply_reply je (je_do je rq) ?m = (Some e, ?m)"
    then show ?thesis using a by auto
  next
    fix s assume s: "jm_current ?m = Some s"
      "apply_reply je (je_do je rq) ?m = (None, ?m\<lparr>jm_current := Some (s\<lparr>ks_fetchedAt := je_doneAt je\<rparr>)\<rparr>)"
    then have m': "err = None" "m' = ?m\<lparr>jm_current := Some (s\<lparr>ks_fetchedAt := je_doneAt je\<rparr>)\<rparr>" using a by simp_all
    obtain st h body where r: "je_do je rq = JwksReply st h body" using s by (cases "je_do je rq") (simp_all add: apply_reply_def)
    show ?thesis
    proof (cases "st = 304")
      case True
      then show ?thesis using s(1) r by (simp add: m' currentKeys_def)
    next
      case False
      then obtain ks where ks: "accepted_keys je body = Inr ks" "m' = publish_keys (je_doneAt je) h ks ?m"
        using a r m'(1) by (auto simp: apply_reply_def split: if_splits sum.splits)
      obtain doc where doc: "body = Some doc" "je_parse je doc = Inr ks" "key_set_ok ks" using accepted_keys_Inr [OF ks(1)] by blast
      have old: "key_set_ok (ks_current s)" if "jm_current ?m = Some s" for s
        using assms(1) that by (simp add: jwks_inv_def snapshot_keys_ok_def)
      show ?thesis
        using False r doc publish_keys_current [of ks ?m "je_doneAt je" h, OF doc(3) old] unfolding m'(1)
        by (simp add: ks(2) currentKeys_def)
    qed
  next
    fix st h doc ks
    assume r: "je_do je rq = JwksReply st h (Some doc)" "200 \<le> st" "st < 300" "je_parse je doc = Inr ks" "key_set_ok ks"
      "apply_reply je (je_do je rq) ?m = (None, publish_keys (je_doneAt je) h ks ?m)"
    have old: "key_set_ok (ks_current s)" if "jm_current ?m = Some s" for s
      using assms(1) that by (simp add: jwks_inv_def snapshot_keys_ok_def)
    from r a have m': "err = None" "m' = publish_keys (je_doneAt je) h ks ?m" by simp_all
    show ?thesis
      using r publish_keys_current [of ks ?m "je_doneAt je" h, OF r(5) old] by (simp add: m' currentKeys_def)
  qed
qed

text \<open>
  An overlap lasts until the next set arrives, not for its configured length: a key that a rotation
  dropped is gone with the first refresh after it.
\<close>

theorem overlap_cut_short:
  assumes "jwks_inv m" "jm_current m = Some s" "k \<in> set (ks_current s)" "key_set_ok ks" "jk_id k \<notin> set (map jk_id ks)"
    "t \<le> t'" "t' < t + jm_previousOverlap m"
  shows "k \<in> set (ks_withPrevious (the (jm_current (publish_keys t h ks m))))
    \<and> t' < ks_previousUntil (the (jm_current (publish_keys t h ks m)))
    \<and> currentKeys t' t' (publish_keys t' h' ks (publish_keys t h ks m)) = Some ks"
proof -
  let ?m = "publish_keys t h ks m"
  have old: "key_set_ok (ks_current s)" if "jm_current m = Some s" for s
    using assms(1) that by (simp add: jwks_inv_def snapshot_keys_ok_def)
  note first = publish_keys_current [of ks m t h, OF assms(4) old]
  have old': "key_set_ok (ks_current s)" if "jm_current ?m = Some s" for s
    using that assms(4) by (auto simp: first)
  have "filter (\<lambda>k. jk_id k \<notin> set (map jk_id ks)) ks = []" by (simp add: filter_empty_conv)
  with publish_keys_current [of ks ?m t' h', OF assms(4) old'] first assms show ?thesis
    by (simp add: currentKeys_def jwks_inv_def)
qed

section \<open>Unknown identifiers\<close>

definition looks_up :: "string \<Rightarrow> 'k jwks_call \<Rightarrow> bool" where
  "looks_up kid c = (case c of RefreshCall _ \<Rightarrow> False | UnknownCall _ kid' \<Rightarrow> kid' = kid)"

lemma refreshLocked_missing [simp]: "jm_missing (snd (snd (refreshLocked je m))) = jm_missing m"
proof -
  have "jm_missing (snd (apply_reply je r m)) = jm_missing m" for r m
    by (rule apply_reply_cases [of je r m]) simp_all
  then show ?thesis by (simp add: refreshLocked_def Let_def split: option.splits)
qed

lemma jwks_step_missing:
  assumes "length (jm_missing m) \<le> 1024" "\<not> looks_up kid c"
  shows "map_of (jm_missing (jwks_step c m)) kid = map_of (jm_missing m) kid
    \<and> length (jm_missing (jwks_step c m)) \<le> Suc (length (jm_missing m))"
  using assms by (cases c) (auto simp: jwks_step_def refreshKeys_def refreshUnknownKey_def looks_up_def length_put)

lemma jwks_steps_missing:
  assumes "length (jm_missing m) + length cs \<le> 1025" "list_all (\<lambda>c. \<not> looks_up kid c) cs"
  shows "map_of (jm_missing (fold jwks_step cs m)) kid = map_of (jm_missing m) kid"
  using assms
proof (induction cs arbitrary: m)
  case (Cons c cs)
  then have "length (jm_missing m) \<le> 1024" "\<not> looks_up kid c" by simp_all
  note step = jwks_step_missing [OF this]
  have "map_of (jm_missing (fold jwks_step cs (jwks_step c m))) kid = map_of (jm_missing (jwks_step c m)) kid"
    by (rule Cons.IH) (use Cons.prems step in auto)
  with step show ?case by simp
qed simp

text \<open>Asking again for an identifier the issuer does not have costs no second request within a minute:
  once a lookup of an unknown identifier went to the endpoint, a later one of the same identifier
  makes no request while less than a minute has passed, unless the table of unknown identifiers was
  flushed by a flood of other ones in between.\<close>

theorem unknown_key_throttled:
  assumes "refreshUnknownKey je kid m = (Some rq, err, m')" "je_missAt je \<noteq> zero_time"
    "list_all (\<lambda>c. \<not> looks_up kid c) calls" "length (jm_missing m') + length calls \<le> 1025"
    "time_sub (je_checkAt je') (je_missAt je) < minute"
  shows "refreshUnknownKey je' kid (fold jwks_step calls m') = (None, None, fold jwks_step calls m')"
proof -
  let ?m = "m\<lparr>jm_missing := put kid (je_missAt je) (if length (jm_missing m) > 1024 then [] else jm_missing m)\<rparr>"
  have "m' = snd (snd (refreshLocked je ?m))"
    using assms(1) by (auto simp: refreshUnknownKey_def Let_def split: if_splits)
  then have "map_of (jm_missing m') kid = Some (je_missAt je)" by simp
  then have "missing_attempt (fold jwks_step calls m') kid = je_missAt je"
    using jwks_steps_missing [OF assms(4,3)] by (simp add: missing_attempt_def)
  then show ?thesis using assms(2,5) by (simp add: refreshUnknownKey_def is_zero_def)
qed

text \<open>
  Different unknown identifiers are not coalesced: each first lookup goes to the endpoint, however
  recent the last attempt was.
\<close>

theorem unknown_keys_not_coalesced:
  assumes "\<not> containsKeyID (currentKeys (je_since je) (je_now je) m) kid" "map_of (jm_missing m) kid = None"
    "jwks_request m = Some rq" "time_sub (je_checkAt je) (jm_lastAttempt m) < second"
  shows "fst (refreshUnknownKey je kid m) = Some rq"
proof -
  have "jwks_request (m\<lparr>jm_missing := x, jm_lastAttempt := y\<rparr>) = jwks_request m" for x y by (simp add: jwks_request_def Let_def cong: if_cong)
  with assms show ?thesis by (simp add: refreshUnknownKey_def missing_attempt_def is_zero_def refreshLocked_def Let_def)
qed

section \<open>An example issuer\<close>

definition issuer_files :: tls_files where
  "issuer_files = \<lparr>tl_readFile = (\<lambda>_. None), tl_systemPool = None, tl_certsOf = (\<lambda>_. []), tl_keyPair = (\<lambda>_ _. None)\<rparr>"

definition issuer_tls :: tls_config where
  "issuer_tls = \<lparr>tls_insecureSkipVerify = False, tls_caFile = [], tls_clientCertFile = [], tls_clientKeyFile = []\<rparr>"

definition issuer_options :: jwks_options where
  "issuer_options = \<lparr>jo_refreshInterval = 0, jo_previousOverlap = 0, jo_staleIfError = 0\<rparr>"

definition issuer_manager :: "unit jwks_manager" where
  "issuer_manager = projr (newJWKSManager issuer_files ''https://issuer.example/keys'' False issuer_options issuer_tls)"

definition issuer_key :: "string \<Rightarrow> unit jwk_key" where
  "issuer_key kid = \<lparr>jk_id = kid, jk_raw = ()\<rparr>"

text \<open>An endpoint that publishes the keys named in a document of one-letter identifiers.\<close>

definition issuer_env :: "string \<Rightarrow> gotime \<Rightarrow> unit jwks_env" where
  "issuer_env doc t = \<lparr>je_do = (\<lambda>_. JwksReply 200 [] (Some doc)), je_parse = (\<lambda>d. Inr (map (\<lambda>c. issuer_key [c]) d)),
     je_checkAt = t, je_since = t, je_now = t, je_missAt = t, je_attemptAt = t, je_doneAt = t\<rparr>"

lemma issuer_manager_new: "newJWKSManager issuer_files ''https://issuer.example/keys'' False issuer_options issuer_tls = Inr issuer_manager"
proof -
  have "trimSpace ''https://issuer.example/keys'' \<noteq> []" by code_simp
  then show ?thesis
    by (simp add: issuer_manager_def newJWKSManager_def newClientWithTLS_def newClient_def loadTLSConfig_def issuer_tls_def)
qed

lemma issuer_manager_fields [simp]:
  "jm_url issuer_manager = ''https://issuer.example/keys''" "jm_current issuer_manager = None" "jm_missing issuer_manager = []"
  "jm_etag issuer_manager = []" "jm_modified issuer_manager = []" "jm_lastAttempt issuer_manager = zero_time"
  "jm_staleIfError issuer_manager = 24 * hour" "jm_previousOverlap issuer_manager = 15 * minute"
proof -
  obtain client where m: "issuer_manager = \<lparr>jm_url = ''https://issuer.example/keys'', jm_client = client, jm_refreshInterval = 5 * minute,
      jm_previousOverlap = 15 * minute, jm_staleIfError = 24 * hour, jm_current = None, jm_etag = [], jm_modified = [],
      jm_lastAttempt = zero_time, jm_missing = []\<rparr>"
    using issuer_manager_new by (auto simp: newJWKSManager_def issuer_options_def split: if_splits sum.splits intro: that [OF sym])
  show "jm_url issuer_manager = ''https://issuer.example/keys''" "jm_current issuer_manager = None" "jm_missing issuer_manager = []"
    "jm_etag issuer_manager = []" "jm_modified issuer_manager = []" "jm_lastAttempt issuer_manager = zero_time"
    "jm_staleIfError issuer_manager = 24 * hour" "jm_previousOverlap issuer_manager = 15 * minute"
    unfolding m by simp_all
qed

definition issuer_request :: http_request where
  "issuer_request = the (jwks_request issuer_manager)"

lemma issuer_request: "jm_url m = ''https://issuer.example/keys'' \<Longrightarrow> jm_etag m = [] \<Longrightarrow> jm_modified m = [] \<Longrightarrow> jwks_request m = Some issuer_request"
proof -
  have "newRequest ''GET'' ''https://issuer.example/keys'' None \<noteq> None" by code_simp
  then show "jm_url m = ''https://issuer.example/keys'' \<Longrightarrow> jm_etag m = [] \<Longrightarrow> jm_modified m = [] \<Longrightarrow> ?thesis"
    by (auto simp: issuer_request_def jwks_request_def)
qed

definition rotated :: "unit jwks_manager" where
  "rotated = jwks_step (RefreshCall (issuer_env ''a'' 5)) issuer_manager"

lemma issuer_accepted: "accepted_keys (issuer_env doc t) (Some ''a'') = Inr [issuer_key ''a'']"
  by (simp add: accepted_keys_def issuer_env_def maxJWKSBytes_def issuer_key_def validateKeyIDs_def)

lemma rotated_eq: "rotated = publish_keys 5 [] [issuer_key ''a''] (issuer_manager\<lparr>jm_lastAttempt := 5\<rparr>)"
proof -
  have "refreshKeys (issuer_env ''a'' 5) issuer_manager = refreshLocked (issuer_env ''a'' 5) issuer_manager"
    by (simp add: refreshKeys_def currentKeys_def)
  moreover have "je_do (issuer_env ''a'' 5) rq = JwksReply 200 [] (Some ''a'')" "je_attemptAt (issuer_env ''a'' 5) = 5"
    "je_doneAt (issuer_env ''a'' 5) = 5" for rq by (simp_all add: issuer_env_def)
  ultimately show ?thesis
    by (simp add: rotated_def jwks_step_def refreshLocked_def Let_def issuer_request apply_reply_def issuer_accepted)
qed

lemma rotated_keys: "currentKeys 6 6 rotated = Some [issuer_key ''a'']"
  by (simp add: rotated_eq publish_keys_def Let_def merge_previous_def copyKeySet_def addKey_def currentKeys_def time_sub_def
      min_int64_def max_int64_def dur_defs)

theorem served_keys_published_witness:
  "set [issuer_key ''a''] \<subseteq> {k. list_ex (\<lambda>c. published (env_of c) k) [RefreshCall (issuer_env ''a'' 5)]}"
proof -
  have "currentKeys 6 6 (fold jwks_step [RefreshCall (issuer_env ''a'' 5)] issuer_manager) = Some [issuer_key ''a'']"
    using rotated_keys by (simp add: rotated_def)
  from served_keys_published [OF issuer_manager_new this] show ?thesis by blast
qed

lemma issuer_manager_inv: "jwks_inv issuer_manager" "jwks_inv rotated"
  using newJWKSManager_inv [OF issuer_manager_new] by (simp_all add: rotated_def jwks_step_inv)

definition down_env :: "unit jwks_env" where
  "down_env = (issuer_env [] 7)\<lparr>je_do := (\<lambda>_. JwksFails ''down'')\<rparr>"

theorem refresh_publishes_atomically_witness:
  "currentKeys 8 8 (snd (snd (refreshLocked down_env rotated))) = currentKeys 8 8 rotated"
proof -
  have fields: "jm_url rotated = ''https://issuer.example/keys''" "jm_etag rotated = []" "jm_modified rotated = []"
    by (simp_all add: rotated_eq publish_keys_def Let_def headerGet_def)
  have "refreshLocked down_env rotated = (Some issuer_request, Some ''down'', rotated\<lparr>jm_lastAttempt := 7\<rparr>)"
    by (simp add: refreshLocked_def issuer_request fields down_env_def issuer_env_def apply_reply_def)
  from refresh_publishes_atomically [OF issuer_manager_inv(2) this] show ?thesis
    by (simp add: \<open>refreshLocked down_env rotated = _\<close>)
qed

definition unknown_first :: "http_request option \<times> string option \<times> unit jwks_manager" where
  "unknown_first = refreshUnknownKey (issuer_env ''a'' 5) ''x'' issuer_manager"

theorem unknown_key_throttled_witness:
  "fst (refreshUnknownKey (issuer_env ''a'' 9) ''x'' (fold jwks_step [RefreshCall (issuer_env ''b'' 7)] (snd (snd unknown_first)))) = None"
proof -
  let ?m = "issuer_manager\<lparr>jm_missing := [(''x'', 5)]\<rparr>"
  have first: "unknown_first = refreshLocked (issuer_env ''a'' 5) ?m"
    by (simp add: unknown_first_def refreshUnknownKey_def currentKeys_def containsKeyID_def missing_attempt_def is_zero_def zero_time_def
        issuer_env_def)
  have "fst (refreshLocked (issuer_env ''a'' 5) ?m) = Some issuer_request"
    by (simp add: refreshLocked_def Let_def issuer_request)
  then have call: "refreshUnknownKey (issuer_env ''a'' 5) ''x'' issuer_manager
      = (Some issuer_request, fst (snd unknown_first), snd (snd unknown_first))"
    using first by (metis prod.collapse unknown_first_def)
  have missing: "jm_missing (snd (snd unknown_first)) = [(''x'', 5)]" by (simp add: first)
  have "je_missAt (issuer_env ''a'' 5) = 5" "je_checkAt (issuer_env ''a'' 9) = 9" by (simp_all add: issuer_env_def)
  with unknown_key_throttled [OF call, of "[RefreshCall (issuer_env ''b'' 7)]" "issuer_env ''a'' 9"] missing show ?thesis
    by (simp add: zero_time_def looks_up_def time_sub_def min_int64_def max_int64_def dur_defs)
qed

end
