(* ===== verification/Auth_Verify.thy ===== *)
theory Auth_Verify
  imports Auth_Keys Go_Base64
begin

text \<open>
  Inbound authentication, \<open>internal/auth/bearer.go\<close>, \<open>verifier.go\<close> and \<open>discovery.go\<close>:
  from the \<open>Authorization\<close> header over the JWT header, the key lookup and the JWT library's checks to
  the principal. The JOSE library (signature check and claim validation) and the JSON decoder are
  arguments; the key source is an interface with two implementations, a fixed set and the manager
  of \<open>Auth_Keys\<close>.
\<close>

section \<open>Bearer credentials\<close>

datatype auth_error = MissingToken | InvalidToken string | ExpiredToken string

definition bearerToken :: "http_header \<Rightarrow> auth_error + string" where
  "bearerToken h =
     (let value = trimSpace (headerGet h ''Authorization'')
      in if value = [] then Inl MissingToken
         else (let parts = Go_Strings.fields value
               in if length parts \<noteq> 2 \<or> \<not> equalFold (parts ! 0) ''Bearer'' \<or> parts ! 1 = [] then Inl (InvalidToken [])
                  else Inr (parts ! 1)))"

section \<open>JWT headers\<close>

text \<open>\<open>base64.RawURLEncoding.EncodedLen(8 << 10)\<close>.\<close>

definition maxJWTHeaderBytes :: nat where
  "maxJWTHeaderBytes = 8192"

definition rawEncodedLen :: "nat \<Rightarrow> nat" where
  "rawEncodedLen n = n div 3 * 4 + (n mod 3 * 8 + 5) div 6"

record jwt_header =
  jh_algorithm :: string
  jh_keyID :: string

definition parseJWTHeader :: "(string \<Rightarrow> jwt_header option) \<Rightarrow> string \<Rightarrow> string + jwt_header" where
  "parseJWTHeader decode raw =
     (let parts = splitOn (CHR ''.'') raw
      in if length parts \<noteq> 3 \<or> parts ! 0 = [] then Inl ''token is not compact JWS''
         else if length (parts ! 0) > rawEncodedLen maxJWTHeaderBytes then Inl ''JWT header is too large''
         else (case b64_decode (parts ! 0) of
                 None \<Rightarrow> Inl ''JWT header is not base64url''
               | Some decoded \<Rightarrow> (case decode decoded of None \<Rightarrow> Inl ''JWT header is invalid'' | Some h \<Rightarrow> Inr h)))"

section \<open>Claims\<close>

text \<open>
  A parsed token of the library: the registered claims the code reads through accessors, and
  \<open>Get\<close>, which finds every claim by name.
\<close>

record jwt_token =
  jt_subject :: string
  jt_issuer :: string
  jt_audience :: "string list"
  jt_expiration :: gotime
  jt_get :: "string \<Rightarrow> goval option"

definition stringClaim :: "goval \<Rightarrow> string" where
  "stringClaim v = (case v of VStr s \<Rightarrow> s | _ \<Rightarrow> [])"

definition maxIdentityClaimPathDepth :: nat where
  "maxIdentityClaimPathDepth = 8"

definition validIdentityClaimSource :: "string \<Rightarrow> bool" where
  "validIdentityClaimSource source =
     (if source = [] \<or> length source > 128 \<or> containsAny source [CHR '' '', CHR 0x09, CHR 0x0D, CHR 0x0A] then False
      else (let segments = splitOn (CHR ''.'') source
            in if length segments > maxIdentityClaimPathDepth then False else list_all (\<lambda>s. s \<noteq> []) segments))"

fun claim_path :: "string list \<Rightarrow> goval \<Rightarrow> goval option" where
  "claim_path [] v = Some v"
| "claim_path (s # ss) (VObj object) = (case map_of object s of None \<Rightarrow> None | Some v \<Rightarrow> claim_path ss v)"
| "claim_path (s # ss) _ = None"

definition identityClaimValue :: "jwt_token \<Rightarrow> string \<Rightarrow> goval option" where
  "identityClaimValue t source =
     (case jt_get t source of
        Some v \<Rightarrow> Some v
      | None \<Rightarrow>
          (let segments = splitOn (CHR ''.'') source
           in if length segments < 2 then None
              else (case jt_get t (segments ! 0) of None \<Rightarrow> None | Some v \<Rightarrow> claim_path (tl segments) v)))"

text \<open>A set of scopes is the list of its elements, each once.\<close>

definition add_scope :: "string \<Rightarrow> string list \<Rightarrow> string list" where
  "add_scope s acc = (if s \<in> set acc then acc else acc @ [s])"

fun scopes_in :: "goval \<Rightarrow> string list" where
  "scopes_in (VStr s) = Go_Strings.fields s"
| "scopes_in (VStrs xs) = filter (\<lambda>s. s \<noteq> []) xs"
| "scopes_in (VList vs) = filter (\<lambda>s. s \<noteq> []) (map stringClaim vs)"
| "scopes_in _ = []"

definition extractScopes :: "jwt_token \<Rightarrow> string list" where
  "extractScopes t =
     (case (case jt_get t ''scope'' of Some v \<Rightarrow> Some v | None \<Rightarrow> jt_get t ''scp'') of
        None \<Rightarrow> []
      | Some v \<Rightarrow> fold add_scope (scopes_in v) [])"

section \<open>The verifier\<close>

record verifier =
  vf_issuer :: string
  vf_audience :: string
  vf_algorithms :: "string list"
  vf_identityClaims :: "(string, string) gomap"

definition newJWTVerifier :: "'k key_set option \<Rightarrow> string \<Rightarrow> string \<Rightarrow> string + verifier" where
  "newJWTVerifier current issuer audience =
     (if current = None \<or> current = Some [] then Inl ''trusted JWKS contains no keys''
      else if issuer = [] \<or> audience = [] then Inl ''issuer and audience are required''
      else Inr \<lparr>vf_issuer = issuer, vf_audience = audience, vf_algorithms = [''ES256'', ''RS256''], vf_identityClaims = []\<rparr>)"

fun configure_claims :: "(string, string) gomap \<Rightarrow> (string, string) gomap \<Rightarrow> string + (string, string) gomap" where
  "configure_claims [] configured = Inr configured"
| "configure_claims ((target, source) # mapping) configured =
     (if target \<noteq> ''email'' \<and> target \<noteq> ''name'' then Inl (''unsupported identity claim target '' @ target)
      else if \<not> validIdentityClaimSource (trimSpace source) then Inl (''invalid source claim for '' @ target)
      else configure_claims mapping (put target (trimSpace source) configured))"

definition configureIdentityClaims :: "(string, string) gomap \<Rightarrow> verifier \<Rightarrow> string option \<times> verifier" where
  "configureIdentityClaims mapping v =
     (case configure_claims mapping [] of
        Inl e \<Rightarrow> (Some e, v)
      | Inr configured \<Rightarrow> (None, v\<lparr>vf_identityClaims := configured\<rparr>))"

text \<open>
  The key source of a verifier: \<open>Current\<close> before and after a refresh (the clock moves on), and the
  refresh for an unknown identifier.
\<close>

record ('s, 'k) key_ops =
  ko_current :: "'s \<Rightarrow> 'k key_set option"
  ko_refresh :: "string \<Rightarrow> 's \<Rightarrow> 's"
  ko_reread :: "'s \<Rightarrow> 'k key_set option"

definition fixed_keys :: "('k key_set option, 'k) key_ops" where
  "fixed_keys = \<lparr>ko_current = id, ko_refresh = (\<lambda>_ s. s), ko_reread = id\<rparr>"

definition managed_keys :: "'k jwks_env \<Rightarrow> gotime \<Rightarrow> gotime \<Rightarrow> ('k jwks_manager, 'k) key_ops" where
  "managed_keys je before after =
     \<lparr>ko_current = currentKeys before before,
      ko_refresh = (\<lambda>kid m. snd (snd (refreshUnknownKey je kid m))),
      ko_reread = currentKeys after after\<rparr>"

text \<open>
  The JOSE library: \<open>jwt.Parse\<close> with a key set and without validation, and \<open>jwt.Validate\<close> with its
  options, which reports expiry as an error of its own.
\<close>

record jwt_options =
  jo_issuer :: string
  jo_audience :: string
  jo_skew :: duration
  jo_required :: "string list"

datatype jwt_check = JwtValid | JwtExpired string | JwtRejected string

record 'k jwt_lib =
  jl_header :: "string \<Rightarrow> jwt_header option"
  jl_parse :: "'k key_set \<Rightarrow> string \<Rightarrow> string + jwt_token"
  jl_validate :: "jwt_options \<Rightarrow> jwt_token \<Rightarrow> jwt_check"

definition validate_options :: "verifier \<Rightarrow> jwt_options" where
  "validate_options v = \<lparr>jo_issuer = vf_issuer v, jo_audience = vf_audience v, jo_skew = 30 * second, jo_required = [''exp'']\<rparr>"

definition either_claim :: "jwt_token \<Rightarrow> string \<Rightarrow> string \<Rightarrow> string" where
  "either_claim t a b =
     (case jt_get t a of Some v \<Rightarrow> stringClaim v | None \<Rightarrow> (case jt_get t b of Some v \<Rightarrow> stringClaim v | None \<Rightarrow> []))"

definition mapped_claim :: "verifier \<Rightarrow> jwt_token \<Rightarrow> string \<Rightarrow> string" where
  "mapped_claim v t target =
     (case map_of (vf_identityClaims v) target of
        None \<Rightarrow> []
      | Some claim \<Rightarrow>
          (if claim = [] then []
           else (case identityClaimValue t claim of None \<Rightarrow> [] | Some x \<Rightarrow> stringClaim x)))"

definition invoker_claim :: "jwt_token \<Rightarrow> invoker" where
  "invoker_claim t =
     (case jt_get t ''invoker'' of
        None \<Rightarrow> InvokerUnknown
      | Some v \<Rightarrow>
          (if stringClaim v = InvokerHuman \<or> stringClaim v = InvokerAI \<or> stringClaim v = InvokerCI then stringClaim v
           else InvokerUnknown))"

definition principal_of :: "verifier \<Rightarrow> jwt_token \<Rightarrow> principal" where
  "principal_of v t =
     \<lparr>pr_subject = jt_subject t, pr_email = mapped_claim v t ''email'', pr_name = mapped_claim v t ''name'',
      pr_issuer = jt_issuer t, pr_tenant = either_claim t ''tid'' ''tenant_id'',
      pr_sessionID = (case jt_get t ''sid'' of Some x \<Rightarrow> stringClaim x | None \<Rightarrow> []),
      pr_expiresAt = jt_expiration t, pr_scopes = extractScopes t, pr_invoker = invoker_claim t,
      pr_clientID = either_claim t ''client_id'' ''azp''\<rparr>"

definition check_token :: "'k jwt_lib \<Rightarrow> verifier \<Rightarrow> 'k key_set \<Rightarrow> string \<Rightarrow> auth_error + principal" where
  "check_token lib v ks raw =
     (case jl_parse lib ks raw of
        Inl e \<Rightarrow> Inl (InvalidToken (''signature verification failed: '' @ e))
      | Inr t \<Rightarrow>
          (case jl_validate lib (validate_options v) t of
             JwtExpired e \<Rightarrow> Inl (ExpiredToken e)
           | JwtRejected e \<Rightarrow> Inl (InvalidToken (''claim validation failed: '' @ e))
           | JwtValid \<Rightarrow>
               (if jt_subject t = [] then Inl (InvalidToken ''subject is missing'') else Inr (principal_of v t))))"

definition find_keys :: "('s, 'k) key_ops \<Rightarrow> string \<Rightarrow> 's \<Rightarrow> 'k key_set option \<times> 's" where
  "find_keys ops kid s =
     (if containsKeyID (ko_current ops s) kid then (ko_current ops s, s)
      else (let s' = ko_refresh ops kid s in (ko_reread ops s', s')))"

definition verify :: "'k jwt_lib \<Rightarrow> ('s, 'k) key_ops \<Rightarrow> verifier \<Rightarrow> string \<Rightarrow> 's \<Rightarrow> (auth_error + principal) \<times> 's" where
  "verify lib ops v raw s =
     (if trimSpace raw = [] then (Inl MissingToken, s)
      else (case parseJWTHeader (jl_header lib) raw of
              Inl e \<Rightarrow> (Inl (InvalidToken e), s)
            | Inr h \<Rightarrow>
                (if jh_algorithm h \<notin> set (vf_algorithms v) then (Inl (InvalidToken ''signing algorithm is not allowed''), s)
                 else if jh_keyID h = [] then (Inl (InvalidToken ''key ID is missing''), s)
                 else (case find_keys ops (jh_keyID h) s of
                         (None, s') \<Rightarrow> (Inl (InvalidToken ''signing key is unavailable''), s')
                       | (Some ks, s') \<Rightarrow>
                           (if containsKeyID (Some ks) (jh_keyID h) then (check_token lib v ks raw, s')
                            else (Inl (InvalidToken ''signing key is unavailable''), s'))))))"

definition newRemoteJWTVerifier ::
  "tls_files \<Rightarrow> 'k jwks_env \<Rightarrow> gotime \<Rightarrow> string \<Rightarrow> string \<Rightarrow> string \<Rightarrow> bool \<Rightarrow> tls_config \<Rightarrow> string + (verifier \<times> 'k jwks_manager)" where
  "newRemoteJWTVerifier fs je now jwksURL issuer audience allowLocal tls =
     (case newJWKSManager fs jwksURL allowLocal \<lparr>jo_refreshInterval = 0, jo_previousOverlap = 0, jo_staleIfError = 0\<rparr> tls of
        Inl e \<Rightarrow> Inl e
      | Inr m \<Rightarrow>
          (case refreshKeys je m of
             (_, Some e, _) \<Rightarrow> Inl (''fetch trusted JWKS: '' @ e)
           | (_, None, m') \<Rightarrow>
               (case newJWTVerifier (currentKeys now now m') issuer audience of Inl e \<Rightarrow> Inl e | Inr v \<Rightarrow> Inr (v, m'))))"

section \<open>Discovery\<close>

record issuer_metadata =
  im_issuer :: string
  im_jwksURI :: string

definition maxDiscoveryBytes :: nat where
  "maxDiscoveryBytes = 2 ^ 20"

definition loopback_host :: "string \<Rightarrow> bool" where
  "loopback_host host \<longleftrightarrow> equalFold host ''localhost'' \<or> (case parseIP host of None \<Rightarrow> False | Some a \<Rightarrow> isLoopback a)"

definition check_metadata :: "string \<Rightarrow> bool \<Rightarrow> issuer_metadata \<Rightarrow> string + issuer_metadata" where
  "check_metadata issuer allowLocal md =
     (if trimSuffix (im_issuer md) ''/'' \<noteq> trimSuffix issuer ''/'' then Inl ''OIDC discovery issuer mismatch''
      else if im_jwksURI md = [] then Inl ''OIDC discovery jwks_uri is missing''
      else (case urlParse (im_jwksURI md) of
              None \<Rightarrow> Inl ''OIDC discovery jwks_uri is invalid''
            | Some u \<Rightarrow>
                (if hostname u = [] \<or> u_user u \<noteq> None \<or> u_rawQuery u \<noteq> [] \<or> u_fragment u \<noteq> []
                 then Inl ''OIDC discovery jwks_uri is invalid''
                 else if u_scheme u \<noteq> ''https'' \<and> \<not> (allowLocal \<and> u_scheme u = ''http'' \<and> loopback_host (hostname u))
                 then Inl ''OIDC discovery jwks_uri must use HTTPS except on loopback development issuers''
                 else Inr md)))"

definition discoverIssuer ::
  "tls_files \<Rightarrow> (http_request \<Rightarrow> jwks_reply) \<Rightarrow> (string \<Rightarrow> string + issuer_metadata) \<Rightarrow> string \<Rightarrow> bool \<Rightarrow> tls_config
   \<Rightarrow> string + issuer_metadata" where
  "discoverIssuer fs do unmarshal issuer allowLocal tls =
     (case newRequest ''GET'' (trimSuffix issuer ''/'' @ ''/.well-known/openid-configuration'') None of
        None \<Rightarrow> Inl ''request''
      | Some rq \<Rightarrow>
          rbind (newClientWithTLS fs (10 * second) allowLocal tls) (\<lambda>_.
            (case do (rq\<lparr>rq_header := headerSet ''Accept'' ''application/json'' (rq_header rq)\<rparr>) of
               JwksFails e \<Rightarrow> Inl e
             | JwksReply st h body \<Rightarrow>
                 (if st < 200 \<or> st \<ge> 300 then Inl (''OIDC discovery returned status '' @ formatInt st)
                  else (case body of
                          None \<Rightarrow> Inl ''read''
                        | Some doc \<Rightarrow>
                            (if length doc > maxDiscoveryBytes then Inl ''OIDC discovery exceeds 1 MiB''
                             else (case unmarshal doc of
                                     Inl e \<Rightarrow> Inl (''decode OIDC discovery: '' @ e)
                                   | Inr md \<Rightarrow> check_metadata issuer allowLocal md)))))))"

section \<open>Where the keys of a verifier come from\<close>

text \<open>The interface of a key source: every set it serves lies within the trusted keys.\<close>

locale trusted_source =
  fixes ops :: "('s, 'k) key_ops" and good :: "'s \<Rightarrow> bool" and trusted :: "'k jwk_key set"
  assumes current_trusted: "good s \<Longrightarrow> ko_current ops s = Some ks \<Longrightarrow> set ks \<subseteq> trusted"
    and reread_trusted: "good s \<Longrightarrow> ko_reread ops s = Some ks \<Longrightarrow> set ks \<subseteq> trusted"
    and refresh_good: "good s \<Longrightarrow> good (ko_refresh ops kid s)"
begin

lemma find_keys_trusted: "good s \<Longrightarrow> find_keys ops kid s = (r, s') \<Longrightarrow> good s' \<and> (\<forall>ks. r = Some ks \<longrightarrow> set ks \<subseteq> trusted)"
  using current_trusted [of s] reread_trusted [of "ko_refresh ops kid s"] refresh_good [of s kid]
  by (auto simp: find_keys_def Let_def split: if_splits)

lemma verify_good: "good s \<Longrightarrow> good (snd (verify lib ops v raw s))"
  using find_keys_trusted [of s]
  by (simp add: verify_def split: sum.splits option.splits prod.splits)

lemma verify_accepts:
  assumes "good s" "verify lib ops v raw s = (Inr p, s')"
  obtains h ks t where "parseJWTHeader (jl_header lib) raw = Inr h" "jh_algorithm h \<in> set (vf_algorithms v)" "jh_keyID h \<noteq> []"
    "jh_keyID h \<in> set (map jk_id ks)" "set ks \<subseteq> trusted" "jl_parse lib ks raw = Inr t"
    "jl_validate lib (validate_options v) t = JwtValid" "jt_subject t \<noteq> []" "p = principal_of v t"
proof -
  obtain h where h: "parseJWTHeader (jl_header lib) raw = Inr h" "jh_algorithm h \<in> set (vf_algorithms v)" "jh_keyID h \<noteq> []"
    using assms(2) by (auto simp: verify_def split: if_splits sum.splits)
  obtain ks where ks: "find_keys ops (jh_keyID h) s = (Some ks, s')" "containsKeyID (Some ks) (jh_keyID h)" "check_token lib v ks raw = Inr p"
    using assms(2) h by (auto simp: verify_def split: if_splits option.splits prod.splits)
  from ks(3) obtain t where "jl_parse lib ks raw = Inr t" "jl_validate lib (validate_options v) t = JwtValid" "jt_subject t \<noteq> []"
    "p = principal_of v t"
    by (auto simp: check_token_def split: sum.splits jwt_check.splits if_splits)
  moreover have "set ks \<subseteq> trusted" using find_keys_trusted [OF assms(1) ks(1)] by simp
  moreover have "jh_keyID h \<in> set (map jk_id ks)" using ks(2) by (simp only: containsKeyID_iff)
  ultimately show thesis using h that by blast
qed

end

interpretation fixed: trusted_source fixed_keys "\<lambda>s. \<forall>ks. s = Some ks \<longrightarrow> set ks \<subseteq> K" K for K
  by unfold_locales (simp_all add: fixed_keys_def)

lemma currentKeys_within: "keys_within K m \<Longrightarrow> currentKeys since now m = Some ks \<Longrightarrow> set ks \<subseteq> K"
  by (erule currentKeys_Some) (auto simp: keys_within_def)

lemma refreshUnknownKey_within:
  assumes "jwks_inv m" "keys_within K m" "Collect (published je) \<subseteq> K"
  shows "jwks_inv (snd (snd (refreshUnknownKey je kid m))) \<and> keys_within K (snd (snd (refreshUnknownKey je kid m)))"
  using jwks_step_inv [OF assms(1), of "UnknownCall je kid"] jwks_step_within [OF assms(1,2), of "UnknownCall je kid"] assms(3)
  by (simp add: jwks_step_def)

interpretation managed: trusted_source "managed_keys je before after"
  "\<lambda>m. jwks_inv m \<and> keys_within (S \<union> Collect (published je)) m" "S \<union> Collect (published je)" for je before after S
proof
  fix s kid assume "jwks_inv s \<and> keys_within (S \<union> Collect (published je)) s"
  then show "jwks_inv (ko_refresh (managed_keys je before after) kid s)
      \<and> keys_within (S \<union> Collect (published je)) (ko_refresh (managed_keys je before after) kid s)"
    using refreshUnknownKey_within [of s "S \<union> Collect (published je)" je kid] by (simp add: managed_keys_def)
qed (auto simp: managed_keys_def dest!: currentKeys_within)

section \<open>What an accepted token proves\<close>

lemma verified_claims:
  assumes good: "jwks_inv m \<and> keys_within (S \<union> Collect (published je)) m"
    and v: "vf_issuer v = issuer" "vf_audience v = audience" "set (vf_algorithms v) = {''ES256'', ''RS256''}"
    and accepted: "verify lib (managed_keys je before after) v raw m = (Inr p, m')"
    and parse_verifies: "\<And>ks t. jl_parse lib ks raw = Inr t \<Longrightarrow> \<exists>k. k \<in> set ks \<and> signed k raw t"
    and validate_checks: "\<And>opts t. jl_validate lib opts t = JwtValid \<Longrightarrow>
      jt_issuer t = jo_issuer opts \<and> jo_audience opts \<in> set (jt_audience t) \<and> now < jt_expiration t + jo_skew opts"
  shows "\<exists>h k t. parseJWTHeader (jl_header lib) raw = Inr h \<and> jh_algorithm h \<in> {''ES256'', ''RS256''} \<and> jh_keyID h \<noteq> []
    \<and> signed k raw t \<and> (published je k \<or> k \<in> S)
    \<and> audience \<in> set (jt_audience t) \<and> pr_issuer p = issuer \<and> pr_subject p \<noteq> [] \<and> now < pr_expiresAt p + 30 * second
    \<and> pr_invoker p \<in> {InvokerHuman, InvokerAI, InvokerCI, InvokerUnknown} \<and> p = principal_of v t"
proof -
  obtain h ks t where a: "parseJWTHeader (jl_header lib) raw = Inr h" "jh_algorithm h \<in> set (vf_algorithms v)" "jh_keyID h \<noteq> []"
    "set ks \<subseteq> S \<union> Collect (published je)" "jl_parse lib ks raw = Inr t"
    "jl_validate lib (validate_options v) t = JwtValid" "jt_subject t \<noteq> []" "p = principal_of v t"
    by (rule managed.verify_accepts [OF good accepted])
  obtain k where k: "k \<in> set ks" "signed k raw t" using parse_verifies [OF a(5)] by blast
  have "published je k \<or> k \<in> S" using a(4) k(1) by blast
  moreover have "pr_invoker p \<in> {InvokerHuman, InvokerAI, InvokerCI, InvokerUnknown}"
    by (auto simp: a(8) principal_of_def invoker_claim_def split: option.splits)
  moreover have "audience \<in> set (jt_audience t) \<and> pr_issuer p = issuer \<and> now < pr_expiresAt p + 30 * second \<and> pr_subject p \<noteq> []"
    using validate_checks [OF a(6)] a(7) by (simp add: validate_options_def v a(8) principal_of_def)
  ultimately show ?thesis using a(1,2,3,8) k(2) v(3) by blast
qed

lemma served_keys_good:
  assumes "newJWKSManager fs url allowLocal options tls = Inr m"
  shows "jwks_inv (fold jwks_step calls m)
    \<and> keys_within ({k. list_ex (\<lambda>c. published (env_of c) k) calls} \<union> Collect (published je)) (fold jwks_step calls m)"
proof -
  let ?S = "{k. list_ex (\<lambda>c. published (env_of c) k) calls}"
  have new: "jwks_inv m" "keys_within ?S m" using newJWKSManager_inv [OF assms(1)] by (simp_all add: keys_within_def)
  have "keys_within ?S (fold jwks_step calls m)" by (rule jwks_steps_within [OF new]) (auto simp: list_ex_iff)
  then show ?thesis using jwks_steps_inv [OF new(1)] by (auto simp: keys_within_def)
qed

lemma configured_verifier:
  assumes "newJWTVerifier current issuer audience = Inr v0" "configureIdentityClaims mapping v0 = (err, v)"
  shows "vf_issuer v = issuer" "vf_audience v = audience" "set (vf_algorithms v) = {''ES256'', ''RS256''}"
  using assms by (auto simp: newJWTVerifier_def configureIdentityClaims_def split: if_splits sum.splits)


lemma check_token_Inl:
  assumes "check_token lib v ks raw = Inl e"
  shows "e \<noteq> MissingToken
    \<and> (\<forall>x. e = ExpiredToken x \<longrightarrow> (\<exists>t. jl_parse lib ks raw = Inr t \<and> jl_validate lib (validate_options v) t = JwtExpired x))"
proof (cases "jl_parse lib ks raw")
  case (Inr t)
  then show ?thesis using assms by (cases "jl_validate lib (validate_options v) t") (auto simp: check_token_def split: if_splits)
qed (use assms in \<open>auto simp: check_token_def\<close>)

text \<open>A rejected token is rejected for the right reason and at no cost it did not earn: only an empty
  credential is reported as missing, a token is reported as expired only after its signature was
  verified with a served key of its identifier, and the key source is asked to refresh only for a
  well-formed token of an allowed algorithm whose identifier it does not know.\<close>

theorem verify_rejects:
  assumes "verify lib ops v raw s = (Inl e, s')"
  shows "(e = MissingToken \<longleftrightarrow> trimSpace raw = [])
    \<and> (\<forall>x. e = ExpiredToken x \<longrightarrow>
          (\<exists>h ks t. parseJWTHeader (jl_header lib) raw = Inr h \<and> find_keys ops (jh_keyID h) s = (Some ks, s')
            \<and> jh_keyID h \<in> set (map jk_id ks) \<and> jl_parse lib ks raw = Inr t
            \<and> jl_validate lib (validate_options v) t = JwtExpired x))
    \<and> (s' \<noteq> s \<longrightarrow>
          (\<exists>h. parseJWTHeader (jl_header lib) raw = Inr h \<and> jh_algorithm h \<in> set (vf_algorithms v) \<and> jh_keyID h \<noteq> []
            \<and> \<not> containsKeyID (ko_current ops s) (jh_keyID h) \<and> s' = ko_refresh ops (jh_keyID h) s))"
proof -
  consider (stops) "s' = s" "e = MissingToken \<longleftrightarrow> trimSpace raw = []" "\<forall>x. e \<noteq> ExpiredToken x"
    | (looks) h ks' where "trimSpace raw \<noteq> []" "parseJWTHeader (jl_header lib) raw = Inr h" "jh_algorithm h \<in> set (vf_algorithms v)" "jh_keyID h \<noteq> []"
        "find_keys ops (jh_keyID h) s = (ks', s')"
        "e = InvalidToken ''signing key is unavailable''
         \<or> (\<exists>ks. ks' = Some ks \<and> containsKeyID (Some ks) (jh_keyID h) \<and> check_token lib v ks raw = Inl e)"
    using assms unfolding verify_def
    by (simp split: if_splits sum.splits prod.splits option.splits) blast+
  then show ?thesis
  proof cases
    case looks
    have "s' \<noteq> s \<longrightarrow> \<not> containsKeyID (ko_current ops s) (jh_keyID h) \<and> s' = ko_refresh ops (jh_keyID h) s"
      using looks(5) by (auto simp: find_keys_def Let_def split: if_splits)
    moreover have "e \<noteq> MissingToken" using looks(6) by (auto dest: check_token_Inl)
    moreover have "\<exists>ks t. ks' = Some ks \<and> jh_keyID h \<in> set (map jk_id ks) \<and> jl_parse lib ks raw = Inr t
        \<and> jl_validate lib (validate_options v) t = JwtExpired x" if "e = ExpiredToken x" for x
      using looks(6) that unfolding containsKeyID_iff by (auto dest!: check_token_Inl)
    ultimately show ?thesis using looks(1-5) by auto
  qed simp
qed

section \<open>Bearer credentials survive the header\<close>

text \<open>Printable ASCII without the space: what a token consists of.\<close>

definition visible_byte :: "char \<Rightarrow> bool" where
  "visible_byte c \<longleftrightarrow> 33 \<le> byte c \<and> byte c < 127"

lemma space_rune_heads:
  "list_all (\<lambda>r. r \<noteq> [] \<and> \<not> visible_byte (hd r)) space_runes"
  "list_all (\<lambda>r. r \<noteq> [] \<and> \<not> visible_byte (hd r)) (map rev space_runes)"
  by code_simp+

lemma space_at_visible:
  assumes "list_all (\<lambda>r. r \<noteq> [] \<and> \<not> visible_byte (hd r)) runes" "visible_byte c"
  shows "space_at runes (c # s) = 0"
proof -
  have "\<not> hasPrefix (c # s) r" if "r \<in> set runes" for r
    using assms that by (cases r) (auto simp: list_all_iff)
  then have "find (hasPrefix (c # s)) runes = None" by (auto simp: find_None_iff)
  then show ?thesis by (simp add: space_at_def)
qed

lemma trim_left_visible:
  "list_all (\<lambda>r. r \<noteq> [] \<and> \<not> visible_byte (hd r)) runes \<Longrightarrow> visible_byte c \<Longrightarrow> trim_left runes (c # s) = c # s"
  by (subst trim_left.simps) (simp add: space_at_visible)

lemma trimSpace_visible:
  assumes "s \<noteq> []" "visible_byte (hd s)" "visible_byte (last s)"
  shows "trimSpace s = s"
proof -
  have "trim_left space_runes s = s" using assms(1,2) trim_left_visible [OF space_rune_heads(1)] by (cases s) auto
  moreover have "rev s = last s # rev (butlast s)" using assms(1) by (cases s rule: rev_cases) auto
  ultimately show ?thesis
    using trim_left_visible [OF space_rune_heads(2) assms(3), of "rev (butlast s)"] assms(1) unfolding trimSpace_def
    by (metis rev_rev_ident)
qed

lemma fields_aux_word: "list_all visible_byte w \<Longrightarrow> fields_aux acc (w @ s) = fields_aux (rev w @ acc) s"
proof (induction w arbitrary: acc)
  case (Cons c w)
  then have "fields_aux acc ((c # w) @ s) = fields_aux (c # acc) (w @ s)"
    using space_at_visible [OF space_rune_heads(1), of c "w @ s"] by (subst fields_aux.simps) simp
  with Cons show ?case by simp
qed simp

lemma fields_aux_space: "acc \<noteq> [] \<Longrightarrow> fields_aux acc (CHR '' '' # s) = rev acc # fields_aux [] s"
proof -
  have "space_at space_runes (CHR '' '' # s) = 1" by (simp add: space_at_def space_runes_def)
  then show "acc \<noteq> [] \<Longrightarrow> ?thesis" by (subst fields_aux.simps) simp
qed

lemma fields_aux_end: "acc \<noteq> [] \<Longrightarrow> fields_aux acc [] = [rev acc]"
  by (subst fields_aux.simps) simp

lemma fields_two_words:
  assumes "list_all visible_byte a" "a \<noteq> []" "list_all visible_byte b" "b \<noteq> []"
  shows "Go_Strings.fields (a @ CHR '' '' # b) = [a, b]"
proof -
  have "fields_aux [] b = [b]" using fields_aux_word [OF assms(3), of "[]" "[]"] assms(4) by (simp add: fields_aux_end)
  then show ?thesis
    using fields_aux_word [OF assms(1), of "[]" "CHR '' '' # b"] assms(2) by (simp add: Go_Strings.fields_def fields_aux_space)
qed

text \<open>A bearer credential arrives as it was sent: for a non-empty token of printable characters the
  extractor returns exactly that token from a header that carries it, so a bearer the gateway passes
  on authenticates its caller downstream as it did here; and whatever the header holds, an extracted
  token is never empty.\<close>

theorem bearer_roundtrip:
  assumes "t \<noteq> []" "list_all visible_byte t"
  shows "bearerToken (headerSet ''Authorization'' (''Bearer '' @ t) h) = Inr t
    \<and> (\<forall>h' x. bearerToken h' = Inr x \<longrightarrow> x \<noteq> [])"
proof -
  have key: "canonicalHeaderKey ''Authorization'' = ''Authorization''" by code_simp
  have vis: "list_all visible_byte ''Bearer''" by code_simp
  have content: "headerGet (headerSet ''Authorization'' (''Bearer '' @ t) h) ''Authorization'' = ''Bearer'' @ CHR '' '' # t"
    by (simp add: headerGet_headerSet)
  have "visible_byte (last (''Bearer'' @ CHR '' '' # t))" using assms by (simp add: list_all_iff)
  then have "trimSpace (''Bearer'' @ CHR '' '' # t) = ''Bearer'' @ CHR '' '' # t"
    by (intro trimSpace_visible) (use vis in simp_all)
  moreover have "Go_Strings.fields (''Bearer'' @ CHR '' '' # t) = [''Bearer'', t]"
    by (rule fields_two_words [OF vis _ assms(2,1)]) simp
  moreover have "equalFold ''Bearer'' ''Bearer''" by code_simp
  ultimately have "bearerToken (headerSet ''Authorization'' (''Bearer '' @ t) h) = Inr t"
    using assms(1) unfolding bearerToken_def content by simp
  moreover have "bearerToken h' = Inr x \<longrightarrow> x \<noteq> []" for h' x
    by (auto simp: bearerToken_def Let_def split: if_splits)
  ultimately show ?thesis by blast
qed

theorem bearer_roundtrip_witness:
  "bearerToken (headerSet ''Authorization'' (''Bearer '' @ ''eyJh.eyJz.c2ln'') []) = Inr ''eyJh.eyJz.c2ln''"
proof -
  have "list_all visible_byte ''eyJh.eyJz.c2ln''" by code_simp
  with bearer_roundtrip [of "''eyJh.eyJz.c2ln''" "[]"] show ?thesis by simp
qed

section \<open>Discovery\<close>

text \<open>Discovery cannot be redirected: the metadata it returns names the configured issuer, up to one
  trailing slash, and a key endpoint that is a plain HTTPS URL (or HTTP on a loopback host where
  local issuers are allowed) without credentials, query or fragment.\<close>

theorem discovery_sound:
  assumes "discoverIssuer fs do unmarshal issuer allowLocal tls = Inr md"
  shows "trimSuffix (im_issuer md) ''/'' = trimSuffix issuer ''/''
    \<and> (\<exists>u. urlParse (im_jwksURI md) = Some u \<and> hostname u \<noteq> [] \<and> u_user u = None \<and> u_rawQuery u = [] \<and> u_fragment u = []
         \<and> (u_scheme u = ''https'' \<or> allowLocal \<and> u_scheme u = ''http'' \<and> loopback_host (hostname u)))"
proof -
  have "\<exists>md'. check_metadata issuer allowLocal md' = Inr md"
    using assms by (auto simp: discoverIssuer_def rbind_Inr split: option.splits jwks_reply.splits if_splits sum.splits)
  then show ?thesis by (auto simp: check_metadata_def simp del: split_paired_All split_paired_Ex not_None_eq split: if_splits option.splits)
qed

section \<open>An example verifier\<close>

definition example_token :: jwt_token where
  "example_token = \<lparr>jt_subject = ''alice'', jt_issuer = ''https://issuer.example'', jt_audience = [''cli-gateway''],
     jt_expiration = 100, jt_get = [''scope'' \<mapsto> VStr ''demo:read demo:write'', ''invoker'' \<mapsto> VStr ''ai'']\<rparr>"

definition example_lib :: "gotime \<Rightarrow> unit jwt_lib" where
  "example_lib now =
     \<lparr>jl_header = (\<lambda>_. Some \<lparr>jh_algorithm = ''ES256'', jh_keyID = ''a''\<rparr>),
      jl_parse = (\<lambda>ks _. if containsKeyID (Some ks) ''a'' then Inr example_token else Inl ''no key''),
      jl_validate = (\<lambda>opts t. if now \<ge> jt_expiration t + jo_skew opts then JwtExpired ''exp''
        else if jt_issuer t = jo_issuer opts \<and> jo_audience opts \<in> set (jt_audience t) then JwtValid else JwtRejected ''claims'')\<rparr>"

definition example_verifier :: verifier where
  "example_verifier = \<lparr>vf_issuer = ''https://issuer.example'', vf_audience = ''cli-gateway'', vf_algorithms = [''ES256'', ''RS256''],
     vf_identityClaims = []\<rparr>"

lemma example_header: "parseJWTHeader (jl_header (example_lib now)) ''e30.e30.c2ln'' = Inr \<lparr>jh_algorithm = ''ES256'', jh_keyID = ''a''\<rparr>"
proof -
  have "splitOn (CHR ''.'') ''e30.e30.c2ln'' = [''e30'', ''e30'', ''c2ln'']" "b64_decode ''e30'' \<noteq> None" by code_simp+
  then show ?thesis by (auto simp: parseJWTHeader_def example_lib_def rawEncodedLen_def maxJWTHeaderBytes_def)
qed

lemma example_verify:
  "verify (example_lib now) (managed_keys je 6 6) example_verifier ''e30.e30.c2ln'' rotated
   = (check_token (example_lib now) example_verifier [issuer_key ''a''] ''e30.e30.c2ln'', rotated)"
proof -
  have "trimSpace ''e30.e30.c2ln'' \<noteq> []" by code_simp
  moreover have "find_keys (managed_keys je 6 6) ''a'' rotated = (Some [issuer_key ''a''], rotated)"
    by (simp add: find_keys_def managed_keys_def rotated_keys containsKeyID_def issuer_key_def)
  ultimately show ?thesis
    by (simp add: verify_def example_header example_verifier_def containsKeyID_def issuer_key_def)
qed

lemma example_check:
  "check_token (example_lib 7) example_verifier [issuer_key ''a''] raw = Inr (principal_of example_verifier example_token)"
  "check_token (example_lib (hour)) example_verifier [issuer_key ''a''] raw = Inl (ExpiredToken ''exp'')"
  by (simp_all add: check_token_def example_lib_def example_verifier_def example_token_def validate_options_def containsKeyID_def
      issuer_key_def dur_defs)


theorem verify_rejects_witness:
  "jl_validate (example_lib hour) (validate_options example_verifier) example_token = JwtExpired ''exp''"
proof -
  have "verify (example_lib hour) (managed_keys (issuer_env ''a'' 5) 6 6) example_verifier ''e30.e30.c2ln'' rotated
      = (Inl (ExpiredToken ''exp''), rotated)"
    by (simp only: example_verify example_check)
  from verify_rejects [OF this]
  obtain ks t where "jl_parse (example_lib hour) ks ''e30.e30.c2ln'' = Inr t"
    "jl_validate (example_lib hour) (validate_options example_verifier) t = JwtExpired ''exp''" by blast
  then show ?thesis by (auto simp: example_lib_def split: if_splits)
qed

definition example_metadata :: issuer_metadata where
  "example_metadata = \<lparr>im_issuer = ''https://issuer.example'', im_jwksURI = ''https://issuer.example/keys''\<rparr>"

theorem discovery_sound_witness:
  "trimSuffix (im_issuer example_metadata) ''/'' = trimSuffix ''https://issuer.example/'' ''/''"
proof -
  have check: "check_metadata ''https://issuer.example/'' False example_metadata = Inr example_metadata"
    "newRequest ''GET'' (trimSuffix ''https://issuer.example/'' ''/'' @ ''/.well-known/openid-configuration'') None \<noteq> None"
    by code_simp+
  have "newClientWithTLS issuer_files (10 * second) False issuer_tls \<noteq> Inl e" for e
    by (simp add: newClientWithTLS_def newClient_def loadTLSConfig_def issuer_tls_def)
  with check have "discoverIssuer issuer_files (\<lambda>_. JwksReply 200 [] (Some ''{}'')) (\<lambda>_. Inr example_metadata)
      ''https://issuer.example/'' False issuer_tls = Inr example_metadata"
    by (auto simp: discoverIssuer_def rbind_Inr maxDiscoveryBytes_def split: option.splits intro: sum.exhaust)
  from discovery_sound [OF this] show ?thesis by blast
qed

end
