(* ===== verification/Identity_Signer.thy ===== *)
theory Identity_Signer
  imports Auth_Verify
begin

text \<open>
  Outbound identity assertions, \<open>internal/identity/signer.go\<close>: the active signing key with the
  verification keys of earlier rotations, and the claims of an assertion. Key files, PEM and ASN.1
  parsing, the elliptic curve and the JOSE signature are arguments.
\<close>

section \<open>Keys\<close>

text \<open>
  The cryptographic library: parsers return the key if it is an ECDSA key; \<open>el_p256\<close> tells the curve of
  a public key, which is the curve of the private key it belongs to.
\<close>

record ('p, 'q) ec_lib =
  el_generate :: "string + 'p"
  el_readFile :: "string \<Rightarrow> string + string"
  el_pem :: "string \<Rightarrow> string option"
  el_parseEC :: "string \<Rightarrow> 'p option"
  el_parsePKCS8 :: "string \<Rightarrow> string + 'p option"
  el_parsePKIX :: "string \<Rightarrow> 'q option option"
  el_parseCertificate :: "string \<Rightarrow> 'q option option"
  el_public :: "'p \<Rightarrow> 'q"
  el_p256 :: "'q \<Rightarrow> bool"
  el_marshal :: "'q \<Rightarrow> string + string"
  el_sha256 :: "string \<Rightarrow> string"
  el_fromRaw :: "'q \<Rightarrow> string option"
  el_publicKeyOf :: "'q \<Rightarrow> string option"

definition loadPrivateKey :: "('p, 'q) ec_lib \<Rightarrow> string \<Rightarrow> string + 'p" where
  "loadPrivateKey el path =
     (case el_readFile el path of
        Inl e \<Rightarrow> Inl e
      | Inr contents \<Rightarrow>
          (case el_pem el contents of
             None \<Rightarrow> Inl ''identity key file is not PEM''
           | Some block \<Rightarrow>
               (case el_parseEC el block of
                  Some k \<Rightarrow> Inr k
                | None \<Rightarrow>
                    (case el_parsePKCS8 el block of
                       Inl e \<Rightarrow> Inl (''parse EC or PKCS8 private key: '' @ e)
                     | Inr None \<Rightarrow> Inl ''identity key is not ECDSA''
                     | Inr (Some k) \<Rightarrow> Inr k))))"

definition p256_public :: "('p, 'q) ec_lib \<Rightarrow> string \<Rightarrow> 'q option \<Rightarrow> string + 'q" where
  "p256_public el message key =
     (case key of None \<Rightarrow> Inl message | Some q \<Rightarrow> (if el_p256 el q then Inr q else Inl message))"

definition loadPreviousPublicKey :: "('p, 'q) ec_lib \<Rightarrow> string \<Rightarrow> string + 'q" where
  "loadPreviousPublicKey el path =
     (case el_readFile el path of
        Inl e \<Rightarrow> Inl e
      | Inr contents \<Rightarrow>
          (case el_pem el contents of
             None \<Rightarrow> Inl ''previous identity key file is not PEM''
           | Some block \<Rightarrow>
               (case el_parsePKIX el block of
                  Some key \<Rightarrow> p256_public el ''previous identity public key must use ECDSA P-256'' key
                | None \<Rightarrow>
                    (case el_parseCertificate el block of
                       Some key \<Rightarrow> p256_public el ''previous identity certificate must use ECDSA P-256'' key
                     | None \<Rightarrow>
                         (case loadPrivateKey el path of
                            Inl _ \<Rightarrow> Inl ''previous identity key must be a P-256 public key, certificate, or private key''
                          | Inr k \<Rightarrow> Inr (el_public el k))))))"

text \<open>A key of the published set, with the three fields \<open>configureJWK\<close> sets.\<close>

record 'q public_jwk =
  pj_kid :: string
  pj_algorithm :: string
  pj_usage :: string
  pj_key :: 'q

definition configureJWK :: "'q \<Rightarrow> string \<Rightarrow> 'q public_jwk" where
  "configureJWK key kid = \<lparr>pj_kid = kid, pj_algorithm = ''ES256'', pj_usage = ''sig'', pj_key = key\<rparr>"

definition key_identifier :: "('p, 'q) ec_lib \<Rightarrow> string \<Rightarrow> string" where
  "key_identifier el der = hexEncode (take 8 (el_sha256 el der))"

record ('p, 'q) signer =
  sg_private :: 'p
  sg_public :: "'q public_jwk list"
  sg_kid :: string

text \<open>The loop over the previous key files; the identifiers seen are those of the set.\<close>

fun add_previous :: "('p, 'q) ec_lib \<Rightarrow> string list \<Rightarrow> 'q public_jwk list \<Rightarrow> string + 'q public_jwk list" where
  "add_previous el [] ks = Inr ks"
| "add_previous el (path # paths) ks =
     (case loadPreviousPublicKey el path of
        Inl e \<Rightarrow> Inl (''load previous identity signing key '' @ path @ '': '' @ e)
      | Inr q \<Rightarrow>
          (case el_marshal el q of
             Inl e \<Rightarrow> Inl (''marshal previous identity public key: '' @ e)
           | Inr der \<Rightarrow>
               (let kid = key_identifier el der
                in if kid \<in> set (map pj_kid ks) then Inl (''duplicate identity signing key '' @ kid)
                   else (case el_fromRaw el q of
                           Some e \<Rightarrow> Inl (''create previous public JWK: '' @ e)
                         | None \<Rightarrow> add_previous el paths (ks @ [configureJWK q kid])))))"

definition newRotatingSigner :: "('p, 'q) ec_lib \<Rightarrow> string \<Rightarrow> string list \<Rightarrow> string \<Rightarrow> string + ('p, 'q) signer" where
  "newRotatingSigner el keyFile previous environment =
     (if keyFile = [] \<and> environment = ''production'' then Inl ''production identity key file is required''
      else (case (if keyFile = [] then el_generate el else loadPrivateKey el keyFile) of
              Inl e \<Rightarrow> Inl (''load identity signing key: '' @ e)
            | Inr k \<Rightarrow>
                (if \<not> el_p256 el (el_public el k) then Inl ''identity signing key must use P-256''
                 else (case el_marshal el (el_public el k) of
                         Inl e \<Rightarrow> Inl (''marshal identity public key: '' @ e)
                       | Inr der \<Rightarrow>
                           (let kid = key_identifier el der
                            in case el_fromRaw el (el_public el k) of
                                 Some e \<Rightarrow> Inl (''create private JWK: '' @ e)
                               | None \<Rightarrow>
                                   (case el_publicKeyOf el (el_public el k) of
                                      Some e \<Rightarrow> Inl (''create public JWK: '' @ e)
                                    | None \<Rightarrow>
                                        (case add_previous el previous [configureJWK (el_public el k) kid] of
                                           Inl e \<Rightarrow> Inl e
                                         | Inr ks \<Rightarrow> Inr \<lparr>sg_private = k, sg_public = ks, sg_kid = kid\<rparr>)))))))"

section \<open>Assertions\<close>

record identity_claims =
  ic_issuer :: string
  ic_audience :: "string list"
  ic_subject :: string
  ic_issuedAt :: gotime
  ic_expiration :: gotime
  ic_private :: "(string, goval) gomap"

definition identity_assertion :: "gotime \<Rightarrow> invocation \<Rightarrow> identity_claims" where
  "identity_assertion now iv =
     (let claims = [(''invoker'', VStr (inv_invoker iv)), (''trace_id'', VStr (inv_traceID iv))];
          claims = (if pr_email (inv_principal iv) \<noteq> [] then put ''email'' (VStr (pr_email (inv_principal iv))) claims else claims);
          claims = (if pr_name (inv_principal iv) \<noteq> [] then put ''name'' (VStr (pr_name (inv_principal iv))) claims else claims)
      in \<lparr>ic_issuer = ''cli-gateway'', ic_audience = [cmd_identityAudience (inv_command iv)], ic_subject = pr_subject (inv_principal iv),
          ic_issuedAt = now, ic_expiration = now + minute, ic_private = claims\<rparr>)"

text \<open>\<open>Sign\<close>: building the token and signing it with the active key are the JOSE library's.\<close>

definition signIdentity ::
  "(identity_claims \<Rightarrow> string + 'b) \<Rightarrow> ('p \<Rightarrow> string \<Rightarrow> 'b \<Rightarrow> string + string) \<Rightarrow> gotime \<Rightarrow> ('p, 'q) signer \<Rightarrow> invocation \<Rightarrow> string + string" where
  "signIdentity build sign now s iv =
     (case build (identity_assertion now iv) of
        Inl e \<Rightarrow> Inl (''build identity JWT: '' @ e)
      | Inr token \<Rightarrow>
          (case sign (sg_private s) (sg_kid s) token of
             Inl e \<Rightarrow> Inl (''sign identity JWT: '' @ e)
           | Inr signed \<Rightarrow> Inr signed))"

section \<open>The published key set\<close>

lemma add_previous_Inr:
  assumes "add_previous el paths ks = Inr ks'" "distinct (map pj_kid ks)"
  shows "\<exists>old. ks' = ks @ old \<and> length old = length paths \<and> distinct (map pj_kid ks')
    \<and> list_all2 (\<lambda>path j. loadPreviousPublicKey el path = Inr (pj_key j)
        \<and> (\<exists>der. el_marshal el (pj_key j) = Inr der \<and> j = configureJWK (pj_key j) (key_identifier el der))) paths old"
  using assms
proof (induction el paths ks rule: add_previous.induct)
  case (1 el ks)
  then show ?case by simp
next
  case (2 el path paths ks)
  obtain q der where q: "loadPreviousPublicKey el path = Inr q" "el_marshal el q = Inr der" "key_identifier el der \<notin> set (map pj_kid ks)"
    "el_fromRaw el q = None"
    and rest: "add_previous el paths (ks @ [configureJWK q (key_identifier el der)]) = Inr ks'"
    using "2.prems"(1) by (auto simp: Let_def split: sum.splits if_splits option.splits)
  let ?j = "configureJWK q (key_identifier el der)"
  have j: "pj_kid ?j = key_identifier el der" "pj_key ?j = q" by (simp_all add: configureJWK_def)
  have d: "distinct (map pj_kid (ks @ [?j]))" using q(3) "2.prems"(2) j(1) by simp
  obtain old where old: "ks' = (ks @ [?j]) @ old" "length old = length paths" "distinct (map pj_kid ks')"
    "list_all2 (\<lambda>path j. loadPreviousPublicKey el path = Inr (pj_key j)
        \<and> (\<exists>der. el_marshal el (pj_key j) = Inr der \<and> j = configureJWK (pj_key j) (key_identifier el der))) paths old"
    using "2.IH" [OF q(1,2) refl q(3,4) rest d] by blast
  show ?case by (rule exI [of _ "?j # old"]) (use old q j in auto)
qed

text \<open>Assertions stay verifiable across rotations: a signer that starts holds a P-256 key, publishes it
  first and then one key per previous key file, in order, under pairwise different identifiers each
  derived from the SHA-256 digest of the key it names; and it does not start without a key file in
  production, where an ephemeral key would change with every restart.\<close>

theorem signer_publishes_rotation:
  assumes "newRotatingSigner el keyFile previous environment = Inr s"
  shows "el_p256 el (el_public el (sg_private s)) \<and> (keyFile = [] \<longrightarrow> environment \<noteq> ''production'')
    \<and> distinct (map pj_kid (sg_public s)) \<and> length (sg_public s) = Suc (length previous)
    \<and> sg_public s ! 0 = configureJWK (el_public el (sg_private s)) (sg_kid s)
    \<and> list_all (\<lambda>j. \<exists>der. el_marshal el (pj_key j) = Inr der \<and> j = configureJWK (pj_key j) (key_identifier el der)) (sg_public s)
    \<and> list_all2 (\<lambda>path j. loadPreviousPublicKey el path = Inr (pj_key j)) previous (tl (sg_public s))"
proof -
  obtain der where s: "el_p256 el (el_public el (sg_private s))" "el_marshal el (el_public el (sg_private s)) = Inr der"
    "sg_kid s = key_identifier el der" "keyFile = [] \<longrightarrow> environment \<noteq> ''production''"
    "add_previous el previous [configureJWK (el_public el (sg_private s)) (sg_kid s)] = Inr (sg_public s)"
    using assms by (auto simp: newRotatingSigner_def Let_def split: if_splits sum.splits option.splits)
  let ?j = "configureJWK (el_public el (sg_private s)) (sg_kid s)"
  obtain old where old: "sg_public s = [?j] @ old" "length old = length previous" "distinct (map pj_kid (sg_public s))"
    "list_all2 (\<lambda>path j. loadPreviousPublicKey el path = Inr (pj_key j)
        \<and> (\<exists>der. el_marshal el (pj_key j) = Inr der \<and> j = configureJWK (pj_key j) (key_identifier el der))) previous old"
    using add_previous_Inr [OF s(5)] by auto
  have "list_all (\<lambda>j. \<exists>der. el_marshal el (pj_key j) = Inr der \<and> j = configureJWK (pj_key j) (key_identifier el der)) old"
    using old(4) by (auto simp: list_all_iff list_all2_conv_all_nth in_set_conv_nth)
  moreover have "list_all2 (\<lambda>path j. loadPreviousPublicKey el path = Inr (pj_key j)) previous old"
    using old(4) by (rule list_all2_mono) simp
  moreover have "pj_key ?j = el_public el (sg_private s)" by (simp add: configureJWK_def)
  ultimately show ?thesis using s old(1-3) by simp
qed

text \<open>
  A previous key given as a private key is not checked for its curve, unlike the active key and
  previous keys given as public keys or certificates.
\<close>

theorem previous_private_key_unchecked:
  assumes "el_readFile el path = Inr contents" "el_pem el contents = Some block" "el_parsePKIX el block = None"
    "el_parseCertificate el block = None" "el_parseEC el block = Some k" "\<not> el_p256 el (el_public el k)"
  shows "loadPreviousPublicKey el path = Inr (el_public el k)"
  using assms by (simp add: loadPreviousPublicKey_def loadPrivateKey_def)

section \<open>From the caller's token to the assertion\<close>

text \<open>An upstream learns about the caller only what the caller's verified token says: the assertion for
  an invocation of an authenticated principal is issued by the gateway for the audience of the
  command's domain, expires after a minute, names the token's subject, and carries an e-mail address
  or a name exactly when the configured claim of the token is a non-empty string, then that string.\<close>

theorem identity_assertion_faithful:
  assumes "verify lib ops v raw st = (Inr p, st')" "inv_principal iv = p"
  shows "\<exists>ks t. jl_parse lib ks raw = Inr t \<and> jl_validate lib (validate_options v) t = JwtValid
    \<and> (let a = identity_assertion now iv
       in ic_issuer a = ''cli-gateway'' \<and> ic_audience a = [cmd_identityAudience (inv_command iv)] \<and> ic_subject a = jt_subject t
          \<and> ic_subject a \<noteq> [] \<and> ic_expiration a = ic_issuedAt a + minute
          \<and> map_of (ic_private a) ''email'' = (if mapped_claim v t ''email'' = [] then None else Some (VStr (mapped_claim v t ''email'')))
          \<and> map_of (ic_private a) ''name'' = (if mapped_claim v t ''name'' = [] then None else Some (VStr (mapped_claim v t ''name'')))
          \<and> map_of (ic_private a) ''invoker'' = Some (VStr (inv_invoker iv))
          \<and> map_of (ic_private a) ''trace_id'' = Some (VStr (inv_traceID iv)))"
proof -
  obtain ks where "check_token lib v ks raw = Inr p"
    using assms(1) by (auto simp: verify_def split: if_splits sum.splits option.splits prod.splits)
  then obtain t where t: "jl_parse lib ks raw = Inr t" "jl_validate lib (validate_options v) t = JwtValid" "jt_subject t \<noteq> []"
    "p = principal_of v t"
    by (auto simp: check_token_def split: sum.splits jwt_check.splits if_splits)
  then show ?thesis
    by (intro exI [of _ ks] exI [of _ t]) (simp add: identity_assertion_def Let_def assms(2) principal_of_def)
qed

section \<open>Witnesses\<close>

definition toy_lib :: "(nat, nat) ec_lib" where
  "toy_lib = \<lparr>el_generate = Inr 0, el_readFile = Inr, el_pem = Some, el_parseEC = (\<lambda>b. Some (length b)), el_parsePKCS8 = (\<lambda>_. Inr None),
     el_parsePKIX = (\<lambda>b. Some (Some (length b))), el_parseCertificate = (\<lambda>_. None), el_public = id, el_p256 = (\<lambda>_. True),
     el_marshal = (\<lambda>q. Inr (show_nat q)), el_sha256 = id, el_fromRaw = (\<lambda>_. None),
     el_publicKeyOf = (\<lambda>_. None)\<rparr>"

theorem signer_publishes_rotation_witness:
  "map pj_key (sg_public (projr (newRotatingSigner toy_lib ''new'' [''older''] ''production''))) = [3, 5]
   \<and> distinct (map pj_kid (sg_public (projr (newRotatingSigner toy_lib ''new'' [''older''] ''production''))))"
proof -
  let ?s = "newRotatingSigner toy_lib ''new'' [''older''] ''production''"
  have "\<not> isl ?s" "map pj_key (sg_public (projr ?s)) = [3, 5]" by code_simp+
  then have "?s = Inr (projr ?s)" by (cases ?s) simp_all
  from signer_publishes_rotation [OF this] \<open>map pj_key (sg_public (projr ?s)) = [3, 5]\<close> show ?thesis by blast
qed

definition verified_call :: invocation where
  "verified_call = (demo_invocation demo_get)\<lparr>inv_principal := principal_of example_verifier example_token\<rparr>"

theorem identity_assertion_faithful_witness:
  "ic_subject (identity_assertion 7 verified_call) = ''alice''"
proof -
  have v: "verify (example_lib 7) (managed_keys (issuer_env ''a'' 5) 6 6) example_verifier ''e30.e30.c2ln'' rotated
      = (Inr (principal_of example_verifier example_token), rotated)"
    by (simp only: example_verify example_check)
  have "inv_principal verified_call = principal_of example_verifier example_token" by (simp add: verified_call_def)
  from identity_assertion_faithful [OF v this, of 7] obtain ks t where t: "jl_parse (example_lib 7) ks ''e30.e30.c2ln'' = Inr t"
    "ic_subject (identity_assertion 7 verified_call) = jt_subject t" unfolding Let_def by blast
  have "t = example_token" using t(1) by (simp add: example_lib_def split: if_splits)
  then show ?thesis using t(2) by (simp add: example_token_def)
qed

end
