(* ===== verification/Audit_Dispatcher.thy ===== *)
theory Audit_Dispatcher
  imports Breaker Upstream_Dialer Invoke_Request Manifest_Compile
begin

text \<open>
  Audit, \<open>internal/audit\<close>: events, the sinks, and the dispatcher with its bounded queue and one
  worker. \<open>Record\<close>, the worker and \<open>Close\<close> interleave as steps of a relation. JSON
  encoding, files and the webhook's transport are arguments.
\<close>

section \<open>Events\<close>

record audit_event =
  au_timestamp :: gotime
  au_event :: string
  au_traceID :: string
  au_subject :: string
  au_invoker :: string
  au_command :: string
  au_risk :: string
  au_decision :: string
  au_denyReason :: string
  au_outcome :: string
  au_status :: int
  au_latencyMS :: int
  au_client :: string
  au_argKeys :: "string list"
  au_generation :: nat
  au_authMethod :: string
  au_credential :: string
  au_cache :: string

definition no_event :: audit_event where
  "no_event = \<lparr>au_timestamp = zero_time, au_event = [], au_traceID = [], au_subject = [], au_invoker = [], au_command = [],
     au_risk = [], au_decision = [], au_denyReason = [], au_outcome = [], au_status = 0, au_latencyMS = 0, au_client = [],
     au_argKeys = [], au_generation = 0, au_authMethod = [], au_credential = [], au_cache = []\<rparr>"

section \<open>Sinks\<close>

text \<open>
  A writer sink is the text its writer received; a file is closed at most once, then its \<open>Close\<close>
  fails. A webhook has its breaker and, for the record, the requests it sent.
\<close>

record webhook_sink =
  wh_url :: string
  wh_timeout :: duration
  wh_breaker :: breaker
  wh_sent :: "http_request list"

datatype event_sink =
    WriterSink string
  | JsonlSink string string bool
  | Webhook webhook_sink

text \<open>The environment of one write: encoding, the writer's verdict, the transport and the clock.\<close>

record sink_env =
  se_encode :: "audit_event \<Rightarrow> string"
  se_writeFails :: "string \<Rightarrow> string option"
  se_do :: "http_request \<Rightarrow> string + int"
  se_allowAt :: gotime
  se_failAt :: gotime
  se_random :: string
  se_spanID :: string

definition webhook_request :: "sink_env \<Rightarrow> audit_event \<Rightarrow> string \<Rightarrow> http_request option" where
  "webhook_request se e url =
     map_option (\<lambda>rq.
       rq\<lparr>rq_header :=
         headerSet ''traceparent'' (traceParent (se_random se) (se_spanID se) (au_traceID e))
           (headerSet ''X-Cli-Gateway-Trace-Id'' (au_traceID e)
             (headerSet ''User-Agent'' ''cli-gateway/audit''
               (headerSet ''Content-Type'' ''application/json'' (rq_header rq))))\<rparr>)
     (newRequest ''POST'' url (Some (se_encode se e)))"

text \<open>\<open>webhookSink.Write\<close>: the error, the sink, and whether a circuit rejection was reported.\<close>

definition webhookWrite :: "sink_env \<Rightarrow> audit_event \<Rightarrow> webhook_sink \<Rightarrow> string option \<times> webhook_sink \<times> bool" where
  "webhookWrite se e w =
     (case allow (se_allowAt se) (wh_breaker w) of
        ((False, _), b) \<Rightarrow> (Some ''audit webhook circuit is open'', w\<lparr>wh_breaker := b\<rparr>, True)
      | ((True, _), b) \<Rightarrow>
          (case webhook_request se e (wh_url w) of
             None \<Rightarrow> (Some ''request'', w\<lparr>wh_breaker := b\<rparr>, False)
           | Some rq \<Rightarrow>
               (let sent = w\<lparr>wh_sent := wh_sent w @ [rq]\<rparr>
                in case se_do se rq of
                     Inl err \<Rightarrow> (Some err, sent\<lparr>wh_breaker := failure (se_failAt se) b\<rparr>, False)
                   | Inr st \<Rightarrow>
                       (if st < 200 \<or> st \<ge> 300
                        then (Some (''audit webhook returned status '' @ formatInt st),
                              sent\<lparr>wh_breaker := (if st \<ge> 500 then failure (se_failAt se) b else success b)\<rparr>, False)
                        else (None, sent\<lparr>wh_breaker := success b\<rparr>, False)))))"

definition newline :: string where
  "newline = [CHR 0x0A]"

text \<open>\<open>json.Encoder.Encode\<close> writes the document and a newline; a closed file refuses.\<close>

definition sinkWrite :: "sink_env \<Rightarrow> audit_event \<Rightarrow> event_sink \<Rightarrow> string option \<times> event_sink" where
  "sinkWrite se e s =
     (let line = se_encode se e @ newline
      in case s of
           WriterSink out \<Rightarrow>
             (case se_writeFails se line of Some err \<Rightarrow> (Some err, s) | None \<Rightarrow> (None, WriterSink (out @ line)))
         | JsonlSink path out shut \<Rightarrow>
             (if shut then (Some ''file already closed'', s)
              else (case se_writeFails se line of
                      Some err \<Rightarrow> (Some err, s)
                    | None \<Rightarrow> (None, JsonlSink path (out @ line) shut)))
         | Webhook w \<Rightarrow> (case webhookWrite se e w of (err, w', _) \<Rightarrow> (err, Webhook w')))"

definition sinkClose :: "event_sink \<Rightarrow> string option \<times> event_sink" where
  "sinkClose s =
     (case s of
        JsonlSink path out shut \<Rightarrow> (if shut then Some ''file already closed'' else None, JsonlSink path out True)
      | _ \<Rightarrow> (None, s))"

section \<open>The dispatcher\<close>

record dispatcher =
  ad_queue :: "audit_event list"
  ad_capacity :: int
  ad_sinks :: "event_sink list"
  ad_closed :: bool
  ad_dropped :: nat
  ad_working :: "audit_event option"
  ad_done :: bool

definition newDispatcher :: "event_sink list \<Rightarrow> int \<Rightarrow> string + dispatcher" where
  "newDispatcher sinks capacity =
     (if capacity \<le> 0 then Inl ''audit queue capacity must be positive''
      else Inr \<lparr>ad_queue = [], ad_capacity = capacity, ad_sinks = sinks, ad_closed = False, ad_dropped = 0,
                ad_working = None, ad_done = False\<rparr>)"

text \<open>Opening the configured sinks in order; a failure closes those already opened.\<close>

record build_env =
  bl_openFails :: "string \<Rightarrow> string option"
  bl_tls :: tls_files

definition open_sink :: "build_env \<Rightarrow> compiled_audit_sink \<Rightarrow> string + event_sink" where
  "open_sink bl c =
     (if cs_type c = ''jsonl'' then
        (case bl_openFails bl (cs_path c) of
           Some e \<Rightarrow> Inl (''open audit JSONL: '' @ e)
         | None \<Rightarrow> Inr (JsonlSink (cs_path c) [] False))
      else if cs_type c = ''stdout'' then Inr (WriterSink [])
      else if cs_type c = ''webhook'' then
        (case newClientWithTLS (bl_tls bl) (cs_timeout c) False (cs_tls c) of
           Inl e \<Rightarrow> Inl (''initialize audit webhook transport: '' @ e)
         | Inr _ \<Rightarrow>
             (case cs_url c of
                None \<Rightarrow> Inl ''nil pointer dereference''
              | Some u \<Rightarrow> Inr (Webhook \<lparr>wh_url = urlString u, wh_timeout = cs_timeout c,
                                       wh_breaker = newBreaker 3 (30 * second), wh_sent = []\<rparr>)))
      else Inl (''unsupported audit sink '' @ cs_type c))"

fun open_sinks :: "build_env \<Rightarrow> compiled_audit_sink list \<Rightarrow> event_sink list \<Rightarrow> (string \<times> event_sink list) + event_sink list" where
  "open_sinks bl [] opened = Inr opened"
| "open_sinks bl (c # cs) opened =
     (case open_sink bl c of
        Inl e \<Rightarrow> Inl (e, map (\<lambda>s. snd (sinkClose s)) opened)
      | Inr s \<Rightarrow> open_sinks bl cs (opened @ [s]))"

definition buildAudit :: "build_env \<Rightarrow> compiled_audit_sink list \<Rightarrow> (string \<times> event_sink list) + dispatcher" where
  "buildAudit bl configs =
     (case open_sinks bl configs [] of
        Inl e \<Rightarrow> Inl e
      | Inr sinks \<Rightarrow> (case newDispatcher sinks 1024 of Inl e \<Rightarrow> Inl (e, sinks) | Inr d \<Rightarrow> Inr d))"

text \<open>\<open>Record\<close>, under the read lock: a send on the queue or a drop.\<close>

definition stamped :: "gotime \<Rightarrow> audit_event \<Rightarrow> audit_event" where
  "stamped now event = (if is_zero (au_timestamp event) then event\<lparr>au_timestamp := now\<rparr> else event)"

definition recordEvent :: "gotime \<Rightarrow> audit_event \<Rightarrow> dispatcher \<Rightarrow> dispatcher" where
  "recordEvent now event d =
     (if ad_closed d then d
      else if int (length (ad_queue d)) < ad_capacity d then d\<lparr>ad_queue := ad_queue d @ [stamped now event]\<rparr>
      else d\<lparr>ad_dropped := Suc (ad_dropped d)\<rparr>)"

text \<open>The worker: receive, write to every sink in turn, and stop when the closed queue is empty.\<close>

definition take_event :: "dispatcher \<Rightarrow> dispatcher option" where
  "take_event d =
     (case (ad_working d, ad_queue d) of
        (None, e # q) \<Rightarrow> Some (d\<lparr>ad_queue := q, ad_working := Some e\<rparr>)
      | _ \<Rightarrow> None)"

definition write_all :: "(nat \<Rightarrow> sink_env) \<Rightarrow> audit_event \<Rightarrow> event_sink list \<Rightarrow> event_sink list" where
  "write_all envs e sinks = map (\<lambda>i. snd (sinkWrite (envs i) e (sinks ! i))) [0..<length sinks]"

definition write_event :: "(nat \<Rightarrow> sink_env) \<Rightarrow> dispatcher \<Rightarrow> dispatcher option" where
  "write_event envs d =
     (case ad_working d of
        None \<Rightarrow> None
      | Some e \<Rightarrow> Some (d\<lparr>ad_sinks := write_all envs e (ad_sinks d), ad_working := None\<rparr>))"

definition finish_worker :: "dispatcher \<Rightarrow> dispatcher option" where
  "finish_worker d =
     (if ad_closed d \<and> ad_queue d = [] \<and> ad_working d = None \<and> \<not> ad_done d then Some (d\<lparr>ad_done := True\<rparr>) else None)"

definition closeQueue :: "dispatcher \<Rightarrow> dispatcher" where
  "closeQueue d = d\<lparr>ad_closed := True\<rparr>"

text \<open>The last part of \<open>Close\<close>, once the worker is done.\<close>

definition closeSinks :: "dispatcher \<Rightarrow> string list \<times> dispatcher" where
  "closeSinks d = (List.map_filter (\<lambda>s. fst (sinkClose s)) (ad_sinks d), d\<lparr>ad_sinks := map (\<lambda>s. snd (sinkClose s)) (ad_sinks d)\<rparr>)"

section \<open>Interleavings\<close>

text \<open>
  The state with its history: the events \<open>Record\<close> was given while the queue was open, those it
  accepted, and those the worker wrote.
\<close>

record audit_sys =
  as_dispatcher :: dispatcher
  as_offered :: nat
  as_accepted :: "audit_event list"
  as_written :: "audit_event list"

definition accepts :: "dispatcher \<Rightarrow> bool" where
  "accepts d \<longleftrightarrow> \<not> ad_closed d \<and> int (length (ad_queue d)) < ad_capacity d"

inductive audit_step :: "audit_sys \<Rightarrow> audit_sys \<Rightarrow> bool" where
  step_record: "audit_step a (a\<lparr>as_dispatcher := recordEvent now e (as_dispatcher a),
      as_offered := (if ad_closed (as_dispatcher a) then as_offered a else Suc (as_offered a)),
      as_accepted := as_accepted a @ (if accepts (as_dispatcher a) then [stamped now e] else [])\<rparr>)"
| step_take: "take_event (as_dispatcher a) = Some d \<Longrightarrow> audit_step a (a\<lparr>as_dispatcher := d\<rparr>)"
| step_write: "ad_working (as_dispatcher a) = Some e \<Longrightarrow> write_event envs (as_dispatcher a) = Some d \<Longrightarrow>
    audit_step a (a\<lparr>as_dispatcher := d, as_written := as_written a @ [e]\<rparr>)"
| step_finish: "finish_worker (as_dispatcher a) = Some d \<Longrightarrow> audit_step a (a\<lparr>as_dispatcher := d\<rparr>)"
| step_close: "audit_step a (a\<lparr>as_dispatcher := closeQueue (as_dispatcher a)\<rparr>)"
| step_sinks: "ad_done (as_dispatcher a) \<Longrightarrow> audit_step a (a\<lparr>as_dispatcher := snd (closeSinks (as_dispatcher a))\<rparr>)"

inductive audit_reachable :: "dispatcher \<Rightarrow> audit_sys \<Rightarrow> bool" for d0 where
  audit_init: "audit_reachable d0 \<lparr>as_dispatcher = d0, as_offered = 0, as_accepted = [], as_written = []\<rparr>"
| audit_next: "audit_reachable d0 a \<Longrightarrow> audit_step a a' \<Longrightarrow> audit_reachable d0 a'"

inductive_cases audit_stepE: "audit_step a a'"

definition sink_open :: "event_sink \<Rightarrow> bool" where
  "sink_open s = (case s of JsonlSink _ _ shut \<Rightarrow> \<not> shut | _ \<Rightarrow> True)"

definition audit_inv :: "audit_sys \<Rightarrow> bool" where
  "audit_inv a \<longleftrightarrow>
     (let d = as_dispatcher a
      in as_accepted a = as_written a @ (case ad_working d of None \<Rightarrow> [] | Some e \<Rightarrow> [e]) @ ad_queue d
         \<and> as_offered a = length (as_accepted a) + ad_dropped d
         \<and> int (length (ad_queue d)) \<le> ad_capacity d
         \<and> (ad_done d \<longrightarrow> ad_closed d \<and> ad_queue d = [] \<and> ad_working d = None)
         \<and> (\<not> ad_done d \<longrightarrow> list_all sink_open (ad_sinks d)))"

lemma sinkWrite_open: "sink_open s \<Longrightarrow> sink_open (snd (sinkWrite se e s))"
  by (auto simp: sinkWrite_def sink_open_def Let_def split: event_sink.splits option.splits prod.splits)

lemma write_all_open: "list_all sink_open ss \<Longrightarrow> list_all sink_open (write_all envs e ss)"
  by (auto simp: write_all_def list_all_length intro: sinkWrite_open)

lemma record_inv:
  assumes "audit_inv a"
  shows "audit_inv (a\<lparr>as_dispatcher := recordEvent now e (as_dispatcher a),
      as_offered := (if ad_closed (as_dispatcher a) then as_offered a else Suc (as_offered a)),
      as_accepted := as_accepted a @ (if accepts (as_dispatcher a) then [stamped now e] else [])\<rparr>)"
  using assms by (auto simp: audit_inv_def recordEvent_def accepts_def Let_def)

lemma audit_step_inv: "audit_step a a' \<Longrightarrow> audit_inv a \<Longrightarrow> audit_inv a'"
proof (induction rule: audit_step.induct)
  case (step_record a now e)
  then show ?case by (rule record_inv)
next
  case (step_take a d)
  then show ?case by (auto simp: audit_inv_def take_event_def Let_def split: option.splits list.splits)
next
  case (step_write a e envs d)
  then show ?case by (auto simp: audit_inv_def write_event_def Let_def write_all_open split: option.splits)
next
  case (step_finish a d)
  then show ?case by (auto simp: audit_inv_def finish_worker_def Let_def split: if_splits)
next
  case (step_close a)
  then show ?case by (simp add: audit_inv_def closeQueue_def Let_def)
next
  case (step_sinks a)
  then show ?case by (simp add: audit_inv_def closeSinks_def Let_def)
qed

lemma audit_reachable_inv:
  assumes "audit_reachable d0 a" "newDispatcher sinks capacity = Inr d0" "list_all sink_open sinks"
  shows "audit_inv a"
  using assms
proof (induction rule: audit_reachable.induct)
  case audit_init
  then show ?case by (auto simp: audit_inv_def newDispatcher_def split: if_splits)
next
  case (audit_next a a')
  then show ?case by (blast intro: audit_step_inv)
qed


section \<open>Shutdown\<close>

text \<open>The worker alone, as \<open>Close\<close> waits for it: it writes what it holds, then the queue.\<close>

fun drain_queue :: "(nat \<Rightarrow> sink_env) \<Rightarrow> audit_event list \<Rightarrow> event_sink list \<Rightarrow> event_sink list" where
  "drain_queue envs [] sinks = sinks"
| "drain_queue envs (e # es) sinks = drain_queue envs es (write_all envs e sinks)"

definition held :: "dispatcher \<Rightarrow> audit_event list" where
  "held d = (case ad_working d of None \<Rightarrow> [] | Some e \<Rightarrow> [e]) @ ad_queue d"

lemma drain_steps:
  assumes "\<not> ad_done (as_dispatcher a)"
  shows "audit_step\<^sup>*\<^sup>* a (a\<lparr>as_dispatcher := (as_dispatcher a)\<lparr>ad_queue := [], ad_working := None,
      ad_sinks := drain_queue envs (held (as_dispatcher a)) (ad_sinks (as_dispatcher a))\<rparr>,
    as_written := as_written a @ held (as_dispatcher a)\<rparr>)"
  using assms
proof (induction "held (as_dispatcher a)" arbitrary: a)
  case Nil
  then have "ad_queue (as_dispatcher a) = []" "ad_working (as_dispatcher a) = None"
    by (auto simp: held_def split: option.splits)
  moreover from this have same: "(as_dispatcher a)\<lparr>ad_queue := [], ad_working := None\<rparr> = as_dispatcher a"
    by (intro dispatcher.equality) simp_all
  ultimately show ?case by (simp add: held_def same)
next
  case (Cons e es)
  let ?d = "as_dispatcher a"
  let ?d1 = "?d\<lparr>ad_queue := es, ad_working := Some e\<rparr>"
  have taken: "audit_step\<^sup>*\<^sup>* a (a\<lparr>as_dispatcher := ?d1\<rparr>)"
  proof (cases "ad_working ?d")
    case None
    then have q: "ad_queue ?d = e # es" using Cons.hyps(2) by (simp add: held_def)
    have "take_event ?d = Some ?d1" by (simp add: take_event_def None q)
    then show ?thesis by (blast intro: r_into_rtranclp step_take)
  next
    case (Some x)
    then have "x = e" "ad_queue ?d = es" using Cons.hyps(2) by (simp_all add: held_def)
    with Some have "?d1 = ?d" by simp
    then show ?thesis by simp
  qed
  let ?d2 = "?d1\<lparr>ad_sinks := write_all envs e (ad_sinks ?d), ad_working := None\<rparr>"
  let ?a2 = "a\<lparr>as_dispatcher := ?d2, as_written := as_written a @ [e]\<rparr>"
  have written: "audit_step (a\<lparr>as_dispatcher := ?d1\<rparr>) ?a2"
    using step_write [of "a\<lparr>as_dispatcher := ?d1\<rparr>" e envs ?d2] by (simp add: write_event_def)
  have h: "held (as_dispatcher ?a2) = es" by (simp add: held_def)
  have "audit_step\<^sup>*\<^sup>* ?a2 (?a2\<lparr>as_dispatcher := (as_dispatcher ?a2)\<lparr>ad_queue := [], ad_working := None,
      ad_sinks := drain_queue envs (held (as_dispatcher ?a2)) (ad_sinks (as_dispatcher ?a2))\<rparr>,
    as_written := as_written ?a2 @ held (as_dispatcher ?a2)\<rparr>)"
    by (rule Cons.hyps(1)) (use h Cons.prems in simp_all)
  with taken written show ?case unfolding h Cons.hyps(2) [symmetric]
    by (auto intro: rtranclp_trans [OF rtranclp.rtrancl_into_rtrancl [OF taken written]])
qed

text \<open>Closing the dispatcher drains it: from every reachable state, once the queue is closed the worker
  alone reaches its end, after which every accepted event has been written, the events it still held
  to every sink in order, and \<open>Close\<close> can close the sinks; and events recorded after that change nothing.\<close>

theorem audit_close_drains:
  assumes "newDispatcher sinks capacity = Inr d0" "list_all sink_open sinks" "audit_reachable d0 a" "ad_closed (as_dispatcher a)"
  shows "\<exists>a'. audit_step\<^sup>*\<^sup>* a a' \<and> ad_done (as_dispatcher a') \<and> as_written a' = as_accepted a
    \<and> ad_sinks (as_dispatcher a') = drain_queue envs (held (as_dispatcher a)) (ad_sinks (as_dispatcher a))
    \<and> (\<forall>now e. recordEvent now e (as_dispatcher a') = as_dispatcher a')"
proof (cases "ad_done (as_dispatcher a)")
  case True
  have "as_written a = as_accepted a" "held (as_dispatcher a) = []"
    using audit_reachable_inv [OF assms(3,1,2)] True by (auto simp: audit_inv_def held_def Let_def)
  with True assms(4) show ?thesis by (intro exI [of _ a]) (simp add: recordEvent_def)
next
  case False
  let ?d = "as_dispatcher a"
  let ?b = "a\<lparr>as_dispatcher := ?d\<lparr>ad_queue := [], ad_working := None, ad_sinks := drain_queue envs (held ?d) (ad_sinks ?d)\<rparr>,
    as_written := as_written a @ held ?d\<rparr>"
  let ?c = "?b\<lparr>as_dispatcher := (as_dispatcher ?b)\<lparr>ad_done := True\<rparr>\<rparr>"
  have "audit_step ?b ?c"
    using step_finish [of ?b "(as_dispatcher ?b)\<lparr>ad_done := True\<rparr>"] False assms(4) by (simp add: finish_worker_def)
  with drain_steps [OF False, of envs] have "audit_step\<^sup>*\<^sup>* a ?c" by (rule rtranclp.rtrancl_into_rtrancl)
  moreover have "as_accepted a = as_written a @ held ?d"
    using audit_reachable_inv [OF assms(3,1,2)] by (simp add: audit_inv_def held_def Let_def)
  ultimately show ?thesis using assms(4) by (intro exI [of _ ?c]) (simp add: recordEvent_def)
qed

section \<open>Sinks\<close>

text \<open>A write resolves the webhook's probe whenever a request could be made for its URL.\<close>

lemma webhookWrite_resolves:
  assumes "webhook_request se e (wh_url w) \<noteq> None" "\<not> br_probing (wh_breaker w)"
  shows "\<not> br_probing (wh_breaker (fst (snd (webhookWrite se e w))))"
proof -
  obtain rq where rq: "webhook_request se e (wh_url w) = Some rq" using assms(1) by blast
  show ?thesis
  proof (cases "fst (fst (allow (se_allowAt se) (wh_breaker w)))")
    case True
    then show ?thesis using rq
      by (auto simp: webhookWrite_def Let_def success_def failure_def split: prod.splits bool.splits sum.splits)
  next
    case False
    then show ?thesis using assms(2)
      by (auto simp: webhookWrite_def allow_def split: if_splits)
  qed
qed

text \<open>A failed construction leaves no file open.\<close>

lemma sinkClose_shut: "snd (sinkClose s) = JsonlSink path out shut \<Longrightarrow> shut"
  by (auto simp: sinkClose_def split: event_sink.splits)

lemma buildAudit_failure_closes:
  assumes "open_sinks bl configs opened = Inl (e, ss)" "JsonlSink path out shut \<in> set ss"
  shows "shut"
  using assms
proof (induction bl configs opened rule: open_sinks.induct)
  case (2 bl c cs opened)
  show ?case
  proof (cases "open_sink bl c")
    case (Inl err)
    then show ?thesis using "2.prems" by (auto dest: sinkClose_shut [OF sym])
  next
    case (Inr s)
    then show ?thesis using "2.IH" [OF Inr] "2.prems" by simp
  qed
qed simp

lemma open_sinks_open:
  "open_sinks bl configs opened = Inr ss \<Longrightarrow> list_all sink_open opened \<Longrightarrow> list_all sink_open ss"
proof (induction bl configs opened rule: open_sinks.induct)
  case (2 bl c cs opened)
  then show ?case
    by (cases "open_sink bl c")
      (auto simp: open_sink_def sink_open_def split: if_splits option.splits sum.splits)
qed simp

lemma buildAudit_open:
  "buildAudit bl configs = Inr d \<Longrightarrow> \<exists>sinks. newDispatcher sinks 1024 = Inr d \<and> list_all sink_open sinks"
  using open_sinks_open [of bl configs "[]"] by (auto simp: buildAudit_def split: sum.splits)

section \<open>Witnesses\<close>

definition demo_dispatcher :: dispatcher where
  "demo_dispatcher = \<lparr>ad_queue = [], ad_capacity = 1, ad_sinks = [WriterSink []], ad_closed = False, ad_dropped = 0,
     ad_working = None, ad_done = False\<rparr>"

lemma demo_dispatcher_new: "newDispatcher [WriterSink []] 1 = Inr demo_dispatcher" "list_all sink_open [WriterSink []]"
  by (simp_all add: newDispatcher_def demo_dispatcher_def sink_open_def)

definition demo_full :: audit_sys where
  "demo_full = \<lparr>as_dispatcher = demo_dispatcher\<lparr>ad_queue := [no_event\<lparr>au_timestamp := 7\<rparr>], ad_dropped := 1, ad_closed := True\<rparr>, as_offered = 2,
     as_accepted = [no_event\<lparr>au_timestamp := 7\<rparr>], as_written = []\<rparr>"

lemma demo_full_reachable: "audit_reachable demo_dispatcher demo_full"
proof -
  let ?a0 = "\<lparr>as_dispatcher = demo_dispatcher, as_offered = 0, as_accepted = [], as_written = []\<rparr>"
  let ?e = "no_event\<lparr>au_timestamp := 7\<rparr>"
  have 0: "audit_reachable demo_dispatcher ?a0" by (rule audit_init)
  have 1: "audit_reachable demo_dispatcher (?a0\<lparr>as_dispatcher := demo_dispatcher\<lparr>ad_queue := [?e]\<rparr>, as_offered := 1, as_accepted := [?e]\<rparr>)"
    using audit_next [OF 0 step_record [of _ 7 no_event]]
    by (simp add: recordEvent_def demo_dispatcher_def accepts_def stamped_def no_event_def is_zero_def)
  have 2: "audit_reachable demo_dispatcher (?a0\<lparr>as_dispatcher := demo_dispatcher\<lparr>ad_queue := [?e], ad_dropped := 1\<rparr>, as_offered := 2, as_accepted := [?e]\<rparr>)"
    using audit_next [OF 1 step_record [of _ 8 no_event]]
    by (simp add: recordEvent_def demo_dispatcher_def accepts_def numeral_2_eq_2)
  show ?thesis using audit_next [OF 2 step_close] by (simp add: closeQueue_def demo_full_def)
qed


definition demo_sink_env :: sink_env where
  "demo_sink_env = \<lparr>se_encode = (\<lambda>_. ''{}''), se_writeFails = (\<lambda>_. None), se_do = (\<lambda>_. Inr 200), se_allowAt = 0, se_failAt = 0,
     se_random = replicate 16 (CHR ''r''), se_spanID = replicate 8 (CHR ''s'')\<rparr>"

theorem audit_close_drains_witness:
  "\<exists>a'. audit_step\<^sup>*\<^sup>* demo_full a' \<and> ad_done (as_dispatcher a') \<and> ad_sinks (as_dispatcher a') = [WriterSink (''{}'' @ newline)]"
proof -
  have "ad_closed (as_dispatcher demo_full)" by (simp add: demo_full_def)
  note drained = audit_close_drains [OF demo_dispatcher_new demo_full_reachable this, of "\<lambda>_. demo_sink_env"]
  have "drain_queue (\<lambda>_. demo_sink_env) (held (as_dispatcher demo_full)) (ad_sinks (as_dispatcher demo_full)) = [WriterSink (''{}'' @ newline)]"
    by (simp add: held_def demo_full_def demo_dispatcher_def write_all_def sinkWrite_def demo_sink_env_def)
  with drained show ?thesis by auto
qed

end
