(* ===== verification/Server_Base.thy ===== *)
theory Server_Base
  imports Invoke_Service Manifest_Manager Auth_Verify Auth_Broker Audit_Dispatcher
begin

text \<open>
  What the HTTP handlers of \<open>internal/server/server.go\<close> share: documents and replies, the rendering of
  public errors, authentication of a request, the invoker it may claim, the runtime it runs on and
  the catalog of a snapshot. The verifier, the invocation service, the runtime and the OAuth broker are
  interfaces: state-passing functions over a world \<open>'w\<close>.
\<close>

section \<open>Documents and replies\<close>

text \<open>
  A value handed to the JSON encoder: \<open>any\<close> values and maps (whose keys the encoder sorts), structs
  (fields in order, empty ones left out by the code that builds them), slices and instants.
\<close>

datatype json_doc =
    Any goval
  | Struct "(string \<times> json_doc) list"
  | Slice "json_doc list"
  | Instant gotime

fun marshal_doc :: "(float64 \<Rightarrow> string) \<Rightarrow> (gotime \<Rightarrow> string) \<Rightarrow> json_doc \<Rightarrow> string option" where
  "marshal_doc ff ft (Any v) = json_marshal ff v"
| "marshal_doc ff ft (Struct fs) =
     map_option (\<lambda>xs. ''{'' @ join xs '','' @ ''}'')
       (seq_opt (map (\<lambda>(k, d). map_option (\<lambda>t. json_string k @ '':'' @ t) (marshal_doc ff ft d)) fs))"
| "marshal_doc ff ft (Slice ds) =
     map_option (\<lambda>xs. ''['' @ join xs '','' @ '']'') (seq_opt (map (marshal_doc ff ft) ds))"
| "marshal_doc ff ft (Instant t) = Some (json_string (ft t))"

definition omit_empty :: "bool \<Rightarrow> string \<Rightarrow> json_doc \<Rightarrow> (string \<times> json_doc) list" where
  "omit_empty e k d = (if e then [] else [(k, d)])"

text \<open>What a client receives: one document, a text, or the pieces of a stream with their flushes.\<close>

datatype written = Wrote string | Flushed

datatype reply_body = JsonBody json_doc | TextBody string | Streamed "written list" | NoBody

record reply =
  rp_status :: int
  rp_header :: http_header
  rp_body :: reply_body

definition writeJSON :: "int \<Rightarrow> json_doc \<Rightarrow> http_header \<Rightarrow> reply" where
  "writeJSON status d h = \<lparr>rp_status = status, rp_header = headerSet ''Content-Type'' ''application/json'' h, rp_body = JsonBody d\<rparr>"

text \<open>Duration arithmetic wraps; integer division truncates.\<close>

definition wrap64 :: "int \<Rightarrow> int" where
  "wrap64 x = (x + 2 ^ 63) mod 2 ^ 64 - 2 ^ 63"

definition goquot :: "int \<Rightarrow> int \<Rightarrow> int" where
  "goquot a b = (if a < 0 then - ((- a) div b) else a div b)"

definition retry_seconds :: "duration \<Rightarrow> int" where
  "retry_seconds d = goquot (wrap64 (wrap64 (d + second) - 1)) second"

definition error_document :: "api_error \<Rightarrow> json_doc" where
  "error_document e =
     Struct ([(''ok'', Any (VBool False)), (''error'', Any (VStr (ae_code e))), (''message'', Any (VStr (ae_message e)))]
       @ omit_empty (ae_hint e = []) ''hint'' (Any (VStr (ae_hint e)))
       @ omit_empty (ae_traceID e = []) ''trace_id'' (Any (VStr (ae_traceID e)))
       @ omit_empty (ae_upstream e = 0) ''status'' (Any (VInt (ae_upstream e))))"

definition challenge :: "api_error \<Rightarrow> string" where
  "challenge e = ''Bearer realm=\"cli-gateway\"'' @ (if ae_code e \<noteq> ''E_AUTH_MISSING'' then '', error=\"invalid_token\"'' else [])"

definition writeAPIError :: "api_error \<Rightarrow> http_header \<Rightarrow> reply" where
  "writeAPIError e h =
     (let status = (if ae_status e = 0 then 500 else ae_status e);
          h1 = (if status = 401 then headerSet ''WWW-Authenticate'' (challenge e) h else h);
          h2 = (if ae_retryAfter e > 0 then headerSet ''Retry-After'' (formatInt (retry_seconds (ae_retryAfter e))) h1 else h1)
      in writeJSON status (error_document e) h2)"

section \<open>Requests and services\<close>

record in_request =
  hr_header :: http_header
  hr_pathValue :: "string \<Rightarrow> string"
  hr_query :: query_values
  hr_body :: string

definition userAgent :: "in_request \<Rightarrow> string" where
  "userAgent rq = headerGet (hr_header rq) ''User-Agent''"

text \<open>\<open>url.Values.Get\<close>.\<close>

definition queryGet :: "in_request \<Rightarrow> string \<Rightarrow> string" where
  "queryGet rq k = (case qget (hr_query rq) k of v # _ \<Rightarrow> v | [] \<Rightarrow> [])"

text \<open>How the reading of a response body ends.\<close>

datatype read_end = ReadEOF | ReadCancelled string | ReadFailed string

record 'w invocation_service =
  is_invoke :: "invocation \<Rightarrow> 'w \<Rightarrow> (go_error + execution) \<times> 'w"
  is_read :: "release_body \<Rightarrow> string list \<times> read_end"
  is_close :: "release_body \<Rightarrow> 'w \<Rightarrow> 'w"

record 'w oauth_service =
  os_begin :: "compiled_command \<Rightarrow> principal \<Rightarrow> string \<Rightarrow> 'w \<Rightarrow> (go_error + authorization_start) \<times> 'w"
  os_status :: "compiled_command \<Rightarrow> principal \<Rightarrow> 'w \<Rightarrow> go_error + authorization_status"
  os_disconnect :: "compiled_command \<Rightarrow> principal \<Rightarrow> 'w \<Rightarrow> go_error option \<times> 'w"
  os_complete :: "string \<Rightarrow> string \<Rightarrow> string \<Rightarrow> 'w \<Rightarrow> (go_error + string) \<times> 'w"

record 'w acquired_runtime =
  aq_snapshot :: snapshot
  aq_catalog :: catalog_service
  aq_invoker :: "'w invocation_service option"
  aq_audit :: bool
  aq_generation :: nat
  aq_release :: "'w \<Rightarrow> 'w"

text \<open>
  \<open>Dependencies\<close>. The runtime manager is its \<open>Acquire\<close>, which answers with the components of the
  leased generation and the closing of the lease; the signer is the text of its key set.
\<close>

record 'w dependencies =
  dp_verifier :: "(string \<Rightarrow> 'w \<Rightarrow> (auth_error + principal) \<times> 'w) option"
  dp_invoker :: "'w invocation_service option"
  dp_signer :: "(string + string) option"
  dp_runtime :: "('w \<Rightarrow> 'w acquired_runtime option \<times> 'w) option"
  dp_runtimeCurrent :: "'w \<Rightarrow> bool"
  dp_metrics :: bool
  dp_oauth :: "'w oauth_service option"
  dp_downloadDir :: string
  dp_publicURL :: string

text \<open>What a handler does besides its reply, in order.\<close>

datatype server_effect =
    AuthFailure | PolicyDenial | UpstreamFailure | CircuitRejection | LimiterRejection
  | Audited audit_event
  | Invoked invocation
  | BodyClosed
  | Released

definition metric :: "'w dependencies \<Rightarrow> server_effect \<Rightarrow> server_effect list" where
  "metric dp m = (if dp_metrics dp then [m] else [])"

type_synonym 'w handled = "reply \<times> server_effect list \<times> 'w"

section \<open>Authentication\<close>

definition authenticate ::
  "in_request \<Rightarrow> (string \<Rightarrow> 'w \<Rightarrow> (auth_error + principal) \<times> 'w) option \<Rightarrow> string \<Rightarrow> 'w \<Rightarrow> (api_error + principal \<times> string) \<times> 'w" where
  "authenticate rq verifier trace w =
     (case verifier of
        None \<Rightarrow> (Inl (with_trace trace (apiError 503 ''E_INTERNAL'' ''authentication is unavailable'')), w)
      | Some vf \<Rightarrow>
          (case bearerToken (hr_header rq) of
             Inl MissingToken \<Rightarrow> (Inl (with_trace trace (apiError 401 ''E_AUTH_MISSING'' ''bearer token is required'')), w)
           | Inl _ \<Rightarrow> (Inl (with_trace trace (apiError 401 ''E_AUTH_INVALID'' ''bearer token is invalid'')), w)
           | Inr token \<Rightarrow>
               (case vf token w of
                  (Inl (ExpiredToken m), w') \<Rightarrow>
                    (Inl (with_trace trace ((apiError 401 ''E_AUTH_EXPIRED'' ''bearer token has expired'')\<lparr>ae_cause := Some m\<rparr>)), w')
                | (Inl _, w') \<Rightarrow>
                    (Inl (with_trace trace ((apiError 401 ''E_AUTH_INVALID'' ''bearer token is invalid'')\<lparr>ae_cause := Some ''invalid''\<rparr>)), w')
                | (Inr p, w') \<Rightarrow> (Inr (p, token), w'))))"

definition effectiveInvoker :: "invoker \<Rightarrow> string \<Rightarrow> invoker" where
  "effectiveInvoker trusted requested =
     (if equalFold (trimSpace requested) InvokerAI then InvokerAI
      else if trusted = [] then InvokerUnknown
      else trusted)"

section \<open>The runtime\<close>

definition acquireRuntime ::
  "manifest_manager option \<Rightarrow> 'w dependencies \<Rightarrow> 'w \<Rightarrow> (api_error + 'w acquired_runtime) \<times> 'w" where
  "acquireRuntime manager dp w =
     (case dp_runtime dp of
        Some lease_of \<Rightarrow>
          (case lease_of w of
             (None, w') \<Rightarrow> (Inl (apiError 503 ''E_OVERLOADED'' ''runtime is not accepting work''), w')
           | (Some lease, w') \<Rightarrow> (Inr lease, w'))
      | None \<Rightarrow>
          (case Option.bind manager mm_current of
             None \<Rightarrow> (Inl (apiError 503 ''E_INTERNAL'' ''runtime is unavailable''), w)
           | Some s \<Rightarrow>
               (Inr \<lparr>aq_snapshot = s, aq_catalog = Some s, aq_invoker = dp_invoker dp, aq_audit = False, aq_generation = 0,
                     aq_release = id\<rparr>, w)))"

definition ready :: "manifest_manager option \<Rightarrow> 'w dependencies \<Rightarrow> 'w \<Rightarrow> bool" where
  "ready manager dp w =
     (if dp_runtime dp \<noteq> None then dp_runtimeCurrent dp w else Option.bind manager mm_current \<noteq> None)"

definition sortedKeys :: "arguments \<Rightarrow> string list" where
  "sortedKeys args = sortStrings (keys args)"

definition upstreamReadError :: "string \<Rightarrow> read_end \<Rightarrow> api_error" where
  "upstreamReadError trace e =
     (case e of
        ReadCancelled m \<Rightarrow> with_trace trace ((apiError 499 ''E_CANCELLED'' ''request was cancelled'')\<lparr>ae_cause := Some m\<rparr>)
      | ReadFailed m \<Rightarrow> with_trace trace ((apiError 502 ''E_UPSTREAM'' ''upstream response could not be read'')\<lparr>ae_cause := Some m\<rparr>)
      | ReadEOF \<Rightarrow> with_trace trace (apiError 502 ''E_UPSTREAM'' ''upstream response could not be read''))"

text \<open>The first command of a domain that uses per-user grants; a listed nil command is a nil dereference, skipped here.\<close>

definition downstreamAuthorizationCommand :: "catalog_service \<Rightarrow> string \<Rightarrow> api_error + compiled_command" where
  "downstreamAuthorizationCommand catalog d =
     (if trimSpace d = [] then Inl (apiError 404 ''E_DOMAIN_NOT_FOUND'' ''domain was not found'')
      else (let mine = filter (\<lambda>c. cmd_domain c = d) (map the (filter (\<lambda>c. c \<noteq> None) (listCommands catalog)))
            in case filter (\<lambda>c. cmd_downstreamAuth c = DownstreamAuthorizationCode) mine of
                 c # _ \<Rightarrow> Inr c
               | [] \<Rightarrow>
                   (if mine \<noteq> [] then Inl (apiError 400 ''E_DOWNSTREAM_AUTH_MODE'' ''domain does not use per-user OAuth authorization'')
                    else Inl (apiError 404 ''E_DOMAIN_NOT_FOUND'' ''domain was not found''))))"

end
