(* ===== verification/Server_Http.thy ===== *)
theory Server_Http
  imports Server_Base
begin

text \<open>
  The handlers of \<open>internal/server/server.go\<close>: execution, the manifest, identity, the protected-resource
  metadata and downstream authorization. A handler is a function from a request and the world to its
  reply, its further effects in order, and the new world; deferred calls run at the end, last first.
\<close>

section \<open>Environment\<close>

text \<open>
  The first JSON document of a body decoded into \<open>struct { Args map[string]any }\<close> with unknown fields
  refused: its \<open>args\<close> (\<open>None\<close> for nil) and the rest of the input.
\<close>

datatype first_document = BadDocument | Document "arguments option" string

record http_env =
  he_random :: string
  he_started :: gotime
  he_streamAt :: gotime
  he_endedAt :: gotime
  he_document :: "string \<Rightarrow> first_document"
  he_unmarshal :: "string \<Rightarrow> goval option"
  he_fmtFloat :: "float64 \<Rightarrow> string"
  he_fmtTime :: "gotime \<Rightarrow> string"
  he_sha256 :: "string \<Rightarrow> string"
  he_flusher :: bool
  he_room :: "nat option"

definition trace_of :: "http_env \<Rightarrow> in_request \<Rightarrow> string" where
  "trace_of en rq = requestTraceID (he_random en) (hr_header rq)"

definition trace_header :: "string \<Rightarrow> http_header" where
  "trace_header trace = headerSet ''X-Cli-Gateway-Trace-Id'' trace []"

section \<open>Execution\<close>

definition maxExecutionBody :: nat where
  "maxExecutionBody = 1048576"

definition maxExecutionResponse :: nat where
  "maxExecutionResponse = 4194304"

definition json_space :: "char \<Rightarrow> bool" where
  "json_space c \<longleftrightarrow> c \<in> {CHR '' '', CHR 0x09, CHR 0x0A, CHR 0x0D}"

text \<open>
  Both calls of \<open>Decode\<close> behind \<open>http.MaxBytesReader\<close>: beyond the limit the reader fails, so the second
  call, which only accepts the end of the input, fails too.
\<close>

definition decode_arguments :: "http_env \<Rightarrow> string \<Rightarrow> api_error + arguments" where
  "decode_arguments en body =
     (case he_document en (take maxExecutionBody body) of
        BadDocument \<Rightarrow> Inl (apiError 400 ''E_ARG_INVALID'' ''request body must contain a valid args object'')
      | Document args rest \<Rightarrow>
          (if length body > maxExecutionBody \<or> \<not> list_all json_space rest
           then Inl (apiError 400 ''E_ARG_INVALID'' ''request body must contain one JSON document'')
           else Inr (case args of None \<Rightarrow> [] | Some a \<Rightarrow> a)))"

definition new_audit_event :: "string \<Rightarrow> in_request \<Rightarrow> nat \<Rightarrow> audit_event" where
  "new_audit_event trace rq generation =
     no_event\<lparr>au_event := ''completed'', au_traceID := trace, au_decision := ''deny'', au_outcome := ''rejected'',
              au_client := userAgent rq, au_generation := generation, au_authMethod := ''bearer-jwt''\<rparr>"

definition rejected :: "api_error \<Rightarrow> audit_event \<Rightarrow> audit_event" where
  "rejected e ev = ev\<lparr>au_denyReason := ae_code e, au_status := ae_status e\<rparr>"

definition confirmed :: "in_request \<Rightarrow> bool" where
  "confirmed rq = equalFold (trimSpace (headerGet (hr_header rq) ''X-Cli-Gateway-Confirm'')) ''true''"

definition invocation_of :: "in_request \<Rightarrow> string \<Rightarrow> snapshot \<Rightarrow> principal \<Rightarrow> string \<Rightarrow> compiled_command \<Rightarrow> arguments \<Rightarrow> invocation" where
  "invocation_of rq trace s p token c args =
     \<lparr>inv_source = ''http'', inv_principal = p, inv_command = c, inv_args = args,
      inv_invoker = effectiveInvoker (pr_invoker p) (headerGet (hr_header rq) ''X-Cli-Gateway-Invoker''),
      inv_confirmed = confirmed rq, inv_aiMaxRisk = sn_aiMaxRisk s, inv_traceID = trace,
      inv_traceState = traceState (hr_header rq), inv_client = userAgent rq, inv_bearerToken = token\<rparr>"

text \<open>A failed invocation: the public error, the audit event and the counters.\<close>

definition policy_code :: "string \<Rightarrow> bool" where
  "policy_code code \<longleftrightarrow> hasPrefix code ''E_AI_'' \<or> code = ''E_CONFIRM_REQUIRED''"

definition public_error :: "string \<Rightarrow> go_error \<Rightarrow> api_error" where
  "public_error trace err =
     (case err of
        APIErr e \<Rightarrow> e
      | _ \<Rightarrow> with_trace trace ((apiError 500 ''E_INTERNAL'' ''internal gateway error'')\<lparr>ae_cause := Some ''error''\<rparr>))"

definition failure_event :: "api_error \<Rightarrow> audit_event \<Rightarrow> audit_event" where
  "failure_event e ev =
     (let ev1 = ev\<lparr>au_status := ae_status e\<rparr>
      in if policy_code (ae_code e) then ev1\<lparr>au_decision := ''deny'', au_denyReason := ae_code e, au_outcome := ''rejected''\<rparr> else ev1)"

definition failure_metrics :: "'w dependencies \<Rightarrow> string \<Rightarrow> server_effect list" where
  "failure_metrics dp code =
     (if policy_code code then metric dp PolicyDenial else [])
     @ (if hasPrefix code ''E_UPSTREAM'' then metric dp UpstreamFailure else [])
     @ (if contains code ''CIRCUIT_OPEN'' then metric dp CircuitRejection else [])
     @ (if code = ''E_RATE_LIMITED'' \<or> code = ''E_OVERLOADED'' then metric dp LimiterRejection else [])"

text \<open>\<open>io.Copy\<close> to the client through \<open>flushWriter\<close>; \<open>room\<close> is what the connection still takes.\<close>

fun copy_stream :: "bool \<Rightarrow> nat option \<Rightarrow> string list \<Rightarrow> written list \<times> bool" where
  "copy_stream flusher room [] = ([], True)"
| "copy_stream flusher room (c # cs) =
     (let n = (case room of None \<Rightarrow> length c | Some r \<Rightarrow> min r (length c));
          out = (if n = 0 then [] else Wrote (take n c) # (if flusher then [Flushed] else []))
      in if n < length c then (out, False)
         else (case copy_stream flusher (map_option (\<lambda>r. r - n) room) cs of (rest, ok) \<Rightarrow> (out @ rest, ok)))"

definition stream_reply :: "http_env \<Rightarrow> 'w invocation_service \<Rightarrow> http_header \<Rightarrow> execution \<Rightarrow> reply \<times> bool" where
  "stream_reply en iv h ex =
     (let h1 = (if ex_contentType ex \<noteq> [] then headerSet ''Content-Type'' (ex_contentType ex) h else h);
          h2 = headerSet ''X-Content-Type-Options'' ''nosniff'' h1
      in case is_read iv (ex_body ex) of (chunks, e) \<Rightarrow>
           (case copy_stream (he_flusher en) (he_room en) chunks of (out, ok) \<Rightarrow>
              (\<lparr>rp_status = ex_status ex, rp_header = h2, rp_body = Streamed out\<rparr>, ok \<and> e = ReadEOF)))"

text \<open>\<open>io.ReadAll\<close> of \<open>io.LimitReader\<close>.\<close>

definition read_limited :: "nat \<Rightarrow> string list \<times> read_end \<Rightarrow> string \<times> read_end" where
  "read_limited n r =
     (let bytes = concat (fst r) in if length bytes \<ge> n then (take n bytes, ReadEOF) else (bytes, snd r))"

definition response_data :: "http_env \<Rightarrow> string \<Rightarrow> string \<Rightarrow> goval" where
  "response_data en contentType raw =
     (if raw = [] then VObj []
      else if contains (toLower contentType) ''application/json'' \<and> he_unmarshal en raw \<noteq> None then the (he_unmarshal en raw)
      else VObj [(''raw'', VStr raw)])"

definition buffered_reply :: "http_env \<Rightarrow> string \<Rightarrow> 'w invocation_service \<Rightarrow> http_header \<Rightarrow> execution \<Rightarrow> reply \<times> bool" where
  "buffered_reply en trace iv h ex =
     (case read_limited (maxExecutionResponse + 1) (is_read iv (ex_body ex)) of (raw, e) \<Rightarrow>
        (if e \<noteq> ReadEOF then (writeAPIError (upstreamReadError trace e) h, False)
         else if length raw > maxExecutionResponse
         then (writeAPIError (with_trace trace (apiError 502 ''E_UPSTREAM'' ''upstream response exceeds 4 MiB'')) h, False)
         else (writeJSON 200 (Struct [(''ok'', Any (VBool True)), (''status'', Any (VInt (ex_status ex))),
                                      (''data'', Any (response_data en (ex_contentType ex) raw))]) h, True)))"

definition latency_ms :: "http_env \<Rightarrow> gotime \<Rightarrow> int" where
  "latency_ms en t = goquot (time_sub t (he_started en)) millisecond"

text \<open>The invocation and its outcome, up to the closing of the response body.\<close>

definition run_invocation ::
  "http_env \<Rightarrow> 'w dependencies \<Rightarrow> 'w acquired_runtime \<Rightarrow> 'w invocation_service \<Rightarrow> invocation \<Rightarrow> http_header \<Rightarrow> audit_event \<Rightarrow> 'w
   \<Rightarrow> reply \<times> audit_event \<times> server_effect list \<times> 'w" where
  "run_invocation en dp aq sv iv h ev w =
     (case is_invoke sv iv w of
        (Inl err, w1) \<Rightarrow>
          (let e = public_error (inv_traceID iv) err
           in (writeAPIError e h, failure_event e ev, Invoked iv # failure_metrics dp (ae_code e), w1))
      | (Inr ex, w1) \<Rightarrow>
          (let ev1 = ev\<lparr>au_status := ex_status ex\<rparr>
           in if ex_streaming ex then
                (let started = ev1\<lparr>au_event := ''stream_started'', au_outcome := ''started'', au_latencyMS := latency_ms en (he_streamAt en)\<rparr>;
                     ev2 = ev1\<lparr>au_event := ''stream_completed''\<rparr>
                 in case stream_reply en sv h ex of (rp, ok) \<Rightarrow>
                      (rp, ev2\<lparr>au_outcome := (if ok then ''success'' else ''error'')\<rparr>,
                       Invoked iv # (if aq_audit aq then [Audited started] else []) @ [BodyClosed], is_close sv (ex_body ex) w1))
              else
                (case buffered_reply en (inv_traceID iv) sv h ex of (rp, ok) \<Rightarrow>
                   (rp, ev1\<lparr>au_outcome := (if ok then ''success'' else ''error'')\<rparr>, [Invoked iv, BodyClosed],
                    is_close sv (ex_body ex) w1))))"

text \<open>The part between the deferred calls: authentication, resolution, decoding, invocation.\<close>

definition execute ::
  "http_env \<Rightarrow> in_request \<Rightarrow> 'w dependencies \<Rightarrow> 'w acquired_runtime \<Rightarrow> 'w
   \<Rightarrow> reply \<times> audit_event \<times> server_effect list \<times> 'w" where
  "execute en rq dp aq w =
     (let trace = trace_of en rq; h = trace_header trace; ev = new_audit_event trace rq (aq_generation aq);
          refuse = (\<lambda>e ev w. (writeAPIError e h, rejected e ev, [], w))
      in case authenticate rq (dp_verifier dp) trace w of
           (Inl e, w1) \<Rightarrow> (writeAPIError e h, rejected e ev, metric dp AuthFailure, w1)
         | (Inr (p, token), w1) \<Rightarrow>
             (let ev1 = ev\<lparr>au_subject := pr_subject p\<rparr>
              in case resolve_command (aq_catalog aq) (hr_pathValue rq ''domain'' @ ''.'' @ hr_pathValue rq ''command'') of
                   None \<Rightarrow> refuse (with_trace trace (apiError 404 ''E_CMD_NOT_FOUND'' ''command was not found'')) ev1 w1
                 | Some c \<Rightarrow>
                     (let ev2 = ev1\<lparr>au_command := cmd_key c, au_risk := cmd_risk c, au_credential := cmd_downstreamAuth c\<rparr>
                      in case decode_arguments en (hr_body rq) of
                           Inl e \<Rightarrow> refuse (with_trace trace e) ev2 w1
                         | Inr args \<Rightarrow>
                             (let iv = invocation_of rq trace (aq_snapshot aq) p token c args;
                                  ev3 = ev2\<lparr>au_invoker := inv_invoker iv, au_argKeys := sortedKeys args\<rparr>
                              in case aq_invoker aq of
                                   None \<Rightarrow> refuse (with_trace trace (apiError 503 ''E_INTERNAL'' ''invocation service is unavailable'')) ev3 w1
                                 | Some sv \<Rightarrow>
                                     run_invocation en dp aq sv iv h (ev3\<lparr>au_decision := ''allow'', au_outcome := ''error''\<rparr>) w1))))"

definition handleExecution :: "http_env \<Rightarrow> in_request \<Rightarrow> manifest_manager option \<Rightarrow> 'w dependencies \<Rightarrow> 'w \<Rightarrow> 'w handled" where
  "handleExecution en rq manager dp w =
     (case acquireRuntime manager dp w of
        (Inl e, w1) \<Rightarrow> (writeAPIError (with_trace (trace_of en rq) e) (trace_header (trace_of en rq)), [], w1)
      | (Inr aq, w1) \<Rightarrow>
          (case execute en rq dp aq w1 of (rp, ev, effs, w2) \<Rightarrow>
             (rp, effs @ (if aq_audit aq then [Audited (ev\<lparr>au_latencyMS := latency_ms en (he_endedAt en)\<rparr>)] else []) @ [Released],
              aq_release aq w2)))"

section \<open>Authenticated endpoints\<close>

text \<open>The opening the remaining protected handlers share.\<close>

definition authenticated ::
  "http_env \<Rightarrow> in_request \<Rightarrow> 'w dependencies \<Rightarrow> (principal \<Rightarrow> http_header \<Rightarrow> 'w \<Rightarrow> 'w handled) \<Rightarrow> 'w \<Rightarrow> 'w handled" where
  "authenticated en rq dp k w =
     (let trace = trace_of en rq; h = trace_header trace
      in case authenticate rq (dp_verifier dp) trace w of
           (Inl e, w1) \<Rightarrow> (writeAPIError e h, metric dp AuthFailure, w1)
         | (Inr (p, _), w1) \<Rightarrow> k p h w1)"

definition on_runtime ::
  "manifest_manager option \<Rightarrow> 'w dependencies \<Rightarrow> string \<Rightarrow> http_header \<Rightarrow> ('w acquired_runtime \<Rightarrow> 'w \<Rightarrow> reply \<times> 'w) \<Rightarrow> 'w \<Rightarrow> 'w handled" where
  "on_runtime manager dp trace h k w =
     (case acquireRuntime manager dp w of
        (Inl e, w1) \<Rightarrow> (writeAPIError (with_trace trace e) h, [], w1)
      | (Inr aq, w1) \<Rightarrow> (case k aq w1 of (rp, w2) \<Rightarrow> (rp, [Released], aq_release aq w2)))"

definition handleWhoAmI :: "http_env \<Rightarrow> in_request \<Rightarrow> 'w dependencies \<Rightarrow> 'w \<Rightarrow> 'w handled" where
  "handleWhoAmI en rq dp =
     authenticated en rq dp (\<lambda>p h w.
       (writeJSON 200 (Struct [(''client_id'', Any (VStr (pr_clientID p))), (''expires_at'', Instant (pr_expiresAt p)),
          (''invoker'', Any (VStr (pr_invoker p))), (''scopes'', Any (VStrs (sortStrings (pr_scopes p)))),
          (''subject'', Any (VStr (pr_subject p)))]) h, [], w))"

text \<open>The command list of \<open>/manifest\<close>: commands grouped by domain, in the order of the keys.\<close>

definition flag_document :: "compiled_flag \<Rightarrow> json_doc" where
  "flag_document f =
     Struct ([(''name'', Any (VStr (cf_name f))), (''type'', Any (VStr (cf_type f))), (''in'', Any (VStr (cf_location f))),
              (''required'', Any (VBool (cf_required f)))]
       @ omit_empty (cf_default f = VNil) ''default'' (Any (cf_default f))
       @ omit_empty (cf_queryName f = []) ''query_name'' (Any (VStr (cf_queryName f)))
       @ omit_empty (cf_headerName f = []) ''header_name'' (Any (VStr (cf_headerName f)))
       @ omit_empty (cf_description f = []) ''desc'' (Any (VStr (cf_description f))))"

definition command_document :: "compiled_command \<Rightarrow> json_doc" where
  "command_document c =
     Struct ([(''path'', Any (VStrs (cmd_path c)))]
       @ omit_empty (cmd_summary c = []) ''summary'' (Any (VStr (cmd_summary c)))
       @ [(''method'', Any (VStr (cmd_method c))), (''risk'', Any (VStr (cmd_risk c)))]
       @ omit_empty (\<not> cmd_confirm c) ''confirm'' (Any (VBool True))
       @ omit_empty (\<not> cmd_streaming c) ''streaming'' (Any (VBool True))
       @ omit_empty (cmd_flags c = []) ''flags'' (Slice (map flag_document (cmd_flags c))))"

definition add_to_domain :: "compiled_command \<Rightarrow> (string, compiled_command list) gomap \<Rightarrow> (string, compiled_command list) gomap" where
  "add_to_domain c m = put (cmd_domain c) ((case map_of m (cmd_domain c) of None \<Rightarrow> [] | Some cs \<Rightarrow> cs) @ [c]) m"

definition catalog_domains :: "snapshot \<Rightarrow> principal \<Rightarrow> invoker \<Rightarrow> (string \<times> compiled_command list) list" where
  "catalog_domains s p invoker =
     (let m = fold add_to_domain
                (filter (\<lambda>c. visible p invoker c (sn_aiMaxRisk s)) (map (\<lambda>k. the (sn_commands s k)) (sn_commandKeys s))) []
      in map (\<lambda>n. (n, the (map_of m n))) (sortStrings (keys m)))"

definition catalog_fields :: "snapshot \<Rightarrow> (string \<times> compiled_command list) list \<Rightarrow> (string \<times> json_doc) list" where
  "catalog_fields s ds =
     [(''cli'', Any (VObj [(''name'', VStr (sn_cliName s))])),
      (''domains'', Slice (map (\<lambda>(n, cs). Struct [(''name'', Any (VStr n)), (''commands'', Slice (map command_document cs))]) ds))]"

definition manifest_etag :: "http_env \<Rightarrow> (string \<times> json_doc) list \<Rightarrow> string" where
  "manifest_etag en base =
     hexEncode (take 8 (he_sha256 en (case marshal_doc (he_fmtFloat en) (he_fmtTime en) (Struct base) of None \<Rightarrow> [] | Some t \<Rightarrow> t)))"

definition quoted :: "string \<Rightarrow> string" where
  "quoted s = CHR 0x22 # s @ [CHR 0x22]"

definition manifest_reply :: "http_env \<Rightarrow> in_request \<Rightarrow> principal \<Rightarrow> http_header \<Rightarrow> snapshot \<Rightarrow> reply" where
  "manifest_reply en rq p h s =
     (let invoker = effectiveInvoker (pr_invoker p) (headerGet (hr_header rq) ''X-Cli-Gateway-Invoker'');
          base = catalog_fields s (catalog_domains s p invoker);
          etag = manifest_etag en base;
          h1 = headerSet ''ETag'' (quoted etag) (headerSet ''Vary'' ''Authorization'' (headerSet ''Cache-Control'' ''private'' h))
      in if headerGet (hr_header rq) ''If-None-Match'' = quoted etag then \<lparr>rp_status = 304, rp_header = h1, rp_body = NoBody\<rparr>
         else writeJSON 200 (Struct (base @ [(''etag'', Any (VStr etag))])) h1)"

definition handleManifest :: "http_env \<Rightarrow> in_request \<Rightarrow> manifest_manager option \<Rightarrow> 'w dependencies \<Rightarrow> 'w \<Rightarrow> 'w handled" where
  "handleManifest en rq manager dp =
     authenticated en rq dp (\<lambda>p h.
       on_runtime manager dp (trace_of en rq) h (\<lambda>aq w. (manifest_reply en rq p h (aq_snapshot aq), w)))"

section \<open>Downstream authorization\<close>

definition on_downstream_command ::
  "http_env \<Rightarrow> in_request \<Rightarrow> manifest_manager option \<Rightarrow> 'w dependencies
   \<Rightarrow> ('w oauth_service \<Rightarrow> principal \<Rightarrow> 'w acquired_runtime \<Rightarrow> compiled_command \<Rightarrow> http_header \<Rightarrow> 'w \<Rightarrow> reply \<times> 'w) \<Rightarrow> 'w \<Rightarrow> 'w handled" where
  "on_downstream_command en rq manager dp k =
     authenticated en rq dp (\<lambda>p h w.
       let trace = trace_of en rq
       in case dp_oauth dp of
            None \<Rightarrow> (writeAPIError (with_trace trace (apiError 503 ''E_DOWNSTREAM_AUTH'' ''downstream OAuth is unavailable'')) h, [], w)
          | Some os \<Rightarrow>
              on_runtime manager dp trace h (\<lambda>aq w.
                case downstreamAuthorizationCommand (aq_catalog aq) (hr_pathValue rq ''domain'') of
                  Inl e \<Rightarrow> (writeAPIError (with_trace trace e) h, w)
                | Inr c \<Rightarrow> k os p aq c h w) w)"

definition no_store :: "http_header \<Rightarrow> http_header" where
  "no_store h = headerSet ''Cache-Control'' ''no-store'' h"

definition unavailable :: "string \<Rightarrow> string \<Rightarrow> api_error" where
  "unavailable trace m = with_trace trace ((apiError 503 ''E_DOWNSTREAM_AUTH'' m)\<lparr>ae_cause := Some ''error''\<rparr>)"

definition handleDownstreamAuthorizationStart ::
  "http_env \<Rightarrow> in_request \<Rightarrow> manifest_manager option \<Rightarrow> 'w dependencies \<Rightarrow> 'w \<Rightarrow> 'w handled" where
  "handleDownstreamAuthorizationStart en rq manager dp =
     on_downstream_command en rq manager dp (\<lambda>os p aq c h w.
       case os_begin os c p (sn_publicURL (aq_snapshot aq)) w of
         (Inl (APIErr e), w1) \<Rightarrow> (writeAPIError (with_trace (trace_of en rq) e) h, w1)
       | (Inl _, w1) \<Rightarrow>
           (writeAPIError (with_trace (trace_of en rq)
              ((apiError 502 ''E_DOWNSTREAM_AUTH'' ''downstream authorization could not be started'')\<lparr>ae_cause := Some ''error''\<rparr>)) h, w1)
       | (Inr st, w1) \<Rightarrow>
           (writeJSON 200 (Struct [(''domain'', Any (VStr (as_domain st))), (''authorization_url'', Any (VStr (as_url st))),
                                   (''expires_at'', Instant (as_expiresAt st))]) (no_store h), w1))"

definition handleDownstreamAuthorizationStatus ::
  "http_env \<Rightarrow> in_request \<Rightarrow> manifest_manager option \<Rightarrow> 'w dependencies \<Rightarrow> 'w \<Rightarrow> 'w handled" where
  "handleDownstreamAuthorizationStatus en rq manager dp =
     on_downstream_command en rq manager dp (\<lambda>os p aq c h w.
       case os_status os c p w of
         Inl _ \<Rightarrow> (writeAPIError (unavailable (trace_of en rq) ''downstream authorization status is unavailable'') h, w)
       | Inr st \<Rightarrow>
           (writeJSON 200 (Struct [(''domain'', Any (VStr (st_domain st))), (''authorized'', Any (VBool (st_authorized st))),
                                   (''expires_at'', Instant (st_expiresAt st))]) (no_store h), w))"

definition handleDownstreamAuthorizationDisconnect ::
  "http_env \<Rightarrow> in_request \<Rightarrow> manifest_manager option \<Rightarrow> 'w dependencies \<Rightarrow> 'w \<Rightarrow> 'w handled" where
  "handleDownstreamAuthorizationDisconnect en rq manager dp =
     on_downstream_command en rq manager dp (\<lambda>os p aq c h w.
       case os_disconnect os c p w of
         (Some _, w1) \<Rightarrow> (writeAPIError (unavailable (trace_of en rq) ''downstream authorization could not be removed'') h, w1)
       | (None, w1) \<Rightarrow> (writeJSON 200 (Any (VObj [(''ok'', VBool True), (''domain'', VStr (cmd_domain c))])) (no_store h), w1))"

text \<open>\<open>html.EscapeString\<close>.\<close>

definition escape_html_char :: "char \<Rightarrow> string" where
  "escape_html_char c =
     (if c = CHR ''&'' then ''&amp;'' else if c = CHR 0x27 then ''&#39;'' else if c = CHR ''<'' then ''&lt;''
      else if c = CHR ''>'' then ''&gt;'' else if c = CHR 0x22 then ''&#34;'' else [c])"

definition escapeString :: "string \<Rightarrow> string" where
  "escapeString s = concat (map escape_html_char s)"

definition callback_header :: http_header where
  "callback_header =
     headerSet ''Content-Type'' ''text/html; charset=utf-8'' (headerSet ''X-Content-Type-Options'' ''nosniff''
       (headerSet ''Referrer-Policy'' ''no-referrer''
         (headerSet ''Content-Security-Policy'' (''default-src '' @ [CHR 0x27] @ ''none'' @ [CHR 0x27] @ ''; style-src '' @ [CHR 0x27] @ ''unsafe-inline'' @ [CHR 0x27])
           (headerSet ''Cache-Control'' ''no-store'' []))))"

definition handleDownstreamAuthorizationCallback :: "in_request \<Rightarrow> 'w dependencies \<Rightarrow> 'w \<Rightarrow> 'w handled" where
  "handleDownstreamAuthorizationCallback rq dp w =
     (let page = (\<lambda>status body. \<lparr>rp_status = status, rp_header = callback_header, rp_body = TextBody body\<rparr>)
      in case dp_oauth dp of
           None \<Rightarrow> (page 503 ''<!doctype html><title>Authorization unavailable</title><p>Downstream authorization is unavailable.</p>'', [], w)
         | Some os \<Rightarrow>
             (case os_complete os (queryGet rq ''state'') (queryGet rq ''code'') (queryGet rq ''error'') w of
                (Inl _, w1) \<Rightarrow>
                  (page 400 ''<!doctype html><title>Authorization failed</title><p>Authorization failed or expired. Return to the terminal and try again.</p>'', [], w1)
              | (Inr d, w1) \<Rightarrow>
                  (page 200 (''<!doctype html><title>Authorization complete</title><p>Authorization for <strong>'' @ escapeString d
                     @ ''</strong> is complete. You can close this window.</p>''), [], w1)))"

section \<open>Public endpoints\<close>

definition handleProtectedResourceMetadata :: "manifest_manager option \<Rightarrow> 'w dependencies \<Rightarrow> string \<Rightarrow> 'w \<Rightarrow> 'w handled" where
  "handleProtectedResourceMetadata manager dp resourcePath =
     on_runtime manager dp [] [] (\<lambda>aq w.
       (let s = aq_snapshot aq; claims = keys (sn_authIdentityClaims s);
            scopes = (if ''email'' \<in> set claims then [''email''] else []) @ (if ''name'' \<in> set claims then [''profile''] else [])
        in (writeJSON 200 (Any (VObj [(''resource'', VStr (trimSuffix (sn_publicURL s) ''/'' @ resourcePath)),
               (''authorization_servers'', VStrs [sn_authIssuer s]), (''client_id'', VStr (sn_authClientID s)),
               (''audience'', VStr (sn_authAudience s)), (''resource_parameter'', VStr (sn_authResourceParameter s)),
               (''scopes_supported'', VStrs (sortStrings scopes)), (''bearer_methods_supported'', VStrs [''header''])])) [], w)))"

definition handleJWKS :: "'w dependencies \<Rightarrow> 'w \<Rightarrow> 'w handled" where
  "handleJWKS dp w =
     (case dp_signer dp of
        None \<Rightarrow> (writeAPIError (apiError 503 ''E_INTERNAL'' ''identity signer is unavailable'') [], [], w)
      | Some (Inl e) \<Rightarrow> (writeAPIError ((apiError 500 ''E_INTERNAL'' ''public key serialization failed'')\<lparr>ae_cause := Some e\<rparr>) [], [], w)
      | Some (Inr encoded) \<Rightarrow>
          (\<lparr>rp_status = 200, rp_header = headerSet ''Content-Type'' ''application/json'' [], rp_body = TextBody encoded\<rparr>, [], w))"

definition status_document :: "string \<Rightarrow> json_doc" where
  "status_document s = Any (VObj [(''status'', VStr s)])"

definition handleReady :: "manifest_manager option \<Rightarrow> 'w dependencies \<Rightarrow> 'w \<Rightarrow> 'w handled" where
  "handleReady manager dp w =
     ((if ready manager dp w then writeJSON 200 (status_document ''ok'') [] else writeJSON 503 (status_document ''unavailable'') []), [], w)"

end
