(* ===== verification/Server_Exec.thy ===== *)
theory Server_Exec
  imports Server_Http
begin

text \<open>
  What the execution endpoint guarantees: only a verified caller's request is invoked, as the caller at
  most, on a resolved command; every exit is audited; and every lease, body and slot is given back.
\<close>

section \<open>Headers of a reply\<close>

lemma reply_fields [simp]:
  "rp_status (writeJSON st d h) = st" "rp_body (writeJSON st d h) = JsonBody d"
  "rp_body (writeAPIError e h) = JsonBody (error_document e)"
  "rp_status (writeAPIError e h) = (if ae_status e = 0 then 500 else ae_status e)"
  by (simp_all add: writeJSON_def writeAPIError_def Let_def)

lemma with_trace_fields [simp]:
  "ae_traceID (with_trace t e) = t" "ae_status (with_trace t e) = ae_status e" "ae_code (with_trace t e) = ae_code e"
  "ae_retryAfter (with_trace t e) = ae_retryAfter e" "ae_message (with_trace t e) = ae_message e"
  by (simp_all add: with_trace_def)

section \<open>Authentication\<close>

lemma authenticate_Inr:
  assumes "authenticate rq v trace w = (Inr (p, token), w')"
  shows "\<exists>vf. v = Some vf \<and> bearerToken (hr_header rq) = Inr token \<and> vf token w = (Inr p, w')"
  using assms by (auto simp: authenticate_def split: option.splits sum.splits auth_error.splits prod.splits)

lemma authenticate_Inl:
  assumes "authenticate rq v trace w = (Inl e, w')"
  shows "ae_traceID e = trace \<and> ae_retryAfter e = 0
    \<and> (ae_status e = 503 \<and> ae_code e = ''E_INTERNAL'' \<and> v = None
       \<or> ae_status e = 401 \<and> ae_code e \<in> {''E_AUTH_MISSING'', ''E_AUTH_INVALID'', ''E_AUTH_EXPIRED''} \<and> v \<noteq> None)
    \<and> (ae_code e = ''E_AUTH_MISSING'' \<longleftrightarrow> v \<noteq> None \<and> bearerToken (hr_header rq) = Inl MissingToken)"
  using assms
  by (auto simp: authenticate_def split: option.splits sum.splits auth_error.splits prod.splits)

lemma authenticate_world:
  assumes "authenticate rq v trace w = (r, w')"
  shows "w' = w \<or> (\<exists>vf token. v = Some vf \<and> w' = snd (vf token w))"
  using assms by (auto simp: authenticate_def split: option.splits sum.splits auth_error.splits prod.splits) (metis snd_conv)+

section \<open>The invoker\<close>

text \<open>A caller can only lower what it is trusted with: whatever is visible to the effective invoker is
  visible to the invoker the token names.\<close>

lemma effectiveInvoker_restricts: "visible p (effectiveInvoker i requested) c m \<Longrightarrow> visible p i c m"
  by (auto simp: effectiveInvoker_def visible_def split: if_splits)

lemma effectiveInvoker_values: "effectiveInvoker i requested \<in> {InvokerAI, InvokerUnknown, i} \<and> effectiveInvoker i requested \<noteq> []"
  by (simp add: effectiveInvoker_def)

section \<open>Branches of an execution\<close>

definition opened :: "string \<Rightarrow> in_request \<Rightarrow> 'w acquired_runtime \<Rightarrow> audit_event \<Rightarrow> bool" where
  "opened trace rq aq ev \<longleftrightarrow> au_event ev = ''completed'' \<and> au_traceID ev = trace \<and> au_generation ev = aq_generation aq
     \<and> au_client ev = userAgent rq \<and> au_authMethod ev = ''bearer-jwt''"

definition is_Audited :: "server_effect \<Rightarrow> bool" where
  "is_Audited x = (case x of Audited _ \<Rightarrow> True | _ \<Rightarrow> False)"

definition is_Invoked :: "server_effect \<Rightarrow> bool" where
  "is_Invoked x = (case x of Invoked _ \<Rightarrow> True | _ \<Rightarrow> False)"

lemma effect_kinds [simp]:
  "is_Audited (Audited e)" "\<not> is_Audited (Invoked iv)" "\<not> is_Audited BodyClosed" "\<not> is_Audited Released"
  "is_Invoked (Invoked iv)" "\<not> is_Invoked (Audited e)" "\<not> is_Invoked BodyClosed" "\<not> is_Invoked Released"
  by (simp_all add: is_Audited_def is_Invoked_def)

text \<open>The counters a failed invocation may move.\<close>

lemma failure_metrics_subset: "set (failure_metrics dp code) \<subseteq> {PolicyDenial, UpstreamFailure, CircuitRejection, LimiterRejection}"
  by (auto simp: failure_metrics_def metric_def)

lemma opened_new: "opened trace rq aq (new_audit_event trace rq (aq_generation aq))"
  by (simp add: opened_def new_audit_event_def no_event_def)

lemma opened_update [simp]:
  "opened trace rq aq (ev\<lparr>au_subject := a\<rparr>) = opened trace rq aq ev"
  "opened trace rq aq (ev\<lparr>au_command := b\<rparr>) = opened trace rq aq ev"
  "opened trace rq aq (ev\<lparr>au_risk := r\<rparr>) = opened trace rq aq ev"
  "opened trace rq aq (ev\<lparr>au_credential := d\<rparr>) = opened trace rq aq ev"
  "opened trace rq aq (ev\<lparr>au_invoker := i\<rparr>) = opened trace rq aq ev"
  "opened trace rq aq (ev\<lparr>au_argKeys := k\<rparr>) = opened trace rq aq ev"
  "opened trace rq aq (ev\<lparr>au_decision := x\<rparr>) = opened trace rq aq ev"
  "opened trace rq aq (ev\<lparr>au_outcome := y\<rparr>) = opened trace rq aq ev"
  by (simp_all add: opened_def)

lemma new_event_fields [simp]:
  "au_argKeys (new_audit_event trace rq g) = []" "au_decision (new_audit_event trace rq g) = ''deny''"
  "au_outcome (new_audit_event trace rq g) = ''rejected''" "au_denyReason (new_audit_event trace rq g) = []"
  by (simp_all add: new_audit_event_def no_event_def)

lemma execute_branch:
  fixes en rq dp
  defines "trace \<equiv> trace_of en rq"
  assumes "execute en rq dp aq w = (rp, ev, effs, w')"
  obtains (refused) e ev0 where "rp = writeAPIError e (trace_header trace)" "ev = rejected e ev0" "set effs \<subseteq> {AuthFailure}"
      "opened trace rq aq ev0" "au_decision ev0 = ''deny''" "au_outcome ev0 = ''rejected''" "ae_traceID e = trace"
      "ae_status e \<noteq> 0" "au_argKeys ev0 = [] \<or> (\<exists>args. decode_arguments en (hr_body rq) = Inr args \<and> au_argKeys ev0 = sortedKeys args)"
      "w' = snd (authenticate rq (dp_verifier dp) trace w)"
  | (invoked) vf token p w1 c args sv ev0 where "dp_verifier dp = Some vf" "bearerToken (hr_header rq) = Inr token"
      "vf token w = (Inr p, w1)" "resolve_command (aq_catalog aq) (hr_pathValue rq ''domain'' @ ''.'' @ hr_pathValue rq ''command'') = Some c"
      "decode_arguments en (hr_body rq) = Inr args" "aq_invoker aq = Some sv"
      "opened trace rq aq ev0" "au_decision ev0 = ''allow''" "au_outcome ev0 = ''error''" "au_argKeys ev0 = sortedKeys args"
      "au_subject ev0 = pr_subject p" "au_command ev0 = cmd_key c" "au_denyReason ev0 = []"
      "au_invoker ev0 = effectiveInvoker (pr_invoker p) (headerGet (hr_header rq) ''X-Cli-Gateway-Invoker'')"
      "run_invocation en dp aq sv (invocation_of rq trace (aq_snapshot aq) p token c args) (trace_header trace) ev0 w1 = (rp, ev, effs, w')"
proof -
  let ?ev = "new_audit_event trace rq (aq_generation aq)"
  obtain r w1 where auth: "authenticate rq (dp_verifier dp) trace w = (r, w1)" by (cases "authenticate rq (dp_verifier dp) trace w")
  show thesis
  proof (cases r)
    case (Inl e)
    from assms(2) [unfolded execute_def, folded trace_def, unfolded Let_def auth Inl prod.case sum.case]
    have eq: "rp = writeAPIError e (trace_header trace)" "ev = rejected e ?ev" "effs = metric dp AuthFailure" "w' = w1" by simp_all
    have e: "ae_traceID e = trace" "ae_status e \<noteq> 0" using authenticate_Inl [OF auth [unfolded Inl]] by auto
    show thesis
      by (rule refused [OF eq(1,2) _ opened_new _ _ e]) (auto simp: eq(3,4) auth metric_def)
  next
    case (Inr q)
    obtain p token where q: "q = (p, token)" by (cases q)
    obtain vf where vf: "dp_verifier dp = Some vf" "bearerToken (hr_header rq) = Inr token" "vf token w = (Inr p, w1)"
      using authenticate_Inr [OF auth [unfolded Inr q]] by blast
    note ex = assms(2) [unfolded execute_def, folded trace_def, unfolded Let_def auth Inr q prod.case sum.case]
    show thesis
    proof (cases "resolve_command (aq_catalog aq) (hr_pathValue rq ''domain'' @ ''.'' @ hr_pathValue rq ''command'')")
      case None
      from ex [unfolded None option.case] show thesis
        by (intro refused [of "with_trace trace (apiError 404 ''E_CMD_NOT_FOUND'' ''command was not found'')" "?ev\<lparr>au_subject := pr_subject p\<rparr>"])
          (simp_all add: opened_new auth)
    next
      case (Some c)
      note found = Some
      note ex = ex [unfolded Some option.case]
      show thesis
      proof (cases "decode_arguments en (hr_body rq)")
        case (Inl e)
        have "ae_status e \<noteq> 0" using Inl by (auto simp: decode_arguments_def split: first_document.splits if_splits)
        with ex [unfolded Inl sum.case] show thesis
          by (intro refused [of "with_trace trace e" "?ev\<lparr>au_subject := pr_subject p, au_command := cmd_key c, au_risk := cmd_risk c, au_credential := cmd_downstreamAuth c\<rparr>"])
            (simp_all add: opened_new auth)
      next
        case (Inr args)
        note ex = ex [unfolded Inr sum.case]
        show thesis
        proof (cases "aq_invoker aq")
          case None
          from ex [unfolded None option.case] show thesis
            by (intro refused [of "with_trace trace (apiError 503 ''E_INTERNAL'' ''invocation service is unavailable'')"
                  "?ev\<lparr>au_subject := pr_subject p, au_command := cmd_key c, au_risk := cmd_risk c, au_credential := cmd_downstreamAuth c,
                    au_invoker := inv_invoker (invocation_of rq trace (aq_snapshot aq) p token c args), au_argKeys := sortedKeys args\<rparr>"])
              (simp_all add: opened_new Inr auth)
        next
          case (Some sv)
          show thesis
            by (intro invoked [OF vf found Inr Some _ _ _ _ _ _ _ _ ex [unfolded Some option.case]])
              (simp_all add: opened_new invocation_of_def)
        qed
      qed
    qed
  qed
qed

definition events :: "server_effect list \<Rightarrow> audit_event list" where
  "events effs = List.map_filter (\<lambda>x. case x of Audited e \<Rightarrow> Some e | _ \<Rightarrow> None) effs"

lemma events_simps [simp]:
  "events [] = []" "events (Audited e # xs) = e # events xs" "events (Invoked iv # xs) = events xs"
  "events (BodyClosed # xs) = events xs" "events (Released # xs) = events xs" "events (xs @ ys) = events xs @ events ys"
  by (simp_all add: events_def List.map_filter_def)

lemma events_metrics: "set xs \<subseteq> {AuthFailure, PolicyDenial, UpstreamFailure, CircuitRejection, LimiterRejection} \<Longrightarrow> events xs = []"
  by (induction xs) (auto simp: events_def List.map_filter_def)

lemma run_invocation_branch:
  assumes "run_invocation en dp aq sv iv h ev w = (rp, ev', effs, w')"
  obtains (failed) err where "is_invoke sv iv w = (Inl err, w')" "rp = writeAPIError (public_error (inv_traceID iv) err) h"
      "ev' = failure_event (public_error (inv_traceID iv) err) ev"
      "effs = Invoked iv # failure_metrics dp (ae_code (public_error (inv_traceID iv) err))"
  | (streamed) ex w1 ok s where "is_invoke sv iv w = (Inr ex, w1)" "w' = is_close sv (ex_body ex) w1" "ex_streaming ex"
      "stream_reply en sv h ex = (rp, ok)"
      "ev' = ev\<lparr>au_status := ex_status ex, au_event := ''stream_completed'', au_outcome := (if ok then ''success'' else ''error'')\<rparr>"
      "effs = Invoked iv # (if aq_audit aq then [Audited s] else []) @ [BodyClosed]"
      "s = ev\<lparr>au_status := ex_status ex, au_event := ''stream_started'', au_outcome := ''started'', au_latencyMS := latency_ms en (he_streamAt en)\<rparr>"
  | (buffered) ex w1 ok where "is_invoke sv iv w = (Inr ex, w1)" "w' = is_close sv (ex_body ex) w1" "\<not> ex_streaming ex"
      "buffered_reply en (inv_traceID iv) sv h ex = (rp, ok)"
      "ev' = ev\<lparr>au_status := ex_status ex, au_outcome := (if ok then ''success'' else ''error'')\<rparr>" "effs = [Invoked iv, BodyClosed]"
proof (cases "is_invoke sv iv w")
  case (Pair r w1)
  show thesis
  proof (cases r)
    case (Inl err)
    from assms Pair Inl show thesis by (intro failed [of err]) (auto simp: run_invocation_def Let_def)
  next
    case (Inr ex)
    show thesis
    proof (cases "ex_streaming ex")
      case True
      from assms Pair Inr True show thesis
        by (cases "stream_reply en sv h ex") (intro streamed [of ex w1], auto simp: run_invocation_def Let_def)
    next
      case False
      from assms Pair Inr False show thesis
        by (cases "buffered_reply en (inv_traceID iv) sv h ex") (intro buffered [of ex w1], auto simp: run_invocation_def Let_def)
    qed
  qed
qed

lemma handleExecution_runtime:
  assumes "acquireRuntime manager dp w = (Inr aq, w1)" "execute en rq dp aq w1 = (rp, ev, effs, w2)"
  shows "handleExecution en rq manager dp w =
    (rp, effs @ (if aq_audit aq then [Audited (ev\<lparr>au_latencyMS := latency_ms en (he_endedAt en)\<rparr>)] else []) @ [Released], aq_release aq w2)"
  by (simp add: handleExecution_def assms)

lemma handleExecution_no_runtime:
  assumes "acquireRuntime manager dp w = (Inl e, w1)"
  shows "handleExecution en rq manager dp w = (writeAPIError (with_trace (trace_of en rq) e) (trace_header (trace_of en rq)), [], w1)"
  by (simp add: handleExecution_def assms)

section \<open>Who is served\<close>

text \<open>Only a verified caller's request is executed, and never with more trust than the token gives: when
  the endpoint calls the invocation service, it does so once, the request carried a bearer token that
  the verifier accepted, the command is the one the served catalog resolves for the path, the body
  was one JSON document of at most 1 MiB, and the invocation is made of exactly these, with an
  invoker that sees no command the token's own invoker would not see.\<close>

theorem exec_invokes_verified:
  assumes "handleExecution en rq manager dp w = (rp, effs, w')" "Invoked iv \<in> set effs"
  shows "\<exists>aq w1 vf token p w2 c args. acquireRuntime manager dp w = (Inr aq, w1) \<and> dp_verifier dp = Some vf
    \<and> bearerToken (hr_header rq) = Inr token \<and> vf token w1 = (Inr p, w2)
    \<and> resolve_command (aq_catalog aq) (hr_pathValue rq ''domain'' @ ''.'' @ hr_pathValue rq ''command'') = Some c
    \<and> decode_arguments en (hr_body rq) = Inr args \<and> length (hr_body rq) \<le> maxExecutionBody
    \<and> iv = invocation_of rq (trace_of en rq) (aq_snapshot aq) p token c args
    \<and> filter is_Invoked effs = [Invoked iv]
    \<and> (\<forall>c' m. visible p (inv_invoker iv) c' m \<longrightarrow> visible p (pr_invoker p) c' m)"
proof (cases "acquireRuntime manager dp w")
  case (Pair r w1)
  show ?thesis
  proof (cases r)
    case (Inl e)
    with Pair assms show ?thesis by (simp add: handleExecution_no_runtime)
  next
    case (Inr aq)
    obtain rp0 ev0 effs0 w2 where ex: "execute en rq dp aq w1 = (rp0, ev0, effs0, w2)" by (cases "execute en rq dp aq w1")
    have effs: "effs = effs0 @ (if aq_audit aq then [Audited (ev0\<lparr>au_latencyMS := latency_ms en (he_endedAt en)\<rparr>)] else []) @ [Released]"
      using assms(1) handleExecution_runtime [OF Pair [unfolded Inr] ex] by simp
    with assms(2) have called: "Invoked iv \<in> set effs0" by (auto split: if_splits)
    from ex show ?thesis
    proof (cases rule: execute_branch)
      case (refused e ev)
      with called show ?thesis by auto
    next
      case (invoked vf token p w3 c args sv ev)
      let ?iv = "invocation_of rq (trace_of en rq) (aq_snapshot aq) p token c args"
      from invoked(15) have only: "filter is_Invoked effs0 = [Invoked ?iv]" "\<forall>x. Invoked x \<in> set effs0 \<longrightarrow> x = ?iv"
        by (cases rule: run_invocation_branch; use failure_metrics_subset [of dp] in \<open>fastforce simp: is_Invoked_def filter_empty_conv split: if_splits\<close>)+
      then have iv: "iv = ?iv" using called by blast
      have "filter is_Invoked effs = [Invoked iv]" using only iv by (simp add: effs)
      moreover have "length (hr_body rq) \<le> maxExecutionBody"
        using invoked(5) by (auto simp: decode_arguments_def split: first_document.splits if_splits)
      moreover have "visible p (inv_invoker iv) c' m \<Longrightarrow> visible p (pr_invoker p) c' m" for c' m
        by (rule effectiveInvoker_restricts) (simp add: iv invocation_of_def)
      ultimately show ?thesis using Pair Inr invoked(1-5) iv by blast
    qed
  qed
qed

section \<open>The audit trail\<close>

definition arg_keys_of :: "http_env \<Rightarrow> in_request \<Rightarrow> audit_event \<Rightarrow> bool" where
  "arg_keys_of en rq ev \<longleftrightarrow> au_argKeys ev = [] \<or> (\<exists>args. decode_arguments en (hr_body rq) = Inr args \<and> au_argKeys ev = sortedKeys args)"

lemma failure_event_fields [simp]:
  "au_event (failure_event e ev) = au_event ev" "au_traceID (failure_event e ev) = au_traceID ev"
  "au_generation (failure_event e ev) = au_generation ev" "au_argKeys (failure_event e ev) = au_argKeys ev"
  "au_status (failure_event e ev) = ae_status e"
  by (simp_all add: failure_event_def Let_def)

lemma rejected_fields [simp]:
  "au_event (rejected e ev) = au_event ev" "au_traceID (rejected e ev) = au_traceID ev" "au_decision (rejected e ev) = au_decision ev"
  "au_generation (rejected e ev) = au_generation ev" "au_argKeys (rejected e ev) = au_argKeys ev" "au_outcome (rejected e ev) = au_outcome ev"
  "au_status (rejected e ev) = ae_status e" "au_denyReason (rejected e ev) = ae_code e"
  by (simp_all add: rejected_def)

lemma failure_event_decision:
  assumes "au_decision ev = ''allow''" "au_denyReason ev = []" "au_outcome ev = ''error''"
  shows "if policy_code (ae_code e)
    then au_decision (failure_event e ev) = ''deny'' \<and> au_denyReason (failure_event e ev) = ae_code e \<and> au_outcome (failure_event e ev) = ''rejected''
    else au_decision (failure_event e ev) = ''allow'' \<and> au_denyReason (failure_event e ev) = [] \<and> au_outcome (failure_event e ev) = ''error''"
  using assms by (simp add: failure_event_def Let_def)

text \<open>What the final event says of an execution, with the events before it.\<close>

definition audit_ok :: "http_env \<Rightarrow> in_request \<Rightarrow> 'w acquired_runtime \<Rightarrow> reply \<Rightarrow> server_effect list \<Rightarrow> audit_event \<Rightarrow> bool" where
  "audit_ok en rq aq rp effs ev \<longleftrightarrow>
     list_all (\<lambda>e. au_traceID e = trace_of en rq \<and> au_generation e = aq_generation aq \<and> arg_keys_of en rq e) (events effs @ [ev])
     \<and> (if au_event ev = ''stream_completed'' then length (events effs) = (if aq_audit aq then 1 else 0)
            \<and> list_all (\<lambda>e. au_event e = ''stream_started'') (events effs)
        else au_event ev = ''completed'' \<and> events effs = [])
     \<and> (if list_ex is_Invoked effs
        then au_decision ev = ''allow'' \<and> au_outcome ev \<in> {''success'', ''error''}
             \<or> au_decision ev = ''deny'' \<and> au_outcome ev = ''rejected'' \<and> policy_code (au_denyReason ev)
        else au_decision ev = ''deny'' \<and> au_outcome ev = ''rejected'' \<and> au_status ev = rp_status rp)
     \<and> (au_outcome ev = ''success'' \<longrightarrow> BodyClosed \<in> set effs)"

lemma audit_ok_latency: "audit_ok en rq aq rp effs (ev\<lparr>au_latencyMS := x\<rparr>) = audit_ok en rq aq rp effs ev"
  by (simp add: audit_ok_def arg_keys_of_def)

lemma run_invocation_audit:
  assumes "run_invocation en dp aq sv iv h ev w = (rp, ev', effs, w')"
    "opened (trace_of en rq) rq aq ev" "au_decision ev = ''allow''" "au_outcome ev = ''error''" "au_denyReason ev = []" "arg_keys_of en rq ev"
  shows "audit_ok en rq aq rp effs ev'"
  using assms(1)
proof (cases rule: run_invocation_branch)
  case (failed err)
  let ?e = "public_error (inv_traceID iv) err"
  have none: "events effs = []" "BodyClosed \<notin> set effs" "list_ex is_Invoked effs"
    using failure_metrics_subset [of dp "ae_code ?e"] events_metrics [of "failure_metrics dp (ae_code ?e)"] by (auto simp: failed(4))
  show ?thesis
    using failure_event_decision [OF assms(3,5,4), of ?e] assms(2,6) none
    by (auto simp: failed(3) audit_ok_def opened_def arg_keys_of_def split: if_splits)
next
  case (streamed ex w1 ok s)
  then show ?thesis using assms(2-6) by (auto simp: audit_ok_def opened_def arg_keys_of_def)
next
  case (buffered ex w1 ok)
  then show ?thesis using assms(2-6) by (auto simp: audit_ok_def opened_def arg_keys_of_def)
qed

lemma execute_audit:
  assumes "execute en rq dp aq w = (rp, ev, effs, w')"
  shows "audit_ok en rq aq rp effs ev"
  using assms
proof (cases rule: execute_branch)
  case (refused e ev0)
  have "\<not> list_ex is_Invoked effs" "events effs = []"
    using refused(3) events_metrics [of effs] by (auto simp: list_ex_iff is_Invoked_def split: server_effect.splits)
  then show ?thesis using refused by (auto simp: audit_ok_def opened_def arg_keys_of_def)
next
  case (invoked vf token p w1 c args sv ev0)
  show ?thesis
    by (rule run_invocation_audit [OF invoked(15,7,8,9,13)]) (auto simp: arg_keys_of_def invoked)
qed


section \<open>Resources\<close>

lemma execute_keeps_lease:
  assumes "execute en rq dp aq w = (rp, ev, effs, w')"
  shows "Released \<notin> set effs"
  using assms
proof (cases rule: execute_branch)
  case (invoked vf token p w1 c args sv ev0)
  from invoked(15) show ?thesis
    by (cases rule: run_invocation_branch; use failure_metrics_subset [of dp] in \<open>fastforce split: if_splits\<close>)
qed auto

text \<open>
  The contract of an invocation service: a failed call holds nothing, and closing the body of a
  successful one returns what it held.
\<close>

locale invocation_contract =
  fixes sv :: "'w invocation_service" and held_by :: "'w \<Rightarrow> 's"
  assumes failed_keeps: "is_invoke sv iv w = (Inl e, w') \<Longrightarrow> held_by w' = held_by w"
    and close_returns: "is_invoke sv iv w = (Inr ex, w') \<Longrightarrow> held_by (is_close sv (ex_body ex) w') = held_by w"
begin

lemma run_invocation_returns:
  "run_invocation en dp aq sv iv h ev w = (rp, ev', effs, w') \<Longrightarrow> held_by w' = held_by w"
  by (erule run_invocation_branch) (auto dest: failed_keeps close_returns)

lemma execute_returns:
  assumes "execute en rq dp aq w = (rp, ev, effs, w')" "aq_invoker aq = Some sv"
    and "\<And>vf token w. dp_verifier dp = Some vf \<Longrightarrow> held_by (snd (vf token w)) = held_by w"
  shows "held_by w' = held_by w"
proof (cases "authenticate rq (dp_verifier dp) (trace_of en rq) w")
  case (Pair r w1)
  have w1: "held_by w1 = held_by w"
    using authenticate_world [OF Pair] assms(3) by auto
  from assms(1) show ?thesis
  proof (cases rule: execute_branch)
    case (invoked vf token p w2 c args sv' ev0)
    then have same: "w2 = w1" "sv' = sv" using Pair assms(2) by (auto simp: authenticate_def)
    show ?thesis using run_invocation_returns [OF invoked(15) [unfolded same]] w1 by simp
  next
    case (refused e ev0)
    then show ?thesis using Pair w1 by simp
  qed
qed

end

end
