(* ===== verification/Gateway_World.thy ===== *)
theory Gateway_World
  imports Server_Exec Runtime_Gen
begin

text \<open>
  The execution endpoint on the gateway's own components, as \<open>cmd/cli-gateway/main.go\<close> wires them: the
  verifier over the managed key set, the generation of the runtime with its reference count, and the
  invocation pipeline. The world of the handlers holds their states and the upstream effects so far.
\<close>

record 'k gateway =
  gw_keys :: "'k jwks_manager"
  gw_generation :: generation
  gw_service :: service
  gw_effects :: "effect list"

definition gateway_verify ::
  "'k jwt_lib \<Rightarrow> 'k jwks_env \<Rightarrow> gotime \<Rightarrow> gotime \<Rightarrow> verifier \<Rightarrow> string \<Rightarrow> 'k gateway \<Rightarrow> (auth_error + principal) \<times> 'k gateway" where
  "gateway_verify lib je before after v token w =
     (case verify lib (managed_keys je before after) v token (gw_keys w) of (r, m) \<Rightarrow> (r, w\<lparr>gw_keys := m\<rparr>))"

definition gateway_invoker :: "invoke_env \<Rightarrow> (release_body \<Rightarrow> string list \<times> read_end) \<Rightarrow> 'k gateway invocation_service" where
  "gateway_invoker ie read =
     \<lparr>is_invoke = (\<lambda>iv w. case invoke ie iv (gw_service w) of (r, s, effs) \<Rightarrow>
        (map_sum APIErr id r, w\<lparr>gw_service := s, gw_effects := gw_effects w @ effs\<rparr>)),
      is_read = read,
      is_close = (\<lambda>b w. w\<lparr>gw_service := snd (closeBody b (gw_service w))\<rparr>)\<rparr>"

definition gateway_release :: "'k gateway \<Rightarrow> 'k gateway" where
  "gateway_release w = w\<lparr>gw_generation := (case gen_release (gw_generation w) of Some g \<Rightarrow> g | None \<Rightarrow> gw_generation w)\<rparr>"

definition gateway_acquire ::
  "invoke_env \<Rightarrow> (release_body \<Rightarrow> string list \<times> read_end) \<Rightarrow> 'k gateway \<Rightarrow> 'k gateway acquired_runtime option \<times> 'k gateway" where
  "gateway_acquire ie read w =
     (case gen_acquire (gw_generation w) of
        (False, g) \<Rightarrow> (None, w)
      | (True, g) \<Rightarrow>
          (Some \<lparr>aq_snapshot = gn_snapshot g, aq_catalog = Some (gn_snapshot g), aq_invoker = Some (gateway_invoker ie read),
                 aq_audit = True, aq_generation = gn_id g, aq_release = gateway_release\<rparr>, w\<lparr>gw_generation := g\<rparr>))"

definition gateway_dependencies ::
  "'k jwt_lib \<Rightarrow> 'k jwks_env \<Rightarrow> gotime \<Rightarrow> gotime \<Rightarrow> verifier \<Rightarrow> invoke_env \<Rightarrow> (release_body \<Rightarrow> string list \<times> read_end)
   \<Rightarrow> 'k gateway oauth_service \<Rightarrow> string + string \<Rightarrow> string \<Rightarrow> snapshot \<Rightarrow> 'k gateway dependencies" where
  "gateway_dependencies lib je before after v ie read oauth signer downloads startup =
     \<lparr>dp_verifier = Some (gateway_verify lib je before after v), dp_invoker = None, dp_signer = Some signer,
      dp_runtime = Some (gateway_acquire ie read), dp_runtimeCurrent = (\<lambda>_. True), dp_metrics = True, dp_oauth = Some oauth,
      dp_downloadDir = downloads, dp_publicURL = sn_publicURL startup\<rparr>"

section \<open>The pipeline meets the contract of an invocation service\<close>

definition gateway_held :: "'k gateway \<Rightarrow> (nat \<times> (string, domain_limit) gomap) option \<times> generation" where
  "gateway_held w = (service_slots (gw_service w), gw_generation w)"

lemma invoke_slots:
  "invoke ie iv s = (Inl e, s', effs) \<Longrightarrow> service_slots s' = service_slots s"
  "invoke ie iv s = (Inr ex, s', effs) \<Longrightarrow> service_slots (snd (closeBody (ex_body ex) s')) = service_slots s"
  using invoke_balanced [where en = ie and iv = iv and s = s] by (auto split: prod.splits)

interpretation pipeline: invocation_contract "gateway_invoker ie read" gateway_held for ie read
  by unfold_locales (auto simp: gateway_invoker_def gateway_held_def invoke_slots map_sum_def split: prod.splits sum.splits)

lemma gateway_acquireRuntime:
  assumes "dp = gateway_dependencies lib je before after v ie read oauth signer downloads startup"
  shows "acquireRuntime manager dp w =
    (if gn_retired (gw_generation w) then (Inl (apiError 503 ''E_OVERLOADED'' ''runtime is not accepting work''), w)
     else (let g = (gw_generation w)\<lparr>gn_active := gn_active (gw_generation w) + 1\<rparr>
           in (Inr \<lparr>aq_snapshot = gn_snapshot g, aq_catalog = Some (gn_snapshot g), aq_invoker = Some (gateway_invoker ie read),
                 aq_audit = True, aq_generation = gn_id g, aq_release = gateway_release\<rparr>, w\<lparr>gw_generation := g\<rparr>)))"
  by (simp add: assms acquireRuntime_def gateway_dependencies_def gateway_acquire_def gen_acquire_def)

text \<open>C4. The endpoint gives everything back: on every path of a request, refused, failed, streamed or
  answered, the admission slots and the runtime's reference count end as they began, and the lease is
  released exactly once, as the last thing that happens.\<close>

theorem exec_releases_everything:
  assumes "handleExecution en rq manager (gateway_dependencies lib je before after v ie read oauth signer downloads startup) w = (rp, effs, w')"
    "gen_inv n (gw_generation w)"
  shows "service_slots (gw_service w') = service_slots (gw_service w) \<and> gw_generation w' = gw_generation w
    \<and> (if gn_retired (gw_generation w) then effs = [] else \<exists>es. effs = es @ [Released] \<and> Released \<notin> set es)"
proof (cases "gn_retired (gw_generation w)")
  case True
  then show ?thesis using assms(1) by (simp add: handleExecution_def gateway_acquireRuntime [OF refl])
next
  case False
  let ?dp = "gateway_dependencies lib je before after v ie read oauth signer downloads startup"
  let ?g = "(gw_generation w)\<lparr>gn_active := gn_active (gw_generation w) + 1\<rparr>" let ?w1 = "w\<lparr>gw_generation := ?g\<rparr>"
  let ?aq = "\<lparr>aq_snapshot = gn_snapshot ?g, aq_catalog = Some (gn_snapshot ?g), aq_invoker = Some (gateway_invoker ie read),
                 aq_audit = True, aq_generation = gn_id ?g, aq_release = gateway_release\<rparr>"
  have aq: "acquireRuntime manager ?dp w = (Inr ?aq, ?w1)" using False by (simp add: gateway_acquireRuntime [OF refl] Let_def)
  obtain rp0 ev0 effs0 w2 where ex: "execute en rq ?dp ?aq ?w1 = (rp0, ev0, effs0, w2)" by (cases "execute en rq ?dp ?aq ?w1")
  have res: "effs = effs0 @ [Audited (ev0\<lparr>au_latencyMS := latency_ms en (he_endedAt en)\<rparr>), Released]" "w' = gateway_release w2"
    using assms(1) handleExecution_runtime [OF aq ex] by simp_all
  have "gateway_held w2 = gateway_held ?w1"
    by (rule pipeline.execute_returns [OF ex])
      (auto simp: gateway_dependencies_def gateway_verify_def gateway_held_def split: prod.splits)
  then have w2: "service_slots (gw_service w2) = service_slots (gw_service w)" "gw_generation w2 = ?g"
    by (simp_all add: gateway_held_def)
  have "0 < gn_active ?g" using assms(2) by (simp add: gen_inv_def)
  then have "gen_release ?g = Some (gw_generation w)" using False by (simp add: gen_release_def)
  then have "gw_generation w' = gw_generation w" "service_slots (gw_service w') = service_slots (gw_service w)"
    by (simp_all add: res gateway_release_def w2)
  moreover have "Released \<notin> set effs0" using execute_keeps_lease [OF ex] .
  ultimately show ?thesis using False res by simp
qed

section \<open>What reaches the upstream\<close>

lemma gateway_verify_effects: "gw_effects (snd (gateway_verify lib je before after v token w)) = gw_effects w"
  by (simp add: gateway_verify_def split: prod.splits)

lemma gateway_authenticate_effects:
  assumes "dp_verifier dp = Some (gateway_verify lib je before after v)"
  shows "gw_effects (snd (authenticate rq (dp_verifier dp) trace w)) = gw_effects w"
  using authenticate_world [of rq "dp_verifier dp" trace w] assms gateway_verify_effects
  by (cases "authenticate rq (dp_verifier dp) trace w") auto

lemma gateway_run_effects:
  assumes "run_invocation en dp aq (gateway_invoker ie read) iv h ev w = (rp, ev', effs, w')"
  shows "gw_effects w' = gw_effects w @ snd (snd (invoke ie iv (gw_service w)))"
  using assms
  by (cases rule: run_invocation_branch) (auto simp: gateway_invoker_def split: prod.splits)

text \<open>An execution that caused upstream effects is one that invoked the pipeline, with these effects.\<close>

lemma gateway_execution_effects:
  fixes en rq lib je before after v ie read oauth signer downloads startup
  defines "dp \<equiv> gateway_dependencies lib je before after v ie read oauth signer downloads startup"
  assumes "handleExecution en rq manager dp w = (rp, effs, w')" "gw_effects w' \<noteq> gw_effects w"
  obtains token p m c args where "bearerToken (hr_header rq) = Inr token"
    "verify lib (managed_keys je before after) v token (gw_keys w) = (Inr p, m)"
    "sn_commands (gn_snapshot (gw_generation w)) (hr_pathValue rq ''domain'' @ ''.'' @ hr_pathValue rq ''command'') = Some c"
    "decode_arguments en (hr_body rq) = Inr args"
    "gw_effects w' = gw_effects w @ snd (snd (invoke ie (invocation_of rq (trace_of en rq) (gn_snapshot (gw_generation w)) p token c args) (gw_service w)))"
proof -
  have live: "\<not> gn_retired (gw_generation w)"
    using assms(2,3) by (auto simp: handleExecution_def dp_def gateway_acquireRuntime [OF refl])
  let ?g = "(gw_generation w)\<lparr>gn_active := gn_active (gw_generation w) + 1\<rparr>" let ?w1 = "w\<lparr>gw_generation := ?g\<rparr>"
  let ?aq = "\<lparr>aq_snapshot = gn_snapshot ?g, aq_catalog = Some (gn_snapshot ?g), aq_invoker = Some (gateway_invoker ie read),
                 aq_audit = True, aq_generation = gn_id ?g, aq_release = gateway_release\<rparr>"
  have aq: "acquireRuntime manager dp w = (Inr ?aq, ?w1)" using live by (simp add: dp_def gateway_acquireRuntime [OF refl] Let_def)
  obtain rp0 ev0 effs0 w2 where ex: "execute en rq dp ?aq ?w1 = (rp0, ev0, effs0, w2)" by (cases "execute en rq dp ?aq ?w1")
  have w': "gw_effects w' = gw_effects w2"
    using assms(2) handleExecution_runtime [OF aq ex] by (auto simp: gateway_release_def)
  have vf: "dp_verifier dp = Some (gateway_verify lib je before after v)" by (simp add: dp_def gateway_dependencies_def)
  from ex show thesis
  proof (cases rule: execute_branch)
    case (refused e ev)
    then show thesis using gateway_authenticate_effects [OF vf, of rq "trace_of en rq" ?w1] w' assms(3) by simp
  next
    case (invoked vf' token p w3 c args sv ev)
    have ver: "gateway_verify lib je before after v token ?w1 = (Inr p, w3)" using invoked(1,3) vf by simp
    then obtain m where m: "verify lib (managed_keys je before after) v token (gw_keys w) = (Inr p, m)" "w3 = ?w1\<lparr>gw_keys := m\<rparr>"
      by (auto simp: gateway_verify_def split: prod.splits)
    have sv: "sv = gateway_invoker ie read" using invoked(6) by simp
    have "gw_effects w2 = gw_effects w @ snd (snd (invoke ie (invocation_of rq (trace_of en rq) (gn_snapshot (gw_generation w)) p token c args) (gw_service w)))"
      using gateway_run_effects [OF invoked(15) [unfolded sv]] by (simp add: m(2))
    then show thesis using that [OF invoked(2) m(1) _ invoked(5)] invoked(4) w' by (simp add: resolve_command_def)
  qed
qed

lemma invoke_sent:
  assumes "invoke en iv s = (r, s', effs)" "up \<in> set (requests_sent effs)"
  shows "\<exists>args rq authz. validateArguments (en_fmtFloat en) (inv_command iv) (inv_args iv) = Inr args
    \<and> authorize (inv_principal iv) (inv_invoker iv) (inv_command iv) (inv_aiMaxRisk iv) (inv_confirmed iv) = None
    \<and> buildRequest (en_fmtFloat en) (en_random en) (en_spanID en) iv args = Inr rq
    \<and> en_authorizer en = Some authz \<and> authz iv rq = Inr up \<and> requests_sent effs = [up]"
proof -
  obtain args rq s1 where *: "validateArguments (en_fmtFloat en) (inv_command iv) (inv_args iv) = Inr args"
    "authorize (inv_principal iv) (inv_invoker iv) (inv_command iv) (inv_aiMaxRisk iv) (inv_confirmed iv) = None"
    "buildRequest (en_fmtFloat en) (en_random en) (en_spanID en) iv args = Inr rq" "admit en iv s = (None, s1)"
    using assms by (auto simp: invoke_def Let_def requests_sent_def List.map_filter_simps split: option.splits sum.splits prod.splits)
  obtain r2 s2 effs2 where ia: "invoke_admitted en iv rq s1 = (r2, s2, effs2)" by (cases "invoke_admitted en iv rq s1")
  have "effs = effs2" using assms(1) * ia by (auto simp: invoke_def Let_def split: sum.splits)
  with invoke_admitted_sent [OF ia] assms(2) obtain authz where
    "en_authorizer en = Some authz" "requests_sent effs = requests_of authz iv rq" by auto
  with assms(2) * show ?thesis by (auto simp: requests_of_def split: sum.splits)
qed

section \<open>A request on the example manifest\<close>

definition demo_generation :: generation where
  "demo_generation = \<lparr>gn_id = 1, gn_snapshot = demo_snapshot, gn_retired = False, gn_active = 0, gn_drained = False,
     gn_closed = False, gn_closes = 0\<rparr>"

definition demo_gateway :: "unit gateway" where
  "demo_gateway = \<lparr>gw_keys = rotated, gw_generation = demo_generation, gw_service = half_open_service, gw_effects = []\<rparr>"

definition demo_http :: http_env where
  "demo_http = \<lparr>he_random = ''0123456789abcdef'', he_started = 0, he_streamAt = 1000000, he_endedAt = 2000000,
     he_document = (\<lambda>_. Document (Some [(''id'', VStr ''42'')]) []), he_unmarshal = (\<lambda>_. None), he_fmtFloat = (\<lambda>_. []),
     he_fmtTime = (\<lambda>_. []), he_sha256 = id, he_flusher = True, he_room = None\<rparr>"

definition demo_in :: in_request where
  "demo_in = \<lparr>hr_header = [(''Authorization'', [''Bearer e30.e30.c2ln''])],
     hr_pathValue = (\<lambda>k. if k = ''domain'' then ''demo'' else ''item.get''), hr_query = [], hr_body = ''{}''\<rparr>"

definition idle_oauth :: "'w oauth_service" where
  "idle_oauth = \<lparr>os_begin = (\<lambda>_ _ _ w. (Inl (PlainErr ''off''), w)), os_status = (\<lambda>_ _ _. Inl (PlainErr ''off'')),
     os_disconnect = (\<lambda>_ _ w. (Some (PlainErr ''off''), w)), os_complete = (\<lambda>_ _ _ w. (Inl (PlainErr ''off''), w))\<rparr>"

definition demo_dependencies :: "unit gateway dependencies" where
  "demo_dependencies = gateway_dependencies (example_lib 7) (issuer_env ''a'' 5) 6 6 example_verifier (demo_env 200)
     (\<lambda>b. ([rb_body b], ReadEOF)) idle_oauth (Inr []) ''/usr/local/share/cli-gateway/downloads'' demo_snapshot"

abbreviation demo_caller :: principal where
  "demo_caller \<equiv> principal_of example_verifier example_token"

definition demo_executed :: invocation where
  "demo_executed = invocation_of demo_in (trace_of demo_http demo_in) demo_snapshot demo_caller ''e30.e30.c2ln'' demo_get [(''id'', VStr ''42'')]"

lemma demo_token: "bearerToken (hr_header demo_in) = Inr ''e30.e30.c2ln''"
  by code_simp

lemma demo_resolved: "sn_commands demo_snapshot (hr_pathValue demo_in ''domain'' @ ''.'' @ hr_pathValue demo_in ''command'') = Some demo_get"
  by code_simp

lemma demo_ai_risk: "sn_aiMaxRisk demo_snapshot = RiskWrite"
  by (simp add: demo_snapshot_def compile_def Let_def demo_manifest_def split: prod.splits)

lemma demo_trace: "trace_of demo_http demo_in = ''30313233343536373839616263646566''"
  by code_simp

lemma demo_executed_eq:
  "demo_executed = \<lparr>inv_source = ''http'', inv_principal = demo_caller, inv_command = demo_get, inv_args = [(''id'', VStr ''42'')],
     inv_invoker = ''ai'', inv_confirmed = False, inv_aiMaxRisk = RiskWrite, inv_traceID = ''30313233343536373839616263646566'',
     inv_traceState = [], inv_client = [], inv_bearerToken = ''e30.e30.c2ln''\<rparr>"
proof -
  have "effectiveInvoker (pr_invoker demo_caller) (headerGet (hr_header demo_in) ''X-Cli-Gateway-Invoker'') = ''ai''"
    "\<not> confirmed demo_in" "traceState (hr_header demo_in) = []" "userAgent demo_in = []" by code_simp+
  then show ?thesis by (simp add: demo_executed_def invocation_of_def demo_ai_risk demo_trace)
qed

lemma demo_sent: "requests_sent (snd (snd (invoke (demo_env 200) demo_executed half_open_service))) \<noteq> []"
  unfolding demo_executed_eq by code_simp

text \<open>The request is accepted and runs on the pipeline.\<close>

definition demo_runtime :: "unit gateway acquired_runtime" where
  "demo_runtime = \<lparr>aq_snapshot = demo_snapshot, aq_catalog = Some demo_snapshot,
     aq_invoker = Some (gateway_invoker (demo_env 200) (\<lambda>b. ([rb_body b], ReadEOF))), aq_audit = True, aq_generation = 1,
     aq_release = gateway_release\<rparr>"

lemma demo_acquired:
  "acquireRuntime None demo_dependencies demo_gateway = (Inr demo_runtime, demo_gateway\<lparr>gw_generation := demo_generation\<lparr>gn_active := 1\<rparr>\<rparr>)"
  by (simp add: demo_dependencies_def gateway_acquireRuntime [OF refl] demo_gateway_def demo_generation_def demo_runtime_def Let_def)

lemma demo_runs:
  "\<exists>rp ev effs w. execute demo_http demo_in demo_dependencies demo_runtime (demo_gateway\<lparr>gw_generation := g\<rparr>) = (rp, ev, effs, w)
     \<and> Invoked demo_executed \<in> set effs
     \<and> gw_effects w = snd (snd (invoke (demo_env 200) demo_executed half_open_service))"
proof -
  let ?w = "demo_gateway\<lparr>gw_generation := g\<rparr>"
  obtain rp ev effs w where ex: "execute demo_http demo_in demo_dependencies demo_runtime ?w = (rp, ev, effs, w)"
    by (cases "execute demo_http demo_in demo_dependencies demo_runtime ?w")
  have vf: "dp_verifier demo_dependencies = Some (gateway_verify (example_lib 7) (issuer_env ''a'' 5) 6 6 example_verifier)"
    by (simp add: demo_dependencies_def gateway_dependencies_def)
  have verified: "gateway_verify (example_lib 7) (issuer_env ''a'' 5) 6 6 example_verifier ''e30.e30.c2ln'' ?w = (Inr demo_caller, ?w)"
    using example_verify [of 7] by (simp add: gateway_verify_def demo_gateway_def example_check)
  have auth: "authenticate demo_in (dp_verifier demo_dependencies) (trace_of demo_http demo_in) ?w = (Inr (demo_caller, ''e30.e30.c2ln''), ?w)"
    by (simp add: authenticate_def vf demo_token verified)
  have dec: "decode_arguments demo_http (hr_body demo_in) = Inr [(''id'', VStr ''42'')]"
    by (simp add: decode_arguments_def demo_http_def demo_in_def maxExecutionBody_def)
  obtain ev0 where run: "run_invocation demo_http demo_dependencies demo_runtime (gateway_invoker (demo_env 200) (\<lambda>b. ([rb_body b], ReadEOF)))
      demo_executed (trace_header (trace_of demo_http demo_in)) ev0 ?w = (rp, ev, effs, w)"
    using ex [unfolded execute_def Let_def auth prod.case sum.case] dec demo_resolved
    by (auto simp: demo_runtime_def resolve_command_def demo_executed_def)
  from run have "Invoked demo_executed \<in> set effs" by (cases rule: run_invocation_branch) auto
  with ex gateway_run_effects [OF run] show ?thesis by (simp add: demo_gateway_def)
qed

lemma demo_handled:
  "\<exists>rp effs w. handleExecution demo_http demo_in None demo_dependencies demo_gateway = (rp, effs, w)
     \<and> Invoked demo_executed \<in> set effs \<and> gw_effects w = snd (snd (invoke (demo_env 200) demo_executed half_open_service))"
proof -
  obtain rp ev effs w where "execute demo_http demo_in demo_dependencies demo_runtime (demo_gateway\<lparr>gw_generation := demo_generation\<lparr>gn_active := 1\<rparr>\<rparr>) = (rp, ev, effs, w)"
    "Invoked demo_executed \<in> set effs" "gw_effects w = snd (snd (invoke (demo_env 200) demo_executed half_open_service))"
    using demo_runs by blast
  then show ?thesis using handleExecution_runtime [OF demo_acquired]
    by (auto simp: demo_runtime_def gateway_release_def)
qed

theorem exec_releases_everything_witness:
  "gw_generation (snd (snd (handleExecution demo_http demo_in None demo_dependencies demo_gateway))) = demo_generation"
proof -
  have "gen_inv 0 (gw_generation demo_gateway)" by (simp add: gen_inv_def demo_gateway_def demo_generation_def)
  then show ?thesis
    using exec_releases_everything [of demo_http demo_in None "example_lib 7" "issuer_env ''a'' 5" 6 6 example_verifier "demo_env 200"
        "\<lambda>b. ([rb_body b], ReadEOF)" idle_oauth "Inr []" "''/usr/local/share/cli-gateway/downloads''" demo_snapshot demo_gateway, folded demo_dependencies_def]
    by (cases "handleExecution demo_http demo_in None demo_dependencies demo_gateway") (simp add: demo_gateway_def)
qed

theorem exec_invokes_verified_witness:
  "\<exists>effs. effs = fst (snd (handleExecution demo_http demo_in None demo_dependencies demo_gateway))
     \<and> filter is_Invoked effs = [Invoked demo_executed]"
proof -
  obtain rp effs w where h: "handleExecution demo_http demo_in None demo_dependencies demo_gateway = (rp, effs, w)" "Invoked demo_executed \<in> set effs"
    using demo_handled by blast
  from exec_invokes_verified [OF h] h(1) show ?thesis by auto
qed


end
