(* ===== verification/Server_Views.thy ===== *)
theory Server_Views
  imports Gateway_World
begin

text \<open>
  The other endpoints of \<open>server.go\<close> and what a client reads: rendered errors, relayed responses, the
  command list with its entity tag, downstream authorization and its callback page.
\<close>

section \<open>Rendered errors\<close>

lemma wrap64_id: "- (2 ^ 63) \<le> x \<Longrightarrow> x < 2 ^ 63 \<Longrightarrow> wrap64 x = x"
  by (simp add: wrap64_def)

lemma ceiling_div:
  fixes d s :: int
  assumes "0 < s"
  shows "((d + s - 1) div s - 1) * s < d \<and> d \<le> (d + s - 1) div s * s"
proof -
  have "(d + s - 1) div s * s + (d + s - 1) mod s = d + s - 1" "0 \<le> (d + s - 1) mod s" "(d + s - 1) mod s < s"
    using assms by simp_all
  then show ?thesis unfolding left_diff_distrib mult_1 by linarith
qed

lemma retry_seconds_rounds_up:
  assumes "0 < d" "d \<le> max_int64 - second"
  shows "(retry_seconds d - 1) * second < d \<and> d \<le> retry_seconds d * second"
proof -
  have "wrap64 (d + second) = d + second" "wrap64 (d + second - 1) = d + second - 1"
    using assms by (auto intro!: wrap64_id simp: max_int64_def second_def)
  then have r: "retry_seconds d = (d + second - 1) div second" using assms by (simp add: retry_seconds_def goquot_def second_def)
  show ?thesis unfolding r by (rule ceiling_div) (simp add: second_def)
qed

lemma header_names:
  "canonicalHeaderKey ''Content-Type'' = ''Content-Type''" "canonicalHeaderKey ''WWW-Authenticate'' = ''Www-Authenticate''"
  "canonicalHeaderKey ''Retry-After'' = ''Retry-After''" "canonicalHeaderKey ''X-Cli-Gateway-Trace-Id'' = ''X-Cli-Gateway-Trace-Id''"
  "canonicalHeaderKey ''ETag'' = ''Etag''" "canonicalHeaderKey ''Vary'' = ''Vary''" "canonicalHeaderKey ''Cache-Control'' = ''Cache-Control''"
  "canonicalHeaderKey ''If-None-Match'' = ''If-None-Match''" "canonicalHeaderKey ''X-Cli-Gateway-Invoker'' = ''X-Cli-Gateway-Invoker''"
  by code_simp+

lemma writeJSON_header: "headerGet (rp_header (writeJSON st d h)) n =
    (if canonicalHeaderKey n = ''Content-Type'' then ''application/json'' else headerGet h n)"
  by (simp add: writeJSON_def headerGet_headerSet header_names)

lemma writeAPIError_headers:
  "headerGet (rp_header (writeAPIError e h)) ''WWW-Authenticate'' = (if ae_status e = 401 then challenge e else headerGet h ''WWW-Authenticate'')"
  "headerGet (rp_header (writeAPIError e h)) ''Retry-After'' =
     (if ae_retryAfter e > 0 then formatInt (retry_seconds (ae_retryAfter e)) else headerGet h ''Retry-After'')"
  "headerGet (rp_header (writeAPIError e h)) ''X-Cli-Gateway-Trace-Id'' = headerGet h ''X-Cli-Gateway-Trace-Id''"
  by (simp_all add: writeAPIError_def Let_def writeJSON_header headerGet_headerSet header_names)

text \<open>Public errors say what they should and nothing more: the internal cause has no influence on the
  reply, the status is never zero, a challenge is sent exactly with status 401 and names an invalid
  token unless the token was missing, and the retry delay is the least whole number of seconds that
  covers the error's delay.\<close>

theorem errors_rendered:
  assumes "headerGet h ''WWW-Authenticate'' = []" "headerGet h ''Retry-After'' = []" "ae_retryAfter e \<le> max_int64 - second"
  shows "writeAPIError (e\<lparr>ae_cause := cause\<rparr>) h = writeAPIError e h
    \<and> rp_status (writeAPIError e h) \<noteq> 0
    \<and> headerGet (rp_header (writeAPIError e h)) ''WWW-Authenticate'' = (if ae_status e = 401 then challenge e else [])
    \<and> (if 0 < ae_retryAfter e
       then \<exists>n. headerGet (rp_header (writeAPIError e h)) ''Retry-After'' = formatInt n
              \<and> (n - 1) * second < ae_retryAfter e \<and> ae_retryAfter e \<le> n * second
       else headerGet (rp_header (writeAPIError e h)) ''Retry-After'' = [])"
proof -
  have "writeAPIError (e\<lparr>ae_cause := cause\<rparr>) h = writeAPIError e h"
    by (simp add: writeAPIError_def error_document_def challenge_def Let_def)
  moreover have "0 < ae_retryAfter e \<longrightarrow> (retry_seconds (ae_retryAfter e) - 1) * second < ae_retryAfter e
      \<and> ae_retryAfter e \<le> retry_seconds (ae_retryAfter e) * second"
    using retry_seconds_rounds_up [OF _ assms(3)] by blast
  ultimately show ?thesis using assms(1,2) by (auto simp: writeAPIError_headers)
qed

theorem errors_rendered_witness:
  "\<exists>n. headerGet (rp_header (writeAPIError ((apiError 503 ''E_UPSTREAM_CIRCUIT_OPEN'' [])\<lparr>ae_retryAfter := 1500000000\<rparr>) [])) ''Retry-After'' = formatInt n
     \<and> (n - 1) * second < 1500000000 \<and> 1500000000 \<le> n * second"
  using errors_rendered [of "[]" "(apiError 503 ''E_UPSTREAM_CIRCUIT_OPEN'' [])\<lparr>ae_retryAfter := 1500000000\<rparr>" None]
  by (simp add: headerGet_def max_int64_def second_def)

section \<open>Relayed responses\<close>

definition received :: "written list \<Rightarrow> string" where
  "received ws = concat (map (\<lambda>w. case w of Wrote s \<Rightarrow> s | Flushed \<Rightarrow> []) ws)"

lemma received_simps [simp]:
  "received [] = []" "received (Wrote s # ws) = s @ received ws" "received (Flushed # ws) = received ws"
  "received (xs @ ys) = received xs @ received ys"
  by (simp_all add: received_def)

fun flushed_each :: "written list \<Rightarrow> bool" where
  "flushed_each [] = True"
| "flushed_each (Wrote s # Flushed # ws) = flushed_each ws"
| "flushed_each _ = False"

lemma flushed_each_append: "flushed_each xs \<Longrightarrow> flushed_each ys \<Longrightarrow> flushed_each (xs @ ys)"
  by (induction xs rule: flushed_each.induct) auto

lemma copy_stream_received:
  assumes "copy_stream f room chunks = (out, ok)"
  shows "received out = (case room of None \<Rightarrow> concat chunks | Some r \<Rightarrow> take r (concat chunks))
    \<and> (ok \<longleftrightarrow> (case room of None \<Rightarrow> True | Some r \<Rightarrow> length (concat chunks) \<le> r)) \<and> (f \<longrightarrow> flushed_each out)"
  using assms
proof (induction f room chunks arbitrary: out ok rule: copy_stream.induct)
  case (1 f room)
  then show ?case by (auto split: option.splits)
next
  case (2 f room c cs)
  let ?n = "case room of None \<Rightarrow> length c | Some r \<Rightarrow> min r (length c)"
  let ?out = "if ?n = 0 then [] else Wrote (take ?n c) # (if f then [Flushed] else [])"
  have piece: "received ?out = take ?n c" "f \<longrightarrow> flushed_each ?out" by auto
  show ?case
  proof (cases "?n < length c")
    case True
    with "2.prems" have "out = ?out" "\<not> ok" by (simp_all add: Let_def)
    moreover from True obtain r where "room = Some r" "r < length c" by (auto split: option.splits)
    ultimately show ?thesis using piece by (simp add: min_def)
  next
    case False
    obtain rest ok' where rest: "copy_stream f (map_option (\<lambda>r. r - ?n) room) cs = (rest, ok')"
      by (cases "copy_stream f (map_option (\<lambda>r. r - ?n) room) cs")
    with "2.prems" False have out: "out = ?out @ rest" "ok = ok'" by (simp_all add: Let_def)
    have ih: "received rest = (case map_option (\<lambda>r. r - ?n) room of None \<Rightarrow> concat cs | Some r \<Rightarrow> take r (concat cs))
        \<and> (ok' \<longleftrightarrow> (case map_option (\<lambda>r. r - ?n) room of None \<Rightarrow> True | Some r \<Rightarrow> length (concat cs) \<le> r)) \<and> (f \<longrightarrow> flushed_each rest)"
      by (rule "2.IH" [OF refl refl _ rest]) (use False in simp)
    show ?thesis
    proof (cases room)
      case None
      then show ?thesis using ih piece out by (auto intro: flushed_each_append)
    next
      case (Some r)
      with False have "length c \<le> r" "?n = length c" by auto
      then show ?thesis using ih piece out Some by (auto intro: flushed_each_append)
    qed
  qed
qed

text \<open>C28. A response is reported as a success only if the client got all of it: a buffered answer is a success
  exactly when the whole upstream body was read and is at most 4 MiB, and then its data is that of
  the whole body; otherwise it is an error with the trace and none of the body. A stream is relayed in
  order, flushed after every piece, a prefix if the client or the upstream stops early, and counts as
  a success exactly when both ended properly.\<close>

theorem responses_relayed_whole:
  assumes "is_read sv (ex_body ex) = (chunks, fin)"
  shows "(case buffered_reply en trace sv h ex of (rp, ok) \<Rightarrow>
       (ok \<longleftrightarrow> fin = ReadEOF \<and> length (concat chunks) \<le> maxExecutionResponse)
       \<and> (if ok then rp_status rp = 200 \<and> rp_body rp = JsonBody (Struct [(''ok'', Any (VBool True)), (''status'', Any (VInt (ex_status ex))),
              (''data'', Any (response_data en (ex_contentType ex) (concat chunks)))])
          else rp_status rp \<in> {499, 502} \<and> (\<exists>e. rp_body rp = JsonBody (error_document e) \<and> ae_traceID e = trace)))
    \<and> (case stream_reply en sv h ex of (rp, ok) \<Rightarrow>
       (ok \<longleftrightarrow> fin = ReadEOF \<and> (\<forall>r. he_room en = Some r \<longrightarrow> length (concat chunks) \<le> r))
       \<and> rp_status rp = ex_status ex
       \<and> (\<exists>out. rp_body rp = Streamed out \<and> received out = (case he_room en of None \<Rightarrow> concat chunks | Some r \<Rightarrow> take r (concat chunks))
              \<and> (he_flusher en \<longrightarrow> flushed_each out)))"
proof
  let ?n = "length (concat chunks)" and ?m = maxExecutionResponse
  show "case buffered_reply en trace sv h ex of (rp, ok) \<Rightarrow>
       (ok \<longleftrightarrow> fin = ReadEOF \<and> ?n \<le> ?m)
       \<and> (if ok then rp_status rp = 200 \<and> rp_body rp = JsonBody (Struct [(''ok'', Any (VBool True)), (''status'', Any (VInt (ex_status ex))),
              (''data'', Any (response_data en (ex_contentType ex) (concat chunks)))])
          else rp_status rp \<in> {499, 502} \<and> (\<exists>e. rp_body rp = JsonBody (error_document e) \<and> ae_traceID e = trace))"
  proof (cases "?n \<le> ?m")
    case True
    then show ?thesis
      by (cases fin) (auto simp: buffered_reply_def read_limited_def Let_def assms upstreamReadError_def intro!: exI [where P = "\<lambda>e. error_document _ = error_document e \<and> _ e"])
  next
    case False
    then have "read_limited (?m + 1) (is_read sv (ex_body ex)) = (take (?m + 1) (concat chunks), ReadEOF)" "length (take (?m + 1) (concat chunks)) > ?m"
      by (simp_all add: read_limited_def assms Let_def)
    then show ?thesis using False by (auto simp: buffered_reply_def)
  qed
next
  show "case stream_reply en sv h ex of (rp, ok) \<Rightarrow>
       (ok \<longleftrightarrow> fin = ReadEOF \<and> (\<forall>r. he_room en = Some r \<longrightarrow> length (concat chunks) \<le> r))
       \<and> rp_status rp = ex_status ex
       \<and> (\<exists>out. rp_body rp = Streamed out \<and> received out = (case he_room en of None \<Rightarrow> concat chunks | Some r \<Rightarrow> take r (concat chunks))
              \<and> (he_flusher en \<longrightarrow> flushed_each out))"
    using copy_stream_received [of "he_flusher en" "he_room en" chunks]
    by (cases "copy_stream (he_flusher en) (he_room en) chunks") (auto simp: stream_reply_def Let_def assms split: option.splits)
qed

definition demo_stream :: "unit invocation_service" where
  "demo_stream = \<lparr>is_invoke = (\<lambda>_ _. (Inl (PlainErr []), ())), is_read = (\<lambda>_. ([''ab'', ''c''], ReadEOF)), is_close = (\<lambda>_ _. ())\<rparr>"

definition demo_execution :: execution where
  "demo_execution = \<lparr>ex_status = 200, ex_contentType = ''text/plain'', ex_header = [],
     ex_body = \<lparr>rb_body = ''abc'', rb_domain = None, rb_released = False\<rparr>, ex_streaming = True\<rparr>"

theorem responses_relayed_whole_witness:
  "\<exists>out. rp_body (fst (stream_reply demo_http demo_stream [] demo_execution)) = Streamed out \<and> received out = ''abc'' \<and> flushed_each out"
  using responses_relayed_whole [of demo_stream demo_execution "[''ab'', ''c'']" ReadEOF demo_http "[]" "[]"]
  by (auto simp: demo_stream_def demo_http_def split: prod.splits)

section \<open>The command list\<close>

lemma fold_add_to_domain:
  "(case map_of (fold add_to_domain cs m) n of None \<Rightarrow> [] | Some ds \<Rightarrow> ds)
    = (case map_of m n of None \<Rightarrow> [] | Some ds \<Rightarrow> ds) @ filter (\<lambda>c. cmd_domain c = n) cs"
proof (induction cs arbitrary: m)
  case (Cons c cs)
  show ?case using Cons.IH [of "add_to_domain c m"] by (simp add: add_to_domain_def)
qed simp

lemma keys_add_to_domain: "set (keys (fold add_to_domain cs m)) = set (keys m) \<union> cmd_domain ` set cs"
proof (induction cs arbitrary: m)
  case (Cons c cs)
  show ?case using Cons.IH [of "add_to_domain c m"] by (auto simp: add_to_domain_def)
qed simp

lemma wf_add_to_domain: "wf_map m \<Longrightarrow> wf_map (fold add_to_domain cs m)"
  by (induction cs arbitrary: m) (simp_all add: add_to_domain_def)

lemma grouped_domains:
  assumes "m = fold add_to_domain cs []" "n \<in> set (keys m)"
  shows "map_of m n = Some (filter (\<lambda>c. cmd_domain c = n) cs)" "filter (\<lambda>c. cmd_domain c = n) cs \<noteq> []"
proof -
  obtain ds where ds: "map_of m n = Some ds" using assms(2) by (auto simp only: in_keys_map_of)
  then show "map_of m n = Some (filter (\<lambda>c. cmd_domain c = n) cs)"
    using fold_add_to_domain [of cs "[]" n] by (simp add: assms(1) [symmetric])
  show "filter (\<lambda>c. cmd_domain c = n) cs \<noteq> []"
    using keys_add_to_domain [of cs "[]"] assms by (auto simp: filter_empty_conv)
qed

lemma catalog_domains_eq:
  fixes s p i
  defines "cs \<equiv> filter (\<lambda>c. visible p i c (sn_aiMaxRisk s)) (map (\<lambda>k. the (sn_commands s k)) (sn_commandKeys s))"
  shows "catalog_domains s p i
    = map (\<lambda>n. (n, filter (\<lambda>c. cmd_domain c = n) cs)) (sortStrings (keys (fold add_to_domain cs [])))"
  unfolding catalog_domains_def Let_def cs_def [symmetric]
  by (rule map_cong [OF refl]) (simp add: grouped_domains(1) [OF refl])

lemma catalog_domains_listed:
  assumes "snapshot_wf s"
  shows "sorted_wrt (<) (map fst (catalog_domains s p i))
    \<and> list_all (\<lambda>(n, cs). cs \<noteq> [] \<and> list_all (\<lambda>c. cmd_domain c = n) cs \<and> sorted_wrt (<) (map cmd_key cs)) (catalog_domains s p i)
    \<and> set (concat (map snd (catalog_domains s p i))) = set (visibleCommands (Some s) p i)"
proof -
  define cs where "cs = filter (\<lambda>c. visible p i c (sn_aiMaxRisk s)) (map (\<lambda>k. the (sn_commands s k)) (sn_commandKeys s))"
  define ns where "ns = sortStrings (keys (fold add_to_domain cs []))"
  have eq: "catalog_domains s p i = map (\<lambda>n. (n, filter (\<lambda>c. cmd_domain c = n) cs)) ns"
    by (simp only: catalog_domains_eq cs_def ns_def)
  have names: "set ns = cmd_domain ` set cs" using keys_add_to_domain [of cs "[]"] by (simp add: ns_def)
  have "distinct ns" using wf_add_to_domain [of "[]" cs] by (simp add: ns_def wf_map_def)
  then have strict: "sorted_wrt (<) ns" by (simp add: strict_sorted_iff ns_def)
  have "sorted_wrt (<) (map cmd_key (map (\<lambda>k. the (sn_commands s k)) (sn_commandKeys s)))"
    using listed_keys [OF assms] assms by (simp add: comp_def strict_sorted_iff snapshot_wf_def)
  then have "sorted_wrt (\<lambda>a b. cmd_key a < cmd_key b) cs"
    unfolding cs_def sorted_wrt_map [symmetric] by (metis sorted_wrt_filter sorted_wrt_map)
  then have ordered: "sorted_wrt (<) (map cmd_key (filter (\<lambda>c. cmd_domain c = n) cs))" for n
    unfolding sorted_wrt_map by (rule sorted_wrt_filter)
  have full: "n \<in> set ns \<Longrightarrow> filter (\<lambda>c. cmd_domain c = n) cs \<noteq> []" for n
    using names by (auto simp: filter_empty_conv)
  have "set (concat (map snd (catalog_domains s p i))) = set cs" using names by (auto simp: eq)
  moreover have "set cs = set (visibleCommands (Some s) p i)" by (simp add: visibleCommands_def cs_def)
  ultimately show ?thesis using strict ordered full by (simp add: eq list_all_iff comp_def)
qed

text \<open>C29. The command list a caller reads is what policy lets it run: for a well-formed snapshot the domains
  are listed once, in order, each with at least one command and only its own, in key order, and the
  commands listed are exactly the catalog's visible ones for the caller's effective invoker.\<close>

theorem manifest_lists_visible:
  assumes "snapshot_wf s"
  shows "sorted_wrt (<) (map fst (catalog_domains s p i))
    \<and> list_all (\<lambda>(n, cs). cs \<noteq> [] \<and> list_all (\<lambda>c. cmd_domain c = n) cs \<and> sorted_wrt (<) (map cmd_key cs)) (catalog_domains s p i)
    \<and> set (concat (map snd (catalog_domains s p i))) = set (visibleCommands (Some s) p i)"
  using assms by (rule catalog_domains_listed)

theorem manifest_lists_visible_witness:
  "set (concat (map snd (catalog_domains demo_snapshot demo_caller InvokerAI))) = set (visibleCommands (Some demo_snapshot) demo_caller InvokerAI)"
  using manifest_lists_visible [OF demo_snapshot_wf, of demo_caller InvokerAI] by (elim conjE)

text \<open>A client that presents the tag of the list it holds is told that it is current, without a body; any
  other tag gets the list, and the reply is private, varies with the credential and names its tag.\<close>

theorem manifest_revalidates:
  "case manifest_reply en rq p h s of rp \<Rightarrow>
      (let again = manifest_reply en (rq\<lparr>hr_header := headerSet ''If-None-Match'' (headerGet (rp_header rp) ''ETag'') (hr_header rq)\<rparr>) p h s
       in rp_status again = 304 \<and> rp_body again = NoBody \<and> headerGet (rp_header again) ''ETag'' = headerGet (rp_header rp) ''ETag'')
      \<and> headerGet (rp_header rp) ''Cache-Control'' = ''private'' \<and> headerGet (rp_header rp) ''Vary'' = ''Authorization''
      \<and> (if headerGet (hr_header rq) ''If-None-Match'' = headerGet (rp_header rp) ''ETag'' then rp_status rp = 304
         else rp_status rp = 200 \<and> (\<exists>fs. rp_body rp = JsonBody (Struct (catalog_fields s
              (catalog_domains s p (effectiveInvoker (pr_invoker p) (headerGet (hr_header rq) ''X-Cli-Gateway-Invoker''))) @ fs))))"
  by (simp add: manifest_reply_def Let_def writeJSON_header headerGet_headerSet header_names)

section \<open>Protected endpoints\<close>

definition protected_endpoints :: "http_env \<Rightarrow> in_request \<Rightarrow> manifest_manager option \<Rightarrow> 'w dependencies \<Rightarrow> ('w \<Rightarrow> 'w handled) list" where
  "protected_endpoints en rq manager dp =
     [handleWhoAmI en rq dp, handleManifest en rq manager dp, handleDownstreamAuthorizationStart en rq manager dp,
      handleDownstreamAuthorizationStatus en rq manager dp, handleDownstreamAuthorizationDisconnect en rq manager dp]"

lemma trace_header_get: "headerGet (trace_header t) ''X-Cli-Gateway-Trace-Id'' = t"
  by (simp add: trace_header_def headerGet_headerSet)


definition anonymous :: in_request where
  "anonymous = demo_in\<lparr>hr_header := []\<rparr>"

lemma anonymous_token: "bearerToken (hr_header anonymous) = Inl MissingToken"
  by code_simp


section \<open>Downstream authorization\<close>

lemma downstream_list:
  assumes "snapshot_wf s"
  shows "set (map the (filter (\<lambda>c. c \<noteq> None) (listCommands (Some s)))) = {c. sn_commands s (cmd_key c) = Some c}"
proof -
  have "set (map the (filter (\<lambda>c. c \<noteq> None) (listCommands (Some s)))) = (\<lambda>k. the (sn_commands s k)) ` set (sn_commandKeys s)"
    using snapshot_wf_lookup [OF assms] assms unfolding snapshot_wf_def
    by (auto simp: listCommands_def image_iff) (metis domD option.sel)+
  then show ?thesis using listed_commands [OF assms] by blast
qed

text \<open>Per-user authorization is offered exactly where it is configured: on a well-formed snapshot the
  handlers act on a command of the named domain that uses the authorization-code mode if there is
  one, say that the mode is wrong if the domain has only other commands, and that the domain is
  unknown otherwise.\<close>

theorem downstream_command_found:
  assumes "snapshot_wf s" "trimSpace d \<noteq> []"
  shows "case downstreamAuthorizationCommand (Some s) d of
      Inr c \<Rightarrow> sn_commands s (cmd_key c) = Some c \<and> cmd_domain c = d \<and> cmd_downstreamAuth c = DownstreamAuthorizationCode
    | Inl e \<Rightarrow>
        (\<forall>k c. sn_commands s k = Some c \<and> cmd_domain c = d \<longrightarrow> cmd_downstreamAuth c \<noteq> DownstreamAuthorizationCode)
        \<and> (if \<exists>k c. sn_commands s k = Some c \<and> cmd_domain c = d
           then ae_status e = 400 \<and> ae_code e = ''E_DOWNSTREAM_AUTH_MODE'' else ae_status e = 404 \<and> ae_code e = ''E_DOMAIN_NOT_FOUND'')"
proof -
  define cs where "cs = map the (filter (\<lambda>c. c \<noteq> None) (listCommands (Some s)))"
  have cs: "set cs = {c. sn_commands s (cmd_key c) = Some c}" unfolding cs_def by (rule downstream_list [OF assms(1)])
  have key: "cmd_key c = k" if "sn_commands s k = Some c" for k c using snapshot_wf_command [OF assms(1) that] by simp
  have found: "(\<exists>k c. sn_commands s k = Some c \<and> cmd_domain c = d) \<longleftrightarrow> filter (\<lambda>c. cmd_domain c = d) cs \<noteq> []"
    using cs key by (auto simp: filter_empty_conv)
  let ?f = "filter (\<lambda>c. cmd_downstreamAuth c = DownstreamAuthorizationCode) (filter (\<lambda>c. cmd_domain c = d) cs)"
  have eq: "downstreamAuthorizationCommand (Some s) d =
      (case ?f of c # _ \<Rightarrow> Inr c
       | [] \<Rightarrow> (if filter (\<lambda>c. cmd_domain c = d) cs \<noteq> []
                then Inl (apiError 400 ''E_DOWNSTREAM_AUTH_MODE'' ''domain does not use per-user OAuth authorization'')
                else Inl (apiError 404 ''E_DOMAIN_NOT_FOUND'' ''domain was not found'')))"
    unfolding downstreamAuthorizationCommand_def Let_def cs_def using assms(2) by simp
  show ?thesis
  proof (cases ?f)
    case Nil
    have "cmd_downstreamAuth c \<noteq> DownstreamAuthorizationCode" if "sn_commands s k = Some c" "cmd_domain c = d" for k c
      using Nil that key [OF that(1)] cs by (auto simp: filter_empty_conv)
    then show ?thesis unfolding eq Nil found by auto
  next
    case (Cons c rest)
    then have "c \<in> set ?f" by simp
    then have "sn_commands s (cmd_key c) = Some c" "cmd_domain c = d" "cmd_downstreamAuth c = DownstreamAuthorizationCode"
      using cs by simp_all
    then show ?thesis unfolding eq Cons by simp
  qed
qed

theorem downstream_command_found_witness:
  "case downstreamAuthorizationCommand (Some demo_snapshot) ''nowhere'' of
      Inr c \<Rightarrow> sn_commands demo_snapshot (cmd_key c) = Some c \<and> cmd_domain c = ''nowhere'' | Inl e \<Rightarrow> ae_status e \<in> {400, 404}"
proof -
  have "trimSpace ''nowhere'' \<noteq> []" by code_simp
  from downstream_command_found [OF demo_snapshot_wf this] show ?thesis by (auto split: sum.splits if_splits)
qed

section \<open>The callback page\<close>

text \<open>How a browser reads the text of the page: the five entities stand for their characters.\<close>

function html_text :: "string \<Rightarrow> string" where
  "html_text s =
     (if hasPrefix s ''&amp;'' then CHR ''&'' # html_text (drop 5 s)
      else if hasPrefix s ''&#39;'' then CHR 0x27 # html_text (drop 5 s)
      else if hasPrefix s ''&lt;'' then CHR ''<'' # html_text (drop 4 s)
      else if hasPrefix s ''&gt;'' then CHR ''>'' # html_text (drop 4 s)
      else if hasPrefix s ''&#34;'' then CHR 0x22 # html_text (drop 5 s)
      else (case s of [] \<Rightarrow> [] | c # r \<Rightarrow> c # html_text r))"
  by pat_completeness auto
termination by (relation "measure length") (auto simp: hasPrefix_iff)

declare html_text.simps [simp del]

lemma html_text_escape: "html_text (escape_html_char c @ s) = c # html_text s"
  by (subst html_text.simps) (auto simp: escape_html_char_def)

lemma html_text_escapeString: "html_text (escapeString s) = s"
proof (induction s)
  case Nil
  show ?case by (subst html_text.simps) (simp add: escapeString_def)
next
  case (Cons c s)
  then show ?case using html_text_escape [of c "escapeString s"] by (simp add: escapeString_def)
qed

lemma escapeString_no_markup: "set (escapeString s) \<inter> {CHR ''<'', CHR ''>'', CHR 0x22, CHR 0x27} = {}"
  by (induction s) (auto simp: escapeString_def escape_html_char_def split: if_splits)

text \<open>The callback page shows the domain's name and nothing it could smuggle in: whatever the name, the
  page is fixed markup around a text without markup characters that reads as exactly that name; any
  failure shows a fixed page with status 400, and every page forbids scripts, sniffing and caching.\<close>

theorem callback_page_safe:
  assumes "handleDownstreamAuthorizationCallback rq dp w = (rp, effs, w')"
  shows "rp_header rp = callback_header \<and> effs = []
    \<and> (case rp_body rp of
        TextBody body \<Rightarrow>
          (if rp_status rp = 200
           then \<exists>os d shown. dp_oauth dp = Some os \<and> fst (os_complete os (queryGet rq ''state'') (queryGet rq ''code'') (queryGet rq ''error'') w) = Inr d
             \<and> body = ''<!doctype html><title>Authorization complete</title><p>Authorization for <strong>'' @ shown
                 @ ''</strong> is complete. You can close this window.</p>''
             \<and> set shown \<inter> {CHR ''<'', CHR ''>'', CHR 0x22, CHR 0x27} = {} \<and> html_text shown = d
           else rp_status rp = (if dp_oauth dp = None then 503 else 400))
      | _ \<Rightarrow> False)"
proof (cases "dp_oauth dp")
  case None
  then show ?thesis using assms by (auto simp: handleDownstreamAuthorizationCallback_def Let_def)
next
  case (Some os)
  let ?c = "os_complete os (queryGet rq ''state'') (queryGet rq ''code'') (queryGet rq ''error'') w"
  show ?thesis
  proof (cases "fst ?c")
    case (Inl e)
    then show ?thesis using assms Some by (cases ?c) (auto simp: handleDownstreamAuthorizationCallback_def Let_def)
  next
    case (Inr d)
    then have "rp = \<lparr>rp_status = 200, rp_header = callback_header,
        rp_body = TextBody (''<!doctype html><title>Authorization complete</title><p>Authorization for <strong>'' @ escapeString d
                     @ ''</strong> is complete. You can close this window.</p>'')\<rparr>" "effs = []"
      using assms Some by (cases ?c; auto simp: handleDownstreamAuthorizationCallback_def Let_def)+
    then show ?thesis using Some Inr escapeString_no_markup [of d] html_text_escapeString [of d] by auto
  qed
qed

theorem callback_page_safe_witness:
  "rp_header (fst (handleDownstreamAuthorizationCallback demo_in demo_dependencies demo_gateway)) = callback_header"
  using callback_page_safe [of demo_in demo_dependencies demo_gateway]
  by (cases "handleDownstreamAuthorizationCallback demo_in demo_dependencies demo_gateway") auto

end
