(* ===== verification/Server_Dist.thy ===== *)
theory Server_Dist
  imports Server_Views
begin

text \<open>
  Distribution of the command-line client, \<open>internal/server/distribution.go\<close>, and the routes of
  \<open>NewHandler\<close>: downloads come from an allow list in one directory, and the install script carries the
  public URL as one shell word.
\<close>

section \<open>Paths\<close>

text \<open>\<open>filepath.Clean\<close> and \<open>filepath.Join\<close> on Unix.\<close>

fun clean_segments :: "bool \<Rightarrow> string list \<Rightarrow> string list \<Rightarrow> string list" where
  "clean_segments rooted acc [] = acc"
| "clean_segments rooted acc (s # ss) =
     (if s = [] \<or> s = ''.'' then clean_segments rooted acc ss
      else if s = ''..'' then
        (if acc \<noteq> [] \<and> last acc \<noteq> ''..'' then clean_segments rooted (butlast acc) ss
         else if rooted then clean_segments rooted acc ss
         else clean_segments rooted (acc @ [s]) ss)
      else clean_segments rooted (acc @ [s]) ss)"

definition cleanPath :: "string \<Rightarrow> string" where
  "cleanPath p =
     (let rooted = hasPrefix p ''/''; segs = clean_segments rooted [] (splitOn (CHR ''/'') p)
      in if rooted then CHR ''/'' # join segs ''/'' else if segs = [] then ''.'' else join segs ''/'')"

definition joinPath :: "string \<Rightarrow> string \<Rightarrow> string" where
  "joinPath dir name = cleanPath (dir @ ''/'' @ name)"

section \<open>Downloads\<close>

definition downloadableCLIArtifacts :: "string list" where
  "downloadableCLIArtifacts =
     [''cg-darwin-amd64'', ''cg-darwin-amd64.sha256'', ''cg-darwin-arm64'', ''cg-darwin-arm64.sha256'',
      ''cg-linux-amd64'', ''cg-linux-amd64.sha256'', ''cg-linux-arm64'', ''cg-linux-arm64.sha256'']"

text \<open>\<open>http.NotFound\<close>.\<close>

definition notFound :: reply where
  "notFound = \<lparr>rp_status = 404, rp_header = headerSet ''X-Content-Type-Options'' ''nosniff'' (headerSet ''Content-Type'' ''text/plain; charset=utf-8'' []),
     rp_body = TextBody (''404 page not found'' @ newline)\<rparr>"

text \<open>
  The file system: what opening a path gives, and of an open file whether it is regular (\<open>None\<close> when
  \<open>Stat\<close> fails), its modification time and its content. \<open>http.ServeContent\<close>, which answers ranges and
  conditions, is an argument.
\<close>

record download_file =
  df_regular :: "bool option"
  df_modTime :: gotime
  df_content :: string

record dist_env =
  de_open :: "string \<Rightarrow> download_file option"
  de_serve :: "in_request \<Rightarrow> string \<Rightarrow> gotime \<Rightarrow> string \<Rightarrow> http_header \<Rightarrow> reply"

definition download_header :: "string \<Rightarrow> http_header" where
  "download_header filename =
     headerSet ''X-Content-Type-Options'' ''nosniff'' (headerSet ''Cache-Control'' ''public, max-age=3600, immutable''
       (if hasSuffix filename ''.sha256'' then headerSet ''Content-Type'' ''text/plain; charset=utf-8'' []
        else headerSet ''Content-Disposition'' (''attachment; filename='' @ quoted filename)
               (headerSet ''Content-Type'' ''application/octet-stream'' [])))"

definition handleCLIDownload :: "dist_env \<Rightarrow> in_request \<Rightarrow> 'w dependencies \<Rightarrow> string list \<times> reply" where
  "handleCLIDownload de rq dp =
     (let filename = hr_pathValue rq ''artifact''
      in if filename \<notin> set downloadableCLIArtifacts \<or> dp_downloadDir dp = [] then ([], notFound)
         else (let path = joinPath (dp_downloadDir dp) filename
               in ([path],
                   case de_open de path of
                     None \<Rightarrow> notFound
                   | Some f \<Rightarrow>
                       (if df_regular f \<noteq> Some True then notFound
                        else de_serve de rq filename (df_modTime f) (df_content f) (download_header filename)))))"

section \<open>The install script\<close>

text \<open>\<open>strings.ReplaceAll\<close> of one character by a string.\<close>

definition shellSingleQuote :: "string \<Rightarrow> string" where
  "shellSingleQuote value =
     [CHR 0x27] @ concat (map (\<lambda>c. if c = CHR 0x27 then [CHR 0x27, CHR 0x22, CHR 0x27, CHR 0x22, CHR 0x27] else [c]) value) @ [CHR 0x27]"

definition script_head :: "string list" where
  \<open>script_head =
     [''#!/bin/sh'',
      ''set -eu'',
      []]\<close>

definition script_tail :: "string list" where
  \<open>script_tail =
     [''download_base="${gateway}/downloads"'',
      [],
      ''case "$(uname -s)" in'',
      ''  Darwin) os=darwin ;;'',
      ''  Linux) os=linux ;;'',
      ''  *) echo "cg: unsupported operating system: $(uname -s)" >&2; exit 1 ;;'',
      ''esac'',
      [],
      ''case "$(uname -m)" in'',
      ''  x86_64|amd64) arch=amd64 ;;'',
      ''  arm64|aarch64) arch=arm64 ;;'',
      ''  *) echo "cg: unsupported architecture: $(uname -m)" >&2; exit 1 ;;'',
      ''esac'',
      [],
      ''artifact="cg-${os}-${arch}"'',
      ''tmp_dir="$(mktemp -d)"'',
      ''trap 'rm -rf "$tmp_dir"' EXIT HUP INT TERM'',
      [],
      ''echo "Downloading ${artifact}..."'',
      ''curl --proto '=https' --tlsv1.2 -fsSLo "${tmp_dir}/cg" "${download_base}/${artifact}"'',
      ''curl --proto '=https' --tlsv1.2 -fsSLo "${tmp_dir}/cg.sha256" "${download_base}/${artifact}.sha256"'',
      [],
      ''expected="$(awk '{print $1}' "${tmp_dir}/cg.sha256")"'',
      ''if command -v sha256sum >/dev/null 2>&1; then'',
      ''  actual="$(sha256sum "${tmp_dir}/cg" | awk '{print $1}')"'',
      ''elif command -v shasum >/dev/null 2>&1; then'',
      ''  actual="$(shasum -a 256 "${tmp_dir}/cg" | awk '{print $1}')"'',
      ''else'',
      ''  echo "cg: sha256sum or shasum is required" >&2'',
      ''  exit 1'',
      ''fi'',
      ''[ "$actual" = "$expected" ] || { echo "cg: SHA-256 verification failed" >&2; exit 1; }'',
      [],
      ''install_dir="${CG_INSTALL_DIR:-/usr/local/bin}"'',
      ''if [ -d "$install_dir" ] && [ -w "$install_dir" ]; then'',
      ''  install -m 0755 "${tmp_dir}/cg" "${install_dir}/cg"'',
      ''elif command -v sudo >/dev/null 2>&1; then'',
      ''  sudo mkdir -p "$install_dir"'',
      ''  sudo install -m 0755 "${tmp_dir}/cg" "${install_dir}/cg"'',
      ''else'',
      ''  install_dir="${HOME}/.local/bin"'',
      ''  mkdir -p "$install_dir"'',
      ''  install -m 0755 "${tmp_dir}/cg" "${install_dir}/cg"'',
      ''  echo "Add ${install_dir} to PATH before running cg."'',
      ''fi'',
      [],
      ''"${install_dir}/cg" config add-region prod "$gateway" --display-name "CG Production"'',
      ''"${install_dir}/cg" config use-region prod'',
      [],
      ''echo "cg installed at ${install_dir}/cg"'',
      ''echo "Next: cg login"'',
      []]\<close>

definition installScript :: "string \<Rightarrow> string" where
  "installScript publicURL =
     join (script_head @ [''gateway='' @ shellSingleQuote publicURL] @ script_tail) newline"

definition handleInstallScript :: "'w dependencies \<Rightarrow> reply" where
  "handleInstallScript dp =
     (let publicURL = rev (dropWhile (\<lambda>c. c = CHR ''/'') (rev (trimSpace (dp_publicURL dp))))
      in if publicURL = [] then notFound
         else \<lparr>rp_status = 200, rp_header = headerSet ''X-Content-Type-Options'' ''nosniff''
                 (headerSet ''Cache-Control'' ''public, max-age=300'' (headerSet ''Content-Type'' ''text/x-shellscript; charset=utf-8'' [])),
               rp_body = TextBody (installScript publicURL)\<rparr>)"

section \<open>Downloads stay in their directory\<close>

lemma clean_segments_plain:
  "f \<noteq> [] \<Longrightarrow> f \<noteq> ''.'' \<Longrightarrow> f \<noteq> ''..'' \<Longrightarrow> clean_segments rooted acc (ss @ [f]) = clean_segments rooted acc ss @ [f]"
  by (induction rooted acc ss rule: clean_segments.induct) auto

lemma join_snoc: "join (ps @ [f]) sep = concat (map (\<lambda>p. p @ sep) ps) @ f"
  by (induction ps) (auto simp: join_Cons)

lemma splitOn_snoc: "sep \<notin> set f \<Longrightarrow> splitOn sep (d @ sep # f) = splitOn sep d @ [f]"
proof -
  assume f: "sep \<notin> set f"
  obtain ps p where d: "splitOn sep d = ps @ [p]" by (metis rev_exhaust splitOn_not_Nil)
  have "d = join (ps @ [p]) [sep]" using d by (metis join_splitOn)
  then have "d @ sep # f = join ((ps @ [p]) @ [f]) [sep]" by (simp add: join_snoc [of ps] join_snoc [of "ps @ [p]", simplified])
  then show ?thesis using splitOn_join [of "(ps @ [p]) @ [f]" sep] f splitOn_parts [of _ sep d] by (auto simp: d)
qed

text \<open>The directory part of a cleaned path.\<close>

definition directory_of :: "string \<Rightarrow> string" where
  "directory_of dir =
     (let rooted = hasPrefix dir ''/''
      in (if rooted then ''/'' else []) @ concat (map (\<lambda>s. s @ ''/'') (clean_segments rooted [] (splitOn (CHR ''/'') dir))))"

lemma joinPath_plain:
  assumes "dir \<noteq> []" "CHR ''/'' \<notin> set f" "f \<noteq> []" "f \<noteq> ''.''" "f \<noteq> ''..''"
  shows "joinPath dir f = directory_of dir @ f"
proof -
  have r: "hasPrefix (dir @ CHR ''/'' # f) ''/'' = hasPrefix dir ''/''" using assms(1) by (cases dir) simp_all
  have "splitOn (CHR ''/'') (dir @ ''/'' @ f) = splitOn (CHR ''/'') dir @ [f]" using splitOn_snoc [OF assms(2)] by simp
  then show ?thesis
    using clean_segments_plain [OF assms(3-5)] by (simp add: joinPath_def cleanPath_def directory_of_def Let_def r join_snoc)
qed

lemma artifacts_plain:
  "list_all (\<lambda>f. CHR ''/'' \<notin> set f \<and> f \<noteq> [] \<and> f \<noteq> ''.'' \<and> f \<noteq> ''..'') downloadableCLIArtifacts"
  by code_simp

text \<open>The download endpoint serves the listed artifacts of its directory and nothing else: whatever the
  path value, at most one file is opened, it lies directly in the configured directory under a listed
  name, and anything but an existing regular file is answered with 404.\<close>

theorem downloads_confined:
  assumes "handleCLIDownload de rq dp = (opens, rp)"
  shows "(opens = [] \<and> rp = notFound
      \<or> opens = [directory_of (dp_downloadDir dp) @ hr_pathValue rq ''artifact'']
         \<and> hr_pathValue rq ''artifact'' \<in> set downloadableCLIArtifacts \<and> CHR ''/'' \<notin> set (hr_pathValue rq ''artifact''))
    \<and> (rp = notFound
       \<or> (\<exists>f. map (de_open de) opens = [Some f] \<and> df_regular f = Some True
            \<and> rp = de_serve de rq (hr_pathValue rq ''artifact'') (df_modTime f) (df_content f) (download_header (hr_pathValue rq ''artifact''))))"
proof (cases "hr_pathValue rq ''artifact'' \<in> set downloadableCLIArtifacts \<and> dp_downloadDir dp \<noteq> []")
  case True
  let ?f = "hr_pathValue rq ''artifact''"
  have plain: "CHR ''/'' \<notin> set ?f" "?f \<noteq> []" "?f \<noteq> ''.''" "?f \<noteq> ''..''"
    using True artifacts_plain unfolding list_all_iff by blast+
  have path: "joinPath (dp_downloadDir dp) ?f = directory_of (dp_downloadDir dp) @ ?f"
    by (rule joinPath_plain) (use True plain in auto)
  show ?thesis using assms True plain(1)
    by (auto simp: handleCLIDownload_def Let_def path split: option.splits if_splits)
next
  case False
  then show ?thesis using assms by (auto simp: handleCLIDownload_def Let_def)
qed

definition demo_files :: dist_env where
  "demo_files = \<lparr>de_open = (\<lambda>p. if p = ''/srv/cg-linux-amd64'' then Some \<lparr>df_regular = Some True, df_modTime = 1, df_content = ''bin''\<rparr> else None),
     de_serve = (\<lambda>_ _ _ body h. \<lparr>rp_status = 200, rp_header = h, rp_body = TextBody body\<rparr>)\<rparr>"

theorem downloads_confined_witness:
  "fst (handleCLIDownload demo_files (demo_in\<lparr>hr_pathValue := \<lambda>_. ''cg-linux-amd64''\<rparr>) (demo_dependencies\<lparr>dp_downloadDir := ''/srv/./bin/..''\<rparr>))
     = [directory_of ''/srv/./bin/..'' @ ''cg-linux-amd64'']"
proof -
  let ?h = "handleCLIDownload demo_files (demo_in\<lparr>hr_pathValue := \<lambda>_. ''cg-linux-amd64''\<rparr>) (demo_dependencies\<lparr>dp_downloadDir := ''/srv/./bin/..''\<rparr>)"
  have "''cg-linux-amd64'' \<in> set downloadableCLIArtifacts" by code_simp
  then have "fst ?h \<noteq> []" by (simp add: handleCLIDownload_def Let_def)
  with downloads_confined [of demo_files _ _ "fst ?h" "snd ?h", OF prod.collapse [symmetric]] show ?thesis by auto
qed

section \<open>The script is faithful\<close>

text \<open>
  How a POSIX shell reads one word: bare, single-quoted and double-quoted parts. An expansion or an
  unterminated quote has no fixed reading.
\<close>

datatype quoting = Bare | Single | Double

fun sh_word :: "quoting \<Rightarrow> string \<Rightarrow> (string \<times> string) option" where
  "sh_word Bare [] = Some ([], [])"
| "sh_word Bare (c # s) =
     (if c \<in> set '' ;&|<>()'' \<union> {CHR 0x09, CHR 0x0A} then Some ([], c # s)
      else if c = CHR 0x27 then sh_word Single s
      else if c = CHR 0x22 then sh_word Double s
      else if c \<in> {CHR ''$'', CHR 0x60, CHR 0x5C} then None
      else map_option (\<lambda>(w, r). (c # w, r)) (sh_word Bare s))"
| "sh_word Single [] = None"
| "sh_word Single (c # s) = (if c = CHR 0x27 then sh_word Bare s else map_option (\<lambda>(w, r). (c # w, r)) (sh_word Single s))"
| "sh_word Double [] = None"
| "sh_word Double (c # s) =
     (if c = CHR 0x22 then sh_word Bare s
      else if c \<in> {CHR ''$'', CHR 0x60, CHR 0x5C} then None
      else map_option (\<lambda>(w, r). (c # w, r)) (sh_word Double s))"

lemma sh_word_single:
  "sh_word Single (concat (map (\<lambda>c. if c = CHR 0x27 then [CHR 0x27, CHR 0x22, CHR 0x27, CHR 0x22, CHR 0x27] else [c]) v) @ [CHR 0x27] @ CHR 0x0A # rest)
    = Some (v, CHR 0x0A # rest)"
  by (induction v) auto

lemma script_line: "join (xs @ [l] @ y # ys) sep = concat (map (\<lambda>p. p @ sep) xs) @ l @ sep @ join (y # ys) sep"
  by (induction xs) (auto simp: join_Cons)

text \<open>The install script uses exactly the configured URL: whatever the URL contains, quotes, spaces, dollars
  or newlines, the script is fixed text around one assignment whose value a shell reads back as that
  URL, the rest of the script being fixed text again.\<close>

theorem install_script_faithful:
  "\<exists>before after. installScript url = before @ ''gateway='' @ shellSingleQuote url @ after
     \<and> before = concat (map (\<lambda>l. l @ newline) script_head) \<and> after = newline @ join script_tail newline
     \<and> sh_word Bare (shellSingleQuote url @ after) = Some (url, after)"
proof -
  obtain y ys where tail: "script_tail = y # ys" by (simp add: script_tail_def)
  have "installScript url = concat (map (\<lambda>l. l @ newline) script_head) @ ''gateway='' @ shellSingleQuote url @ newline @ join script_tail newline"
    by (simp only: installScript_def tail script_line append_assoc)
  moreover have "sh_word Bare (shellSingleQuote url @ newline @ r) = Some (url, newline @ r)" for r
    using sh_word_single [of url r] by (simp add: shellSingleQuote_def newline_def)
  ultimately show ?thesis by blast
qed

end
