(* ===== verification/Observability.thy ===== *)
theory Observability
  imports Go_Strings "HOL-Library.Word"
begin

text \<open>
  The metrics registry, \<open>internal/observability/metrics.go\<close>: atomic 64-bit counters and gauges, the
  request middleware and the Prometheus text. Requests overlap, so the middleware is two steps, each
  standing for its separate atomic additions.
  The bounds of the histogram are given in nanoseconds: seconds as a \<open>float64\<close> compare with them as
  the durations do, since \<open>Seconds\<close> and the constants are correctly rounded and a nanosecond is far
  above the spacing of floats below 30.
\<close>

type_synonym uint64 = "64 word"

record registry =
  mr_requestsTotal :: uint64
  mr_inFlight :: uint64
  mr_authFailures :: uint64
  mr_policyDenials :: uint64
  mr_upstreamFailures :: uint64
  mr_limiterRejections :: uint64
  mr_tokenCacheHits :: uint64
  mr_tokenCacheMisses :: uint64
  mr_tokenCacheWaiters :: uint64
  mr_auditDrops :: uint64
  mr_tokenExchanges :: uint64
  mr_tokenExchangeErrs :: uint64
  mr_tokenExchangeNS :: uint64
  mr_reloadSuccesses :: uint64
  mr_reloadFailures :: uint64
  mr_activeMCPSessions :: uint64
  mr_circuitRejections :: uint64
  mr_generation :: uint64
  mr_durationCount :: uint64
  mr_durationNanos :: uint64
  mr_durationBuckets :: "uint64 list"

definition durationBounds :: "duration list" where
  "durationBounds = [10 * millisecond, 50 * millisecond, 100 * millisecond, 500 * millisecond, second, 5 * second, 10 * second, 30 * second]"

definition empty_registry :: registry where
  "empty_registry = \<lparr>mr_requestsTotal = 0, mr_inFlight = 0, mr_authFailures = 0, mr_policyDenials = 0, mr_upstreamFailures = 0,
     mr_limiterRejections = 0, mr_tokenCacheHits = 0, mr_tokenCacheMisses = 0, mr_tokenCacheWaiters = 0, mr_auditDrops = 0,
     mr_tokenExchanges = 0, mr_tokenExchangeErrs = 0, mr_tokenExchangeNS = 0, mr_reloadSuccesses = 0, mr_reloadFailures = 0,
     mr_activeMCPSessions = 0, mr_circuitRejections = 0, mr_generation = 0, mr_durationCount = 0, mr_durationNanos = 0,
     mr_durationBuckets = replicate (length durationBounds) 0\<rparr>"

section \<open>Recording\<close>

definition middleware_begin :: "registry \<Rightarrow> registry" where
  "middleware_begin r = r\<lparr>mr_requestsTotal := mr_requestsTotal r + 1, mr_inFlight := mr_inFlight r + 1\<rparr>"

definition middleware_end :: "duration \<Rightarrow> registry \<Rightarrow> registry" where
  "middleware_end elapsed r =
     r\<lparr>mr_inFlight := mr_inFlight r - 1, mr_durationCount := mr_durationCount r + 1,
       mr_durationNanos := mr_durationNanos r + word_of_int elapsed,
       mr_durationBuckets := map2 (\<lambda>bound n. if elapsed \<le> bound then n + 1 else n) durationBounds (mr_durationBuckets r)\<rparr>"

definition recordAuthFailure :: "registry \<Rightarrow> registry" where
  "recordAuthFailure r = r\<lparr>mr_authFailures := mr_authFailures r + 1\<rparr>"

definition recordPolicyDenial :: "registry \<Rightarrow> registry" where
  "recordPolicyDenial r = r\<lparr>mr_policyDenials := mr_policyDenials r + 1\<rparr>"

definition recordUpstreamFailure :: "registry \<Rightarrow> registry" where
  "recordUpstreamFailure r = r\<lparr>mr_upstreamFailures := mr_upstreamFailures r + 1\<rparr>"

definition recordLimiterRejection :: "registry \<Rightarrow> registry" where
  "recordLimiterRejection r = r\<lparr>mr_limiterRejections := mr_limiterRejections r + 1\<rparr>"

definition recordTokenCache :: "string \<Rightarrow> registry \<Rightarrow> registry" where
  "recordTokenCache result r =
     (if result = ''hit'' \<or> result = ''stale'' then r\<lparr>mr_tokenCacheHits := mr_tokenCacheHits r + 1\<rparr>
      else if result = ''waiter'' then r\<lparr>mr_tokenCacheWaiters := mr_tokenCacheWaiters r + 1\<rparr>
      else r\<lparr>mr_tokenCacheMisses := mr_tokenCacheMisses r + 1\<rparr>)"

definition addAuditDrops :: "uint64 \<Rightarrow> registry \<Rightarrow> registry" where
  "addAuditDrops count r = r\<lparr>mr_auditDrops := mr_auditDrops r + count\<rparr>"

definition setGeneration :: "uint64 \<Rightarrow> registry \<Rightarrow> registry" where
  "setGeneration g r = r\<lparr>mr_generation := g\<rparr>"

definition recordTokenExchange :: "duration \<Rightarrow> bool \<Rightarrow> registry \<Rightarrow> registry" where
  "recordTokenExchange d failed r =
     (let r1 = r\<lparr>mr_tokenExchanges := mr_tokenExchanges r + 1, mr_tokenExchangeNS := mr_tokenExchangeNS r + word_of_int d\<rparr>
      in if failed then r1\<lparr>mr_tokenExchangeErrs := mr_tokenExchangeErrs r1 + 1\<rparr> else r1)"

definition recordReload :: "bool \<Rightarrow> registry \<Rightarrow> registry" where
  "recordReload ok r =
     (if ok then r\<lparr>mr_reloadSuccesses := mr_reloadSuccesses r + 1\<rparr> else r\<lparr>mr_reloadFailures := mr_reloadFailures r + 1\<rparr>)"

definition setActiveMCPSessions :: "int \<Rightarrow> registry \<Rightarrow> registry" where
  "setActiveMCPSessions n r = r\<lparr>mr_activeMCPSessions := word_of_int n\<rparr>"

definition recordCircuitRejection :: "registry \<Rightarrow> registry" where
  "recordCircuitRejection r = r\<lparr>mr_circuitRejections := mr_circuitRejections r + 1\<rparr>"

section \<open>Exporting\<close>

definition formatUint :: "uint64 \<Rightarrow> string" where
  "formatUint w = formatInt (uint w)"

definition samples :: "registry \<Rightarrow> (string \<times> string \<times> string) list" where
  "samples r =
     [(''cli_gateway_requests_total'', ''counter'', formatUint (mr_requestsTotal r)),
      (''cli_gateway_in_flight'', ''gauge'', formatInt (sint (mr_inFlight r))),
      (''cli_gateway_auth_failures_total'', ''counter'', formatUint (mr_authFailures r)),
      (''cli_gateway_policy_denials_total'', ''counter'', formatUint (mr_policyDenials r)),
      (''cli_gateway_upstream_failures_total'', ''counter'', formatUint (mr_upstreamFailures r)),
      (''cli_gateway_limiter_rejections_total'', ''counter'', formatUint (mr_limiterRejections r)),
      (''cli_gateway_token_cache_hits_total'', ''counter'', formatUint (mr_tokenCacheHits r)),
      (''cli_gateway_token_cache_misses_total'', ''counter'', formatUint (mr_tokenCacheMisses r)),
      (''cli_gateway_token_cache_waiters_total'', ''counter'', formatUint (mr_tokenCacheWaiters r)),
      (''cli_gateway_audit_drops_total'', ''counter'', formatUint (mr_auditDrops r)),
      (''cli_gateway_token_exchanges_total'', ''counter'', formatUint (mr_tokenExchanges r)),
      (''cli_gateway_token_exchange_failures_total'', ''counter'', formatUint (mr_tokenExchangeErrs r)),
      (''cli_gateway_manifest_reload_successes_total'', ''counter'', formatUint (mr_reloadSuccesses r)),
      (''cli_gateway_manifest_reload_failures_total'', ''counter'', formatUint (mr_reloadFailures r)),
      (''cli_gateway_active_mcp_sessions'', ''gauge'', formatInt (sint (mr_activeMCPSessions r))),
      (''cli_gateway_circuit_rejections_total'', ''counter'', formatUint (mr_circuitRejections r)),
      (''cli_gateway_runtime_generation'', ''gauge'', formatUint (mr_generation r))]"

definition bound_texts :: "string list" where
  "bound_texts = [''0.01'', ''0.05'', ''0.1'', ''0.5'', ''1'', ''5'', ''10'', ''30'']"

text \<open>The lines of the export; \<open>fmt\<close> renders a count of nanoseconds as seconds with \<open>%g\<close>.\<close>

definition export_lines :: "(uint64 \<Rightarrow> string) \<Rightarrow> registry \<Rightarrow> string list" where
  "export_lines fmt r =
     concat (map (\<lambda>(name, kind, v). [''# TYPE '' @ name @ '' '' @ kind, name @ '' '' @ v]) (samples r))
     @ map2 (\<lambda>b n. ''cli_gateway_request_duration_seconds_bucket{le=\"'' @ b @ ''\"} '' @ formatUint n) bound_texts (mr_durationBuckets r)
     @ [''cli_gateway_request_duration_seconds_bucket{le=\"+Inf\"} '' @ formatUint (mr_durationCount r),
        ''cli_gateway_request_duration_seconds_sum '' @ fmt (mr_durationNanos r),
        ''cli_gateway_request_duration_seconds_count '' @ formatUint (mr_durationCount r),
        ''# TYPE cli_gateway_token_exchange_duration_seconds summary'',
        ''cli_gateway_token_exchange_duration_seconds_sum '' @ fmt (mr_tokenExchangeNS r),
        ''cli_gateway_token_exchange_duration_seconds_count '' @ formatUint (mr_tokenExchanges r)]"

definition metricsText :: "(uint64 \<Rightarrow> string) \<Rightarrow> registry \<Rightarrow> string" where
  "metricsText fmt r = concat (map (\<lambda>l. l @ [CHR 0x0A]) (export_lines fmt r))"

section \<open>Overlapping requests\<close>

text \<open>
  The system with its history: when each open request began, and how long the finished ones took.
  Counters of other events may move in between.
\<close>

record metered =
  me_registry :: registry
  me_open :: "gotime list"
  me_elapsed :: "duration list"

definition request_fields :: "registry \<Rightarrow> uint64 \<times> uint64 \<times> uint64 \<times> uint64 \<times> uint64 list" where
  "request_fields r = (mr_requestsTotal r, mr_inFlight r, mr_durationCount r, mr_durationNanos r, mr_durationBuckets r)"

inductive meter_step :: "metered \<Rightarrow> metered \<Rightarrow> bool" where
  request_begins: "meter_step m (m\<lparr>me_registry := middleware_begin (me_registry m), me_open := me_open m @ [now]\<rparr>)"
| request_ends: "me_open m = xs @ t # ys \<Longrightarrow> meter_step m (m\<lparr>me_registry := middleware_end (time_sub now t) (me_registry m),
    me_open := xs @ ys, me_elapsed := me_elapsed m @ [time_sub now t]\<rparr>)"
| other_counter: "request_fields r = request_fields (me_registry m) \<Longrightarrow> meter_step m (m\<lparr>me_registry := r\<rparr>)"

inductive meter_reachable :: "metered \<Rightarrow> bool" where
  meter_init: "meter_reachable \<lparr>me_registry = empty_registry, me_open = [], me_elapsed = []\<rparr>"
| meter_next: "meter_reachable m \<Longrightarrow> meter_step m m' \<Longrightarrow> meter_reachable m'"

lemma other_recordings:
  "request_fields (recordAuthFailure r) = request_fields r" "request_fields (recordPolicyDenial r) = request_fields r"
  "request_fields (recordUpstreamFailure r) = request_fields r" "request_fields (recordLimiterRejection r) = request_fields r"
  "request_fields (recordTokenCache s r) = request_fields r" "request_fields (addAuditDrops n r) = request_fields r"
  "request_fields (setGeneration g r) = request_fields r" "request_fields (recordTokenExchange d b r) = request_fields r"
  "request_fields (recordReload b r) = request_fields r" "request_fields (setActiveMCPSessions i r) = request_fields r"
  "request_fields (recordCircuitRejection r) = request_fields r"
  by (simp_all add: request_fields_def recordAuthFailure_def recordPolicyDenial_def recordUpstreamFailure_def recordLimiterRejection_def
      recordTokenCache_def addAuditDrops_def setGeneration_def recordTokenExchange_def recordReload_def setActiveMCPSessions_def
      recordCircuitRejection_def Let_def)

definition meter_inv :: "metered \<Rightarrow> bool" where
  "meter_inv m \<longleftrightarrow>
     (let r = me_registry m; n = length (me_elapsed m)
      in mr_requestsTotal r = of_nat (length (me_open m) + n) \<and> mr_inFlight r = of_nat (length (me_open m))
         \<and> mr_durationCount r = of_nat n \<and> mr_durationNanos r = word_of_int (sum_list (me_elapsed m))
         \<and> mr_durationBuckets r = map (\<lambda>b. of_nat (length (filter (\<lambda>d. d \<le> b) (me_elapsed m)))) durationBounds)"

lemma meter_step_inv: "meter_step m m' \<Longrightarrow> meter_inv m \<Longrightarrow> meter_inv m'"
proof (induction rule: meter_step.induct)
  case (request_begins m now)
  then show ?case by (simp add: meter_inv_def middleware_begin_def Let_def)
next
  case (request_ends m xs t ys now)
  let ?d = "time_sub now t"
  have "map2 (\<lambda>bound n. if ?d \<le> bound then n + 1 else n) bs (map (\<lambda>b. of_nat (length (filter (\<lambda>d. d \<le> b) es))) bs)
      = map (\<lambda>b. of_nat (length (filter (\<lambda>d. d \<le> b) (es @ [?d]))) :: uint64) bs" for bs es
    by (induction bs) simp_all
  with request_ends show ?case by (simp add: meter_inv_def middleware_end_def Let_def)
next
  case (other_counter r m)
  then show ?case by (simp add: meter_inv_def request_fields_def Let_def)
qed

text \<open>The request metrics are exact in every interleaving of requests: modulo the width of the counters,
  requests begun are those open plus those counted as finished, the gauge is the number open, the
  sum is the time the finished ones took, and each bucket counts the finished ones within its bound.\<close>

theorem metrics_exact:
  assumes "meter_reachable m"
  shows "mr_requestsTotal (me_registry m) = mr_inFlight (me_registry m) + mr_durationCount (me_registry m)
    \<and> mr_inFlight (me_registry m) = of_nat (length (me_open m))
    \<and> mr_durationNanos (me_registry m) = word_of_int (sum_list (me_elapsed m))
    \<and> mr_durationBuckets (me_registry m) = map (\<lambda>b. of_nat (length (filter (\<lambda>d. d \<le> b) (me_elapsed m)))) durationBounds"
proof -
  from assms have "meter_inv m"
  proof induction
    case meter_init
    show ?case by (simp add: meter_inv_def empty_registry_def map_replicate_const Let_def)
  next
    case (meter_next m m')
    then show ?case by (blast intro: meter_step_inv)
  qed
  then show ?thesis by (simp add: meter_inv_def Let_def)
qed

definition one_request :: metered where
  "one_request = \<lparr>me_registry = middleware_end (time_sub 20000000 0) (middleware_begin empty_registry), me_open = [], me_elapsed = [time_sub 20000000 0]\<rparr>"

theorem metrics_exact_witness:
  "mr_durationBuckets (me_registry one_request) = [0, 1, 1, 1, 1, 1, 1, 1]"
proof -
  let ?m0 = "\<lparr>me_registry = empty_registry, me_open = [], me_elapsed = []\<rparr>"
  have "meter_reachable (?m0\<lparr>me_registry := middleware_begin empty_registry, me_open := [0]\<rparr>)"
    using meter_next [OF meter_init request_begins [of _ 0]] by simp
  from meter_next [OF this request_ends [of _ "[]" 0 "[]" 20000000]]
  have "meter_reachable one_request" by (simp add: one_request_def)
  from metrics_exact [OF this] show ?thesis
    by (simp add: one_request_def durationBounds_def dur_defs time_sub_def min_int64_def max_int64_def)
qed

text \<open>The export names a fixed set of series, whatever happened: no line depends on a caller.\<close>

lemma export_series_fixed: "map fst (samples r) = map fst (samples empty_registry)"
  by (simp add: samples_def)

end
