(* ===== verification/Server_Routes.thy ===== *)
theory Server_Routes
  imports Server_Dist Observability
begin

text \<open>
  The routes of \<open>NewHandler\<close> in \<open>internal/server/server.go\<close>, as \<open>http.ServeMux\<close> matches them on a cleaned
  path, and the dispatch to the handlers behind the metrics middleware.
\<close>

section \<open>Patterns\<close>

datatype path_segment = Lit string | Wild string

datatype endpoint =
    Liveness | Readiness | InstallScript | Download | MetricsPage | ResourceMetadata string | Jwks
  | ManifestPage | WhoAmI | AuthStart | AuthStatus | AuthDisconnect | AuthCallback | Execution | Mcp

type_synonym route = "string option \<times> path_segment list \<times> endpoint"

definition routes :: "bool \<Rightarrow> bool \<Rightarrow> route list" where
  "routes metrics mcp =
     [(Some ''GET'', [Lit ''livez''], Liveness),
      (Some ''GET'', [Lit ''healthz''], Liveness),
      (Some ''GET'', [Lit ''readyz''], Readiness),
      (Some ''GET'', [Lit ''install.sh''], InstallScript),
      (Some ''GET'', [Lit ''downloads'', Wild ''artifact''], Download)]
     @ (if metrics then [(Some ''GET'', [Lit ''metrics''], MetricsPage)] else [])
     @ [(Some ''GET'', [Lit ''.well-known'', Lit ''oauth-protected-resource''], ResourceMetadata []),
        (Some ''GET'', [Lit ''.well-known'', Lit ''oauth-protected-resource'', Lit ''mcp''], ResourceMetadata ''/mcp''),
        (Some ''GET'', [Lit ''jwks''], Jwks),
        (Some ''GET'', [Lit ''manifest''], ManifestPage),
        (Some ''GET'', [Lit ''whoami''], WhoAmI),
        (Some ''POST'', [Lit ''oauth'', Lit ''downstream'', Wild ''domain'', Lit ''authorize''], AuthStart),
        (Some ''GET'', [Lit ''oauth'', Lit ''downstream'', Wild ''domain'', Lit ''status''], AuthStatus),
        (Some ''DELETE'', [Lit ''oauth'', Lit ''downstream'', Wild ''domain''], AuthDisconnect),
        (Some ''GET'', [Lit ''oauth'', Lit ''downstream'', Lit ''callback''], AuthCallback),
        (Some ''POST'', [Lit ''exec'', Wild ''domain'', Wild ''command''], Execution)]
     @ (if mcp then [(None, [Lit ''mcp''], Mcp)] else [])"

text \<open>A pattern with \<open>GET\<close> also matches \<open>HEAD\<close>; a wildcard matches one non-empty segment.\<close>

definition method_matches :: "string option \<Rightarrow> string \<Rightarrow> bool" where
  "method_matches m method = (case m of None \<Rightarrow> True | Some x \<Rightarrow> method = x \<or> x = ''GET'' \<and> method = ''HEAD'')"

fun match_path :: "path_segment list \<Rightarrow> string list \<Rightarrow> (string \<times> string) list option" where
  "match_path [] [] = Some []"
| "match_path (Lit l # ps) (s # ss) = (if s = l then match_path ps ss else None)"
| "match_path (Wild n # ps) (s # ss) = (if s = [] then None else map_option (Cons (n, s)) (match_path ps ss))"
| "match_path _ _ = None"

definition route_matches :: "string \<Rightarrow> string list \<Rightarrow> route \<Rightarrow> bool" where
  "route_matches method path r \<longleftrightarrow> method_matches (fst r) method \<and> match_path (fst (snd r)) path \<noteq> None"

section \<open>Dispatch\<close>

record serve_env =
  sv_http :: http_env
  sv_dist :: dist_env
  sv_seconds :: "uint64 \<Rightarrow> string"
  sv_registry :: registry

definition text_reply :: "int \<Rightarrow> string \<Rightarrow> string \<Rightarrow> reply" where
  "text_reply status contentType body =
     \<lparr>rp_status = status, rp_header = headerSet ''Content-Type'' contentType [], rp_body = TextBody body\<rparr>"

text \<open>The MCP handler is an argument here; its own theory models it.\<close>

definition serve_endpoint ::
  "serve_env \<Rightarrow> in_request \<Rightarrow> manifest_manager option \<Rightarrow> 'w dependencies \<Rightarrow> ('w \<Rightarrow> 'w handled) \<Rightarrow> endpoint \<Rightarrow> 'w \<Rightarrow> 'w handled" where
  "serve_endpoint se rq manager dp mcp ep w =
     (case ep of
        Liveness \<Rightarrow> (writeJSON 200 (status_document ''ok'') [], [], w)
      | Readiness \<Rightarrow> handleReady manager dp w
      | InstallScript \<Rightarrow> (handleInstallScript dp, [], w)
      | Download \<Rightarrow> (snd (handleCLIDownload (sv_dist se) rq dp), [], w)
      | MetricsPage \<Rightarrow> (text_reply 200 ''text/plain; version=0.0.4; charset=utf-8'' (metricsText (sv_seconds se) (sv_registry se)), [], w)
      | ResourceMetadata p \<Rightarrow> handleProtectedResourceMetadata manager dp p w
      | Jwks \<Rightarrow> handleJWKS dp w
      | ManifestPage \<Rightarrow> handleManifest (sv_http se) rq manager dp w
      | WhoAmI \<Rightarrow> handleWhoAmI (sv_http se) rq dp w
      | AuthStart \<Rightarrow> handleDownstreamAuthorizationStart (sv_http se) rq manager dp w
      | AuthStatus \<Rightarrow> handleDownstreamAuthorizationStatus (sv_http se) rq manager dp w
      | AuthDisconnect \<Rightarrow> handleDownstreamAuthorizationDisconnect (sv_http se) rq manager dp w
      | AuthCallback \<Rightarrow> handleDownstreamAuthorizationCallback rq dp w
      | Execution \<Rightarrow> handleExecution (sv_http se) rq manager dp w
      | Mcp \<Rightarrow> mcp w)"

definition path_values :: "(string \<times> string) list \<Rightarrow> string \<Rightarrow> string" where
  "path_values bs k = (case map_of bs k of None \<Rightarrow> [] | Some v \<Rightarrow> v)"

definition serve ::
  "serve_env \<Rightarrow> string \<Rightarrow> string list \<Rightarrow> in_request \<Rightarrow> manifest_manager option \<Rightarrow> 'w dependencies \<Rightarrow> ('w \<Rightarrow> 'w handled) option
   \<Rightarrow> 'w \<Rightarrow> 'w handled" where
  "serve se method path rq manager dp mcp w =
     (let rs = routes (dp_metrics dp) (mcp \<noteq> None)
      in case filter (route_matches method path) rs of
           r # _ \<Rightarrow>
             serve_endpoint se (rq\<lparr>hr_pathValue := path_values (the (match_path (fst (snd r)) path))\<rparr>) manager dp
               (case mcp of None \<Rightarrow> (\<lambda>w. (notFound, [], w)) | Some h \<Rightarrow> h) (snd (snd r)) w
         | [] \<Rightarrow>
             (if list_ex (\<lambda>r. match_path (fst (snd r)) path \<noteq> None) rs
              then (text_reply 405 ''text/plain; charset=utf-8'' (''Method Not Allowed'' @ newline), [], w)
              else (notFound, [], w)))"

section \<open>No two routes compete\<close>

definition methods_overlap :: "string option \<Rightarrow> string option \<Rightarrow> bool" where
  "methods_overlap a b = (case (a, b) of (Some x, Some y) \<Rightarrow> x = y \<or> {x, y} = {''GET'', ''HEAD''} | _ \<Rightarrow> True)"

fun paths_overlap :: "path_segment list \<Rightarrow> path_segment list \<Rightarrow> bool" where
  "paths_overlap [] [] = True"
| "paths_overlap (Lit a # ps) (Lit b # qs) = (a = b \<and> paths_overlap ps qs)"
| "paths_overlap (p # ps) (q # qs) = paths_overlap ps qs"
| "paths_overlap _ _ = False"

lemma match_path_overlap: "match_path ps ss \<noteq> None \<Longrightarrow> match_path qs ss \<noteq> None \<Longrightarrow> paths_overlap ps qs"
proof (induction ps ss arbitrary: qs rule: match_path.induct)
  case (2 l ps s ss)
  then show ?case by (cases "(qs, s # ss)" rule: match_path.cases) (auto split: if_splits)
next
  case (3 n ps s ss)
  then show ?case by (cases "(qs, s # ss)" rule: match_path.cases) (auto split: if_splits)
qed (auto elim: match_path.elims)

lemma method_matches_overlap: "method_matches a m \<Longrightarrow> method_matches b m \<Longrightarrow> methods_overlap a b"
  by (auto simp: method_matches_def methods_overlap_def split: option.splits)

fun pairwise_apart :: "route list \<Rightarrow> bool" where
  "pairwise_apart [] = True"
| "pairwise_apart (r # rs) =
     (list_all (\<lambda>q. \<not> (methods_overlap (fst r) (fst q) \<and> paths_overlap (fst (snd r)) (fst (snd q)))) rs \<and> pairwise_apart rs)"

lemma apart_single: "pairwise_apart rs \<Longrightarrow> length (filter (route_matches method path) rs) \<le> 1"
proof (induction rs)
  case (Cons r rs)
  show ?case
  proof (cases "route_matches method path r")
    case True
    have "\<not> route_matches method path q" if "q \<in> set rs" for q
    proof
      assume q: "route_matches method path q"
      have "paths_overlap (fst (snd r)) (fst (snd q))" "methods_overlap (fst r) (fst q)"
        using True q match_path_overlap method_matches_overlap unfolding route_matches_def by blast+
      with Cons.prems that show False by (auto simp: list_all_iff)
    qed
    then have "filter (route_matches method path) rs = []" by (simp add: filter_empty_conv)
    with True show ?thesis by simp
  next
    case False
    with Cons show ?thesis by simp
  qed
qed simp

lemma routes_apart: "pairwise_apart (routes metrics mcp)"
proof -
  have "pairwise_apart (routes True True)" "pairwise_apart (routes True False)" "pairwise_apart (routes False True)" "pairwise_apart (routes False False)"
    by code_simp+
  then show ?thesis by (cases metrics; cases mcp) simp_all
qed

lemma exec_route:
  assumes "d \<noteq> []" "c \<noteq> []"
  shows "filter (route_matches ''POST'' [''exec'', d, c]) (routes metrics mcp) = [(Some ''POST'', [Lit ''exec'', Wild ''domain'', Wild ''command''], Execution)]"
  using assms by (simp add: routes_def route_matches_def method_matches_def)

text \<open>The routing is unambiguous: for every method and path at most one route matches, so the order of
  registration does not matter; a POST to the execution path of a domain and a command is handled by
  the execution handler with exactly these names; and a request that matches no route is answered
  404 or 405 without any effect.\<close>

theorem routing_unambiguous:
  assumes "d \<noteq> []" "c \<noteq> []"
  shows "length (filter (route_matches method path) (routes metrics hasMCP)) \<le> 1
    \<and> serve se ''POST'' [''exec'', d, c] rq manager dp mcp w
        = handleExecution (sv_http se) (rq\<lparr>hr_pathValue := path_values [(''domain'', d), (''command'', c)]\<rparr>) manager dp w
    \<and> (filter (route_matches method path) (routes (dp_metrics dp) (mcp \<noteq> None)) = [] \<longrightarrow>
         rp_status (fst (serve se method path rq manager dp mcp w)) \<in> {404, 405} \<and> snd (serve se method path rq manager dp mcp w) = ([], w))"
proof -
  have "serve se ''POST'' [''exec'', d, c] rq manager dp mcp w
        = handleExecution (sv_http se) (rq\<lparr>hr_pathValue := path_values [(''domain'', d), (''command'', c)]\<rparr>) manager dp w"
    using assms by (simp add: serve_def Let_def exec_route serve_endpoint_def)
  moreover have "snd (serve se method path rq manager dp mcp w) = ([], w) \<and> rp_status (fst (serve se method path rq manager dp mcp w)) \<in> {404, 405}"
    if "filter (route_matches method path) (routes (dp_metrics dp) (mcp \<noteq> None)) = []"
    unfolding serve_def Let_def that by (simp add: text_reply_def notFound_def)
  ultimately show ?thesis using apart_single [OF routes_apart] by auto
qed

theorem routing_unambiguous_witness:
  "length (filter (route_matches ''GET'' [''oauth'', ''downstream'', ''callback'']) (routes True True)) \<le> 1"
  using routing_unambiguous [of "''demo''" "''item.get''" "''GET''" "[''oauth'', ''downstream'', ''callback'']" True True, where w = demo_gateway]
  by blast

end
