(* ===== verification/Mcp_Tools.thy ===== *)
theory Mcp_Tools
  imports Server_Views Token_Cache
begin

text \<open>
  Tool calls of the MCP adapter, \<open>internal/adapter/mcp/handler.go\<close>: which tools a session offers, and
  \<open>callTool\<close> with its own lease on the generation, its confirmation argument, the invocation as an AI caller, the
  audit event and the result. The MCP library hands over the request and its token information.
\<close>

section \<open>The tools of a session\<close>

definition tool_names :: "catalog_service \<Rightarrow> principal \<Rightarrow> string list" where
  "tool_names catalog p = sortStrings (map cmd_toolName (visibleCommands catalog p InvokerAI))"

definition tool_description :: "compiled_command \<Rightarrow> string" where
  "tool_description c = cmd_summary c @ '' [risk:'' @ cmd_risk c @ '']''"

definition userID :: "(string \<Rightarrow> string \<Rightarrow> string) \<Rightarrow> string \<Rightarrow> string \<Rightarrow> principal \<Rightarrow> string" where
  "userID mac userKey resourceMeta p =
     hexEncode (mac userKey (pr_issuer p @ [CHR 0x00] @ pr_tenant p @ [CHR 0x00] @ pr_subject p @ [CHR 0x00] @ resourceMeta))"

section \<open>Tool calls\<close>

definition maxToolResult :: nat where
  "maxToolResult = 4194304"

record tool_result =
  tr_text :: string
  tr_isError :: bool
  tr_structured :: "goval option"

definition toolError :: "string \<Rightarrow> string \<Rightarrow> tool_result" where
  "toolError code message = \<lparr>tr_text = code @ '': '' @ message, tr_isError = True, tr_structured = None\<rparr>"

text \<open>
  A request of the library: its token information (\<open>None\<close> when any part of the chain is nil) with the
  principal and the bearer the verifier stored, the raw arguments and the HTTP header.
\<close>

record token_info =
  ti_principal :: "principal option"
  ti_bearer :: string

record tool_request =
  tq_token :: "token_info option"
  tq_arguments :: string
  tq_header :: http_header

record tool_env =
  te_random :: string
  te_started :: gotime
  te_invokedAt :: gotime
  te_readAt :: gotime
  te_decode :: "string \<Rightarrow> arguments option"
  te_unmarshal :: "string \<Rightarrow> (string \<times> goval) list option"

text \<open>The generation a tool was built for: \<open>Retain\<close>, the closing of that lease, and its components.\<close>

record 'w tool_runtime =
  tg_retain :: "'w \<Rightarrow> bool \<times> 'w"
  tg_release :: "'w \<Rightarrow> 'w"
  tg_snapshot :: snapshot
  tg_invoker :: "'w invocation_service"
  tg_audit :: bool
  tg_id :: nat

definition take_confirm :: "arguments \<Rightarrow> (bool \<times> arguments) option" where
  "take_confirm args =
     (case map_of args ''confirm'' of
        None \<Rightarrow> Some (False, args)
      | Some (VBool b) \<Rightarrow> Some (b, del ''confirm'' args)
      | Some _ \<Rightarrow> None)"

definition tool_arguments :: "tool_env \<Rightarrow> string \<Rightarrow> arguments option" where
  "tool_arguments te raw = (if raw = [] then Some [] else te_decode te raw)"

definition tool_invocation :: "tool_env \<Rightarrow> tool_request \<Rightarrow> 'w tool_runtime \<Rightarrow> compiled_command \<Rightarrow> principal \<Rightarrow> string \<Rightarrow> bool \<Rightarrow> arguments \<Rightarrow> invocation" where
  "tool_invocation te rq tg c p bearer confirm args =
     \<lparr>inv_source = ''mcp'', inv_principal = p, inv_command = c, inv_args = args, inv_invoker = InvokerAI, inv_confirmed = confirm,
      inv_aiMaxRisk = sn_aiMaxRisk (tg_snapshot tg), inv_traceID = requestTraceID (te_random te) (tq_header rq),
      inv_traceState = traceState (tq_header rq), inv_client = headerGet (tq_header rq) ''User-Agent'', inv_bearerToken = bearer\<rparr>"

definition tool_event :: "tool_env \<Rightarrow> 'w tool_runtime \<Rightarrow> invocation \<Rightarrow> audit_event" where
  "tool_event te tg iv =
     no_event\<lparr>au_event := ''completed'', au_traceID := inv_traceID iv, au_subject := pr_subject (inv_principal iv), au_invoker := InvokerAI,
       au_command := cmd_key (inv_command iv), au_risk := cmd_risk (inv_command iv), au_generation := tg_id tg,
       au_credential := cmd_downstreamAuth (inv_command iv), au_client := inv_client iv, au_argKeys := sortedKeys (inv_args iv),
       au_latencyMS := goquot (time_sub (te_invokedAt te) (te_started te)) millisecond\<rparr>"

definition audit_tool :: "'w tool_runtime \<Rightarrow> audit_event \<Rightarrow> server_effect list" where
  "audit_tool tg ev = (if tg_audit tg then [Audited ev] else [])"

definition success_result :: "tool_env \<Rightarrow> string \<Rightarrow> string \<Rightarrow> tool_result" where
  "success_result te contentType body =
     \<lparr>tr_text = body, tr_isError = False,
      tr_structured = (if contains (toLower contentType) ''application/json'' then map_option VObj (te_unmarshal te body) else None)\<rparr>"

text \<open>Lines 288 to 348: the invocation, its audit event and the result.\<close>

definition run_tool :: "tool_env \<Rightarrow> 'w tool_runtime \<Rightarrow> invocation \<Rightarrow> 'w \<Rightarrow> tool_result \<times> server_effect list \<times> 'w" where
  "run_tool te tg iv w =
     (let ev = tool_event te tg iv
      in case is_invoke (tg_invoker tg) iv w of
           (Inl (APIErr e), w1) \<Rightarrow>
             (toolError (ae_code e) (ae_message e),
              Invoked iv # audit_tool tg (ev\<lparr>au_decision := ''deny'', au_denyReason := ae_code e, au_outcome := ''rejected'', au_status := ae_status e\<rparr>), w1)
         | (Inl _, w1) \<Rightarrow>
             (toolError ''E_INTERNAL'' ''internal gateway error'',
              Invoked iv # audit_tool tg (ev\<lparr>au_decision := ''allow'', au_outcome := ''error''\<rparr>), w1)
         | (Inr ex, w1) \<Rightarrow>
             (case read_limited (maxToolResult + 1) (is_read (tg_invoker tg) (ex_body ex)) of (body, fin) \<Rightarrow>
                (let ev1 = ev\<lparr>au_decision := ''allow'', au_status := ex_status ex,
                        au_latencyMS := goquot (time_sub (te_readAt te) (te_started te)) millisecond\<rparr>;
                     ok = (fin = ReadEOF \<and> length body \<le> maxToolResult)
                 in (if ok then success_result te (ex_contentType ex) body
                     else toolError ''E_UPSTREAM'' ''upstream result could not be represented as an MCP result'',
                     Invoked iv # audit_tool tg (ev1\<lparr>au_outcome := (if ok then ''success'' else ''error'')\<rparr>) @ [BodyClosed],
                     is_close (tg_invoker tg) (ex_body ex) w1))))"

definition callTool :: "tool_env \<Rightarrow> tool_request \<Rightarrow> 'w tool_runtime \<Rightarrow> compiled_command \<Rightarrow> 'w \<Rightarrow> tool_result \<times> server_effect list \<times> 'w" where
  "callTool te rq tg c w =
     (case tg_retain tg w of
        (False, w1) \<Rightarrow> (toolError ''E_OVERLOADED'' ''runtime generation is draining'', [], w1)
      | (True, w1) \<Rightarrow>
          (let stop = (\<lambda>code m. (toolError code m, [Released], tg_release tg w1))
           in case tq_token rq of
                None \<Rightarrow> stop ''E_AUTH_INVALID'' ''authenticated MCP request context is missing''
              | Some ti \<Rightarrow>
                  (case ti_principal ti of
                     None \<Rightarrow> stop ''E_AUTH_INVALID'' ''authenticated principal is missing''
                   | Some p \<Rightarrow>
                       (case tool_arguments te (tq_arguments rq) of
                          None \<Rightarrow> stop ''E_ARG_INVALID'' ''tool arguments are invalid''
                        | Some args \<Rightarrow>
                            (case take_confirm args of
                               None \<Rightarrow> stop ''E_ARG_INVALID'' ''confirm must be a boolean''
                             | Some (confirm, rest) \<Rightarrow>
                                 (case run_tool te tg (tool_invocation te rq tg c p (ti_bearer ti) confirm rest) w1 of (r, effs, w2) \<Rightarrow>
                                    (r, effs @ [Released], tg_release tg w2)))))))"

section \<open>Branches\<close>

lemma run_tool_branch:
  assumes "run_tool te tg iv w = (r, effs, w')"
  obtains (failed) err code m ev where "is_invoke (tg_invoker tg) iv w = (Inl err, w')" "r = toolError code m" "effs = Invoked iv # audit_tool tg ev"
      "au_traceID ev = inv_traceID iv" "au_argKeys ev = sortedKeys (inv_args iv)" "au_event ev = ''completed''" "au_generation ev = tg_id tg"
      "au_outcome ev \<in> {''rejected'', ''error''}"
  | (answered) ex w1 chunks fin ev where "is_invoke (tg_invoker tg) iv w = (Inr ex, w1)" "is_read (tg_invoker tg) (ex_body ex) = (chunks, fin)"
      "w' = is_close (tg_invoker tg) (ex_body ex) w1" "effs = Invoked iv # audit_tool tg ev @ [BodyClosed]"
      "au_traceID ev = inv_traceID iv" "au_argKeys ev = sortedKeys (inv_args iv)" "au_event ev = ''completed''" "au_generation ev = tg_id tg"
      "au_decision ev = ''allow''"
      "if fin = ReadEOF \<and> length (concat chunks) \<le> maxToolResult
       then au_outcome ev = ''success'' \<and> r = success_result te (ex_contentType ex) (concat chunks)
       else au_outcome ev = ''error'' \<and> tr_isError r"
proof (cases "is_invoke (tg_invoker tg) iv w")
  case (Pair q w1)
  show thesis
  proof (cases q)
    case (Inl err)
    show thesis
    proof (cases "\<exists>e. err = APIErr e")
      case True
      then obtain e where "err = APIErr e" by blast
      with assms Pair Inl show thesis
        by (intro failed [of err]) (auto simp: run_tool_def Let_def tool_event_def no_event_def)
    next
      case False
      with assms Pair Inl show thesis
        by (intro failed [of err]) (auto simp: run_tool_def Let_def tool_event_def no_event_def split: go_error.splits)
    qed
  next
    case (Inr ex)
    obtain chunks fin where rd: "is_read (tg_invoker tg) (ex_body ex) = (chunks, fin)" by (cases "is_read (tg_invoker tg) (ex_body ex)")
    let ?ok = "fin = ReadEOF \<and> length (concat chunks) \<le> maxToolResult"
    let ?ev = "(tool_event te tg iv)\<lparr>au_decision := ''allow'', au_status := ex_status ex,
      au_latencyMS := goquot (time_sub (te_readAt te) (te_started te)) millisecond, au_outcome := (if ?ok then ''success'' else ''error'')\<rparr>"
    have "effs = Invoked iv # audit_tool tg ?ev @ [BodyClosed] \<and> w' = is_close (tg_invoker tg) (ex_body ex) w1
        \<and> r = (if ?ok then success_result te (ex_contentType ex) (concat chunks) else toolError ''E_UPSTREAM'' ''upstream result could not be represented as an MCP result'')"
      using assms Pair Inr rd by (cases "length (concat chunks) \<le> maxToolResult") (auto simp: run_tool_def Let_def read_limited_def)
    with Pair Inr rd show thesis
      by (intro answered [of ex w1 chunks fin ?ev]) (auto simp: tool_event_def no_event_def toolError_def)
  qed
qed

lemma run_tool_summary:
  assumes "run_tool te tg iv w = (r, effs, w')"
  obtains ev where "filter is_Invoked effs = [Invoked iv]" "\<And>x. Invoked x \<in> set effs \<Longrightarrow> x = iv"
    "events effs = (if tg_audit tg then [ev] else [])" "au_traceID ev = inv_traceID iv" "au_argKeys ev = sortedKeys (inv_args iv)"
    "au_generation ev = tg_id tg"
    "\<not> tr_isError r \<Longrightarrow> au_outcome ev = ''success''
       \<and> (\<exists>ex w2 chunks. is_invoke (tg_invoker tg) iv w = (Inr ex, w2) \<and> is_read (tg_invoker tg) (ex_body ex) = (chunks, ReadEOF) \<and> tr_text r = concat chunks)"
  using assms
proof (cases rule: run_tool_branch)
  case (failed err code m ev)
  then show thesis by (intro that [of ev]) (auto simp: audit_tool_def toolError_def)
next
  case (answered ex w1 chunks fin ev)
  have ok: "au_outcome ev = ''success'' \<and> fin = ReadEOF \<and> tr_text r = concat chunks" if "\<not> tr_isError r"
    using answered(10) that by (auto simp: success_result_def split: if_splits)
  show thesis
    by (rule that [of ev]) (use answered(1-8) ok in \<open>auto simp: audit_tool_def\<close>)
qed

lemma callTool_branch:
  assumes "callTool te rq tg c w = (r, effs, w')"
  obtains (draining) w1 where "tg_retain tg w = (False, w1)" "effs = []" "w' = w1" "tr_isError r"
  | (stopped) w1 where "tg_retain tg w = (True, w1)" "effs = [Released]" "w' = tg_release tg w1" "tr_isError r"
  | (ran) w1 ti p args confirm rest effs0 w2 where "tg_retain tg w = (True, w1)" "tq_token rq = Some ti" "ti_principal ti = Some p"
      "tool_arguments te (tq_arguments rq) = Some args" "take_confirm args = Some (confirm, rest)"
      "run_tool te tg (tool_invocation te rq tg c p (ti_bearer ti) confirm rest) w1 = (r, effs0, w2)" "effs = effs0 @ [Released]" "w' = tg_release tg w2"
proof -
  obtain ok w1 where ret: "tg_retain tg w = (ok, w1)" by (cases "tg_retain tg w")
  show thesis
  proof (cases ok)
    case False
    with assms ret show thesis by (intro draining [of w1]) (auto simp: callTool_def toolError_def)
  next
    case True
    then have "ok = True" by simp
    note ct = assms [unfolded callTool_def ret this Let_def prod.case bool.case]
    show thesis
    proof (cases "\<exists>ti p args confirm rest. tq_token rq = Some ti \<and> ti_principal ti = Some p
        \<and> tool_arguments te (tq_arguments rq) = Some args \<and> take_confirm args = Some (confirm, rest)")
      case False
      from ct False have "effs = [Released] \<and> w' = tg_release tg w1 \<and> tr_isError r"
        by (auto simp: toolError_def split: option.splits prod.splits)
      with ret \<open>ok\<close> show thesis by (intro stopped [of w1]) auto
    next
      case True
      then obtain ti p args confirm rest where q: "tq_token rq = Some ti" "ti_principal ti = Some p"
        "tool_arguments te (tq_arguments rq) = Some args" "take_confirm args = Some (confirm, rest)" by blast
      obtain r0 effs0 w2 where run: "run_tool te tg (tool_invocation te rq tg c p (ti_bearer ti) confirm rest) w1 = (r0, effs0, w2)"
        by (cases "run_tool te tg (tool_invocation te rq tg c p (ti_bearer ti) confirm rest) w1")
      from ct q run have "r = r0" "effs = effs0 @ [Released]" "w' = tg_release tg w2" by auto
      with ret \<open>ok\<close> q run show thesis by (intro ran [of w1 ti p args confirm rest effs0 w2]) auto
    qed
  qed
qed

lemma take_confirm_args:
  assumes "take_confirm args = Some (confirm, rest)"
  shows "map_of rest ''confirm'' = None \<and> (confirm \<longleftrightarrow> map_of args ''confirm'' = Some (VBool True))
    \<and> (\<forall>k. k \<noteq> ''confirm'' \<longrightarrow> map_of rest k = map_of args k)"
  using assms by (auto simp: take_confirm_def split: option.splits goval.splits)


section \<open>Tool calls on the gateway\<close>

context invocation_contract
begin

lemma run_tool_returns:
  assumes "run_tool te tg iv w = (r, effs, w')" "tg_invoker tg = sv"
  shows "held_by w' = held_by w"
  using assms(1)
proof (cases rule: run_tool_branch)
  case (failed err code m ev)
  then show ?thesis using failed_keeps unfolding assms(2) by blast
next
  case (answered ex w1 chunks fin ev)
  then show ?thesis using close_returns unfolding assms(2) by simp
qed

end

definition gateway_tool :: "invoke_env \<Rightarrow> (release_body \<Rightarrow> string list \<times> read_end) \<Rightarrow> snapshot \<Rightarrow> nat \<Rightarrow> 'k gateway tool_runtime" where
  "gateway_tool ie read s i =
     \<lparr>tg_retain = (\<lambda>w. case gen_acquire (gw_generation w) of (ok, g) \<Rightarrow> (ok, w\<lparr>gw_generation := g\<rparr>)),
      tg_release = gateway_release, tg_snapshot = s, tg_invoker = gateway_invoker ie read, tg_audit = True, tg_id = i\<rparr>"

text \<open>A tool call gives everything back: whatever its outcome, admission slots and the reference count of
  its generation end as they began, and on a retired generation it does nothing but refuse.\<close>

theorem tool_calls_release:
  assumes "callTool te rq (gateway_tool ie read s i) c w = (r, effs, w')" "gen_inv n (gw_generation w)"
  shows "service_slots (gw_service w') = service_slots (gw_service w) \<and> gw_generation w' = gw_generation w
    \<and> (if gn_retired (gw_generation w) then effs = [] \<and> w' = w \<and> tr_isError r else \<exists>es. effs = es @ [Released] \<and> Released \<notin> set es)"
proof -
  let ?tg = "gateway_tool ie read s i" and ?g = "(gw_generation w)\<lparr>gn_active := gn_active (gw_generation w) + 1\<rparr>"
  let ?w1 = "w\<lparr>gw_generation := ?g\<rparr>"
  have retain: "tg_retain ?tg w = (if gn_retired (gw_generation w) then (False, w) else (True, ?w1))"
    by (simp add: gateway_tool_def gen_acquire_def)
  have restored: "gw_generation (gateway_release v) = gw_generation w" if "gw_generation v = ?g" "\<not> gn_retired (gw_generation w)" for v
    using that assms(2) by (simp add: gateway_release_def gen_release_def gen_inv_def)
  have slots: "gw_service (gateway_release v) = gw_service v" for v by (simp add: gateway_release_def)
  from assms(1) show ?thesis
  proof (cases rule: callTool_branch)
    case (draining w1)
    then show ?thesis using retain by (auto split: if_splits)
  next
    case (stopped w1)
    then have w1: "w1 = ?w1" "\<not> gn_retired (gw_generation w)" using retain by (auto split: if_splits)
    have "w' = gateway_release ?w1" using stopped(3) w1 by (simp add: gateway_tool_def)
    then show ?thesis using restored [of ?w1] slots [of ?w1] w1 stopped(2) by simp
  next
    case (ran w1 ti p args confirm rest effs0 w2)
    then have w1: "w1 = ?w1" "\<not> gn_retired (gw_generation w)" using retain by (auto split: if_splits)
    have "gateway_held w2 = gateway_held w1"
      by (rule pipeline.run_tool_returns [OF ran(6)]) (simp add: gateway_tool_def)
    then have w2: "gw_generation w2 = ?g" "service_slots (gw_service w2) = service_slots (gw_service w)" by (simp_all add: gateway_held_def w1)
    have "w' = gateway_release w2" using ran(8) by (simp add: gateway_tool_def)
    moreover have "Released \<notin> set effs0" using ran(6) by (cases rule: run_tool_branch) (auto simp: audit_tool_def)
    ultimately show ?thesis using restored [OF w2(1) w1(2)] slots [of w2] w2 w1(2) ran(7) by simp
  qed
qed

definition demo_tool_request :: tool_request where
  "demo_tool_request = \<lparr>tq_token = Some \<lparr>ti_principal = Some demo_caller, ti_bearer = ''e30.e30.c2ln''\<rparr>, tq_arguments = ''{}'', tq_header = []\<rparr>"

definition demo_tool_env :: tool_env where
  "demo_tool_env = \<lparr>te_random = ''0123456789abcdef'', te_started = 0, te_invokedAt = 1, te_readAt = 2,
     te_decode = (\<lambda>_. Some [(''confirm'', VBool True), (''id'', VStr ''42'')]), te_unmarshal = (\<lambda>_. None)\<rparr>"

abbreviation demo_tool :: "unit gateway tool_runtime" where
  "demo_tool \<equiv> gateway_tool (demo_env 200) (\<lambda>b. ([rb_body b], ReadEOF)) demo_snapshot 1"

theorem tool_calls_release_witness:
  "gw_generation (snd (snd (callTool demo_tool_env demo_tool_request demo_tool demo_get demo_gateway))) = demo_generation"
proof -
  have "gen_inv 0 (gw_generation demo_gateway)" by (simp add: gen_inv_def demo_gateway_def demo_generation_def)
  then show ?thesis
    using tool_calls_release [of demo_tool_env demo_tool_request "demo_env 200" "\<lambda>b. ([rb_body b], ReadEOF)" demo_snapshot 1 demo_get demo_gateway
        "fst (callTool demo_tool_env demo_tool_request demo_tool demo_get demo_gateway)"
        "fst (snd (callTool demo_tool_env demo_tool_request demo_tool demo_get demo_gateway))"
        "snd (snd (callTool demo_tool_env demo_tool_request demo_tool demo_get demo_gateway))" 0]
    by (simp add: demo_gateway_def)
qed


section \<open>Early errors\<close>

text \<open>A call that fails before the invocation leaves no audit event, unlike one over HTTP.\<close>

theorem early_tool_errors_unaudited:
  assumes "tg_retain tg w = (True, w1)" "tq_token rq = Some ti" "ti_principal ti = Some p" "tool_arguments te (tq_arguments rq) = None" "tg_audit tg"
  shows "events (fst (snd (callTool te rq tg c w))) = [] \<and> tr_isError (fst (callTool te rq tg c w))"
  using assms by (simp add: callTool_def Let_def toolError_def)

section \<open>Session binding\<close>

text \<open>A session belongs to one user: if the keyed hash is injective and the claims contain no null bytes, two
  principals get the same session user exactly when issuer, tenant and subject agree.\<close>

theorem sessions_bound_to_user:
  assumes "\<And>a b. mac k a = mac k b \<Longrightarrow> a = b"
    "list_all (\<lambda>s. CHR 0x00 \<notin> set s) [pr_issuer p, pr_tenant p, pr_subject p, meta, pr_issuer q, pr_tenant q, pr_subject q]"
  shows "userID mac k meta p = userID mac k meta q \<longleftrightarrow>
    pr_issuer p = pr_issuer q \<and> pr_tenant p = pr_tenant q \<and> pr_subject p = pr_subject q"
proof -
  have joined: "pr_issuer x @ [CHR 0x00] @ pr_tenant x @ [CHR 0x00] @ pr_subject x @ [CHR 0x00] @ meta
      = join [pr_issuer x, pr_tenant x, pr_subject x, meta] [CHR 0x00]" for x by simp
  have "userID mac k meta p = userID mac k meta q \<longleftrightarrow>
      join [pr_issuer p, pr_tenant p, pr_subject p, meta] [CHR 0x00] = join [pr_issuer q, pr_tenant q, pr_subject q, meta] [CHR 0x00]"
    unfolding userID_def joined by (metis assms(1) hexEncode_inj)
  also have "\<dots> \<longleftrightarrow> [pr_issuer p, pr_tenant p, pr_subject p, meta] = [pr_issuer q, pr_tenant q, pr_subject q, meta]"
    using join_inj [of "[pr_issuer p, pr_tenant p, pr_subject p, meta]" "CHR 0x00" "[pr_issuer q, pr_tenant q, pr_subject q, meta]"] assms(2)
    by auto
  finally show ?thesis by simp
qed

theorem sessions_bound_to_user_witness:
  "userID (\<lambda>_ t. t) [] ''m'' (demo_caller\<lparr>pr_subject := ''bob''\<rparr>) \<noteq> userID (\<lambda>_ t. t) [] ''m'' demo_caller"
proof -
  have "list_all (\<lambda>s. CHR 0x00 \<notin> set s) [pr_issuer (demo_caller\<lparr>pr_subject := ''bob''\<rparr>), pr_tenant (demo_caller\<lparr>pr_subject := ''bob''\<rparr>),
      pr_subject (demo_caller\<lparr>pr_subject := ''bob''\<rparr>), ''m'', pr_issuer demo_caller, pr_tenant demo_caller, pr_subject demo_caller]"
    "pr_subject demo_caller = ''alice''" by code_simp+
  with sessions_bound_to_user [of "\<lambda>_ t. t" "[]" "demo_caller\<lparr>pr_subject := ''bob''\<rparr>" "''m''" demo_caller] show ?thesis by simp
qed

end
