(* ===== verification/Mcp_Sessions.thy ===== *)
theory Mcp_Sessions
  imports Mcp_Tools Runtime_Gen
begin

text \<open>
  The sessions of the MCP adapter, \<open>internal/adapter/mcp/handler.go\<close>: every session holds a lease on one
  generation, a reload moves it to the next, and requests, deletion, expiry, reload callbacks, tool
  calls and shutdown interleave. Each critical section is one function; a bundle is named by its
  position in the list of all bundles made.
\<close>

section \<open>State\<close>

record session_bundle =
  sb_lease :: "nat option"
  sb_principal :: principal
  sb_tools :: "string list"
  sb_lastSeen :: gotime

text \<open>
  The handler's tables, with what running code holds outside them: the bundles of requests that will
  end in \<open>store\<close>, those of stateless requests, the bundles taken from a table and still to be closed,
  the reload callbacks (the generation, the bundles still to visit, and whether the lease for the
  first of them is already retained), and the leases of running tool calls and of bundles that gave
  theirs up. \<open>mh_clearing\<close> marks a \<open>Close\<close> between its flag and its tables.
\<close>

record mcp_handler =
  mh_gens :: "generation list"
  mh_bundles :: "session_bundle list"
  mh_sessions :: "(string, nat) gomap"
  mh_transients :: "nat list"
  mh_closed :: bool
  mh_clearing :: bool
  mh_pending :: "nat list"
  mh_serving :: "nat list"
  mh_closing :: "nat list"
  mh_migrations :: "(nat \<times> nat list \<times> bool) list"
  mh_held :: "nat list"

definition bundle_set :: "nat \<Rightarrow> session_bundle \<Rightarrow> mcp_handler \<Rightarrow> mcp_handler" where
  "bundle_set b x h = h\<lparr>mh_bundles := (mh_bundles h)[b := x]\<rparr>"

definition gen_set :: "nat \<Rightarrow> generation \<Rightarrow> mcp_handler \<Rightarrow> mcp_handler" where
  "gen_set i g h = h\<lparr>mh_gens := (mh_gens h)[i := g]\<rparr>"

section \<open>Operations\<close>

text \<open>
  \<open>newBundle\<close> with \<open>buildServer\<close>: the lease on the generation \<open>i\<close> that \<open>Acquire\<close> found, and its tools for
  the principal.
\<close>

definition newBundle :: "gotime \<Rightarrow> principal \<Rightarrow> nat \<Rightarrow> mcp_handler \<Rightarrow> (nat \<times> mcp_handler) option" where
  "newBundle now p i h =
     (case gen_acquire (mh_gens h ! i) of
        (False, _) \<Rightarrow> None
      | (True, g) \<Rightarrow>
          Some (length (mh_bundles h),
                (gen_set i g h)\<lparr>mh_bundles := mh_bundles h @ [\<lparr>sb_lease = Some i, sb_principal = p,
                   sb_tools = tool_names (Some (gn_snapshot g)) p, sb_lastSeen = now\<rparr>]\<rparr>))"

definition store :: "string \<Rightarrow> nat \<Rightarrow> mcp_handler \<Rightarrow> bool \<times> mcp_handler" where
  "store sid b h =
     (if mh_closed h then (False, h)
      else if map_of (mh_sessions h) sid \<noteq> None then (False, h)
      else (True, h\<lparr>mh_sessions := put sid b (mh_sessions h)\<rparr>))"

definition storeTransient :: "nat \<Rightarrow> mcp_handler \<Rightarrow> bool \<times> mcp_handler" where
  "storeTransient b h = (if mh_closed h then (False, h) else (True, h\<lparr>mh_transients := mh_transients h @ [b]\<rparr>))"

definition touchOwned :: "gotime \<Rightarrow> string \<Rightarrow> principal \<Rightarrow> mcp_handler \<Rightarrow> mcp_handler" where
  "touchOwned now sid p h =
     (case map_of (mh_sessions h) sid of
        None \<Rightarrow> h
      | Some b \<Rightarrow>
          (let x = mh_bundles h ! b; q = sb_principal x
           in if pr_issuer q = pr_issuer p \<and> pr_tenant q = pr_tenant p \<and> pr_subject q = pr_subject p
              then bundle_set b (x\<lparr>sb_lastSeen := now\<rparr>) h else h))"

text \<open>The locked parts of \<open>release\<close> and \<open>releaseTransient\<close>; the bundle is closed afterwards.\<close>

definition release_session :: "string \<Rightarrow> mcp_handler \<Rightarrow> mcp_handler" where
  "release_session sid h =
     h\<lparr>mh_sessions := del sid (mh_sessions h),
       mh_closing := mh_closing h @ (case map_of (mh_sessions h) sid of None \<Rightarrow> [] | Some b \<Rightarrow> [b])\<rparr>"

definition releaseTransient :: "nat \<Rightarrow> mcp_handler \<Rightarrow> mcp_handler" where
  "releaseTransient b h = h\<lparr>mh_transients := removeAll b (mh_transients h), mh_closing := mh_closing h @ [b]\<rparr>"

text \<open>The locked part of \<open>closeBundle\<close>: the lease it took is closed afterwards (a step of its own).\<close>

definition closeBundle :: "nat \<Rightarrow> mcp_handler \<Rightarrow> mcp_handler" where
  "closeBundle b h =
     (bundle_set b ((mh_bundles h ! b)\<lparr>sb_lease := None\<rparr>) h)
       \<lparr>mh_held := mh_held h @ (case sb_lease (mh_bundles h ! b) of None \<Rightarrow> [] | Some i \<Rightarrow> [i])\<rparr>"

text \<open>The scan of \<open>reap\<close>.\<close>

definition sessionTTL :: duration where
  "sessionTTL = 30 * minute"

definition reap_expired :: "gotime \<Rightarrow> mcp_handler \<Rightarrow> string list" where
  "reap_expired now h =
     map fst (filter (\<lambda>(sid, b). time_sub now (sb_lastSeen (mh_bundles h ! b)) > sessionTTL + minute) (mh_sessions h))"

text \<open>
  \<open>onReload\<close>: the bundles it will visit; \<open>Retain\<close> for the next of them; and the section under the
  bundle's lock, after which either the retained lease or the bundle's old one is left to close.
\<close>

definition onReload :: "nat \<Rightarrow> mcp_handler \<Rightarrow> mcp_handler" where
  "onReload i h =
     (if mh_closed h then h
      else h\<lparr>mh_migrations := mh_migrations h @ [(i, map snd (mh_sessions h) @ mh_transients h, False)]\<rparr>)"

definition reload_retain :: "nat \<Rightarrow> nat list \<Rightarrow> mcp_handler \<Rightarrow> mcp_handler \<times> (nat \<times> nat list \<times> bool)" where
  "reload_retain i bs h =
     (case gen_acquire (mh_gens h ! i) of
        (False, _) \<Rightarrow> (h, i, tl bs, False)
      | (True, g) \<Rightarrow> (gen_set i g h, i, bs, True))"

definition reload_move :: "gotime \<Rightarrow> nat \<Rightarrow> nat \<Rightarrow> mcp_handler \<Rightarrow> mcp_handler" where
  "reload_move now i b h =
     (let x = mh_bundles h ! b
      in case sb_lease x of
           None \<Rightarrow> h\<lparr>mh_held := mh_held h @ [i]\<rparr>
         | Some old \<Rightarrow>
             (if mh_closed h then h\<lparr>mh_held := mh_held h @ [i]\<rparr>
              else (bundle_set b (x\<lparr>sb_lease := Some i, sb_tools := tool_names (Some (gn_snapshot (mh_gens h ! i))) (sb_principal x),
                      sb_lastSeen := now\<rparr>) h)\<lparr>mh_held := mh_held h @ [old]\<rparr>))"

text \<open>\<open>Close\<close>: the flag, then the tables.\<close>

definition close_flag :: "mcp_handler \<Rightarrow> mcp_handler" where
  "close_flag h = (if mh_closed h then h else h\<lparr>mh_closed := True, mh_clearing := True\<rparr>)"

definition close_tables :: "mcp_handler \<Rightarrow> mcp_handler" where
  "close_tables h = h\<lparr>mh_clearing := False, mh_sessions := [], mh_transients := [],
     mh_closing := mh_closing h @ map snd (mh_sessions h) @ mh_transients h\<rparr>"

text \<open>
  The end of \<open>ServeHTTP\<close> for a new session: kept under the identifier the library gave it, or let go;
  the fate of a stateless request's bundle in \<open>serverForStatelessRequest\<close>. A bundle let go is not
  reachable any more, so its lease counts as given up.
\<close>

definition finish_pending :: "string \<Rightarrow> nat \<Rightarrow> nat \<Rightarrow> mcp_handler \<Rightarrow> mcp_handler" where
  "finish_pending sid status b h =
     (let h1 = h\<lparr>mh_pending := removeAll b (mh_pending h)\<rparr>
      in if sid = [] \<or> status < 200 \<or> status \<ge> 300 then closeBundle b h1
         else (case store sid b h1 of (True, h2) \<Rightarrow> h2 | (False, h2) \<Rightarrow> closeBundle b h2))"

definition keep_transient :: "nat \<Rightarrow> mcp_handler \<Rightarrow> mcp_handler" where
  "keep_transient b h =
     (let h1 = h\<lparr>mh_pending := removeAll b (mh_pending h)\<rparr>
      in case storeTransient b h1 of
           (True, h2) \<Rightarrow> h2\<lparr>mh_serving := mh_serving h2 @ [b]\<rparr>
         | (False, h2) \<Rightarrow> closeBundle b h2)"

section \<open>Interleavings\<close>

text \<open>What running code does to finish what it began, and what clients, reloads and shutdown begin.\<close>

inductive work_step :: "mcp_handler \<Rightarrow> mcp_handler \<Rightarrow> bool" where
  end_session: "b \<in> set (mh_pending h) \<Longrightarrow> work_step h (finish_pending sid status b h)"
| begin_transient: "b \<in> set (mh_pending h) \<Longrightarrow> work_step h (keep_transient b h)"
| end_transient: "mh_serving h = xs @ b # ys \<Longrightarrow> work_step h (releaseTransient b (h\<lparr>mh_serving := xs @ ys\<rparr>))"
| close_bundle: "mh_closing h = xs @ b # ys \<Longrightarrow> work_step h (closeBundle b (h\<lparr>mh_closing := xs @ ys\<rparr>))"
| visit_retain: "mh_migrations h = ms @ (i, b # bs, False) # ns \<Longrightarrow> reload_retain i (b # bs) h = (h', m) \<Longrightarrow>
    work_step h (h'\<lparr>mh_migrations := ms @ m # ns\<rparr>)"
| visit_move: "mh_migrations h = ms @ (i, b # bs, True) # ns \<Longrightarrow>
    work_step h ((reload_move now i b h)\<lparr>mh_migrations := ms @ (i, bs, False) # ns\<rparr>)"
| lease_closed: "mh_held h = xs @ i # ys \<Longrightarrow> gen_release (mh_gens h ! i) = Some g \<Longrightarrow>
    work_step h ((gen_set i g h)\<lparr>mh_held := xs @ ys\<rparr>)"
| close_clears: "mh_clearing h \<Longrightarrow> work_step h (close_tables h)"

inductive mcp_step :: "mcp_handler \<Rightarrow> mcp_handler \<Rightarrow> bool" where
  work: "work_step h h' \<Longrightarrow> mcp_step h h'"
| begin_session: "i < length (mh_gens h) \<Longrightarrow> newBundle now p i h = Some (b, h') \<Longrightarrow>
    mcp_step h (h'\<lparr>mh_pending := mh_pending h' @ [b]\<rparr>)"
| touch: "mcp_step h (touchOwned now sid p h)"
| drop_session: "mcp_step h (release_session sid h)"
| reap_session: "sid \<in> set (reap_expired now h) \<Longrightarrow> mcp_step h (release_session sid h)"
| publish: "newGeneration n (Some s) True = Inr g \<Longrightarrow> mcp_step h (h\<lparr>mh_gens := mh_gens h @ [g]\<rparr>)"
| callback: "i < length (mh_gens h) \<Longrightarrow> mcp_step h (onReload i h)"
| retire: "i < length (mh_gens h) \<Longrightarrow> gen_retire (mh_gens h ! i) = Some g \<Longrightarrow> mcp_step h (gen_set i g h)"
| call_begins: "i < length (mh_gens h) \<Longrightarrow> gen_acquire (mh_gens h ! i) = (True, g) \<Longrightarrow>
    mcp_step h ((gen_set i g h)\<lparr>mh_held := mh_held h @ [i]\<rparr>)"
| close_begins: "mcp_step h (close_flag h)"

definition new_handler :: "generation list \<Rightarrow> mcp_handler" where
  "new_handler gs = \<lparr>mh_gens = gs, mh_bundles = [], mh_sessions = [], mh_transients = [], mh_closed = False,
     mh_clearing = False, mh_pending = [], mh_serving = [], mh_closing = [], mh_migrations = [], mh_held = []\<rparr>"

inductive mcp_reachable :: "generation \<Rightarrow> mcp_handler \<Rightarrow> bool" for g0 where
  mcp_init: "mcp_reachable g0 (new_handler [g0])"
| mcp_next: "mcp_reachable g0 h \<Longrightarrow> mcp_step h h' \<Longrightarrow> mcp_reachable g0 h'"

section \<open>Leases\<close>

text \<open>The leases held on generation \<open>i\<close>: by bundles, by running code, and by reload callbacks.\<close>

definition mcp_leases :: "nat \<Rightarrow> mcp_handler \<Rightarrow> nat" where
  "mcp_leases i h = tally (\<lambda>x. sb_lease x = Some i) (mh_bundles h) + tally ((=) i) (mh_held h)
     + tally (\<lambda>(j, bs, f). f \<and> j = i) (mh_migrations h)"

definition leases_exact :: "mcp_handler \<Rightarrow> bool" where
  "leases_exact h \<longleftrightarrow> (\<forall>i < length (mh_gens h). gen_inv (mcp_leases i h) (mh_gens h ! i))"

definition owners :: "mcp_handler \<Rightarrow> nat set" where
  "owners h = set (mh_pending h) \<union> set (map snd (mh_sessions h)) \<union> set (mh_transients h) \<union> set (mh_closing h)"

definition names_ok :: "mcp_handler \<Rightarrow> bool" where
  "names_ok h \<longleftrightarrow> set (mh_held h) \<subseteq> {..<length (mh_gens h)} \<and> owners h \<union> set (mh_serving h) \<subseteq> {..<length (mh_bundles h)}
     \<and> (\<forall>(i, bs, f) \<in> set (mh_migrations h). i < length (mh_gens h) \<and> set bs \<subseteq> {..<length (mh_bundles h)} \<and> (f \<longrightarrow> bs \<noteq> []))"

text \<open>A bundle lists the tools of the generation it leases.\<close>

definition bundle_ok :: "generation list \<Rightarrow> session_bundle \<Rightarrow> bool" where
  "bundle_ok gs x \<longleftrightarrow> (case sb_lease x of None \<Rightarrow> True
     | Some i \<Rightarrow> i < length gs \<and> sb_tools x = tool_names (Some (gn_snapshot (gs ! i))) (sb_principal x))"

text \<open>A bundle with a lease is in a table or in the hands of code that will store or close it.\<close>

definition owned :: "mcp_handler \<Rightarrow> bool" where
  "owned h \<longleftrightarrow> (\<forall>b < length (mh_bundles h). sb_lease (mh_bundles h ! b) \<noteq> None \<longrightarrow> b \<in> owners h)
     \<and> wf_map (mh_sessions h) \<and> (mh_clearing h \<longrightarrow> mh_closed h)
     \<and> (mh_closed h \<and> \<not> mh_clearing h \<longrightarrow> mh_sessions h = [] \<and> mh_transients h = [])"

definition mcp_inv :: "mcp_handler \<Rightarrow> bool" where
  "mcp_inv h \<longleftrightarrow> leases_exact h \<and> names_ok h \<and> (\<forall>x \<in> set (mh_bundles h). bundle_ok (mh_gens h) x) \<and> owned h"

lemma gen_snapshots:
  "gen_acquire g = (ok, g') \<Longrightarrow> gn_snapshot g' = gn_snapshot g"
  "gen_release g = Some g' \<Longrightarrow> gn_snapshot g' = gn_snapshot g"
  "gen_retire g = Some g' \<Longrightarrow> gn_snapshot g' = gn_snapshot g"
  by (auto simp: gen_acquire_def gen_release_def gen_retire_def close_drained_def Let_def split: if_splits)

lemma bundle_ok_gen [simp]:
  "gn_snapshot g = gn_snapshot (gs ! i) \<Longrightarrow> bundle_ok (gs[i := g]) x = bundle_ok gs x"
  by (cases "i < length gs") (auto simp: bundle_ok_def nth_list_update split: option.splits if_splits)

lemma bundle_ok_publish: "bundle_ok gs x \<Longrightarrow> bundle_ok (gs @ [g]) x"
  by (auto simp: bundle_ok_def nth_append split: option.splits)

lemma bundle_ok_unleased [simp]: "bundle_ok gs (x\<lparr>sb_lease := None\<rparr>)" "bundle_ok gs (x\<lparr>sb_lastSeen := t\<rparr>) = bundle_ok gs x"
  by (simp_all add: bundle_ok_def split: option.splits)

text \<open>Changing the owner tables only, or the state of one generation with the count of its leases.\<close>

lemma leases_exact_cong:
  "mh_gens h' = mh_gens h \<Longrightarrow> (\<And>i. i < length (mh_gens h) \<Longrightarrow> mcp_leases i h' = mcp_leases i h) \<Longrightarrow>
   leases_exact h' = leases_exact h"
  by (simp add: leases_exact_def)

lemma leases_exact_gen:
  assumes "leases_exact h" "mh_gens h' = (mh_gens h)[i := g]" "gen_inv (mcp_leases i h') g"
    "\<And>k. k \<noteq> i \<Longrightarrow> mcp_leases k h' = mcp_leases k h"
  shows "leases_exact h'"
  using assms by (cases "i < length (mh_gens h)") (auto simp: leases_exact_def nth_list_update)

lemma mcp_leases_close:
  "b < length (mh_bundles h) \<Longrightarrow> mcp_leases i (closeBundle b h) = mcp_leases i h"
  using tally_update [of b "mh_bundles h" "\<lambda>x. sb_lease x = Some i" "(mh_bundles h ! b)\<lparr>sb_lease := None\<rparr>"]
  by (auto simp: mcp_leases_def closeBundle_def bundle_set_def split: option.splits if_splits)

lemma closeBundle_fields [simp]:
  "mh_gens (closeBundle b h) = mh_gens h" "mh_closed (closeBundle b h) = mh_closed h" "mh_clearing (closeBundle b h) = mh_clearing h"
  "mh_sessions (closeBundle b h) = mh_sessions h" "owners (closeBundle b h) = owners h" "mh_serving (closeBundle b h) = mh_serving h"
  "mh_migrations (closeBundle b h) = mh_migrations h" "mh_transients (closeBundle b h) = mh_transients h"
  "length (mh_bundles (closeBundle b h)) = length (mh_bundles h)"
  "mh_bundles (closeBundle b h) = (mh_bundles h)[b := (mh_bundles h ! b)\<lparr>sb_lease := None\<rparr>]"
  by (simp_all add: closeBundle_def bundle_set_def owners_def)

text \<open>A bundle may leave the tables when its lease is taken from it.\<close>

lemma closeBundle_inv:
  assumes inv: "leases_exact h" "names_ok h" "\<forall>x \<in> set (mh_bundles h). bundle_ok (mh_gens h) x" and b: "b < length (mh_bundles h)"
    and own: "\<And>c. c < length (mh_bundles h) \<Longrightarrow> c \<noteq> b \<Longrightarrow> sb_lease (mh_bundles h ! c) \<noteq> None \<Longrightarrow> c \<in> owners h"
    and rest: "wf_map (mh_sessions h)" "mh_clearing h \<longrightarrow> mh_closed h"
      "mh_closed h \<and> \<not> mh_clearing h \<longrightarrow> mh_sessions h = [] \<and> mh_transients h = []"
  shows "mcp_inv (closeBundle b h)"
proof -
  have "leases_exact (closeBundle b h)" using inv(1) leases_exact_cong [of "closeBundle b h" h] b by (simp add: mcp_leases_close)
  moreover have x: "bundle_ok (mh_gens h) (mh_bundles h ! b)" using inv(3) b by simp
  then have "set (mh_held (closeBundle b h)) \<subseteq> set (mh_held h) \<union> {..<length (mh_gens h)}"
    by (auto simp: closeBundle_def bundle_ok_def split: option.splits)
  then have "names_ok (closeBundle b h)" using inv(2) by (auto simp: names_ok_def)
  moreover have "owned (closeBundle b h)" using own rest b by (auto simp: owned_def nth_list_update split: if_splits)
  ultimately show ?thesis using inv(3) by (auto simp: mcp_inv_def dest!: subsetD [OF set_update_subset_insert])
qed

lemma mcp_invD:
  assumes "mcp_inv h"
  shows "leases_exact h" "names_ok h" "\<forall>x \<in> set (mh_bundles h). bundle_ok (mh_gens h) x" "owned h"
    "\<And>i. i < length (mh_gens h) \<Longrightarrow> gen_inv (mcp_leases i h) (mh_gens h ! i)"
    "\<And>b. b \<in> owners h \<or> b \<in> set (mh_serving h) \<Longrightarrow> b < length (mh_bundles h)"
    "\<And>i. i \<in> set (mh_held h) \<Longrightarrow> i < length (mh_gens h)"
  using assms by (auto simp: mcp_inv_def leases_exact_def names_ok_def)

text \<open>A change of the tables that loses no bundle.\<close>

lemma tables_inv:
  assumes "mcp_inv h" "mh_gens h' = mh_gens h" "mh_bundles h' = mh_bundles h" "mh_held h' = mh_held h"
    "\<And>i. tally (\<lambda>(j, bs, f). f \<and> j = i) (mh_migrations h') = tally (\<lambda>(j, bs, f). f \<and> j = i) (mh_migrations h)"
    "names_ok h'" "owners h \<subseteq> owners h'" "wf_map (mh_sessions h')" "mh_clearing h' \<longrightarrow> mh_closed h'"
    "mh_closed h' \<and> \<not> mh_clearing h' \<longrightarrow> mh_sessions h' = [] \<and> mh_transients h' = []"
  shows "mcp_inv h'"
proof -
  have "leases_exact h'" using leases_exact_cong [of h' h] assms(1-5) by (simp add: mcp_leases_def mcp_inv_def)
  then show ?thesis using assms by (auto simp: mcp_inv_def owned_def)
qed

text \<open>A change of one generation, with the leases that code holds on it.\<close>

lemma gen_change_inv:
  assumes "mcp_inv h" "mh_gens h' = (mh_gens h)[i := g]" "gn_snapshot g = gn_snapshot (mh_gens h ! i)" "gen_inv (mcp_leases i h') g"
    "mh_bundles h' = mh_bundles h" "\<And>k. k \<noteq> i \<Longrightarrow> mcp_leases k h' = mcp_leases k h"
    "names_ok h'" "owners h' = owners h" "mh_sessions h' = mh_sessions h" "mh_transients h' = mh_transients h"
    "mh_closed h' = mh_closed h" "mh_clearing h' = mh_clearing h"
  shows "mcp_inv h'"
proof -
  have "leases_exact h'" using leases_exact_gen [of h h' i g] assms(1,2,4,6) by (simp add: mcp_inv_def)
  then show ?thesis using assms by (simp add: mcp_inv_def owned_def)
qed

lemma put_new_values: "map_of m k = None \<Longrightarrow> set (map snd (put k v m)) = insert v (set (map snd m))"
proof (induction m)
  case (Cons p m)
  then show ?case by (cases p) (simp add: insert_commute split: if_splits)
qed simp

lemma pending_inv:
  assumes "mcp_inv h" "b \<in> set (mh_pending h)"
  shows "mcp_inv (finish_pending sid status b h)" "mcp_inv (keep_transient b h)"
proof -
  define h1 where "h1 = h\<lparr>mh_pending := removeAll b (mh_pending h)\<rparr>"
  have f: "mh_gens h1 = mh_gens h" "mh_bundles h1 = mh_bundles h" "mh_sessions h1 = mh_sessions h" "mh_held h1 = mh_held h"
    "mh_transients h1 = mh_transients h" "mh_closed h1 = mh_closed h" "mh_clearing h1 = mh_clearing h" "owners h - {b} \<subseteq> owners h1"
    "mh_migrations h1 = mh_migrations h" "mh_closing h1 = mh_closing h" "owners h1 \<subseteq> owners h" "mh_serving h1 = mh_serving h"
    by (auto simp: h1_def owners_def)
  have b: "b < length (mh_bundles h)" using mcp_invD(6) [OF assms(1)] assms(2) by (auto simp: owners_def)
  have "leases_exact h1" using leases_exact_cong [of h1 h] mcp_invD(1) [OF assms(1)] f by (simp add: mcp_leases_def)
  moreover have "names_ok h1" using mcp_invD(2) [OF assms(1)] f by (auto simp: names_ok_def)
  ultimately have close: "mcp_inv (closeBundle b h1)"
    using mcp_invD(3,4) [OF assms(1)] b f by (intro closeBundle_inv) (auto simp: owned_def)
  have stored: "mcp_inv h2" if "store sid b h1 = (True, h2)" for h2
  proof (rule tables_inv [OF assms(1)])
    have h2: "h2 = h1\<lparr>mh_sessions := put sid b (mh_sessions h)\<rparr>" and new: "map_of (mh_sessions h) sid = None" and open': "\<not> mh_closed h"
      using that f by (auto simp: store_def split: if_splits)
    have "set (map snd (put sid b (mh_sessions h))) = insert b (set (map snd (mh_sessions h)))" using new by (rule put_new_values)
    then show "owners h \<subseteq> owners h2" "names_ok h2"
      using f b mcp_invD(2) [OF assms(1)] by (auto simp: h2 owners_def h1_def names_ok_def)
    show "wf_map (mh_sessions h2)" using mcp_invD(4) [OF assms(1)] by (simp add: h2 owned_def)
  qed (use that f mcp_invD(4) [OF assms(1)] in \<open>auto simp: store_def owned_def split: if_splits\<close>)
  show "mcp_inv (finish_pending sid status b h)"
    using close stored by (auto simp: finish_pending_def h1_def [symmetric] Let_def store_def split: prod.splits bool.splits if_splits)
  have "mcp_inv (h1\<lparr>mh_transients := mh_transients h @ [b], mh_serving := mh_serving h @ [b]\<rparr>)" if "\<not> mh_closed h"
    using that f b mcp_invD(2,4) [OF assms(1)]
    by (intro tables_inv [OF assms(1)]) (auto simp: owned_def owners_def names_ok_def h1_def)
  then show "mcp_inv (keep_transient b h)"
    using close f by (auto simp: keep_transient_def h1_def [symmetric] Let_def storeTransient_def)
qed

lemma newBundle_inv:
  assumes "mcp_inv h" "i < length (mh_gens h)" "newBundle now p i h = Some (b, h')"
  shows "mcp_inv (h'\<lparr>mh_pending := mh_pending h' @ [b]\<rparr>)" (is "mcp_inv ?h")
proof -
  obtain g where g: "gen_acquire (mh_gens h ! i) = (True, g)"
    and h': "h' = (gen_set i g h)\<lparr>mh_bundles := mh_bundles h @ [\<lparr>sb_lease = Some i, sb_principal = p,
               sb_tools = tool_names (Some (gn_snapshot g)) p, sb_lastSeen = now\<rparr>]\<rparr>" and b: "b = length (mh_bundles h)"
    using assms(3) by (auto simp: newBundle_def split: prod.splits bool.splits)
  have l: "mcp_leases k ?h = (if k = i then Suc (mcp_leases k h) else mcp_leases k h)" for k
    by (simp add: h' gen_set_def mcp_leases_def)
  have "leases_exact ?h"
    using gen_acquire_inv [OF mcp_invD(5) [OF assms(1,2)] g] l assms(2)
    by (intro leases_exact_gen [OF mcp_invD(1) [OF assms(1)], of _ i g]) (auto simp: h' gen_set_def)
  moreover have "names_ok ?h" using mcp_invD(2) [OF assms(1)] by (fastforce simp: names_ok_def h' gen_set_def owners_def b)
  moreover have "bundle_ok (mh_gens ?h) x" if "x \<in> set (mh_bundles ?h)" for x
    using mcp_invD(3) [OF assms(1)] gen_snapshots(1) [OF g] that assms(2)
    by (auto simp: h' gen_set_def) (simp add: bundle_ok_def)
  moreover have "owned ?h"
    using mcp_invD(4) [OF assms(1)] by (auto simp: owned_def h' gen_set_def owners_def b nth_append less_Suc_eq)
  ultimately show ?thesis by (simp add: mcp_inv_def)
qed

lemma reload_move_inv:
  assumes "mcp_inv h" "mh_migrations h = ms @ (i, b # bs, True) # ns"
  shows "mcp_inv ((reload_move now i b h)\<lparr>mh_migrations := ms @ (i, bs, False) # ns\<rparr>)" (is "mcp_inv ?h")
proof -
  have i: "i < length (mh_gens h)" and b: "b < length (mh_bundles h)"
    using mcp_invD(2) [OF assms(1)] assms(2) by (auto simp: names_ok_def)
  define x where "x = mh_bundles h ! b"
  have x: "bundle_ok (mh_gens h) x" using mcp_invD(3) [OF assms(1)] b by (simp add: x_def)
  note old = mcp_invD(1-4) [OF assms(1)]
  show ?thesis
  proof (cases "sb_lease x = None \<or> mh_closed h")
    case True
    then have h: "?h = h\<lparr>mh_held := mh_held h @ [i], mh_migrations := ms @ (i, bs, False) # ns\<rparr>"
      by (auto simp: reload_move_def x_def [symmetric] Let_def split: option.splits)
    have "mcp_leases k ?h = mcp_leases k h" for k unfolding h using assms(2) by (simp add: mcp_leases_def)
    then have "leases_exact ?h" using leases_exact_cong [of ?h h] old(1) by (simp add: h)
    then show ?thesis using old i assms(2) by (auto simp: mcp_inv_def h names_ok_def owned_def owners_def)
  next
    case False
    then obtain j where j: "sb_lease x = Some j" and open': "\<not> mh_closed h" by auto
    define y where "y = x\<lparr>sb_lease := Some i, sb_tools := tool_names (Some (gn_snapshot (mh_gens h ! i))) (sb_principal x), sb_lastSeen := now\<rparr>"
    have h: "?h = h\<lparr>mh_bundles := (mh_bundles h)[b := y], mh_held := mh_held h @ [j], mh_migrations := ms @ (i, bs, False) # ns\<rparr>"
      using j open' by (simp add: reload_move_def x_def [symmetric] Let_def bundle_set_def y_def)
    have "mcp_leases k ?h = mcp_leases k h" for k
      unfolding h using assms(2) tally_update [OF b, of "\<lambda>x. sb_lease x = Some k" y] j
      by (auto simp: mcp_leases_def x_def y_def split: if_splits)
    then have "leases_exact ?h" using leases_exact_cong [of ?h h] old(1) by (simp add: h)
    moreover have "names_ok ?h" using old(2) j x assms(2) by (auto simp: h names_ok_def owners_def bundle_ok_def)
    moreover have "bundle_ok (mh_gens h) y" using i by (simp add: bundle_ok_def y_def)
    then have "\<forall>x \<in> set (mh_bundles ?h). bundle_ok (mh_gens ?h) x"
      using old(3) by (auto simp: h dest!: subsetD [OF set_update_subset_insert])
    moreover have "owned ?h" using old(4) b j by (auto simp: h owned_def owners_def nth_list_update x_def [symmetric] split: if_splits)
    ultimately show ?thesis by (simp add: mcp_inv_def)
  qed
qed

lemma retain_inv:
  assumes "mcp_inv h" "mh_migrations h = ms @ (i, b # bs, False) # ns" "reload_retain i (b # bs) h = (h', m)"
  shows "mcp_inv (h'\<lparr>mh_migrations := ms @ m # ns\<rparr>)"
proof -
  have i: "i < length (mh_gens h)" using mcp_invD(2) [OF assms(1)] assms(2) by (auto simp: names_ok_def)
  obtain ok g where g: "gen_acquire (mh_gens h ! i) = (ok, g)" by (cases "gen_acquire (mh_gens h ! i)")
  define h'' where "h'' = (gen_set i g h)\<lparr>mh_migrations := ms @ m # ns\<rparr>"
  have g_id: "g = mh_gens h ! i" if "\<not> ok" using g that by (auto simp: gen_acquire_def split: if_splits)
  have m: "m = (i, if ok then b # bs else bs, ok)" and h': "h'\<lparr>mh_migrations := ms @ m # ns\<rparr> = h''"
    using assms(3) g g_id by (cases ok; auto simp: reload_retain_def h''_def gen_set_def)+
  have l: "mcp_leases k h'' = (if k = i \<and> ok then Suc (mcp_leases k h) else mcp_leases k h)" for k
    using assms(2) by (simp add: h''_def gen_set_def mcp_leases_def m)
  have "names_ok h''" using mcp_invD(2) [OF assms(1)] assms(2) by (auto simp: names_ok_def owners_def h''_def gen_set_def m)
  moreover have "gen_inv (mcp_leases i h'') g" using gen_acquire_inv [OF mcp_invD(5) [OF assms(1) i] g] by (simp add: l split: if_splits)
  ultimately have "mcp_inv h''"
    using l gen_snapshots(1) [OF g] i
    by (intro gen_change_inv [OF assms(1), of h'' i g]) (simp_all add: h''_def gen_set_def owners_def)
  then show ?thesis by (simp add: h')
qed

lemma release_inv:
  assumes "mcp_inv h" "mh_held h = xs @ i # ys"
  shows "\<exists>g. gen_release (mh_gens h ! i) = Some g \<and> mcp_inv ((gen_set i g h)\<lparr>mh_held := xs @ ys\<rparr>)"
proof -
  have i: "i < length (mh_gens h)" using mcp_invD(7) [OF assms(1)] assms(2) by simp
  define n where "n = (\<lambda>k. mcp_leases k (h\<lparr>mh_held := xs @ ys\<rparr>))"
  have l: "mcp_leases k h = (if k = i then Suc (n k) else n k)" for k using assms(2) by (simp add: n_def mcp_leases_def)
  obtain g where g: "gen_release (mh_gens h ! i) = Some g" "gen_inv (n i) g"
    using gen_release_inv [of "n i"] mcp_invD(5) [OF assms(1) i] l [of i] by auto
  define h' where "h' = (gen_set i g h)\<lparr>mh_held := xs @ ys\<rparr>"
  have "mcp_leases k h' = n k" for k by (simp add: h'_def n_def gen_set_def mcp_leases_def)
  moreover have "owners h' = owners h" by (simp add: h'_def gen_set_def owners_def)
  moreover have "names_ok h'" using mcp_invD(2) [OF assms(1)] assms(2) by (auto simp: names_ok_def owners_def h'_def gen_set_def)
  ultimately have "mcp_inv h'"
    using g i l assms(2) gen_snapshots(2) [OF g(1)]
    by (intro gen_change_inv [OF assms(1), of h' i g]) (auto simp: h'_def gen_set_def)
  then show ?thesis using g(1) by (auto simp: h'_def)
qed

lemma call_inv:
  assumes "mcp_inv h" "i < length (mh_gens h)" "gen_acquire (mh_gens h ! i) = (True, g)"
  shows "mcp_inv ((gen_set i g h)\<lparr>mh_held := mh_held h @ [i]\<rparr>)" (is "mcp_inv ?h")
proof -
  have "mcp_leases k ?h = (if k = i then Suc (mcp_leases k h) else mcp_leases k h)" for k by (simp add: gen_set_def mcp_leases_def)
  moreover have "names_ok ?h" using mcp_invD(2) [OF assms(1)] assms(2) by (auto simp: names_ok_def owners_def gen_set_def)
  ultimately show ?thesis
    using assms(2) gen_acquire_inv [OF mcp_invD(5) [OF assms(1,2)] assms(3)] gen_snapshots(1) [OF assms(3)]
    by (intro gen_change_inv [OF assms(1), of ?h i g]) (auto simp: gen_set_def owners_def)
qed

lemma retire_inv:
  assumes "mcp_inv h" "i < length (mh_gens h)" "gen_retire (mh_gens h ! i) = Some g"
  shows "mcp_inv (gen_set i g h)" (is "mcp_inv ?h")
proof -
  have "mcp_leases k ?h = mcp_leases k h" for k by (simp add: gen_set_def mcp_leases_def)
  moreover have "names_ok ?h" using mcp_invD(2) [OF assms(1)] by (simp add: names_ok_def owners_def gen_set_def)
  ultimately show ?thesis
    using assms(2,3) gen_retire_inv [OF mcp_invD(5) [OF assms(1,2)]] gen_snapshots(3) [OF assms(3)]
    by (intro gen_change_inv [OF assms(1), of ?h i g]) (auto simp: gen_set_def owners_def)
qed

lemma mcp_publish_inv:
  assumes "mcp_inv h" "newGeneration n (Some s) True = Inr g"
  shows "mcp_inv (h\<lparr>mh_gens := mh_gens h @ [g]\<rparr>)" (is "mcp_inv ?h")
proof -
  note old = mcp_invD(1-4) [OF assms(1)]
  have l: "mcp_leases k ?h = mcp_leases k h" for k by (simp add: mcp_leases_def)
  have zero: "tally (\<lambda>x. sb_lease x = Some (length (mh_gens h))) (mh_bundles h) = 0"
    "tally ((=) (length (mh_gens h))) (mh_held h) = 0" "tally (\<lambda>(j, bs, f). f \<and> j = length (mh_gens h)) (mh_migrations h) = 0"
    using old(2,3) by (auto intro!: tally_zero simp: names_ok_def bundle_ok_def)
  then have "mcp_leases (length (mh_gens h)) h = 0" by (simp add: mcp_leases_def)
  moreover have "gen_inv 0 g" using assms(2) by (auto simp: newGeneration_def gen_inv_def)
  ultimately have "leases_exact ?h" using old(1) by (auto simp: leases_exact_def l nth_append less_Suc_eq)
  moreover have "names_ok ?h" using old(2) by (fastforce simp: names_ok_def owners_def)
  ultimately show ?thesis using old(3,4) by (auto simp: mcp_inv_def owned_def owners_def bundle_ok_publish)
qed

lemma close_bundle_inv:
  assumes "mcp_inv h" "mh_closing h = xs @ b # ys"
  shows "mcp_inv (closeBundle b (h\<lparr>mh_closing := xs @ ys\<rparr>))" (is "mcp_inv (closeBundle b ?h)")
proof (rule closeBundle_inv)
  show "leases_exact ?h" using leases_exact_cong [of ?h h] mcp_invD(1) [OF assms(1)] by (simp add: mcp_leases_def)
  show "b < length (mh_bundles ?h)" using mcp_invD(6) [OF assms(1)] assms(2) by (simp add: owners_def)
  show "names_ok ?h" using mcp_invD(2) [OF assms(1)] assms(2) by (auto simp: names_ok_def owners_def)
qed (use mcp_invD(3,4) [OF assms(1)] assms(2) in \<open>auto simp: owned_def owners_def\<close>)

lemma release_session_inv:
  assumes "mcp_inv h"
  shows "mcp_inv (release_session sid h)"
proof -
  have sub: "snd ` set (mh_sessions h) \<subseteq> snd ` set (del sid (mh_sessions h)) \<union> {b. map_of (mh_sessions h) sid = Some b}"
    using mcp_invD(4) [OF assms] by (force simp: set_del owned_def wf_map_def)
  have "b \<in> snd ` set (mh_sessions h)" if "map_of (mh_sessions h) sid = Some b" for b
    using that by (metis image_eqI map_of_SomeD snd_conv)
  then have "snd ` set (del sid (mh_sessions h)) \<union> {b. map_of (mh_sessions h) sid = Some b} = snd ` set (mh_sessions h)"
    using sub by (auto simp: set_del)
  moreover have "set (case map_of (mh_sessions h) sid of None \<Rightarrow> [] | Some b \<Rightarrow> [b]) = {b. map_of (mh_sessions h) sid = Some b}"
    by (auto split: option.splits)
  ultimately have own: "owners (release_session sid h) = owners h"
    by (simp add: owners_def release_session_def) blast
  show ?thesis
  proof (rule tables_inv [OF assms])
    show "names_ok (release_session sid h)"
      using mcp_invD(2) [OF assms] by (simp only: names_ok_def own) (simp add: release_session_def)
  qed (use mcp_invD(4) [OF assms] own in \<open>auto simp: release_session_def owned_def del_def [of _ "[]"]\<close>)
qed

lemma touchOwned_inv:
  assumes "mcp_inv h"
  shows "mcp_inv (touchOwned now sid p h)"
proof (cases "map_of (mh_sessions h) sid")
  case (Some b)
  then have b: "b < length (mh_bundles h)"
    using mcp_invD(6) [OF assms, of b] by (force simp: owners_def dest: map_of_SomeD)
  define x where "x = (mh_bundles h ! b)\<lparr>sb_lastSeen := now\<rparr>"
  have t: "mcp_leases i (bundle_set b x h) = mcp_leases i h" for i
    using tally_update [OF b, of "\<lambda>x. sb_lease x = Some i" x] by (simp add: mcp_leases_def bundle_set_def x_def)
  have "leases_exact (bundle_set b x h)"
    using leases_exact_cong [of "bundle_set b x h" h] t mcp_invD(1) [OF assms] by (simp add: bundle_set_def)
  moreover have "bundle_ok (mh_gens h) x" using mcp_invD(3) [OF assms] b by (simp add: x_def)
  ultimately have "mcp_inv (bundle_set b x h)"
    using mcp_invD(2-4) [OF assms] b
    by (auto simp: mcp_inv_def bundle_set_def names_ok_def owned_def owners_def x_def nth_list_update
        dest!: subsetD [OF set_update_subset_insert] split: if_splits)
  then show ?thesis using assms Some by (simp add: touchOwned_def Let_def x_def)
qed (use assms in \<open>simp add: touchOwned_def\<close>)

lemma releaseTransient_inv:
  assumes "mcp_inv h" "mh_serving h = xs @ b # ys"
  shows "mcp_inv (releaseTransient b (h\<lparr>mh_serving := xs @ ys\<rparr>))"
  using mcp_invD(2,4) [OF assms(1)] assms(2)
  by (intro tables_inv [OF assms(1)]) (auto simp: releaseTransient_def names_ok_def owners_def owned_def)

lemma close_inv:
  assumes "mcp_inv h"
  shows "mcp_inv (close_flag h)" "mh_clearing h \<Longrightarrow> mcp_inv (close_tables h)"
  using mcp_invD(2,4) [OF assms]
  by (auto intro!: tables_inv [OF assms] simp: close_flag_def close_tables_def names_ok_def owners_def owned_def)

lemma onReload_inv:
  assumes "mcp_inv h" "i < length (mh_gens h)"
  shows "mcp_inv (onReload i h)"
  using mcp_invD(2,4) [OF assms(1)] assms
  by (auto intro!: tables_inv [OF assms(1)] simp: onReload_def names_ok_def owners_def owned_def)

lemma work_step_inv: "work_step h h' \<Longrightarrow> mcp_inv h \<Longrightarrow> mcp_inv h'"
proof (induction rule: work_step.induct)
  case (lease_closed h xs i ys g)
  then show ?case using release_inv [of h xs i ys] by auto
qed (auto intro: pending_inv releaseTransient_inv close_bundle_inv retain_inv reload_move_inv close_inv)

lemma mcp_step_inv: "mcp_step h h' \<Longrightarrow> mcp_inv h \<Longrightarrow> mcp_inv h'"
  by (induction rule: mcp_step.induct)
    (auto intro: work_step_inv newBundle_inv touchOwned_inv release_session_inv mcp_publish_inv onReload_inv retire_inv call_inv close_inv)

lemma mcp_reachable_inv:
  assumes "newGeneration n (Some s) True = Inr g0" "mcp_reachable g0 h"
  shows "mcp_inv h"
  using assms(2)
proof induction
  case mcp_init
  have "gen_inv 0 g0" using assms(1) by (auto simp: newGeneration_def gen_inv_def)
  then show ?case
    by (simp add: mcp_inv_def leases_exact_def names_ok_def owned_def owners_def new_handler_def mcp_leases_def)
qed (rule mcp_step_inv)

section \<open>Shutdown\<close>

text \<open>A bound on the steps running code still makes once the handler is closed.\<close>

fun visit_work :: "nat \<times> nat list \<times> bool \<Rightarrow> nat" where
  "visit_work (i, bs, f) = 4 * length bs - (if f then 1 else 0)"

definition mcp_work :: "mcp_handler \<Rightarrow> nat" where
  "mcp_work h = (if mh_clearing h then 1 else 0) + 3 * length (mh_sessions h) + 3 * length (mh_transients h)
     + 3 * length (mh_pending h) + 4 * length (mh_serving h) + 3 * length (mh_closing h) + length (mh_held h)
     + sum_list (map visit_work (mh_migrations h))"

lemma closeBundle_work: "mcp_work (closeBundle b h) \<le> Suc (mcp_work h)"
  by (auto simp: mcp_work_def closeBundle_def bundle_set_def split: option.splits)

lemma removeAll_less: "b \<in> set xs \<Longrightarrow> length (removeAll b xs) < length xs"
  by (simp add: length_removeAll_less)

lemma pending_work:
  assumes "b \<in> set (mh_pending h)" "mh_closed h"
  shows "mcp_work (finish_pending sid status b h) < mcp_work h" "mcp_work (keep_transient b h) < mcp_work h"
proof -
  define h1 where "h1 = h\<lparr>mh_pending := removeAll b (mh_pending h)\<rparr>"
  have "mcp_work h1 + 3 \<le> mcp_work h" using removeAll_less [OF assms(1)] by (simp add: mcp_work_def h1_def)
  then have less: "mcp_work (closeBundle b h1) < mcp_work h" using closeBundle_work [of b h1] by simp
  have "finish_pending sid status b h = closeBundle b h1" "keep_transient b h = closeBundle b h1"
    using assms(2) by (auto simp: finish_pending_def keep_transient_def store_def storeTransient_def h1_def Let_def)
  with less show "mcp_work (finish_pending sid status b h) < mcp_work h" "mcp_work (keep_transient b h) < mcp_work h" by simp_all
qed

lemma work_step_decreases: "work_step h h' \<Longrightarrow> mh_closed h \<Longrightarrow> mcp_work h' < mcp_work h \<and> mh_closed h'"
proof (induction rule: work_step.induct)
  case (end_session b h sid status)
  then show ?case using pending_work(1) [of b h sid status]
    by (auto simp: finish_pending_def store_def Let_def)
next
  case (begin_transient b h)
  then show ?case using pending_work(2) [of b h] by (auto simp: keep_transient_def storeTransient_def Let_def)
next
  case (end_transient h xs b ys)
  then show ?case by (simp add: mcp_work_def releaseTransient_def less_Suc_eq_le removeAll_filter_not_eq)
next
  case (close_bundle h xs b ys)
  then show ?case using closeBundle_work [of b "h\<lparr>mh_closing := xs @ ys\<rparr>"] by (simp add: mcp_work_def)
next
  case (visit_retain h ms i b bs ns h' m)
  then show ?case by (auto simp: mcp_work_def reload_retain_def gen_set_def split: prod.splits bool.splits)
next
  case (visit_move h ms i b bs ns now)
  then show ?case by (auto simp: mcp_work_def reload_move_def Let_def split: option.splits)
qed (auto simp: mcp_work_def gen_set_def close_tables_def)

text \<open>A closed handler with a bundle or lease outstanding can always go on.\<close>

lemma closed_stuck_idle:
  assumes inv: "mcp_inv h" and "mh_closed h" and stuck: "\<And>h'. \<not> work_step h h'"
  shows "mcp_leases i h = 0"
proof -
  have clearing: "\<not> mh_clearing h" and pending: "mh_pending h = []" and serving: "mh_serving h = []"
    using stuck work_step.close_clears [of h] work_step.end_session [of _ h] work_step.end_transient [of h "[]"]
    by (auto simp: neq_Nil_conv) (metis list.set_intros(1) neq_Nil_conv, metis append_Nil neq_Nil_conv)
  have closing: "mh_closing h = []"
    using stuck work_step.close_bundle [of h "[]"] by (metis append_Nil neq_Nil_conv)
  have held: "mh_held h = []"
  proof (rule ccontr)
    assume "mh_held h \<noteq> []"
    then obtain i ys where "mh_held h = [] @ i # ys" by (metis append_Nil neq_Nil_conv)
    then show False using release_inv [OF inv] work_step.lease_closed stuck by blast
  qed
  have moved: "bs = []" if "(j, bs, f) \<in> set (mh_migrations h)" for j bs f
  proof (rule ccontr)
    assume "bs \<noteq> []"
    then obtain b cs where "bs = b # cs" by (metis neq_Nil_conv)
    with that obtain ms ns where ms: "mh_migrations h = ms @ (j, b # cs, f) # ns" by (metis split_list)
    obtain h' m where "reload_retain j (b # cs) h = (h', m)" by (cases "reload_retain j (b # cs) h")
    then show False using ms stuck work_step.visit_retain [of h ms j b cs ns h' m] work_step.visit_move [of h ms j b cs ns]
      by (cases f) auto
  qed
  have tables: "owners h = {}" using mcp_invD(4) [OF inv] assms(2) clearing pending closing by (simp add: owned_def owners_def)
  then have "sb_lease x = None" if "x \<in> set (mh_bundles h)" for x
    using mcp_invD(4) [OF inv] that by (auto simp: owned_def in_set_conv_nth)
  moreover have "\<not> f" if "(j, bs, f) \<in> set (mh_migrations h)" for j bs f
    using mcp_invD(2) [OF inv] moved [OF that] that by (auto simp: names_ok_def)
  ultimately show ?thesis using held by (auto simp: mcp_leases_def intro!: tally_zero)
qed

lemma work_run_bounded: "(work_step ^^ n) h h' \<Longrightarrow> mcp_inv h \<Longrightarrow> mh_closed h \<Longrightarrow> n + mcp_work h' \<le> mcp_work h \<and> mcp_inv h' \<and> mh_closed h'"
proof (induction n arbitrary: h')
  case (Suc n)
  then obtain h1 where "(work_step ^^ n) h h1" "work_step h1 h'" by auto
  then show ?case using Suc work_step_inv work_step_decreases by fastforce
qed simp

section \<open>Results\<close>

text \<open>C7. However requests, deletions, expiry, reloads, tool calls and shutdown interleave, the active
  count of every generation is the number of leases held by session bundles, by running code and by
  reload callbacks; closing a held lease never panics; and a bundle with a lease lists exactly the
  tools of the generation it leases, which has not drained.
\<close>

theorem mcp_leases_accounted:
  assumes "newGeneration n (Some s) True = Inr g0" and "mcp_reachable g0 h"
  shows "(\<forall>i < length (mh_gens h). gn_active (mh_gens h ! i) = int (mcp_leases i h))
    \<and> (\<forall>i \<in> set (mh_held h). gen_release (mh_gens h ! i) \<noteq> None)
    \<and> (\<forall>x \<in> set (mh_bundles h). \<forall>i. sb_lease x = Some i \<longrightarrow> i < length (mh_gens h)
         \<and> \<not> gn_drained (mh_gens h ! i) \<and> sb_tools x = tool_names (Some (gn_snapshot (mh_gens h ! i))) (sb_principal x))"
proof (intro conjI allI ballI impI)
  have inv: "mcp_inv h" using assms by (rule mcp_reachable_inv)
  show "gn_active (mh_gens h ! i) = int (mcp_leases i h)" if "i < length (mh_gens h)" for i
    using mcp_invD(5) [OF inv that] by (simp add: gen_inv_def)
  show "gen_release (mh_gens h ! i) \<noteq> None" if "i \<in> set (mh_held h)" for i
    using release_inv [OF inv] split_list [OF that] by fastforce
  fix x i assume x: "x \<in> set (mh_bundles h)" "sb_lease x = Some i"
  then show i: "i < length (mh_gens h)" and "sb_tools x = tool_names (Some (gn_snapshot (mh_gens h ! i))) (sb_principal x)"
    using mcp_invD(3) [OF inv] by (auto simp: bundle_ok_def)
  have "0 < tally (\<lambda>x. sb_lease x = Some i) (mh_bundles h)" using x by (metis (mono_tags, lifting) in_set_conv_nth tally_pos)
  then show "\<not> gn_drained (mh_gens h ! i)" using mcp_invD(5) [OF inv i] by (simp add: gen_inv_def mcp_leases_def)
qed

text \<open>C15. Once the handler is closed, running code finishes: it makes at most \<open>mcp_work\<close> more steps, and
  when it can make none, no generation has a lease left, so a retired generation has drained.
\<close>

theorem mcp_shutdown_terminates:
  assumes "newGeneration n (Some s) True = Inr g0" and "mcp_reachable g0 h" and "mh_closed h" and "(work_step ^^ k) h h'"
  shows "k \<le> mcp_work h \<and> ((\<forall>h''. \<not> work_step h' h'') \<longrightarrow>
    (\<forall>g \<in> set (mh_gens h'). gn_active g = 0 \<and> (gn_retired g \<longrightarrow> gn_drained g)))"
proof -
  have run: "k + mcp_work h' \<le> mcp_work h" "mcp_inv h'" "mh_closed h'"
    using work_run_bounded [OF assms(4) mcp_reachable_inv [OF assms(1,2)] assms(3)] by simp_all
  have "gn_active g = 0 \<and> (gn_retired g \<longrightarrow> gn_drained g)" if stuck: "\<forall>h''. \<not> work_step h' h''" and g: "g \<in> set (mh_gens h')" for g
  proof -
    obtain i where i: "i < length (mh_gens h')" "g = mh_gens h' ! i" using g by (auto simp: in_set_conv_nth)
    then show ?thesis using mcp_invD(5) [OF run(2) i(1)] closed_stuck_idle [OF run(2,3), of i] stuck by (auto simp: gen_inv_def)
  qed
  then show ?thesis using run(1) by simp
qed

section \<open>Examples\<close>

text \<open>A session opened and stored, a reload that has moved it, and shutdown with its three steps.\<close>

definition demo_next :: generation where
  "demo_next = demo_generation\<lparr>gn_id := 2\<rparr>"

definition demo_opened :: mcp_handler where
  "demo_opened = (let h = snd (the (newBundle 0 demo_caller 0 (new_handler [demo_generation]))) in h\<lparr>mh_pending := mh_pending h @ [0]\<rparr>)"

definition demo_session :: mcp_handler where
  "demo_session = finish_pending ''s'' 200 0 demo_opened"

definition demo_closed :: mcp_handler where
  "demo_closed = close_flag demo_session"

lemma demo_generation_new: "newGeneration 1 (Some demo_snapshot) True = Inr demo_generation"
  by (simp add: newGeneration_def demo_generation_def)

lemma demo_opened_reachable: "mcp_reachable demo_generation demo_opened"
proof -
  have "newBundle 0 demo_caller 0 (new_handler [demo_generation]) = Some (0, snd (the (newBundle 0 demo_caller 0 (new_handler [demo_generation]))))"
    by (simp add: newBundle_def new_handler_def gen_acquire_def demo_generation_def)
  then show ?thesis
    unfolding demo_opened_def Let_def by (intro mcp_next [OF mcp_init] begin_session) (auto simp: new_handler_def)
qed

lemma demo_session_reachable: "mcp_reachable demo_generation demo_session"
  unfolding demo_session_def
  by (intro mcp_next [OF demo_opened_reachable] work end_session) (simp add: demo_opened_def Let_def)

lemma demo_closed_reachable: "mcp_reachable demo_generation demo_closed"
  unfolding demo_closed_def by (intro mcp_next [OF demo_session_reachable] close_begins)

lemmas demo_handlers = demo_opened_def demo_session_def demo_closed_def Let_def newBundle_def new_handler_def gen_acquire_def gen_set_def
  demo_generation_def finish_pending_def store_def close_flag_def

theorem mcp_leases_accounted_witness:
  "gn_active (mh_gens demo_session ! 0) = 1 \<and> map sb_lease (mh_bundles demo_session) = [Some 0]
   \<and> map sb_tools (mh_bundles demo_session) = [tool_names (Some demo_snapshot) demo_caller]"
proof -
  have x: "map sb_lease (mh_bundles demo_session) = [Some 0]" "length (mh_gens demo_session) = 1" "mh_held demo_session = []"
    "mh_migrations demo_session = []" "map sb_principal (mh_bundles demo_session) = [demo_caller]" "gn_snapshot (mh_gens demo_session ! 0) = demo_snapshot"
    by (simp_all add: demo_handlers)
  then show ?thesis
    using mcp_leases_accounted [OF demo_generation_new demo_session_reachable] by (auto simp: mcp_leases_def)
qed

theorem mcp_shutdown_terminates_witness:
  "3 \<le> mcp_work demo_closed \<and> (\<exists>h'. (work_step ^^ 3) demo_closed h' \<and> map gn_active (mh_gens demo_closed) = [1] \<and> map gn_active (mh_gens h') = [0])"
proof -
  define h1 where "h1 = close_tables demo_closed"
  define h2 where "h2 = closeBundle 0 (h1\<lparr>mh_closing := [] @ []\<rparr>)"
  define h3 where "h3 = (gen_set 0 (the (gen_release (mh_gens h2 ! 0))) h2)\<lparr>mh_held := [] @ []\<rparr>"
  note hs = h1_def h2_def h3_def close_tables_def closeBundle_def bundle_set_def gen_release_def demo_handlers
  have "work_step demo_closed h1" unfolding h1_def by (rule close_clears) (simp add: demo_handlers)
  moreover have "work_step h1 h2" unfolding h2_def by (rule close_bundle) (simp add: hs)
  moreover have "work_step h2 h3" unfolding h3_def by (rule lease_closed) (simp_all add: hs)
  ultimately have run: "(work_step ^^ 3) demo_closed h3" by (auto simp: numeral_3_eq_3)
  have stuck: "\<forall>h''. \<not> work_step h3 h''"
  proof (intro allI notI)
    fix h'' assume "work_step h3 h''"
    then show False by cases (simp_all add: hs)
  qed
  have "mh_closed demo_closed" by (simp add: demo_handlers)
  note mcp_shutdown_terminates [OF demo_generation_new demo_closed_reachable this run]
  moreover have "length (mh_gens h3) = 1" "map gn_active (mh_gens demo_closed) = [1]" by (simp_all add: hs)
  ultimately show ?thesis using run stuck by (auto simp: length_Suc_conv)
qed

text \<open>
  A session whose bundle was made before a reload and stored after the reload's callback keeps its
  lease on the old generation, which is retired: its tool calls are refused until the next reload or
  its expiry.
\<close>

definition demo_late :: mcp_handler where
  "demo_late = finish_pending ''s'' 200 0
     (gen_set 0 (the (gen_retire (mh_gens demo_opened ! 0))) (onReload 1 (demo_opened\<lparr>mh_gens := mh_gens demo_opened @ [demo_next]\<rparr>)))"

theorem late_session_not_moved:
  "mcp_reachable demo_generation demo_late \<and> \<not> mh_closed demo_late \<and> map_of (mh_sessions demo_late) ''s'' = Some 0
   \<and> map sb_lease (mh_bundles demo_late) = [Some 0] \<and> gn_retired (mh_gens demo_late ! 0) \<and> mh_migrations demo_late = [(1, [], False)]"
proof -
  define h1 where "h1 = demo_opened\<lparr>mh_gens := mh_gens demo_opened @ [demo_next]\<rparr>"
  have "newGeneration 2 (Some demo_snapshot) True = Inr demo_next" by (simp add: newGeneration_def demo_next_def demo_generation_def)
  then have "mcp_reachable demo_generation h1" unfolding h1_def by (intro mcp_next [OF demo_opened_reachable] publish)
  then have "mcp_reachable demo_generation (onReload 1 h1)" by (rule mcp_next) (intro callback, simp add: h1_def demo_handlers)
  then have "mcp_reachable demo_generation (gen_set 0 (the (gen_retire (mh_gens demo_opened ! 0))) (onReload 1 h1))"
    by (rule mcp_next) (intro retire, simp_all add: h1_def demo_handlers onReload_def gen_retire_def)
  then have "mcp_reachable demo_generation demo_late"
    unfolding demo_late_def h1_def [symmetric]
    by (rule mcp_next) (intro work end_session, simp add: h1_def demo_handlers onReload_def)
  then show ?thesis by (simp add: demo_late_def demo_handlers onReload_def gen_retire_def)
qed

end
