(* ===== verification/Runtime_Build.thy ===== *)
theory Runtime_Build
  imports Credential_Manager Audit_Dispatcher Invoke_Service Runtime_Gen
begin

text \<open>
  How generations come to be: the builder that \<open>cmd/cli-gateway/main.go\<close> gives to the runtime manager,
  and \<open>NewManager\<close>, \<open>build\<close> and \<open>Reload\<close> of \<open>internal/runtime/manager.go\<close>, which run under the reload
  lock. \<open>Runtime_Gen\<close> has the interleaving of \<open>Reload\<close> with the rest of the manager.
\<close>

section \<open>Components\<close>

record ('s, 'w, 'c) builder_env =
  bv_credentials :: "('s, 'w, 'c) manager_env"
  bv_audit :: build_env
  bv_newClient :: "compiled_command \<Rightarrow> string option"

record 'c components =
  cm_providers :: "'c providers"
  cm_service :: service
  cm_audit :: dispatcher

text \<open>
  The builder. Besides its result and the shared broker it returns the dispatchers that it started and
  that nobody will close.
\<close>

definition buildComponents ::
  "('s, 'w, 'c) builder_env \<Rightarrow> snapshot \<Rightarrow> ('s, 'c) broker option
   \<Rightarrow> (string + 'c components) \<times> ('s, 'c) broker option \<times> dispatcher list" where
  "buildComponents env s broker =
     (case newCredentialManager (bv_credentials env) (Some s) broker of
        (Inl e, b) \<Rightarrow> (Inl e, b, [])
      | (Inr ps, b) \<Rightarrow>
          (case newLimiter s of
             None \<Rightarrow> (Inl ''nil pointer dereference'', b, [])
           | Some l \<Rightarrow>
               (case buildAudit (bv_audit env) (sn_auditSinks s) of
                  Inl (e, _) \<Rightarrow> (Inl e, b, [])
                | Inr d \<Rightarrow>
                    (case preflight (bv_newClient env) (Some s) \<lparr>sv_admission = Some l, sv_clients = []\<rparr> of
                       (Some e, _) \<Rightarrow> (Inl e, b, [d])
                     | (None, sv) \<Rightarrow> (Inr \<lparr>cm_providers = ps, cm_service = sv, cm_audit = d\<rparr>, b, [])))))"

section \<open>The manager\<close>

record ('s, 'c) runtime_manager =
  rm_path :: string
  rm_nextID :: nat
  rm_current :: "(generation \<times> 'c components) option"
  rm_closed :: bool
  rm_broker :: "('s, 'c) broker option"
  rm_draining :: "(generation \<times> 'c components) list"
  rm_orphans :: "dispatcher list"

definition buildGeneration ::
  "('s, 'w, 'c) builder_env \<Rightarrow> snapshot \<Rightarrow> ('s, 'c) runtime_manager
   \<Rightarrow> (string + generation \<times> 'c components) \<times> ('s, 'c) runtime_manager" where
  "buildGeneration env s m =
     (case buildComponents env s (rm_broker m) of
        (Inl e, b, ds) \<Rightarrow> (Inl (''build runtime components: '' @ e), m\<lparr>rm_broker := b, rm_orphans := rm_orphans m @ ds\<rparr>)
      | (Inr c, b, ds) \<Rightarrow>
          (let m1 = m\<lparr>rm_broker := b, rm_nextID := Suc (rm_nextID m)\<rparr>
           in case newGeneration (rm_nextID m1) (Some s) True of
                Inl e \<Rightarrow> (Inl e, m1)
              | Inr g \<Rightarrow> (Inr (g, c), m1)))"

definition newRuntimeManager ::
  "(string \<Rightarrow> string + string) \<Rightarrow> (string \<Rightarrow> load_error + snapshot) \<Rightarrow> ('s, 'w, 'c) builder_env \<Rightarrow> ('s, 'c) broker option
   \<Rightarrow> string \<Rightarrow> load_error + ('s, 'c) runtime_manager" where
  "newRuntimeManager absPath loadF env broker path =
     (case absPath path of
        Inl e \<Rightarrow> Inl (ReadError (''resolve manifest path: '' @ e))
      | Inr absolute \<Rightarrow>
          (case loadF absolute of
             Inl e \<Rightarrow> Inl e
           | Inr s \<Rightarrow>
               (case buildGeneration env s \<lparr>rm_path = absolute, rm_nextID = 0, rm_current = None, rm_closed = False, rm_broker = broker,
                       rm_draining = [], rm_orphans = []\<rparr> of
                  (Inl e, _) \<Rightarrow> Inl (ReadError e)
                | (Inr gc, m) \<Rightarrow> Inr (m\<lparr>rm_current := Some gc\<rparr>))))"

definition reloadRuntime ::
  "(string \<Rightarrow> load_error + snapshot) \<Rightarrow> ('s, 'w, 'c) builder_env \<Rightarrow> ('s, 'c) runtime_manager
   \<Rightarrow> load_error option \<times> ('s, 'c) runtime_manager" where
  "reloadRuntime loadF env m =
     (if rm_closed m then (Some (ReadError ''runtime manager is closed''), m)
      else case loadF (rm_path m) of
        Inl e \<Rightarrow> (Some e, m)
      | Inr s \<Rightarrow>
          (case checkReloadCompatibility (map_option (\<lambda>gc. gn_snapshot (fst gc)) (rm_current m)) (Some s) of
             Some msg \<Rightarrow> (Some (RestartRequired msg), m)
           | None \<Rightarrow>
               (case buildGeneration env s m of
                  (Inl e, m1) \<Rightarrow> (Some (ReadError e), m1)
                | (Inr gc, m1) \<Rightarrow>
                    (None, m1\<lparr>rm_current := Some gc,
                              rm_draining := rm_draining m @ (case rm_current m of None \<Rightarrow> [] | Some p \<Rightarrow> [p])\<rparr>))))"

fun reload_runtime_all ::
  "((string \<Rightarrow> load_error + snapshot) \<times> ('s, 'w, 'c) builder_env) list \<Rightarrow> ('s, 'c) runtime_manager \<Rightarrow> ('s, 'c) runtime_manager" where
  "reload_runtime_all [] m = m"
| "reload_runtime_all ((l, env) # rs) m = reload_runtime_all rs (snd (reloadRuntime l env m))"

section \<open>What a build gives\<close>

text \<open>Every command has a provider of its mode, an admission budget and a transport; auditing runs.\<close>

definition components_complete :: "snapshot \<Rightarrow> 'c components \<Rightarrow> bool" where
  "components_complete s c \<longleftrightarrow> covers s (cm_providers c)
     \<and> (\<exists>l. sv_admission (cm_service c) = Some l \<and> adm_inv (l, [])
          \<and> (\<forall>k cmd. sn_commands s k = Some cmd \<longrightarrow> cmd_domain cmd \<in> set (keys (lm_domains l))))
     \<and> (\<forall>k cmd. sn_commands s k = Some cmd \<longrightarrow>
          (\<exists>u. cmd_upstream cmd = Some u \<and> clientKey cmd u \<in> set (keys (sv_clients (cm_service c)))))
     \<and> ad_queue (cm_audit c) = [] \<and> \<not> ad_closed (cm_audit c) \<and> length (ad_sinks (cm_audit c)) = length (sn_auditSinks s)"

lemma add_domains_covers:
  assumes "add_domains commands ks ds = Some ds'"
  shows "set (keys ds) \<subseteq> set (keys ds') \<and> (\<forall>k \<in> set ks. \<forall>c. commands k = Some c \<longrightarrow> cmd_domain c \<in> set (keys ds'))"
  using assms
proof (induction ks arbitrary: ds)
  case (Cons k ks)
  then obtain c where c: "commands k = Some c" by (auto split: option.splits)
  show ?case
  proof (cases "cmd_domain c \<in> set (keys ds)")
    case True
    then have "add_domains commands ks ds = Some ds'" using Cons.prems c by simp
    from Cons.IH [OF this] True c show ?thesis by auto
  next
    case False
    then obtain d where "add_domains commands ks (put (cmd_domain c) d ds) = Some ds'" using Cons.prems c by (simp split: if_splits)
    from Cons.IH [OF this] c show ?thesis by auto
  qed
qed simp

lemma client_covers:
  assumes "client mk c s = (Inr ke, s')"
  shows "sv_admission s' = sv_admission s \<and> set (keys (sv_clients s)) \<subseteq> set (keys (sv_clients s'))
    \<and> (\<exists>u. cmd_upstream c = Some u \<and> clientKey c u \<in> set (keys (sv_clients s')))"
  using assms
  by (auto simp: client_def Let_def split: option.splits if_splits dest: map_of_SomeD) (metis map_of_SomeD image_eqI fst_conv)+

lemma preflight_keys_covers:
  assumes "preflight_keys mk sn ks s = (None, s')"
  shows "sv_admission s' = sv_admission s \<and> set (keys (sv_clients s)) \<subseteq> set (keys (sv_clients s'))
    \<and> (\<forall>k \<in> set ks. \<exists>c u. sn_commands sn k = Some c \<and> cmd_upstream c = Some u \<and> clientKey c u \<in> set (keys (sv_clients s')))"
  using assms
proof (induction ks arbitrary: s)
  case (Cons k ks)
  from Cons.prems obtain c ke s1 where c: "sn_commands sn k = Some c" "client mk c s = (Inr ke, s1)" "preflight_keys mk sn ks s1 = (None, s')"
    by (auto split: option.splits prod.splits sum.splits)
  obtain u where u: "cmd_upstream c = Some u" "clientKey c u \<in> set (keys (sv_clients s1))" "sv_admission s1 = sv_admission s"
    "set (keys (sv_clients s)) \<subseteq> set (keys (sv_clients s1))" using client_covers [OF c(2)] by blast
  have ih: "sv_admission s' = sv_admission s1" "set (keys (sv_clients s1)) \<subseteq> set (keys (sv_clients s'))"
    "\<forall>k \<in> set ks. \<exists>c u. sn_commands sn k = Some c \<and> cmd_upstream c = Some u \<and> clientKey c u \<in> set (keys (sv_clients s'))"
    using Cons.IH [OF c(3)] by blast+
  have key: "clientKey c u \<in> set (keys (sv_clients s'))" using ih(2) u(2) by (rule subsetD)
  show ?case
  proof (intro conjI ballI)
    show "sv_admission s' = sv_admission s" using ih(1) u(3) by simp
    show "set (keys (sv_clients s)) \<subseteq> set (keys (sv_clients s'))" using u(4) ih(2) by (rule subset_trans)
    fix k' assume "k' \<in> set (k # ks)"
    then consider "k' = k" | "k' \<in> set ks" by auto
    then show "\<exists>c u. sn_commands sn k' = Some c \<and> cmd_upstream c = Some u \<and> clientKey c u \<in> set (keys (sv_clients s'))"
      using ih(3) c(1) u(1) key by cases blast+
  qed
qed simp

lemma open_sinks_length: "open_sinks bl cs opened = Inr sinks \<Longrightarrow> length sinks = length opened + length cs"
  by (induction cs arbitrary: opened) (auto split: sum.splits)

lemma buildAudit_fresh:
  "buildAudit bl cs = Inr d \<Longrightarrow> ad_queue d = [] \<and> \<not> ad_closed d \<and> length (ad_sinks d) = length cs"
  by (auto simp: buildAudit_def newDispatcher_def split: sum.splits dest: open_sinks_length)

lemma buildComponents_complete:
  assumes "buildComponents env s broker = (Inr c, b, ds)" "snapshot_wf s" "domains_uniform s"
  shows "components_complete s c \<and> ds = []"
proof -
  obtain ps l d sv where b: "newCredentialManager (bv_credentials env) (Some s) broker = (Inr ps, b)" "newLimiter s = Some l"
    "buildAudit (bv_audit env) (sn_auditSinks s) = Inr d"
    "preflight_keys (bv_newClient env) s (sn_commandKeys s) \<lparr>sv_admission = Some l, sv_clients = []\<rparr> = (None, sv)"
    "c = \<lparr>cm_providers = ps, cm_service = sv, cm_audit = d\<rparr>" "ds = []"
    using assms(1) by (auto simp: buildComponents_def preflight_def split: prod.splits sum.splits option.splits)
  have ks: "k \<in> set (sn_commandKeys s)" if "sn_commands s k = Some cmd" for k cmd using snapshot_wf_command [OF assms(2) that] by simp
  obtain dm where dm: "add_domains (sn_commands s) (sn_commandKeys s) [] = Some dm" "lm_domains l = dm" using b(2) by (auto simp: newLimiter_def)
  have "sv_admission sv = Some l" and cl: "\<And>k. k \<in> set (sn_commandKeys s) \<Longrightarrow>
      \<exists>c u. sn_commands s k = Some c \<and> cmd_upstream c = Some u \<and> clientKey c u \<in> set (keys (sv_clients sv))"
    using preflight_keys_covers [OF b(4)] by simp_all
  moreover have "cmd_domain cmd \<in> set (keys (lm_domains l))" if "sn_commands s k = Some cmd" for k cmd
    using add_domains_covers [OF dm(1)] ks [OF that] that dm(2) by blast
  moreover have "\<exists>u. cmd_upstream cmd = Some u \<and> clientKey cmd u \<in> set (keys (sv_clients sv))" if "sn_commands s k = Some cmd" for k cmd
    using cl [OF ks [OF that]] that by auto
  ultimately show ?thesis
    using manager_covers [OF b(1) assms(2,3)] newLimiter_inv [OF b(2)] buildAudit_fresh [OF b(3)] b(5,6)
    by (simp add: components_complete_def)
qed

text \<open>A well-formed snapshot has a limiter, and transports that can be built pass the preflight.\<close>

lemma newLimiter_wf: "snapshot_wf s \<Longrightarrow> newLimiter s \<noteq> None"
proof -
  have "add_domains cs ks ds \<noteq> None" if "set ks \<subseteq> dom cs" for cs ks ds
    using that by (induction ks arbitrary: ds) (auto split: option.splits)
  moreover assume "snapshot_wf s"
  ultimately show ?thesis by (simp add: newLimiter_def snapshot_wf_def)
qed

lemma preflight_wf:
  assumes "snapshot_wf s" "\<And>c. mk c = None"
  shows "fst (preflight mk (Some s) sv) = None"
proof -
  have up: "\<exists>c u. sn_commands s k = Some c \<and> cmd_upstream c = Some u" if "k \<in> set (sn_commandKeys s)" for k
  proof -
    have "k \<in> dom (sn_commands s)" using assms(1) that by (simp add: snapshot_wf_def)
    then obtain c where "sn_commands s k = Some c" by blast
    then show ?thesis using snapshot_wf_command [OF assms(1)] by (fastforce simp: command_compiled_def)
  qed
  have "fst (preflight_keys mk s ks sv) = None" if "set ks \<subseteq> set (sn_commandKeys s)" for ks
    using that
  proof (induction ks arbitrary: sv)
    case (Cons k ks)
    then have "k \<in> set (sn_commandKeys s)" by simp
    from up [OF this] obtain c u where "sn_commands s k = Some c" "cmd_upstream c = Some u" by blast
    then show ?case using Cons assms(2) by (auto simp: client_def Let_def split: option.splits)
  qed simp
  then show ?thesis by (simp add: preflight_def)
qed

lemma loadFile_domains_uniform: "loadFile yaml sha now readFile path = Inr s \<Longrightarrow> domains_uniform s"
  by (auto simp: loadFile_def load_def Let_def compile_domains_uniform split: sum.splits trailing.splits if_splits)

lemma buildGeneration_complete:
  assumes "buildGeneration env s m = (Inr (g, c), m')" "snapshot_wf s" "domains_uniform s"
  shows "gn_snapshot g = s \<and> components_complete s c \<and> gn_id g = Suc (rm_nextID m) \<and> gen_inv 0 g \<and> \<not> gn_retired g
    \<and> (\<exists>b. m' = m\<lparr>rm_broker := b, rm_nextID := Suc (rm_nextID m)\<rparr>)"
proof -
  obtain b ds where b: "buildComponents env s (rm_broker m) = (Inr c, b, ds)"
    and g: "newGeneration (Suc (rm_nextID m)) (Some s) True = Inr g" "m' = m\<lparr>rm_broker := b, rm_nextID := Suc (rm_nextID m)\<rparr>"
    using assms(1) by (auto simp: buildGeneration_def Let_def split: prod.splits sum.splits)
  then show ?thesis using buildComponents_complete [OF b assms(2,3)] by (auto simp: newGeneration_def gen_inv_def)
qed

lemma buildGeneration_fails:
  "buildGeneration env s m = (Inl e, m') \<Longrightarrow> rm_current m' = rm_current m \<and> rm_nextID m' = rm_nextID m \<and> rm_draining m' = rm_draining m
     \<and> rm_path m' = rm_path m \<and> rm_closed m' = rm_closed m"
  by (auto simp: buildGeneration_def newGeneration_def Let_def split: prod.splits sum.splits)

section \<open>Reloading\<close>

definition published_ok :: "snapshot \<Rightarrow> ('s, 'c) runtime_manager \<Rightarrow> bool" where
  "published_ok start m \<longleftrightarrow> (\<exists>g c. rm_current m = Some (g, c) \<and> snapshot_wf (gn_snapshot g) \<and> components_complete (gn_snapshot g) c
     \<and> process_fields (gn_snapshot g) = process_fields start \<and> gn_id g = rm_nextID m \<and> \<not> gn_retired g
     \<and> sorted_wrt (<) (map (\<lambda>p. gn_id (fst p)) (rm_draining m) @ [gn_id g]))"

lemma reloadRuntime_fails_keeps:
  "fst (reloadRuntime l env m) \<noteq> None \<Longrightarrow>
   rm_current (snd (reloadRuntime l env m)) = rm_current m \<and> rm_draining (snd (reloadRuntime l env m)) = rm_draining m"
  by (auto simp: reloadRuntime_def split: sum.splits option.splits prod.splits if_splits dest!: buildGeneration_fails)

lemma reloadRuntime_ok:
  assumes "published_ok start m" "\<And>s. l (rm_path m) = Inr s \<Longrightarrow> snapshot_wf s \<and> domains_uniform s"
  shows "published_ok start (snd (reloadRuntime l env m)) \<and> rm_path (snd (reloadRuntime l env m)) = rm_path m"
proof -
  obtain g c where cur: "rm_current m = Some (g, c)" "process_fields (gn_snapshot g) = process_fields start" "gn_id g = rm_nextID m"
    "sorted_wrt (<) (map (\<lambda>p. gn_id (fst p)) (rm_draining m) @ [gn_id g])"
    using assms(1) by (auto simp: published_ok_def)
  show ?thesis
  proof (cases "fst (reloadRuntime l env m)")
    case (Some e)
    then show ?thesis using assms(1)
      by (auto simp: reloadRuntime_def published_ok_def split: sum.splits option.splits prod.splits if_splits dest!: buildGeneration_fails)
  next
    case None
    then obtain s g' c' m1 where s: "l (rm_path m) = Inr s" "restartOnlyChanged (Some (gn_snapshot g)) (Some s) = None"
      "buildGeneration env s m = (Inr (g', c'), m1)" "snd (reloadRuntime l env m) = m1\<lparr>rm_current := Some (g', c'), rm_draining := rm_draining m @ [(g, c)]\<rparr>"
      using cur(1) by (auto simp: reloadRuntime_def checkReloadCompatibility_def split: sum.splits option.splits prod.splits if_splits)
    have "snapshot_wf s" "domains_uniform s" using assms(2) [OF s(1)] by simp_all
    from buildGeneration_complete [OF s(3) this] s(2) cur \<open>snapshot_wf s\<close> show ?thesis
      unfolding s(4) published_ok_def by (auto simp: restartOnlyChanged_None_iff sorted_wrt_append)
  qed
qed

lemma reload_runtime_all_ok:
  assumes "published_ok start m" "\<forall>r \<in> set rs. \<exists>y h t f. fst r = loadFile y h t f"
  shows "published_ok start (reload_runtime_all rs m)"
  using assms
proof (induction rs arbitrary: m)
  case (Cons r rs)
  obtain l e where r: "r = (l, e)" by (cases r)
  have "\<exists>y h t f. l = loadFile y h t f" using Cons.prems(2) r by simp
  then have "published_ok start (snd (reloadRuntime l e m))"
    by (intro conjunct1 [OF reloadRuntime_ok [OF Cons.prems(1)]]) (auto intro: loadFile_wf loadFile_domains_uniform)
  with Cons r show ?case by simp
qed simp

section \<open>Results\<close>


text \<open>A build whose preflight fails leaves the dispatcher it has started running, with its sinks open.\<close>

theorem failed_preflight_orphans_dispatcher:
  assumes "newCredentialManager (bv_credentials env) (Some s) (rm_broker m) = (Inr ps, b)" "newLimiter s = Some l"
    "buildAudit (bv_audit env) (sn_auditSinks s) = Inr d"
    "preflight (bv_newClient env) (Some s) \<lparr>sv_admission = Some l, sv_clients = []\<rparr> = (Some e, sv)"
  shows "buildGeneration env s m = (Inl (''build runtime components: '' @ e), m\<lparr>rm_broker := b, rm_orphans := rm_orphans m @ [d]\<rparr>)
    \<and> \<not> ad_closed d"
  using assms buildAudit_fresh [OF assms(3)] by (simp add: buildGeneration_def buildComponents_def)

end
