(* ===== verification/Client_Config.thy ===== *)
theory Client_Config
  imports Manifest_Validate
begin

text \<open>
  The client's branding and configuration, \<open>client/internal/branding/branding.go\<close> and
  \<open>client/internal/config/config.go\<close>: the names a branded client derives, the origins it may talk to, and
  how a target is chosen from flags, environment and file. YAML, the directories of the operating
  system and file operations are arguments.
\<close>

section \<open>Branding\<close>

record brand_config =
  br_name :: string
  br_displayName :: string
  br_envPrefix :: string
  br_configDirName :: string
  br_cacheDirName :: string
  br_keyringService :: string
  br_userAgent :: string

definition envPrefixPattern :: "string \<Rightarrow> bool" where
  "envPrefixPattern s = (case s of [] \<Rightarrow> False
     | c # r \<Rightarrow> is_upper c \<and> list_all (\<lambda>x. is_upper x \<or> is_digit x \<or> x = CHR ''_'') r \<and> length r \<le> 31)"

definition userAgentPattern :: "string \<Rightarrow> bool" where
  "userAgentPattern s \<longleftrightarrow> s \<noteq> [] \<and> length s \<le> 64
     \<and> list_all (\<lambda>c. is_alnum c \<or> c \<in> set ''!#$%&*+-.^_|~'' \<or> c = CHR 0x27 \<or> c = CHR 0x60) s"

text \<open>\<open>containsControl\<close>: the C0 and C1 controls; the latter are two bytes in UTF-8.\<close>

fun containsControl :: "string \<Rightarrow> bool" where
  "containsControl [] = False"
| "containsControl (c # s) =
     (byte c < 32 \<or> byte c = 127 \<or> (byte c = 194 \<and> (case s of d # _ \<Rightarrow> 128 \<le> byte d \<and> byte d < 160 | [] \<Rightarrow> False))
      \<or> containsControl s)"

definition validateBrand :: "brand_config \<Rightarrow> string option" where
  "validateBrand c =
     (if \<not> envPrefixPattern (br_envPrefix c) then Some ''CLI environment prefix is invalid''
      else if \<not> namePattern (br_configDirName c) then Some ''CLI config directory name is invalid''
      else if \<not> namePattern (br_cacheDirName c) then Some ''CLI cache directory name is invalid''
      else if \<not> userAgentPattern (br_userAgent c) then Some ''CLI user agent is not a valid HTTP product token''
      else if length (br_displayName c) > 80 \<or> containsControl (br_displayName c)
        then Some ''CLI display name must be at most 80 characters and contain no control characters''
      else if length (br_keyringService c) > 128 \<or> trimSpace (br_keyringService c) = [] \<or> containsControl (br_keyringService c)
        then Some ''CLI keyring service must be 1-128 characters and contain no control characters''
      else None)"

definition or_else :: "string \<Rightarrow> string \<Rightarrow> string" where
  "or_else s d = (if s = [] then d else s)"

text \<open>\<open>Resolve\<close> of a brand; \<open>build\<close> holds the values injected at build time.\<close>

definition resolveBrand :: "brand_config \<Rightarrow> brand_config \<Rightarrow> string + brand_config" where
  "resolveBrand build explicit =
     (let c = (if br_name explicit = [] then build else explicit);
          name = trimSpace (br_name c)
      in if \<not> namePattern name then Inl ''CLI name is invalid''
         else (let d = \<lparr>br_name = name, br_displayName = or_else (br_displayName c) (toUpper name @ '' CLI Gateway client''),
                        br_envPrefix = or_else (br_envPrefix c) (toUpper (replaceAll name (CHR ''-'') (CHR ''_''))),
                        br_configDirName = or_else (br_configDirName c) name, br_cacheDirName = or_else (br_cacheDirName c) name,
                        br_keyringService = or_else (br_keyringService c) (name @ ''-cli-refresh-token''),
                        br_userAgent = or_else (br_userAgent c) (name @ ''-cli'')\<rparr>
               in case validateBrand d of Some e \<Rightarrow> Inl e | None \<Rightarrow> Inr d))"

definition brandEnv :: "brand_config \<Rightarrow> string \<Rightarrow> string" where
  "brandEnv c suffix = br_envPrefix c @ ''_'' @ suffix"

section \<open>Origins\<close>

definition isLoopbackHost :: "string \<Rightarrow> bool" where
  "isLoopbackHost host =
     (equalFold host ''localhost'' \<or> (case parseIP host of None \<Rightarrow> False | Some ip \<Rightarrow> isLoopback ip))"

definition validateOrigin :: "string \<Rightarrow> string + string" where
  "validateOrigin raw =
     (case urlParse (trimSpace raw) of
        None \<Rightarrow> Inl ''invalid server origin''
      | Some u \<Rightarrow>
          (if u_scheme u = [] \<or> u_host u = [] then Inl ''server must be an absolute origin''
           else if u_user u \<noteq> None \<or> u_rawQuery u \<noteq> [] \<or> u_fragment u \<noteq> [] \<or> (u_path u \<noteq> [] \<and> u_path u \<noteq> ''/'')
             then Inl ''server must not contain userinfo, path, query, or fragment''
           else if u_scheme u \<noteq> ''https'' \<and> u_scheme u \<noteq> ''http'' then Inl ''server scheme must be https''
           else if u_scheme u = ''http'' \<and> \<not> isLoopbackHost (hostname u) then Inl ''non-loopback server must use https''
           else Inr (trimSuffix (urlString (u\<lparr>u_path := []\<rparr>)) ''/'')))"

section \<open>Regions\<close>

record region =
  rg_server :: string
  rg_displayName :: string
  rg_caFile :: string

record config_file =
  cc_currentRegion :: string
  cc_regions :: "(string, region) gomap"

record selection =
  sl_name :: string
  sl_region :: region

record overrides =
  ov_region :: string
  ov_server :: string

type_synonym environment = "string \<rightharpoonup> string"

definition regionNamePattern :: "string \<Rightarrow> bool" where
  "regionNamePattern s = (case s of [] \<Rightarrow> False
     | c # r \<Rightarrow> is_alnum c \<and> list_all (\<lambda>x. is_alnum x \<or> x = CHR ''_'' \<or> x = CHR ''-'') r \<and> length r \<le> 31)"

definition getenv :: "environment \<Rightarrow> string \<Rightarrow> string" where
  "getenv env k = (case env k of None \<Rightarrow> [] | Some v \<Rightarrow> v)"

definition validateRegion :: "string \<Rightarrow> region \<Rightarrow> string option" where
  "validateRegion name r =
     (if \<not> regionNamePattern name then Some (''invalid region name '' @ name)
      else (case validateOrigin (rg_server r) of Inl e \<Rightarrow> Some (''region '' @ name @ '': '' @ e) | Inr _ \<Rightarrow> None))"

text \<open>\<open>Load\<close>: the file is read (\<open>Inr None\<close> when it is missing) and decoded; then checked.\<close>

definition checkConfig :: "config_file \<Rightarrow> string option" where
  "checkConfig c =
     (case first_some (\<lambda>(n, r). validateRegion n r) (cc_regions c) of
        Some e \<Rightarrow> Some e
      | None \<Rightarrow> (if cc_currentRegion c \<noteq> [] \<and> map_of (cc_regions c) (cc_currentRegion c) = None
                 then Some (''current region '' @ cc_currentRegion c @ '' is not configured'') else None))"

definition loadConfig :: "(string \<Rightarrow> string + config_file) \<Rightarrow> string + string option \<Rightarrow> string + config_file" where
  "loadConfig decode data =
     (case data of
        Inl e \<Rightarrow> Inl (''read config: '' @ e)
      | Inr None \<Rightarrow> Inr \<lparr>cc_currentRegion = [], cc_regions = []\<rparr>
      | Inr (Some text) \<Rightarrow>
          (case decode text of
             Inl e \<Rightarrow> Inl (''decode config: '' @ e)
           | Inr c \<Rightarrow> (case checkConfig c of Some e \<Rightarrow> Inl e | None \<Rightarrow> Inr c)))"

section \<open>Choosing the target\<close>

definition chooseRegion :: "config_file \<Rightarrow> overrides \<Rightarrow> environment \<Rightarrow> brand_config \<Rightarrow> string" where
  "chooseRegion cfg ov env brand =
     (let r1 = trimSpace (ov_region ov);
          r2 = or_else r1 (trimSpace (getenv env (brandEnv brand ''REGION'')));
          r3 = or_else r2 (cc_currentRegion cfg)
      in if r3 = [] \<and> length (cc_regions cfg) = 1 then fst (hd (cc_regions cfg)) else r3)"

definition chooseServer :: "overrides \<Rightarrow> environment \<Rightarrow> brand_config \<Rightarrow> string" where
  "chooseServer ov env brand = or_else (trimSpace (ov_server ov)) (trimSpace (getenv env (brandEnv brand ''SERVER'')))"

definition resolveSelection :: "config_file \<Rightarrow> overrides \<Rightarrow> environment \<Rightarrow> brand_config \<Rightarrow> string + selection" where
  "resolveSelection cfg ov env brand =
     (let server = chooseServer ov env brand;
          chosen = chooseRegion cfg ov env brand;
          name = (if chosen = [] \<and> server \<noteq> [] then ''local'' else chosen)
      in if name = [] then Inl ''no region selected; use --region or configure a current region''
         else if \<not> regionNamePattern name then Inl (''invalid region name '' @ name)
         else (case map_of (cc_regions cfg) name of
                 None \<Rightarrow> (if server = [] then Inl (''region '' @ name @ '' is not configured'')
                         else (case validateOrigin server of
                                 Inl e \<Rightarrow> Inl (''region '' @ name @ '': '' @ e)
                               | Inr o' \<Rightarrow> Inr \<lparr>sl_name = name, sl_region = \<lparr>rg_server = o', rg_displayName = [], rg_caFile = []\<rparr>\<rparr>))
               | Some r \<Rightarrow>
                   (case validateOrigin (if server \<noteq> [] then server else rg_server r) of
                      Inl e \<Rightarrow> Inl (''region '' @ name @ '': '' @ e)
                    | Inr o' \<Rightarrow> Inr \<lparr>sl_name = name, sl_region = r\<lparr>rg_server := o'\<rparr>\<rparr>)))"

definition sortedRegionNames :: "config_file \<Rightarrow> string list" where
  "sortedRegionNames cfg = sortStrings (keys (cc_regions cfg))"

fun scanBootstrap :: "string list \<Rightarrow> overrides \<Rightarrow> overrides" where
  "scanBootstrap [] r = r"
| "scanBootstrap (arg # rest) r =
     (if arg = ''--region'' \<and> rest \<noteq> [] then scanBootstrap (tl rest) (r\<lparr>ov_region := hd rest\<rparr>)
      else if hasPrefix arg ''--region='' then scanBootstrap rest (r\<lparr>ov_region := trimPrefix arg ''--region=''\<rparr>)
      else if arg = ''--server'' \<and> rest \<noteq> [] then scanBootstrap (tl rest) (r\<lparr>ov_server := hd rest\<rparr>)
      else if hasPrefix arg ''--server='' then scanBootstrap rest (r\<lparr>ov_server := trimPrefix arg ''--server=''\<rparr>)
      else scanBootstrap rest r)"

text \<open>\<open>DefaultPaths\<close>; the user's base directories are arguments.\<close>

definition defaultPath :: "string + string \<Rightarrow> environment \<Rightarrow> string \<Rightarrow> string \<Rightarrow> string + string" where
  "defaultPath base env variable dir =
     (let d = trimSpace (getenv env variable)
      in if d \<noteq> [] then Inr d else (case base of Inl e \<Rightarrow> Inl e | Inr b \<Rightarrow> Inr (b @ ''/'' @ dir)))"

definition defaultPaths :: "string + string \<Rightarrow> string + string \<Rightarrow> brand_config \<Rightarrow> environment \<Rightarrow> string + (string \<times> string)" where
  "defaultPaths configBase cacheBase brand env =
     (case defaultPath configBase env (brandEnv brand ''CONFIG_DIR'') (br_configDirName brand) of
        Inl e \<Rightarrow> Inl (''resolve config directory: '' @ e)
      | Inr c \<Rightarrow>
          (case defaultPath cacheBase env (brandEnv brand ''CACHE_DIR'') (br_cacheDirName brand) of
             Inl e \<Rightarrow> Inl (''resolve cache directory: '' @ e)
           | Inr k \<Rightarrow> Inr (c, k)))"

section \<open>Atomic files\<close>

text \<open>
  The write both \<open>Save\<close> functions make: a temporary file in the same directory, protected, written,
  synced, closed and renamed; the temporary is removed on the way out. \<open>fails\<close> says at which steps the
  operating system fails.
\<close>

datatype write_stage = AtMkdir | AtTemp | AtChmod | AtWrite | AtSync | AtClose | AtRename

record stored_file =
  sf_data :: string
  sf_mode :: nat

type_synonym files = "string \<rightharpoonup> stored_file"

definition saveAtomic :: "(write_stage \<Rightarrow> bool) \<Rightarrow> string \<Rightarrow> string \<Rightarrow> string \<Rightarrow> files \<Rightarrow> write_stage option \<times> files" where
  "saveAtomic fails tmp path data fs =
     (if fails AtMkdir then (Some AtMkdir, fs)
      else if fails AtTemp then (Some AtTemp, fs)
      else (let f1 = fs(tmp \<mapsto> \<lparr>sf_data = [], sf_mode = 384\<rparr>); remove = (\<lambda>f. f(tmp := None))
            in if fails AtChmod then (Some AtChmod, remove f1)
               else if fails AtWrite then (Some AtWrite, remove f1)
               else (let f2 = f1(tmp \<mapsto> \<lparr>sf_data = data, sf_mode = 384\<rparr>)
                     in if fails AtSync then (Some AtSync, remove f2)
                        else if fails AtClose then (Some AtClose, remove f2)
                        else if fails AtRename then (Some AtRename, remove f2)
                        else (None, remove ((f2(tmp := None))(path := f2 tmp))))))"

lemma saveAtomic_result:
  assumes "saveAtomic fails tmp path data fs = (e, fs')" "tmp \<noteq> path" "fs tmp = None"
  shows "fs' = (if e = None then fs(path \<mapsto> \<lparr>sf_data = data, sf_mode = 384\<rparr>) else fs)"
  using assms by (auto simp: saveAtomic_def Let_def fun_upd_idem fun_upd_twist [of path tmp] split: if_splits)

section \<open>Origins are safe\<close>

lemma unescape_Nil: "unescape m s = Some [] \<Longrightarrow> s = []"
  by (cases "(m, s)" rule: unescape.cases) (auto split: option.splits if_splits list.splits)

lemma escape_host_slash: "CHR ''/'' \<notin> set (escape EncHost h)"
proof
  assume "CHR ''/'' \<in> set (escape EncHost h)"
  from set_escape [OF this] show False by (auto simp: shouldEscape_def is_alnum_def in_range_def is_lower_def is_upper_def is_digit_def)
qed

lemma trimSuffix_last: "last s \<noteq> c \<Longrightarrow> trimSuffix s [c] = s"
  by (cases s rule: rev_cases) (auto simp: trimSuffix_def hasSuffix_def hasPrefix_def)

lemma origin_string:
  assumes "u_opaque u = []" "u_host u \<noteq> []" "u_scheme u \<noteq> []" "u_user u = None" "u_rawQuery u = []" "u_fragment u = []"
  shows "trimSuffix (urlString (u\<lparr>u_path := []\<rparr>)) ''/'' = u_scheme u @ ''://'' @ escape EncHost (u_host u) @ (if u_forceQuery u then ''?'' else [])"
    (is "_ = ?o")
proof -
  have "escapedPath (u\<lparr>u_path := []\<rparr>) = []" using unescape_Nil by (auto simp: escapedPath_def escape_def)
  then have s: "urlString (u\<lparr>u_path := []\<rparr>) = ?o" using assms by (simp add: urlString_def Let_def)
  have "escape EncHost (u_host u) \<noteq> []" using assms(2) by (cases "u_host u") (auto simp: escape_byte_def percent_def)
  then have "last ?o \<in> set (escape EncHost (u_host u)) \<or> last ?o = CHR ''?''" by simp
  then have "last ?o \<noteq> CHR ''/''" using escape_host_slash [of "u_host u"] by (elim disjE) auto
  then show ?thesis using trimSuffix_last [of ?o] s by simp
qed

text \<open>What \<open>ValidateOrigin\<close> lets through.\<close>

definition origin_ok :: "string \<Rightarrow> string \<Rightarrow> bool" where
  "origin_ok raw o' \<longleftrightarrow> (\<exists>u. urlParse (trimSpace raw) = Some u \<and> u_host u \<noteq> [] \<and> u_user u = None \<and> u_fragment u = []
     \<and> (u_scheme u = ''https'' \<or> u_scheme u = ''http'' \<and> isLoopbackHost (hostname u))
     \<and> o' = u_scheme u @ ''://'' @ escape EncHost (u_host u) @ (if u_forceQuery u then ''?'' else []))"

lemma validateOrigin_ok:
  assumes "validateOrigin raw = Inr o'"
  shows "origin_ok raw o'"
proof -
  obtain u where u: "urlParse (trimSpace raw) = Some u" using assms by (auto simp: validateOrigin_def split: option.splits)
  with assms have "u_scheme u \<noteq> []" "u_host u \<noteq> []" "u_user u = None" "u_rawQuery u = []" "u_fragment u = []"
    "u_scheme u = ''https'' \<or> u_scheme u = ''http'' \<and> isLoopbackHost (hostname u)" "o' = trimSuffix (urlString (u\<lparr>u_path := []\<rparr>)) ''/''"
    by (auto simp: validateOrigin_def simp del: not_None_eq not_Some_eq split: if_splits)
  with u origin_string [OF urlParse_opaque [OF u]] show ?thesis by (auto simp: origin_ok_def)
qed



text \<open>An origin that ends in a question mark is accepted with it, although queries are refused.\<close>

theorem origin_keeps_question_mark: "validateOrigin ''https://gw.example?'' = Inr ''https://gw.example?''"
  by code_simp

text \<open>
  The scan before the command line is parsed also reads the values of other flags: here the text of a
  note chooses the server that the request and the token are sent to.
\<close>

theorem scan_reads_flag_values:
  "ov_server (scanBootstrap [''notes'', ''add'', ''--text'', ''--server=https://other.example''] \<lparr>ov_region = [], ov_server = []\<rparr>)
   = ''https://other.example''"
  by code_simp

section \<open>Brands are apart\<close>

lemma byte_upper: "byte (upper_byte c) = (if is_lower c then byte c - 32 else byte c)"
  by (auto simp: upper_byte_def byte_class_defs)

definition prefix_byte :: "char \<Rightarrow> char" where
  "prefix_byte c = upper_byte (if c = CHR ''-'' then CHR ''_'' else c)"

lemma prefix_byte_inj: "inj_on prefix_byte {c. name_char c}"
proof (rule inj_onI)
  fix c d assume cd: "c \<in> {c. name_char c}" "d \<in> {c. name_char c}" "prefix_byte c = prefix_byte d"
  have n: "byte (prefix_byte x) = (if x = CHR ''-'' then 95 else if is_lower x then byte x - 32 else byte x)" for x
    by (simp add: prefix_byte_def byte_upper) (simp add: byte_class_defs)
  have "byte (prefix_byte c) = byte (prefix_byte d)" using cd(3) by simp
  moreover have "x = y" if "byte x - 32 = byte y - 32" "97 \<le> byte x" "97 \<le> byte y" for x y
  proof -
    have "byte x = byte y" using that by linarith
    then show ?thesis by simp
  qed
  ultimately show "c = d"
    using cd(1,2) by (auto simp: n name_char_def byte_class_defs split: if_splits)
qed

lemma namePattern_chars:
  assumes "namePattern s"
  shows "set s \<subseteq> {c. name_char c}" "is_ascii s"
proof -
  show *: "set s \<subseteq> {c. name_char c}" using assms by (cases s) (auto simp: namePattern_def name_char_def list_all_iff)
  show "is_ascii s" unfolding is_ascii_def list_all_iff
  proof
    fix c assume "c \<in> set s"
    then have "name_char c" using * by blast
    then show "byte c < 128" by (auto simp: name_char_def byte_class_defs)
  qed
qed

lemma default_prefix:
  assumes "namePattern s"
  shows "toUpper (replaceAll s (CHR ''-'') (CHR ''_'')) = map prefix_byte s"
proof -
  have "is_ascii (replaceAll s (CHR ''-'') (CHR ''_''))"
    using namePattern_chars(2) [OF assms] by (auto simp: replaceAll_def is_ascii_def list_all_iff)
  then show ?thesis by (simp add: toUpper_ascii replaceAll_def prefix_byte_def)
qed

text \<open>Branded clients do not share state: two clients that derive their settings from different names
  have different environment variables, directories, keyring entries and user agents, and every
  resolved name, directory and product token is well formed.\<close>

theorem brands_isolated:
  fixes plain
  defines "plain \<equiv> \<lambda>n. \<lparr>br_name = n, br_displayName = [], br_envPrefix = [], br_configDirName = [], br_cacheDirName = [],
      br_keyringService = [], br_userAgent = []\<rparr>"
  assumes "resolveBrand build (plain m) = Inr a" "resolveBrand build (plain n) = Inr b" "m \<noteq> []" "n \<noteq> []"
  shows "namePattern (br_name a) \<and> namePattern (br_configDirName a) \<and> envPrefixPattern (br_envPrefix a) \<and> userAgentPattern (br_userAgent a)
    \<and> (br_name a \<noteq> br_name b \<longrightarrow> brandEnv a v \<noteq> brandEnv b v \<and> br_configDirName a \<noteq> br_configDirName b \<and> br_cacheDirName a \<noteq> br_cacheDirName b
        \<and> br_keyringService a \<noteq> br_keyringService b \<and> br_userAgent a \<noteq> br_userAgent b)"
proof -
  have r: "namePattern (br_name x) \<and> br_envPrefix x = map prefix_byte (br_name x) \<and> br_configDirName x = br_name x \<and> br_cacheDirName x = br_name x
      \<and> br_keyringService x = br_name x @ ''-cli-refresh-token'' \<and> br_userAgent x = br_name x @ ''-cli''
      \<and> envPrefixPattern (br_envPrefix x) \<and> userAgentPattern (br_userAgent x)"
    if "resolveBrand build (plain k) = Inr x" "k \<noteq> []" for k x
    using that default_prefix [of "trimSpace k"]
    by (auto simp: resolveBrand_def plain_def or_else_def validateBrand_def Let_def split: if_splits option.splits)
  note a = r [OF assms(2,4)] and b = r [OF assms(3,5)]
  have "br_name a = br_name b" if "map prefix_byte (br_name a) = map prefix_byte (br_name b)"
    using map_inj_on [OF that] inj_on_subset [OF prefix_byte_inj] namePattern_chars(1) a b by (metis Un_subset_iff)
  with a b show ?thesis by (auto simp: brandEnv_def)
qed

theorem brands_isolated_witness:
  "\<exists>a b. resolveBrand \<lparr>br_name = ''cg'', br_displayName = [], br_envPrefix = [], br_configDirName = [], br_cacheDirName = [], br_keyringService = [], br_userAgent = []\<rparr>
       \<lparr>br_name = ''acme'', br_displayName = [], br_envPrefix = [], br_configDirName = [], br_cacheDirName = [], br_keyringService = [], br_userAgent = []\<rparr> = Inr a
     \<and> resolveBrand \<lparr>br_name = ''cg'', br_displayName = [], br_envPrefix = [], br_configDirName = [], br_cacheDirName = [], br_keyringService = [], br_userAgent = []\<rparr>
       \<lparr>br_name = ''acme-two'', br_displayName = [], br_envPrefix = [], br_configDirName = [], br_cacheDirName = [], br_keyringService = [], br_userAgent = []\<rparr> = Inr b
     \<and> brandEnv a ''TOKEN'' \<noteq> brandEnv b ''TOKEN''"
proof -
  let ?p = "\<lambda>n. \<lparr>br_name = n, br_displayName = [], br_envPrefix = [], br_configDirName = [], br_cacheDirName = [], br_keyringService = [], br_userAgent = []\<rparr>"
  have "\<not> isl (resolveBrand (?p ''cg'') (?p ''acme''))" "\<not> isl (resolveBrand (?p ''cg'') (?p ''acme-two''))" by code_simp+
  then obtain a b where ab: "resolveBrand (?p ''cg'') (?p ''acme'') = Inr a" "resolveBrand (?p ''cg'') (?p ''acme-two'') = Inr b"
    by (metis sum.disc(1) sum.exhaust)
  have "br_name (projr (resolveBrand (?p ''cg'') (?p ''acme''))) \<noteq> br_name (projr (resolveBrand (?p ''cg'') (?p ''acme-two'')))" by code_simp
  then have "br_name a \<noteq> br_name b" using ab by simp
  with brands_isolated [OF ab, of "''TOKEN''"] ab show ?thesis by auto
qed

end
