(* ===== verification/Client_Manifest.thy ===== *)
theory Client_Manifest
  imports Server_Dist Client_Config
begin

text \<open>
  The client's view of the command list, \<open>client/internal/manifest/manifest.go\<close>: the document it
  decodes, the checks of \<open>Parse\<close>, the cache on disk, and the roots of \<open>client/internal/app/app.go\<close> that a
  domain may not take. Decoding JSON, SHA-256 and file operations are arguments.
\<close>

section \<open>Documents\<close>

record client_flag =
  fl_name :: string
  fl_type :: string
  fl_location :: string
  fl_required :: bool
  fl_default :: goval
  fl_queryName :: string
  fl_headerName :: string
  fl_description :: string

record client_command =
  cl_path :: "string list"
  cl_summary :: string
  cl_method :: string
  cl_risk :: string
  cl_confirm :: bool
  cl_streaming :: bool
  cl_flags :: "client_flag list"

record client_domain =
  dn_name :: string
  dn_commands :: "client_command list"

record document =
  doc_schemaVersion :: int
  doc_serverVersion :: string
  doc_minCLIVersion :: string
  doc_principalFingerprint :: string
  doc_cliName :: string
  doc_domains :: "client_domain list"
  doc_etag :: string

record cached =
  ca_httpETag :: string
  ca_fetched :: gotime
  ca_server :: string
  ca_document :: document

section \<open>Parse\<close>

datatype parse_error =
    DecodeManifest string
  | NotOneDocument
  | InvalidCLIName
  | InvalidDomain string
  | DuplicateDomain string
  | EmptyCommandPath string
  | InvalidPathPart string string
  | DuplicateCommand string string
  | InvalidRisk string string string
  | InvalidFlag string string string
  | DuplicateFlag string string string
  | FlagDefault string string string string

definition validateFlagDefault :: "client_flag \<Rightarrow> string option" where
  "validateFlagDefault f =
     (if fl_type f = ''string'' then
        (case fl_default f of VNil \<Rightarrow> None | VStr _ \<Rightarrow> None | _ \<Rightarrow> Some ''default is not a string'')
      else if fl_type f = ''int'' then
        (case fl_default f of
           VNil \<Rightarrow> None
         | VNum t \<Rightarrow> (if parseInt64 t = None then Some ''default is outside the integer range'' else None)
         | _ \<Rightarrow> Some ''default is not an integer'')
      else if fl_type f = ''bool'' then
        (case fl_default f of VNil \<Rightarrow> None | VBool _ \<Rightarrow> None | _ \<Rightarrow> Some ''default is not a boolean'')
      else if fl_type f = ''stringArray'' then
        (case fl_default f of
           VNil \<Rightarrow> None
         | VList vs \<Rightarrow> (if list_all is_VStr vs then None else Some ''default is not a string array'')
         | _ \<Rightarrow> Some ''default is not a string array'')
      else Some (''unsupported type '' @ fl_type f))"

fun check_flags :: "string \<Rightarrow> string \<Rightarrow> string list \<Rightarrow> client_flag list \<Rightarrow> parse_error option" where
  "check_flags d k seen [] = None"
| "check_flags d k seen (f # fs) =
     (if \<not> namePattern (fl_name f) then Some (InvalidFlag d k (fl_name f))
      else if fl_name f \<in> set seen then Some (DuplicateFlag d k (fl_name f))
      else (case validateFlagDefault f of
              Some e \<Rightarrow> Some (FlagDefault d k (fl_name f) e)
            | None \<Rightarrow> check_flags d k (fl_name f # seen) fs))"

fun check_commands :: "string \<Rightarrow> string list \<Rightarrow> client_command list \<Rightarrow> parse_error option" where
  "check_commands d seen [] = None"
| "check_commands d seen (c # cs) =
     (if cl_path c = [] then Some (EmptyCommandPath d)
      else case find (\<lambda>p. \<not> namePattern p) (cl_path c) of
        Some p \<Rightarrow> Some (InvalidPathPart d p)
      | None \<Rightarrow>
          (let key = join (cl_path c) ''.''
           in if key \<in> set seen then Some (DuplicateCommand d key)
              else if cl_risk c \<notin> {''read'', ''write'', ''destroy''} then Some (InvalidRisk d key (cl_risk c))
              else (case check_flags d key [] (cl_flags c) of
                      Some e \<Rightarrow> Some e
                    | None \<Rightarrow> check_commands d (key # seen) cs)))"

fun check_domains :: "string list \<Rightarrow> client_domain list \<Rightarrow> parse_error option" where
  "check_domains seen [] = None"
| "check_domains seen (d # ds) =
     (if \<not> namePattern (dn_name d) then Some (InvalidDomain (dn_name d))
      else if dn_name d \<in> set seen then Some (DuplicateDomain (dn_name d))
      else (case check_commands (dn_name d) [] (dn_commands d) of
              Some e \<Rightarrow> Some e
            | None \<Rightarrow> check_domains (dn_name d # seen) ds))"

definition parseManifest :: "(string \<Rightarrow> string + document \<times> string) \<Rightarrow> string \<Rightarrow> parse_error + document" where
  "parseManifest dec data =
     (case dec data of
        Inl e \<Rightarrow> Inl (DecodeManifest e)
      | Inr (doc, rest) \<Rightarrow>
          (if \<not> list_all json_space rest then Inl NotOneDocument
           else if \<not> namePattern (doc_cliName doc) then Inl InvalidCLIName
           else (case check_domains [] (doc_domains doc) of Some e \<Rightarrow> Inl e | None \<Rightarrow> Inr doc)))"

section \<open>Roots\<close>

definition reservedRoots :: "string list" where
  "reservedRoots = [''login'', ''logout'', ''whoami'', ''config'', ''update-commands'', ''capabilities'', ''authorize'', ''disconnect'',
     ''version'', ''help'', ''completion'']"

datatype root_error = CLINameMismatch string | ReservedRoot string | DuplicateRoot string

fun check_roots :: "string list \<Rightarrow> client_domain list \<Rightarrow> root_error option" where
  "check_roots seen [] = None"
| "check_roots seen (d # ds) =
     (if dn_name d \<in> set reservedRoots then Some (ReservedRoot (dn_name d))
      else if dn_name d \<in> set seen then Some (DuplicateRoot (dn_name d))
      else check_roots (dn_name d # seen) ds)"

definition validateDynamicRoots :: "document \<Rightarrow> string \<Rightarrow> root_error option" where
  "validateDynamicRoots doc cliName =
     (if doc_cliName doc \<noteq> cliName then Some (CLINameMismatch (doc_cliName doc)) else check_roots [] (doc_domains doc))"

section \<open>The cache\<close>

record manifest_store =
  st_root :: string
  st_region :: string
  st_server :: string
  st_token :: string
  st_identity :: string
  st_invoker :: string

definition safe_char :: "char \<Rightarrow> bool" where
  "safe_char c \<longleftrightarrow> is_alnum c \<or> c = CHR ''_'' \<or> c = CHR ''-''"

text \<open>\<open>safePart.ReplaceAllString\<close>: every run of other bytes becomes one underscore.\<close>

fun safe_part :: "bool \<Rightarrow> string \<Rightarrow> string" where
  "safe_part inrun [] = []"
| "safe_part inrun (c # s) =
     (if safe_char c then c # safe_part False s
      else if inrun then safe_part True s
      else CHR ''_'' # safe_part True s)"

definition shortHash :: "(string \<Rightarrow> string) \<Rightarrow> string \<Rightarrow> string" where
  "shortHash sha s = hexEncode (take 8 (sha s))"

definition storeParts :: "(string \<Rightarrow> string) \<Rightarrow> manifest_store \<Rightarrow> string list" where
  "storeParts sha s =
     [or_else (safe_part False (st_region s)) ''unknown'', shortHash sha (st_server s),
      shortHash sha (or_else (st_identity s) (st_token s)), or_else (safe_part False (st_invoker s)) ''human'']"

definition storePath :: "(string \<Rightarrow> string) \<Rightarrow> manifest_store \<Rightarrow> string" where
  "storePath sha s = cleanPath (join (filter (\<lambda>x. x \<noteq> []) (st_root s # storeParts sha s @ [''manifest.json''])) ''/'')"

datatype cache_error = CacheMissing | CacheUnreadable string | CacheInvalid string | ServerMismatch

definition loadCached :: "(string \<Rightarrow> string + cached) \<Rightarrow> string \<Rightarrow> manifest_store \<Rightarrow> files \<Rightarrow> cache_error + cached" where
  "loadCached decode path s fs =
     (case fs path of
        None \<Rightarrow> Inl CacheMissing
      | Some f \<Rightarrow>
          (case decode (sf_data f) of
             Inl e \<Rightarrow> Inl (CacheInvalid e)
           | Inr c \<Rightarrow> (if ca_server c \<noteq> st_server s then Inl ServerMismatch else Inr c)))"

definition saveCached ::
  "(cached \<Rightarrow> string option) \<Rightarrow> (write_stage \<Rightarrow> bool) \<Rightarrow> string \<Rightarrow> string \<Rightarrow> cached \<Rightarrow> files \<Rightarrow> string option \<times> files" where
  "saveCached encode fails tmp path c fs =
     (if fails AtMkdir then (Some ''create manifest cache directory'', fs)
      else case encode c of
        None \<Rightarrow> (Some ''encode manifest cache'', fs)
      | Some text \<Rightarrow> (case saveAtomic fails tmp path text fs of (e, fs') \<Rightarrow> (map_option (\<lambda>_. ''write manifest cache'') e, fs')))"

section \<open>What the checks guarantee\<close>

definition flag_sound :: "client_flag \<Rightarrow> bool" where
  "flag_sound f \<longleftrightarrow> namePattern (fl_name f) \<and> validateFlagDefault f = None"

definition command_sound :: "client_command \<Rightarrow> bool" where
  "command_sound c \<longleftrightarrow> cl_path c \<noteq> [] \<and> list_all namePattern (cl_path c) \<and> cl_risk c \<in> {''read'', ''write'', ''destroy''}
     \<and> list_all flag_sound (cl_flags c) \<and> distinct (map fl_name (cl_flags c))"

definition domain_sound :: "client_domain \<Rightarrow> bool" where
  "domain_sound d \<longleftrightarrow> namePattern (dn_name d) \<and> list_all command_sound (dn_commands d)
     \<and> distinct (map (\<lambda>c. join (cl_path c) ''.'') (dn_commands d))"

lemma first_fault_None: "(case x of None \<Rightarrow> y | Some e \<Rightarrow> Some (f e)) = None \<longleftrightarrow> x = None \<and> y = None"
  by (cases x) auto

lemma check_flags_None:
  "check_flags d k seen fs = None \<longleftrightarrow> list_all flag_sound fs \<and> distinct (map fl_name fs) \<and> set (map fl_name fs) \<inter> set seen = {}"
  by (induction fs arbitrary: seen) (auto simp: flag_sound_def first_fault_None)

lemma check_commands_None:
  "check_commands d seen cs = None \<longleftrightarrow> list_all command_sound cs \<and> distinct (map (\<lambda>c. join (cl_path c) ''.'') cs)
     \<and> set (map (\<lambda>c. join (cl_path c) ''.'') cs) \<inter> set seen = {}"
proof (induction cs arbitrary: seen)
  case (Cons c cs)
  show ?case by (simp add: first_fault_None Let_def Cons.IH check_flags_None command_sound_def find_None_iff list_all_iff) blast
qed simp

lemma check_domains_None:
  "check_domains seen ds = None \<longleftrightarrow> list_all domain_sound ds \<and> distinct (map dn_name ds) \<and> set (map dn_name ds) \<inter> set seen = {}"
proof (induction ds arbitrary: seen)
  case (Cons d ds)
  show ?case by (simp add: first_fault_None Cons.IH check_commands_None domain_sound_def) blast
qed simp

lemma check_roots_None:
  "check_roots seen ds = None \<longleftrightarrow> distinct (map dn_name ds) \<and> set (map dn_name ds) \<inter> (set seen \<union> set reservedRoots) = {}"
  by (induction ds arbitrary: seen) auto

lemma parseManifest_Inr:
  "parseManifest dec data = Inr doc \<longleftrightarrow> (\<exists>rest. dec data = Inr (doc, rest) \<and> list_all json_space rest) \<and> namePattern (doc_cliName doc)
     \<and> list_all domain_sound (doc_domains doc) \<and> distinct (map dn_name (doc_domains doc))"
proof -
  have "(case check_domains [] ds of None \<Rightarrow> Inr doc' | Some e \<Rightarrow> Inl e) = Inr doc
      \<longleftrightarrow> doc' = doc \<and> list_all domain_sound ds \<and> distinct (map dn_name ds)" for ds and doc' :: document
    using check_domains_None [of "[]" ds] by (cases "check_domains [] ds") auto
  then show ?thesis by (auto simp: parseManifest_def split: sum.splits prod.splits)
qed

section \<open>The list the gateway serves\<close>

text \<open>
  What \<open>encoding/json\<close> makes of the gateway's document: fields by name, absent ones zero, numbers as
  text (\<open>UseNumber\<close>).
\<close>

fun decoded_any :: "goval \<Rightarrow> goval" where
  "decoded_any (VInt i) = VNum (formatInt i)"
| "decoded_any (VInt64 i) = VNum (formatInt i)"
| "decoded_any (VStrs xs) = VList (map VStr xs)"
| "decoded_any (VList vs) = VList (map decoded_any vs)"
| "decoded_any (VObj fs) = VObj (map (\<lambda>(k, v). (k, decoded_any v)) fs)"
| "decoded_any v = v"

definition served_flag :: "compiled_flag \<Rightarrow> client_flag" where
  "served_flag f = \<lparr>fl_name = cf_name f, fl_type = cf_type f, fl_location = cf_location f, fl_required = cf_required f,
     fl_default = decoded_any (cf_default f), fl_queryName = cf_queryName f, fl_headerName = cf_headerName f, fl_description = cf_description f\<rparr>"

definition served_command :: "compiled_command \<Rightarrow> client_command" where
  "served_command c = \<lparr>cl_path = cmd_path c, cl_summary = cmd_summary c, cl_method = cmd_method c, cl_risk = cmd_risk c,
     cl_confirm = cmd_confirm c, cl_streaming = cmd_streaming c, cl_flags = map served_flag (cmd_flags c)\<rparr>"

definition served_document :: "snapshot \<Rightarrow> (string \<times> compiled_command list) list \<Rightarrow> string \<Rightarrow> document" where
  "served_document s ds etag = \<lparr>doc_schemaVersion = 0, doc_serverVersion = [], doc_minCLIVersion = [], doc_principalFingerprint = [],
     doc_cliName = sn_cliName s, doc_domains = map (\<lambda>(n, cs). \<lparr>dn_name = n, dn_commands = map served_command cs\<rparr>) ds, doc_etag = etag\<rparr>"

lemma loaded_names:
  assumes "load yaml sha256 t data src = Inr s"
  shows "namePattern (sn_cliName s)"
    "\<And>k c. sn_commands s k = Some c \<Longrightarrow> namePattern (cmd_domain c) \<and> cmd_path c \<noteq> [] \<and> list_all namePattern (cmd_path c)
       \<and> cmd_key c = commandKey (cmd_domain c) (cmd_path c)"
proof -
  obtain raw pos where raw: "validate raw pos = []" "s = compile sha256 t raw data src"
    using assms by (auto simp: load_def Let_def split: sum.splits trailing.splits if_splits)
  show "namePattern (sn_cliName s)"
    using validate_manifest_ok [OF raw(1)] by (simp add: raw(2) compile_def Let_def manifest_ok_def split: prod.splits)
  fix k c assume "sn_commands s k = Some c"
  from map_of_SomeD [OF this [unfolded raw(2) compile_simps]] obtain d r where
    "d \<in> set (m_domains raw)" "r \<in> set (rd_commands d)" "c = compileCommand d r" by (auto simp: in_compiledCommands)
  with accepted_domain [OF raw(1), of d] accepted_command [OF raw(1), of d r]
  show "namePattern (cmd_domain c) \<and> cmd_path c \<noteq> [] \<and> list_all namePattern (cmd_path c) \<and> cmd_key c = commandKey (cmd_domain c) (cmd_path c)"
    by (auto simp: compileCommand_def domain_ok_def path_ok_def list_all_iff)
qed

lemma validateFlagDefault_served:
  assumes "cf_default f = VNil \<or> defaultMatches (cf_type f) (cf_default f)"
    and "cf_type f \<in> {FlagString, FlagInt, FlagBool, FlagStringArray}"
    and ints: "\<And>i. cf_default f = VInt i \<Longrightarrow> min_int64 \<le> i \<and> i \<le> max_int64"
  shows "validateFlagDefault (served_flag f) = None"
proof (cases "cf_default f")
  case (VInt i)
  with assms(1,2) parseInt64_formatInt [of i] ints [OF VInt] show ?thesis
    by (auto simp: validateFlagDefault_def served_flag_def defaultMatches_def)
next
  case (VList vs)
  have "list_all is_VStr vs \<Longrightarrow> list_all is_VStr (map decoded_any vs)"
    by (induction vs) (auto elim!: is_VStr.elims)
  with VList assms(1,2) show ?thesis
    by (auto simp: validateFlagDefault_def served_flag_def defaultMatches_def)
qed (use assms(1,2) in \<open>auto simp: validateFlagDefault_def served_flag_def defaultMatches_def\<close>)

lemma served_flag_sound:
  assumes "flag_compiled f" "\<And>i. cf_default f = VInt i \<Longrightarrow> min_int64 \<le> i \<and> i \<le> max_int64"
  shows "flag_sound (served_flag f)"
proof -
  have "namePattern (cf_name f)" "cf_default f = VNil \<or> defaultMatches (cf_type f) (cf_default f)"
    "cf_type f \<in> {FlagString, FlagInt, FlagBool, FlagStringArray}"
    using assms(1) unfolding flag_compiled_def by blast+
  then show ?thesis
    using validateFlagDefault_served [OF _ _ assms(2)] by (simp add: flag_sound_def served_flag_def)
qed

lemma served_command_sound:
  assumes "command_compiled c" "cmd_path c \<noteq> []" "list_all namePattern (cmd_path c)"
    and ints: "\<And>f i. f \<in> set (cmd_flags c) \<Longrightarrow> cf_default f = VInt i \<Longrightarrow> min_int64 \<le> i \<and> i \<le> max_int64"
  shows "command_sound (served_command c)"
proof -
  have "riskValid (cmd_risk c)" "\<And>f. f \<in> set (cmd_flags c) \<Longrightarrow> flag_compiled f" "distinct (map cf_name (cmd_flags c))"
    using assms(1) unfolding command_compiled_def by blast+
  moreover have "fl_name \<circ> served_flag = cf_name" by (simp add: fun_eq_iff served_flag_def)
  moreover have "cmd_risk c \<in> {''read'', ''write'', ''destroy''}"
    using \<open>riskValid (cmd_risk c)\<close> by (auto simp: riskValid_def riskRank_def split: if_splits)
  moreover have "list_all flag_sound (map served_flag (cmd_flags c))"
    using calculation(2) ints by (auto simp: list_all_iff intro!: served_flag_sound)
  ultimately show ?thesis
    using assms(2,3) by (simp add: command_sound_def served_command_def)
qed

lemma join_cons_inj: "p \<noteq> [] \<Longrightarrow> q \<noteq> [] \<Longrightarrow> join (d # p) sep = join (d # q) sep \<Longrightarrow> join p sep = join q sep"
  by (cases p; cases q) auto

text \<open>C21. What the gateway serves, the client accepts: for every manifest that loads and every caller, the
  client's \<open>Parse\<close> accepts the command list, with every domain, command and flag the caller may see, and
  the client offers these commands exactly if the list is for its own name and no domain takes the
  name of a built-in command. It is assumed that the JSON decoder reads the document back by its
  fields and that integer defaults are 64-bit integers, as the YAML decoder makes them.\<close>

theorem served_manifest_accepted:
  assumes "load yaml sha256 t data src = Inr s"
    and decodes: "dec body = Inr (served_document s (catalog_domains s p i) etag, rest)" "list_all json_space rest"
    and ints: "\<And>k c f n. sn_commands s k = Some c \<Longrightarrow> f \<in> set (cmd_flags c) \<Longrightarrow> cf_default f = VInt n \<Longrightarrow> min_int64 \<le> n \<and> n \<le> max_int64"
  shows "parseManifest dec body = Inr (served_document s (catalog_domains s p i) etag)
    \<and> (validateDynamicRoots (served_document s (catalog_domains s p i) etag) name = None
       \<longleftrightarrow> name = sn_cliName s \<and> set (map fst (catalog_domains s p i)) \<inter> set reservedRoots = {})"
proof -
  note wf = load_wf [OF assms(1)] and names = loaded_names [OF assms(1)]
  let ?ds = "catalog_domains s p i"
  note listed = catalog_domains_listed [OF wf, of p i]
  have vis: "\<exists>k. sn_commands s k = Some c" if "(n, cs) \<in> set ?ds" "c \<in> set cs" for n cs c
  proof -
    have "c \<in> set (concat (map snd ?ds))" using that by force
    then have "c \<in> set (visibleCommands (Some s) p i)" using listed by blast
    then show ?thesis using mem_visibleCommands [OF wf, of c p i] by (auto simp: resolve_command_def)
  qed
  have cmd: "command_sound (served_command c)" if "sn_commands s k = Some c" for k c
    by (rule served_command_sound) (use snapshot_wf_command [OF wf that] names(2) [OF that] ints [OF that] in blast)+
  have dom: "domain_sound \<lparr>dn_name = n, dn_commands = map served_command cs\<rparr>" if d: "(n, cs) \<in> set ?ds" for n cs
  proof -
    have cs: "cs \<noteq> []" "\<And>c. c \<in> set cs \<Longrightarrow> cmd_domain c = n" "sorted_wrt (<) (map cmd_key cs)"
      using listed d by (auto simp: list_all_iff)
    have "distinct (map cmd_key cs)" using cs(3) by (simp add: strict_sorted_iff)
    moreover have "cmd_key c = cmd_key c'" if "c \<in> set cs" "c' \<in> set cs" "join (cmd_path c) ''.'' = join (cmd_path c') ''.''" for c c'
    proof -
      obtain k k' where "sn_commands s k = Some c" "sn_commands s k' = Some c'" using vis [OF d] \<open>c \<in> set cs\<close> \<open>c' \<in> set cs\<close> by blast
      then show ?thesis using names(2) [of k c] names(2) [of k' c'] cs(2) that
        by (cases "cmd_path c"; cases "cmd_path c'") (auto simp: commandKey_def)
    qed
    ultimately have "distinct (map (\<lambda>c. join (cmd_path c) ''.'') cs)" unfolding distinct_map inj_on_def by metis
    moreover have "namePattern n" using cs(1,2) vis [OF d] names(2) by (metis hd_in_set)
    ultimately show ?thesis using cmd vis [OF d] by (fastforce simp: domain_sound_def list_all_iff comp_def served_command_def)
  qed
  have "distinct (map fst ?ds)" using listed by (auto simp: strict_sorted_iff)
  then show ?thesis
    using dom names(1) decodes
    by (auto simp: parseManifest_Inr served_document_def list_all_iff validateDynamicRoots_def check_roots_None comp_def case_prod_unfold)
qed

text \<open>
  The server accepts domain names the client cannot offer: a manifest whose domain is called
  \<open>config\<close> validates, and the client refuses the whole list of every caller who sees it. Its command
  is a read that asks for confirmation, which validates too.
\<close>

definition confirmed_read :: raw_command where
  "confirmed_read = drop_item\<lparr>rcm_method := ''GET'', rcm_risk := ''read''\<rparr>"

definition config_manifest :: manifest where
  "config_manifest = demo_manifest\<lparr>m_domains := [demo_domain\<lparr>rd_name := ''config'', rd_commands := [confirmed_read]\<rparr>]\<rparr>"

theorem reserved_domain_refused:
  "validate config_manifest no_positions = []"
  "''config'' \<in> set (map dn_name (doc_domains doc)) \<Longrightarrow> validateDynamicRoots doc name \<noteq> None"
proof -
  show "validate config_manifest no_positions = []" by code_simp
  show "validateDynamicRoots doc name \<noteq> None" if "''config'' \<in> set (map dn_name (doc_domains doc))"
  proof -
    have "''config'' \<in> set reservedRoots" by (simp add: reservedRoots_def)
    then have "check_roots [] (doc_domains doc) \<noteq> None" using that check_roots_None [of "[]" "doc_domains doc"] by blast
    then show ?thesis by (simp add: validateDynamicRoots_def)
  qed
qed

end
