(* ===== verification/Client_Api.thy ===== *)
theory Client_Api
  imports Client_Manifest Server_Routes
begin

text \<open>
  The client's HTTP adapter, \<open>client/internal/api/client.go\<close>: the requests it builds, what it makes of the
  answers, and how these requests arrive at the gateway's routes. The transport, the random bytes
  and the JSON decoders are arguments.
\<close>

section \<open>Errors\<close>

text \<open>\<open>api.Error\<close>, plain errors, the \<open>protocolError\<close> of \<open>oauth/manager.go\<close>, errors wrapped by a message, and the \<open>ExitError\<close> of \<open>app.go\<close>.\<close>

record gateway_error =
  gx_status :: int
  gx_code :: string
  gx_message :: string
  gx_hint :: string
  gx_trace :: string

datatype cli_error =
    GatewayFailure gateway_error
  | Plain string
  | Protocol string
  | Wrapped string cli_error
  | ExitError int cli_error

definition gatewayErrorText :: "gateway_error \<Rightarrow> string" where
  "gatewayErrorText e =
     (if gx_hint e \<noteq> [] then gx_code e @ '': '' @ gx_message e @ '' ('' @ gx_hint e @ '')''
      else gx_code e @ '': '' @ gx_message e)"

text \<open>\<open>errors.As\<close> with an \<open>*api.Error\<close>.\<close>

fun as_gateway :: "cli_error \<Rightarrow> gateway_error option" where
  "as_gateway (GatewayFailure e) = Some e"
| "as_gateway (Plain _) = None"
| "as_gateway (Protocol _) = None"
| "as_gateway (Wrapped _ e) = as_gateway e"
| "as_gateway (ExitError _ e) = as_gateway e"

section \<open>The client\<close>

record transport_settings =
  ts_timeout :: duration
  ts_followRedirects :: bool
  ts_roots :: "string option"

record api_options =
  ao_server :: string
  ao_token :: string
  ao_invoker :: string
  ao_caFile :: string
  ao_userAgent :: string

record api_client =
  kc_server :: string
  kc_token :: string
  kc_invoker :: string
  kc_userAgent :: string
  kc_http :: transport_settings

text \<open>Reading a CA file and adding its certificates to the system's roots.\<close>

record ca_env =
  cv_readFile :: "string \<Rightarrow> string + string"
  cv_rootsError :: "string option"
  cv_hasCertificates :: "string \<Rightarrow> bool"

definition load_roots :: "ca_env \<Rightarrow> string \<Rightarrow> cli_error + string option" where
  "load_roots ca path =
     (if path = [] then Inr None
      else case cv_readFile ca path of
        Inl e \<Rightarrow> Inl (Wrapped ''read CA file'' (Plain e))
      | Inr pem \<Rightarrow>
          (if cv_rootsError ca \<noteq> None then Inl (Wrapped ''load system roots'' (Plain (the (cv_rootsError ca))))
           else if \<not> cv_hasCertificates ca pem then Inl (Plain ''CA file contains no certificates'')
           else Inr (Some pem)))"

definition newApiClient :: "ca_env \<Rightarrow> api_options \<Rightarrow> transport_settings option \<Rightarrow> cli_error + api_client" where
  "newApiClient ca options http =
     (let settings =
            (case http of
               None \<Rightarrow>
                 (case load_roots ca (ao_caFile options) of
                    Inl e \<Rightarrow> Inl e
                  | Inr roots \<Rightarrow> Inr \<lparr>ts_timeout = 60 * second, ts_followRedirects = False, ts_roots = roots\<rparr>)
             | Some t \<Rightarrow>
                 Inr (t\<lparr>ts_followRedirects := False, ts_timeout := (if ts_timeout t = 0 then 60 * second else ts_timeout t)\<rparr>))
      in case settings of
           Inl e \<Rightarrow> Inl e
         | Inr t \<Rightarrow>
             Inr \<lparr>kc_server = trimSuffix (ao_server options) ''/'', kc_token = ao_token options, kc_invoker = ao_invoker options,
                  kc_userAgent = (if ao_userAgent options = [] then ''cli-gateway-cli/dev'' else ao_userAgent options), kc_http = t\<rparr>)"

section \<open>Requests\<close>

definition clientTraceID :: "string option \<Rightarrow> string" where
  "clientTraceID random = (case random of None \<Rightarrow> replicate 32 (CHR ''0'') | Some r \<Rightarrow> hexEncode r)"

definition request_header :: "string option \<Rightarrow> api_client \<Rightarrow> http_header" where
  "request_header random c =
     (let h1 = (if kc_token c \<noteq> [] then headerSet ''Authorization'' (''Bearer '' @ kc_token c) [] else []);
          h2 = (if equalFold (kc_invoker c) ''ai'' then headerSet ''X-Cli-Gateway-Invoker'' ''ai'' h1 else h1);
          h3 = headerSet ''X-Cli-Gateway-Trace-Id'' (clientTraceID random) h2;
          h4 = headerSet ''User-Agent'' (kc_userAgent c) h3
      in headerSet ''Accept'' ''application/json'' h4)"

definition apiRequest :: "string option \<Rightarrow> api_client \<Rightarrow> string \<Rightarrow> string \<Rightarrow> string option \<Rightarrow> cli_error + http_request" where
  "apiRequest random c verb path body =
     (case newRequest verb (kc_server c @ path) body of
        None \<Rightarrow> Inl (Wrapped ''build request'' (Plain ''invalid URL''))
      | Some rq \<Rightarrow> Inr (rq\<lparr>rq_header := request_header random c\<rparr>))"

section \<open>Answers\<close>

record api_response =
  as_status :: int
  as_header :: http_header
  as_body :: "string list \<times> read_end"

definition maxResponseBody :: nat where
  "maxResponseBody = 4194304"

definition readLimited :: "string list \<times> read_end \<Rightarrow> cli_error + string" where
  "readLimited r =
     (case read_limited (maxResponseBody + 1) r of (body, e) \<Rightarrow>
        (if e \<noteq> ReadEOF then Inl (Wrapped ''read response'' (Plain ''read failed''))
         else if length body > maxResponseBody then Inl (Plain ''response exceeds 4 MiB'')
         else Inr body))"

text \<open>\<open>http.StatusText\<close>, for the statuses the package names.\<close>

definition statusText :: "int \<Rightarrow> string" where
  "statusText status =
     (case map_of
        [(100, ''Continue''), (101, ''Switching Protocols''), (102, ''Processing''), (103, ''Early Hints''),
         (200, ''OK''), (201, ''Created''), (202, ''Accepted''), (203, ''Non-Authoritative Information''), (204, ''No Content''),
         (205, ''Reset Content''), (206, ''Partial Content''), (207, ''Multi-Status''), (208, ''Already Reported''), (226, ''IM Used''),
         (300, ''Multiple Choices''), (301, ''Moved Permanently''), (302, ''Found''), (303, ''See Other''), (304, ''Not Modified''),
         (305, ''Use Proxy''), (307, ''Temporary Redirect''), (308, ''Permanent Redirect''),
         (400, ''Bad Request''), (401, ''Unauthorized''), (402, ''Payment Required''), (403, ''Forbidden''), (404, ''Not Found''),
         (405, ''Method Not Allowed''), (406, ''Not Acceptable''), (407, ''Proxy Authentication Required''), (408, ''Request Timeout''),
         (409, ''Conflict''), (410, ''Gone''), (411, ''Length Required''), (412, ''Precondition Failed''),
         (413, ''Request Entity Too Large''), (414, ''Request URI Too Long''), (415, ''Unsupported Media Type''),
         (416, ''Requested Range Not Satisfiable''), (417, ''Expectation Failed''), (418, ''I'' @ [CHR 0x27] @ ''m a teapot''),
         (421, ''Misdirected Request''), (422, ''Unprocessable Entity''), (423, ''Locked''), (424, ''Failed Dependency''),
         (425, ''Too Early''), (426, ''Upgrade Required''), (428, ''Precondition Required''), (429, ''Too Many Requests''),
         (431, ''Request Header Fields Too Large''), (451, ''Unavailable For Legal Reasons''),
         (500, ''Internal Server Error''), (501, ''Not Implemented''), (502, ''Bad Gateway''), (503, ''Service Unavailable''),
         (504, ''Gateway Timeout''), (505, ''HTTP Version Not Supported''), (506, ''Variant Also Negotiates''),
         (507, ''Insufficient Storage''), (508, ''Loop Detected''), (510, ''Not Extended''), (511, ''Network Authentication Required'')]
        status of
        None \<Rightarrow> [] | Some t \<Rightarrow> t)"

text \<open>The decoder is \<open>json.Unmarshal\<close> into an \<open>Error\<close>.\<close>

definition decodeError :: "(string \<Rightarrow> gateway_error option) \<Rightarrow> int \<Rightarrow> string \<Rightarrow> gateway_error" where
  "decodeError unmarshal status body =
     (case unmarshal body of
        Some e \<Rightarrow>
          (if gx_code e = [] then \<lparr>gx_status = status, gx_code = ''E_SERVER'', gx_message = statusText status, gx_hint = [], gx_trace = []\<rparr>
           else e\<lparr>gx_status := status\<rparr>)
      | None \<Rightarrow> \<lparr>gx_status = status, gx_code = ''E_SERVER'', gx_message = statusText status, gx_hint = [], gx_trace = []\<rparr>)"

definition ok_status :: "int \<Rightarrow> bool" where
  "ok_status status \<longleftrightarrow> \<not> (status < 200 \<or> status \<ge> 300)"

section \<open>Calls\<close>

record client_start =
  cs_domain :: string
  cs_url :: string
  cs_expires :: "gotime option"

record client_status =
  cu_domain :: string
  cu_authorized :: bool
  cu_expires :: "gotime option"

record api_stream =
  sm_status :: int
  sm_contentType :: string
  sm_body :: "string list \<times> read_end"

text \<open>The transport changes the world it talks to; random bytes are read from it.\<close>

record 'w api_env =
  pe_send :: "http_request \<Rightarrow> 'w \<Rightarrow> (string + api_response) \<times> 'w"
  pe_random :: "'w \<Rightarrow> string option"
  pe_fmtFloat :: "float64 \<Rightarrow> string"
  pe_fmtTime :: "gotime \<Rightarrow> string"
  pe_error :: "string \<Rightarrow> gateway_error option"
  pe_start :: "string \<Rightarrow> client_start option"
  pe_status :: "string \<Rightarrow> client_status option"

text \<open>Building, sending, reading and checking: what all calls but a stream and a manifest share.\<close>

definition api_call :: "'w api_env \<Rightarrow> api_client \<Rightarrow> string \<Rightarrow> string \<Rightarrow> string \<Rightarrow> 'w \<Rightarrow> (cli_error + string) \<times> 'w" where
  "api_call en c label verb path w =
     (case apiRequest (pe_random en w) c verb path None of
        Inl e \<Rightarrow> (Inl e, w)
      | Inr rq \<Rightarrow>
          (case pe_send en rq w of
             (Inl e, w1) \<Rightarrow> (Inl (Wrapped label (Plain e)), w1)
           | (Inr rs, w1) \<Rightarrow>
               (case readLimited (as_body rs) of
                  Inl e \<Rightarrow> (Inl e, w1)
                | Inr body \<Rightarrow>
                    (if ok_status (as_status rs) then (Inr body, w1)
                     else (Inl (GatewayFailure (decodeError (pe_error en) (as_status rs) body)), w1)))))"

definition apiManifest :: "'w api_env \<Rightarrow> api_client \<Rightarrow> string \<Rightarrow> 'w \<Rightarrow> (cli_error + string option \<times> string) \<times> 'w" where
  "apiManifest en c etag w =
     (case apiRequest (pe_random en w) c ''GET'' ''/manifest'' None of
        Inl e \<Rightarrow> (Inl e, w)
      | Inr rq \<Rightarrow>
          (let rq' = (if etag \<noteq> [] then rq\<lparr>rq_header := headerSet ''If-None-Match'' etag (rq_header rq)\<rparr> else rq)
           in case pe_send en rq' w of
                (Inl e, w1) \<Rightarrow> (Inl (Wrapped ''request manifest'' (Plain e)), w1)
              | (Inr rs, w1) \<Rightarrow>
                  (if as_status rs = 304 then (Inr (None, headerGet (as_header rs) ''ETag''), w1)
                   else case readLimited (as_body rs) of
                     Inl e \<Rightarrow> (Inl e, w1)
                   | Inr body \<Rightarrow>
                       (if ok_status (as_status rs) then (Inr (Some body, headerGet (as_header rs) ''ETag''), w1)
                        else (Inl (GatewayFailure (decodeError (pe_error en) (as_status rs) body)), w1)))))"

definition exec_path :: "string \<Rightarrow> string \<Rightarrow> string" where
  "exec_path d command = ''/exec/'' @ pathEscape d @ ''/'' @ pathEscape command"

definition exec_body :: "'w api_env \<Rightarrow> arguments \<Rightarrow> string option" where
  "exec_body en args = marshal_doc (pe_fmtFloat en) (pe_fmtTime en) (Struct [(''args'', Any (VObj args))])"

definition exec_header :: "bool \<Rightarrow> http_header \<Rightarrow> http_header" where
  "exec_header conf h =
     (let h1 = headerSet ''Content-Type'' ''application/json'' h
      in if conf then headerSet ''X-Cli-Gateway-Confirm'' ''true'' h1 else h1)"

definition executeStream ::
  "'w api_env \<Rightarrow> api_client \<Rightarrow> string \<Rightarrow> string \<Rightarrow> arguments \<Rightarrow> bool \<Rightarrow> 'w \<Rightarrow> (cli_error + api_stream) \<times> 'w" where
  "executeStream en c d command args conf w =
     (case exec_body en args of
        None \<Rightarrow> (Inl (Wrapped ''encode arguments'' (Plain ''unsupported value'')), w)
      | Some body \<Rightarrow>
          (case apiRequest (pe_random en w) c ''POST'' (exec_path d command) (Some body) of
             Inl e \<Rightarrow> (Inl e, w)
           | Inr rq \<Rightarrow>
               (case pe_send en (rq\<lparr>rq_header := exec_header conf (rq_header rq)\<rparr>) w of
                  (Inl e, w1) \<Rightarrow> (Inl (Wrapped ''execute command; outcome may be unknown'' (Plain e)), w1)
                | (Inr rs, w1) \<Rightarrow>
                    (if ok_status (as_status rs)
                     then (Inr \<lparr>sm_status = as_status rs, sm_contentType = headerGet (as_header rs) ''Content-Type'', sm_body = as_body rs\<rparr>, w1)
                     else (case readLimited (as_body rs) of
                             Inl e \<Rightarrow> (Inl e, w1)
                           | Inr text \<Rightarrow> (Inl (GatewayFailure (decodeError (pe_error en) (as_status rs) text)), w1))))))"

definition apiExecute ::
  "'w api_env \<Rightarrow> api_client \<Rightarrow> string \<Rightarrow> string \<Rightarrow> arguments \<Rightarrow> bool \<Rightarrow> 'w \<Rightarrow> (cli_error + string) \<times> 'w" where
  "apiExecute en c d command args conf w =
     (case executeStream en c d command args conf w of
        (Inl e, w1) \<Rightarrow> (Inl e, w1)
      | (Inr stream, w1) \<Rightarrow> (readLimited (sm_body stream), w1))"

definition apiWhoAmI :: "'w api_env \<Rightarrow> api_client \<Rightarrow> 'w \<Rightarrow> (cli_error + string) \<times> 'w" where
  "apiWhoAmI en c w = api_call en c ''request identity'' ''GET'' ''/whoami'' w"

definition clientBeginAuthorization :: "'w api_env \<Rightarrow> api_client \<Rightarrow> string \<Rightarrow> 'w \<Rightarrow> (cli_error + client_start) \<times> 'w" where
  "clientBeginAuthorization en c d w =
     (case api_call en c ''start downstream authorization'' ''POST'' (''/oauth/downstream/'' @ pathEscape d @ ''/authorize'') w of
        (Inl e, w1) \<Rightarrow> (Inl e, w1)
      | (Inr body, w1) \<Rightarrow>
          (case pe_start en body of
             None \<Rightarrow> (Inl (Plain ''gateway returned an invalid downstream authorization response''), w1)
           | Some s \<Rightarrow>
               (if cs_url s = [] \<or> cs_domain s \<noteq> d
                then (Inl (Plain ''gateway returned an invalid downstream authorization response''), w1) else (Inr s, w1))))"

definition clientAuthorizationStatus :: "'w api_env \<Rightarrow> api_client \<Rightarrow> string \<Rightarrow> 'w \<Rightarrow> (cli_error + client_status) \<times> 'w" where
  "clientAuthorizationStatus en c d w =
     (case api_call en c ''check downstream authorization'' ''GET'' (''/oauth/downstream/'' @ pathEscape d @ ''/status'') w of
        (Inl e, w1) \<Rightarrow> (Inl e, w1)
      | (Inr body, w1) \<Rightarrow>
          (case pe_status en body of
             None \<Rightarrow> (Inl (Plain ''gateway returned an invalid downstream authorization status''), w1)
           | Some s \<Rightarrow>
               (if cu_domain s \<noteq> d
                then (Inl (Plain ''gateway returned an invalid downstream authorization status''), w1) else (Inr s, w1))))"

definition disconnectAuthorization :: "'w api_env \<Rightarrow> api_client \<Rightarrow> string \<Rightarrow> 'w \<Rightarrow> (cli_error + unit) \<times> 'w" where
  "disconnectAuthorization en c d w =
     (case api_call en c ''disconnect downstream authorization'' ''DELETE'' (''/oauth/downstream/'' @ pathEscape d) w of
        (Inl e, w1) \<Rightarrow> (Inl e, w1)
      | (Inr _, w1) \<Rightarrow> (Inr (), w1))"

section \<open>Arrival at the gateway\<close>

text \<open>How a request arrives: \<open>http.ServeMux\<close> matches the unescaped segments of the escaped path.\<close>

definition path_segments :: "url \<Rightarrow> string list" where
  "path_segments u = map (\<lambda>s. case pathUnescape s of Some t \<Rightarrow> t | None \<Rightarrow> s) (splitOn (CHR ''/'') (drop 1 (escapedPath u)))"

definition arrival :: "http_request \<Rightarrow> in_request" where
  "arrival rq = \<lparr>hr_header = rq_header rq, hr_pathValue = (\<lambda>_. []), hr_query = parseQuery (u_rawQuery (rq_url rq)),
     hr_body = (case rq_body rq of None \<Rightarrow> [] | Some b \<Rightarrow> b)\<rparr>"

definition at_gateway ::
  "serve_env \<Rightarrow> manifest_manager option \<Rightarrow> 'w dependencies \<Rightarrow> ('w \<Rightarrow> 'w handled) option \<Rightarrow> http_request \<Rightarrow> 'w \<Rightarrow> 'w handled" where
  "at_gateway se manager dp mcp rq w = serve se (rq_method rq) (path_segments (rq_url rq)) (arrival rq) manager dp mcp w"

lemma cut_free: "sep \<notin> set s \<Longrightarrow> cut sep s = (s, [], False)"
  by (induction s) auto

lemma getScheme_http:
  assumes "sch = ''http'' \<or> sch = ''https''"
  shows "getScheme (sch @ ''://'' @ x) = Some (sch, ''//'' @ x)" "toLower sch = sch"
proof -
  have "toLower ''http'' = ''http''" "toLower ''https'' = ''https''"
    by (simp_all add: toLower_ascii is_ascii_def lower_byte_def byte_class_defs)
  with assms show "toLower sch = sch" by auto
  show "getScheme (sch @ ''://'' @ x) = Some (sch, ''//'' @ x)"
    using assms by (auto simp: getScheme_def scheme_char_def byte_class_defs)
qed

definition plain_url_text :: "string \<Rightarrow> bool" where
  "plain_url_text s \<longleftrightarrow> CHR ''?'' \<notin> set s \<and> CHR ''#'' \<notin> set s \<and> \<not> has_ctl s"

lemma urlParse_http:
  assumes sch: "sch = ''http'' \<or> sch = ''https''" and plain: "plain_url_text h" "plain_url_text p"
    and h: "CHR ''/'' \<notin> set h" and p: "p = [] \<or> hd p = CHR ''/''"
  shows "urlParse (sch @ ''://'' @ h @ p) =
    (case parseAuthority h of
       None \<Rightarrow> None
     | Some (user, host) \<Rightarrow> setPath p (empty_url\<lparr>u_scheme := sch, u_user := user, u_host := host\<rparr>))"
proof -
  have free: "c \<notin> set (''//'' @ h @ p)" if "c = CHR ''?'' \<or> c = CHR ''#''" for c
    using that plain by (auto simp: plain_url_text_def)
  have t: "takeWhile (\<lambda>c. c \<noteq> CHR ''/'') (h @ p) = h" "dropWhile (\<lambda>c. c \<noteq> CHR ''/'') (h @ p) = p"
    using h p by (cases p; auto simp: takeWhile_append dropWhile_append takeWhile_eq_all_conv)+
  have ctl: "\<not> has_ctl (sch @ ''://'' @ h @ p)" using plain sch by (auto simp: plain_url_text_def has_ctl_def)
  have q: "\<not> hasSuffix (''//'' @ h @ p) ''?''"
  proof
    assume "hasSuffix (''//'' @ h @ p) ''?''"
    then obtain r where "rev (''//'' @ h @ p) = CHR ''?'' # r" by (auto simp: hasSuffix_def hasPrefix_iff)
    then have "CHR ''?'' \<in> set (rev (''//'' @ h @ p))" by (simp only: list.set_intros)
    with free [of "CHR ''?''"] show False by (simp only: set_rev) simp
  qed
  define raw where "raw = sch @ ''://'' @ h @ p"
  have ne: "sch \<noteq> []" "raw \<noteq> ''*''" using sch by (auto simp: raw_def)
  have g: "getScheme raw = Some (sch, ''//'' @ h @ p)" "toLower sch = sch" "\<not> has_ctl raw"
    using getScheme_http(1) [OF sch, of "h @ p"] getScheme_http(2) [OF sch] ctl by (simp_all only: raw_def not_False_eq_True)
  have "cut (CHR ''?'') (''//'' @ h @ p) = (''//'' @ h @ p, [], False)" by (rule cut_free) (use free [of "CHR ''?''"] in blast)
  then have "parse_no_frag raw = (case parseAuthority h of
       None \<Rightarrow> None
     | Some (user, host) \<Rightarrow> setPath p (empty_url\<lparr>u_scheme := sch, u_user := user, u_host := host\<rparr>))"
    unfolding parse_no_frag_def g
    using q t ne g(2,3) by (simp add: Let_def empty_url_def del: cut.simps split: option.split)
  moreover have "CHR ''#'' \<notin> set (sch @ ''://'' @ h @ p)" using free [of "CHR ''#''"] sch by auto
  ultimately have "urlParse raw = (case parseAuthority h of
       None \<Rightarrow> None
     | Some (user, host) \<Rightarrow> setPath p (empty_url\<lparr>u_scheme := sch, u_user := user, u_host := host\<rparr>))"
    unfolding urlParse_def using cut_free [of "CHR ''#''" raw] by (simp add: raw_def split: option.split)
  then show ?thesis by (simp only: raw_def)
qed

lemma escapedPath_setPath:
  assumes "setPath p u = Some u'" "validEncoded EncPath p" "p = [] \<or> hd p = CHR ''/''"
  shows "escapedPath (u'\<lparr>u_host := h\<rparr>) = p"
proof -
  obtain q where q: "unescape EncPath p = Some q" "u' = u\<lparr>u_path := q, u_rawPath := (if p = escape EncPath q then [] else p)\<rparr>"
    using assms(1) by (auto simp: setPath_def split: option.splits)
  show ?thesis
  proof (cases "p = escape EncPath q")
    case True
    have "escape EncPath ''*'' \<noteq> [] \<and> hd (escape EncPath ''*'') \<noteq> CHR ''/''"
      by (simp add: escape_def escape_byte_def percent_def)
    then have "q \<noteq> ''*''" using assms(3) True by metis
    with True q show ?thesis by (simp add: escapedPath_def)
  next
    case False
    with q assms(2) unescape_Nil show ?thesis by (auto simp: escapedPath_def escape_def)
  qed
qed

lemma shouldEscape_ctl: "byte c < 32 \<or> byte c = 127 \<Longrightarrow> shouldEscape c m"
proof -
  assume ctl: "byte c < 32 \<or> byte c = 127"
  have "list_all (\<lambda>x. \<not> (byte x < 32 \<or> byte x = 127)) (''!$&()*+,;=:[]<>-_.~/?@'' @ [CHR 0x27, CHR 0x22])" by simp
  with ctl have "c \<notin> set (''!$&()*+,;=:[]<>-_.~/?@'' @ [CHR 0x27, CHR 0x22])" unfolding list_all_iff by blast
  moreover have "\<not> is_alnum c" using ctl by (auto simp: byte_class_defs)
  ultimately show "shouldEscape c m" by (simp add: shouldEscape_def)
qed

lemma escape_no_ctl: "\<not> has_ctl (escape m s)"
proof -
  have "\<not> (byte c < 32 \<or> byte c = 127)" if "c \<in> set (escape m s)" for c
    using set_escape [OF that] shouldEscape_ctl [of c m] by auto
  then show ?thesis by (auto simp: has_ctl_def list_ex_iff)
qed

lemma pathEscape_text: "plain_url_text (pathEscape s)"
  using query_not_in_pathEscape [of s] escape_no_ctl [of EncPathSegment s] by (simp add: plain_url_text_def pathEscape_def)

lemma exec_path_facts:
  "plain_url_text (exec_path d k)" "validEncoded EncPath (exec_path d k)" "hd (exec_path d k) = CHR ''/''" "exec_path d k \<noteq> []"
  "unescape EncPath (exec_path d k) = Some (''/exec/'' @ d @ ''/'' @ k)"
  "map (\<lambda>s. case pathUnescape s of Some t \<Rightarrow> t | None \<Rightarrow> s) (splitOn (CHR ''/'') (drop 1 (exec_path d k))) = [''exec'', d, k]"
proof -
  show "hd (exec_path d k) = CHR ''/''" "exec_path d k \<noteq> []" by (simp_all add: exec_path_def)
  show "plain_url_text (exec_path d k)"
    using pathEscape_text [of d] pathEscape_text [of k] by (auto simp: exec_path_def plain_url_text_def has_ctl_def)
  have "validEncoded EncPath ''/exec/''" "validEncoded EncPath ''/''" by (simp_all add: validEncoded_def shouldEscape_def byte_class_defs)
  then show "validEncoded EncPath (exec_path d k)"
    unfolding exec_path_def validEncoded_append using validEncoded_pathEscape by blast
  have "unescape EncPathSegment (pathEscape d @ ''/'' @ pathEscape k) = Some (d @ ''/'' @ k)"
    using unescape_escape_append [of EncPathSegment d "''/'' @ pathEscape k"] unescape_escape [of EncPathSegment k]
    by (simp add: pathEscape_def)
  then show "unescape EncPath (exec_path d k) = Some (''/exec/'' @ d @ ''/'' @ k)"
    by (simp add: unescape_mode exec_path_def)
  have "pathUnescape ''exec'' = Some ''exec''" by (simp add: pathUnescape_def)
  moreover have "drop 1 (exec_path d k) = ''exec'' @ CHR ''/'' # pathEscape d @ CHR ''/'' # pathEscape k" by (simp add: exec_path_def)
  then have "splitOn (CHR ''/'') (drop 1 (exec_path d k)) = [''exec'', pathEscape d, pathEscape k]"
    using slash_not_in_pathEscape [of d] slash_not_in_pathEscape [of k]
    by (simp only:) (simp add: splitOn_append splitOn_free)
  ultimately show "map (\<lambda>s. case pathUnescape s of Some t \<Rightarrow> t | None \<Rightarrow> s) (splitOn (CHR ''/'') (drop 1 (exec_path d k))) = [''exec'', d, k]"
    by (simp only:) simp
qed

lemma origin_text:
  assumes "validateOrigin raw = Inr o'" "CHR ''?'' \<notin> set o'" "urlParse o' = Some u"
  obtains sch h user host where "o' = sch @ ''://'' @ h" "sch = ''http'' \<or> sch = ''https''" "plain_url_text h" "CHR ''/'' \<notin> set h"
    "parseAuthority h = Some (user, host)"
proof -
  obtain w where w: "w = ''http'' \<or> w = ''https''" and "\<exists>x. o' = w @ ''://'' @ escape EncHost x"
    using validateOrigin_ok [OF assms(1)] assms(2) by (auto simp: origin_ok_def split: if_splits)
  then obtain x where o: "o' = w @ ''://'' @ escape EncHost x" by blast
  let ?h = "escape EncHost x"
  have slash: "CHR ''/'' \<notin> set ?h" by (rule escape_host_slash)
  have hash: "CHR ''#'' \<notin> set ?h"
  proof
    assume "CHR ''#'' \<in> set ?h"
    from set_escape [OF this] show False by (auto simp: shouldEscape_def byte_class_defs)
  qed
  have plain: "plain_url_text ?h" using hash escape_no_ctl assms(2) by (auto simp: plain_url_text_def o)
  obtain user host where "parseAuthority ?h = Some (user, host)"
    using assms(3) urlParse_http [OF w plain _ slash, of "[]"] unfolding o by (auto simp: plain_url_text_def has_ctl_def split: option.splits)
  with that [OF o w plain slash] show ?thesis by blast
qed

section \<open>What the gateway reads\<close>

lemma client_header_names:
  "canonicalHeaderKey ''Authorization'' = ''Authorization''" "canonicalHeaderKey ''User-Agent'' = ''User-Agent''"
  "canonicalHeaderKey ''Accept'' = ''Accept''" "canonicalHeaderKey ''X-Cli-Gateway-Confirm'' = ''X-Cli-Gateway-Confirm''"
  "canonicalHeaderKey ''traceparent'' = ''Traceparent''"
  by (simp_all add: canonicalHeaderKey_def token_char_def upper_byte_def lower_byte_def byte_class_defs char_of_eq_iff)

lemma client_header_values:
  "trimSpace [] = []" "trimSpace ''true'' = ''true''" "trimSpace ''ai'' = ''ai''"
  "equalFold ''true'' ''true''" "equalFold ''ai'' ''ai''" "\<not> equalFold [] ''true''" "\<not> equalFold [] ''ai''"
  "parentPattern [] = None"
  by (simp_all add: trimSpace_def [of "[]"] trim_left.simps trimSpace_visible visible_byte_def equalFold_def foldCase_ascii
      is_ascii_def parentPattern_def)

lemmas client_headers = headerGet_headerSet header_names client_header_names

lemma headerGet_Nil [simp]: "headerGet [] n = []"
  by (simp add: headerGet_def)

lemma call_header:
  assumes "h = exec_header conf (request_header random c)"
  shows "headerGet h ''Authorization'' = (if kc_token c \<noteq> [] then ''Bearer '' @ kc_token c else [])"
    "headerGet h ''X-Cli-Gateway-Invoker'' = (if equalFold (kc_invoker c) ''ai'' then ''ai'' else [])"
    "headerGet h ''X-Cli-Gateway-Confirm'' = (if conf then ''true'' else [])"
    "headerGet h ''X-Cli-Gateway-Trace-Id'' = clientTraceID random"
    "headerGet h ''User-Agent'' = kc_userAgent c"
    "headerGet h ''traceparent'' = []"
  unfolding assms exec_header_def request_header_def Let_def by (simp_all add: client_headers)

lemma bearerToken_of:
  assumes "headerGet h ''Authorization'' = ''Bearer '' @ t" "t \<noteq> []" "list_all visible_byte t"
  shows "bearerToken h = Inr t"
proof -
  have "headerGet (headerSet ''Authorization'' (''Bearer '' @ t) []) ''Authorization'' = headerGet h ''Authorization''"
    by (simp add: headerGet_headerSet assms(1))
  then have "bearerToken h = bearerToken (headerSet ''Authorization'' (''Bearer '' @ t) [])" by (simp only: bearerToken_def)
  with bearer_roundtrip [OF assms(2,3), of "[]"] show ?thesis by simp
qed

lemma request_read:
  assumes "hr_header rq = exec_header conf (request_header (Some r) c)" "length r = 16" "kc_token c \<noteq> []" "list_all visible_byte (kc_token c)"
  shows "bearerToken (hr_header rq) = Inr (kc_token c)" "confirmed rq = conf" "userAgent rq = kc_userAgent c"
    "requestTraceID random (hr_header rq) = hexEncode r"
    "effectiveInvoker trusted (headerGet (hr_header rq) ''X-Cli-Gateway-Invoker'')
       = (if equalFold (kc_invoker c) ''ai'' then InvokerAI else if trusted = [] then InvokerUnknown else trusted)"
proof -
  note h = call_header [OF assms(1)]
  show "bearerToken (hr_header rq) = Inr (kc_token c)" by (rule bearerToken_of) (use h(1) assms(3,4) in simp_all)
  show "confirmed rq = conf" by (simp add: confirmed_def h(3) client_header_values)
  show "userAgent rq = kc_userAgent c" by (simp add: userAgent_def h(5))
  show "requestTraceID random (hr_header rq) = hexEncode r"
    using tracePattern_hexEncode [OF assms(2)] by (simp add: requestTraceID_def h(4,6) traceID_def clientTraceID_def client_header_values)
  show "effectiveInvoker trusted (headerGet (hr_header rq) ''X-Cli-Gateway-Invoker'')
       = (if equalFold (kc_invoker c) ''ai'' then InvokerAI else if trusted = [] then InvokerUnknown else trusted)"
    by (simp add: effectiveInvoker_def h(2) client_header_values)
qed

lemma origin_request:
  assumes "validateOrigin raw = Inr (kc_server cl)" "CHR ''?'' \<notin> set (kc_server cl)" "urlParse (kc_server cl) = Some u"
  obtains rq where "apiRequest random cl ''POST'' (exec_path d k) body = Inr rq" "rq_method rq = ''POST''" "rq_body rq = body"
    "rq_header rq = request_header random cl" "path_segments (rq_url rq) = [''exec'', d, k]"
proof -
  obtain sch h user host where o: "kc_server cl = sch @ ''://'' @ h" "sch = ''http'' \<or> sch = ''https''" "plain_url_text h" "CHR ''/'' \<notin> set h"
    "parseAuthority h = Some (user, host)" by (rule origin_text [OF assms])
  let ?u = "empty_url\<lparr>u_scheme := sch, u_user := user, u_host := host\<rparr>"
  note p = exec_path_facts [of d k]
  have parsed: "urlParse (kc_server cl @ exec_path d k) = setPath (exec_path d k) ?u"
    using urlParse_http [OF o(2,3) p(1) o(4)] p(3) o(5) by (simp add: o(1))
  obtain u' where u': "setPath (exec_path d k) ?u = Some u'" using p(5) by (simp add: setPath_def)
  have tok: "list_all token_char ''POST''" by (simp add: token_char_def byte_class_defs)
  have "path_segments (u'\<lparr>u_host := removeEmptyPort (u_host u')\<rparr>) = [''exec'', d, k]"
    unfolding path_segments_def using escapedPath_setPath [OF u' p(2)] p(3,6) by simp
  with tok show ?thesis
    by (intro that [of "\<lparr>rq_method = ''POST'', rq_text = kc_server cl @ exec_path d k,
        rq_url = u'\<lparr>u_host := removeEmptyPort (u_host u')\<rparr>, rq_header = request_header random cl, rq_body = body\<rparr>"])
      (simp_all add: apiRequest_def newRequest_def parsed u')
qed

lemma namePattern_not_Nil: "namePattern s \<Longrightarrow> s \<noteq> []"
  by (auto simp: namePattern_def)

lemma join_names_not_Nil: "ps \<noteq> [] \<Longrightarrow> list_all namePattern ps \<Longrightarrow> join ps sep \<noteq> []"
  using namePattern_not_Nil by (induction ps sep rule: join.induct) auto


text \<open>
  With an origin that keeps its question mark, every path the client appends becomes part of the
  query, and the request asks for the gateway's root.
\<close>

theorem question_mark_origin_loses_path:
  "\<exists>rq. apiRequest None \<lparr>kc_server = ''https://gw.example?'', kc_token = [], kc_invoker = [], kc_userAgent = [],
        kc_http = \<lparr>ts_timeout = 0, ts_followRedirects = False, ts_roots = None\<rparr>\<rparr> ''GET'' ''/whoami'' None = Inr rq
     \<and> u_path (rq_url rq) = [] \<and> u_rawQuery (rq_url rq) = ''/whoami''"
proof -
  let ?c = "\<lparr>kc_server = ''https://gw.example?'', kc_token = [], kc_invoker = [], kc_userAgent = [],
        kc_http = \<lparr>ts_timeout = 0, ts_followRedirects = False, ts_roots = None\<rparr>\<rparr>"
  have "case apiRequest None ?c ''GET'' ''/whoami'' None of Inl _ \<Rightarrow> False | Inr rq \<Rightarrow> u_path (rq_url rq) = [] \<and> u_rawQuery (rq_url rq) = ''/whoami''"
    by code_simp
  then show ?thesis by (cases "apiRequest None ?c ''GET'' ''/whoami'' None") auto
qed

section \<open>Errors read back\<close>

text \<open>The string \<open>json.Unmarshal\<close> puts into a field: the value under its name, or nothing.\<close>

definition struct_string :: "json_doc \<Rightarrow> string \<Rightarrow> string" where
  "struct_string d k =
     (case d of Struct fs \<Rightarrow> (case map_of fs k of Some (Any (VStr v)) \<Rightarrow> v | _ \<Rightarrow> []) | _ \<Rightarrow> [])"

definition reads_fields :: "gateway_error \<Rightarrow> json_doc \<Rightarrow> bool" where
  "reads_fields x d \<longleftrightarrow> gx_code x = struct_string d ''error'' \<and> gx_message x = struct_string d ''message''
     \<and> gx_hint x = struct_string d ''hint'' \<and> gx_trace x = struct_string d ''trace_id''"

lemma error_document_fields:
  "struct_string (error_document e) ''error'' = ae_code e" "struct_string (error_document e) ''message'' = ae_message e"
  "struct_string (error_document e) ''hint'' = ae_hint e" "struct_string (error_document e) ''trace_id'' = ae_traceID e"
  by (simp_all add: struct_string_def error_document_def omit_empty_def)

definition public_failure :: "api_error \<Rightarrow> gateway_error" where
  "public_failure e = \<lparr>gx_status = (if ae_status e = 0 then 500 else ae_status e), gx_code = ae_code e, gx_message = ae_message e,
     gx_hint = ae_hint e, gx_trace = ae_traceID e\<rparr>"

text \<open>An error answer as it travels: the document of \<open>writeAPIError\<close>, marshalled, in pieces.\<close>

definition carries_error :: "'w api_env \<Rightarrow> api_error \<Rightarrow> api_response \<Rightarrow> bool" where
  "carries_error en e rs \<longleftrightarrow>
     (\<exists>text x h. marshal_doc (pe_fmtFloat en) (pe_fmtTime en) (error_document e) = Some text \<and> length text \<le> maxResponseBody
        \<and> pe_error en text = Some x \<and> reads_fields x (error_document e)
        \<and> as_status rs = rp_status (writeAPIError e h) \<and> concat (fst (as_body rs)) = text \<and> snd (as_body rs) = ReadEOF)"

lemma carried_error_read:
  assumes "carries_error en e rs" "ae_code e \<noteq> []"
  shows "\<exists>raw. readLimited (as_body rs) = Inr raw \<and> decodeError (pe_error en) (as_status rs) raw = public_failure e"
    "as_status rs = gx_status (public_failure e)"
proof -
  obtain raw x h where t: "length raw \<le> maxResponseBody" "pe_error en raw = Some x" "reads_fields x (error_document e)"
    "as_status rs = rp_status (writeAPIError e h)" "concat (fst (as_body rs)) = raw" "snd (as_body rs) = ReadEOF"
    using assms(1) by (auto simp: carries_error_def)
  show s: "as_status rs = gx_status (public_failure e)" by (simp add: t(4) public_failure_def writeAPIError_def writeJSON_def Let_def)
  have "readLimited (as_body rs) = Inr raw" using t(1,5,6) by (simp add: readLimited_def read_limited_def)
  moreover have "decodeError (pe_error en) (as_status rs) raw = public_failure e"
    using t(2,3) assms(2) s by (cases x) (simp add: decodeError_def reads_fields_def error_document_fields public_failure_def)
  ultimately show "\<exists>raw. readLimited (as_body rs) = Inr raw \<and> decodeError (pe_error en) (as_status rs) raw = public_failure e" by blast
qed

end
