(* ===== verification/Client_OAuth.thy ===== *)
theory Client_OAuth
  imports Client_Api
begin

text \<open>
  The client's OAuth flows, \<open>client/internal/oauth/manager.go\<close>: discovery, the refresh of a session, the
  device and the PKCE login, and logout. The OS keyring, the network, the clock, the random bytes
  and the JSON decoders are arguments; the requests sent are kept in order.
\<close>

section \<open>Documents\<close>

record resource_metadata =
  md_resource :: string
  md_servers :: "string list"
  md_clientID :: string
  md_audience :: string
  md_resourceParameter :: string
  md_scopes :: "string list"

record login_metadata =
  iz_issuer :: string
  iz_authorization :: string
  iz_token :: string
  iz_device :: string
  iz_revocation :: string

record client_token =
  ct_access :: string
  ct_expires :: gotime

record token_document =
  td_access :: string
  td_refresh :: string
  td_type :: string
  td_expiresIn :: "goval option"
  td_error :: string

record device_document =
  dv_code :: string
  dv_userCode :: string
  dv_uri :: string
  dv_uriComplete :: string
  dv_expiresIn :: int
  dv_interval :: int

record oauth_manager =
  om_server :: string
  om_cliName :: string
  om_keyringService :: string
  om_token :: client_token

definition no_client_token :: client_token where
  "no_client_token = \<lparr>ct_access = [], ct_expires = 0\<rparr>"

section \<open>Environment\<close>

datatype ring_read = RingMissing | RingFails string | RingValue string

datatype ring_delete = Deleted | NothingStored | DeleteFails string

record ('r, 'n) client_session =
  xs_ring :: 'r
  xs_net :: 'n
  xs_sent :: "http_request list"

record ('r, 'n) oauth_env =
  oe_get :: "string \<Rightarrow> string \<Rightarrow> 'r \<Rightarrow> ring_read"
  oe_set :: "string \<Rightarrow> string \<Rightarrow> string \<Rightarrow> 'r \<Rightarrow> string option \<times> 'r"
  oe_delete :: "string \<Rightarrow> string \<Rightarrow> 'r \<Rightarrow> ring_delete \<times> 'r"
  oe_do :: "http_request \<Rightarrow> 'n \<Rightarrow> (string + api_response) \<times> 'n"
  oe_now :: "'n \<Rightarrow> gotime"
  oe_wait :: "gotime \<Rightarrow> duration \<Rightarrow> 'n \<Rightarrow> bool \<times> 'n"
  oe_sha256 :: "string \<Rightarrow> string"
  oe_resource :: "string \<Rightarrow> resource_metadata option"
  oe_issuer :: "string \<Rightarrow> login_metadata option"
  oe_tokenDoc :: "string \<Rightarrow> token_document option"
  oe_deviceDoc :: "string \<Rightarrow> device_document option"

section \<open>Endpoints\<close>

definition validateOAuthEndpoint :: "string \<Rightarrow> string option" where
  "validateOAuthEndpoint raw =
     (case urlParse (trimSpace raw) of
        None \<Rightarrow> Some ''OAuth endpoint must be an absolute URL without userinfo or fragment''
      | Some u \<Rightarrow>
          (if hostname u = [] \<or> u_user u \<noteq> None \<or> u_fragment u \<noteq> []
             then Some ''OAuth endpoint must be an absolute URL without userinfo or fragment''
           else if u_scheme u = ''https'' then None
           else if u_scheme u = ''http'' \<and> isLoopbackHost (hostname u) then None
           else Some ''OAuth endpoint must use HTTPS except on loopback''))"

definition validateServerOrigin :: "string \<Rightarrow> string + string" where
  "validateServerOrigin raw =
     (case urlParse (trimSpace raw) of
        None \<Rightarrow> Inl ''OAuth server must be an absolute origin''
      | Some u \<Rightarrow>
          (if u_scheme u = [] \<or> u_host u = [] then Inl ''OAuth server must be an absolute origin''
           else if u_user u \<noteq> None \<or> u_rawQuery u \<noteq> [] \<or> u_fragment u \<noteq> [] \<or> (u_path u \<noteq> [] \<and> u_path u \<noteq> ''/'')
             then Inl ''OAuth server must not contain userinfo, path, query, or fragment''
           else case validateOAuthEndpoint (urlString u) of
             Some e \<Rightarrow> Inl e
           | None \<Rightarrow> Inr (trimSuffix (urlString (u\<lparr>u_path := []\<rparr>)) ''/'')))"

definition newOAuthManager ::
  "ca_env \<Rightarrow> brand_config \<Rightarrow> string \<Rightarrow> string \<Rightarrow> transport_settings option \<Rightarrow> brand_config \<Rightarrow> cli_error + oauth_manager \<times> transport_settings" where
  "newOAuthManager ca defaults server caFile http given =
     (case resolveBrand defaults given of
        Inl e \<Rightarrow> Inl (Plain e)
      | Inr brand \<Rightarrow>
          (case validateServerOrigin server of
             Inl e \<Rightarrow> Inl (Plain e)
           | Inr origin \<Rightarrow>
               (let settings =
                      (case http of
                         None \<Rightarrow>
                           (case load_roots ca caFile of
                              Inl e \<Rightarrow> Inl e
                            | Inr roots \<Rightarrow> Inr \<lparr>ts_timeout = 15 * second, ts_followRedirects = False, ts_roots = roots\<rparr>)
                       | Some t \<Rightarrow>
                           Inr (t\<lparr>ts_followRedirects := False, ts_timeout := (if ts_timeout t = 0 then 15 * second else ts_timeout t)\<rparr>))
                in case settings of
                     Inl e \<Rightarrow> Inl e
                   | Inr t \<Rightarrow>
                       Inr (\<lparr>om_server = origin, om_cliName = br_name brand, om_keyringService = br_keyringService brand, om_token = no_client_token\<rparr>, t))))"

definition account :: "(string \<Rightarrow> string) \<Rightarrow> oauth_manager \<Rightarrow> string" where
  "account sha m = hexEncode (take 16 (sha (om_server m)))"

section \<open>Requests\<close>

definition oauth_send :: "('r, 'n) oauth_env \<Rightarrow> http_request \<Rightarrow> ('r, 'n) client_session \<Rightarrow> (string + api_response) \<times> ('r, 'n) client_session" where
  "oauth_send en rq w =
     (case oe_do en rq (xs_net w) of (answer, n) \<Rightarrow> (answer, w\<lparr>xs_net := n, xs_sent := xs_sent w @ [rq]\<rparr>))"

definition maxOAuthPayload :: nat where
  "maxOAuthPayload = 1048576"

definition readOAuth :: "string list \<times> read_end \<Rightarrow> cli_error + string" where
  "readOAuth r =
     (case read_limited (maxOAuthPayload + 1) r of (body, e) \<Rightarrow>
        (if e \<noteq> ReadEOF then Inl (Plain ''read failed'')
         else if length body > maxOAuthPayload then Inl (Plain ''OAuth response exceeds 1 MiB'')
         else Inr body))"

definition getJSON :: "('r, 'n) oauth_env \<Rightarrow> string \<Rightarrow> ('r, 'n) client_session \<Rightarrow> (cli_error + string) \<times> ('r, 'n) client_session" where
  "getJSON en endpoint w =
     (case newRequest ''GET'' endpoint None of
        None \<Rightarrow> (Inl (Plain ''invalid URL''), w)
      | Some rq \<Rightarrow>
          (case oauth_send en (rq\<lparr>rq_header := headerSet ''Accept'' ''application/json'' []\<rparr>) w of
             (Inl e, w1) \<Rightarrow> (Inl (Plain e), w1)
           | (Inr rs, w1) \<Rightarrow>
               (case readOAuth (as_body rs) of
                  Inl e \<Rightarrow> (Inl e, w1)
                | Inr body \<Rightarrow>
                    (if ok_status (as_status rs) then (Inr body, w1)
                     else (Inl (Plain (''metadata endpoint returned status '' @ formatInt (as_status rs))), w1)))))"

definition form_header :: http_header where
  "form_header = headerSet ''Accept'' ''application/json'' (headerSet ''Content-Type'' ''application/x-www-form-urlencoded'' [])"

definition postForm ::
  "('r, 'n) oauth_env \<Rightarrow> string \<Rightarrow> query_values \<Rightarrow> ('r, 'n) client_session \<Rightarrow> (cli_error + string \<times> int) \<times> ('r, 'n) client_session" where
  "postForm en endpoint form w =
     (case newRequest ''POST'' endpoint (Some (encodeQuery form)) of
        None \<Rightarrow> (Inl (Plain ''invalid URL''), w)
      | Some rq \<Rightarrow>
          (case oauth_send en (rq\<lparr>rq_header := form_header\<rparr>) w of
             (Inl e, w1) \<Rightarrow> (Inl (Plain e), w1)
           | (Inr rs, w1) \<Rightarrow>
               (case readOAuth (as_body rs) of
                  Inl e \<Rightarrow> (Inl e, w1)
                | Inr body \<Rightarrow> (Inr (body, as_status rs), w1))))"

text \<open>
  \<open>expiresIn\<close>: the raw message as a number, else as a string, in each case a count of seconds of at
  most a day. An absent field is an empty message, which decodes as neither.
\<close>

definition within_day :: "int option \<Rightarrow> int option" where
  "within_day v = (case v of Some n \<Rightarrow> (if n > 0 \<and> n \<le> 24 * 60 * 60 then Some n else None) | None \<Rightarrow> None)"

definition clientExpiresIn :: "goval option \<Rightarrow> int option" where
  "clientExpiresIn raw =
     (case Option.bind raw unmarshalNumber of
        Some n \<Rightarrow>
          (case within_day (parseInt64 n) of
             Some v \<Rightarrow> Some v
           | None \<Rightarrow> (case raw of Some (VStr s) \<Rightarrow> within_day (parseInt64 s) | _ \<Rightarrow> None))
      | None \<Rightarrow> (case raw of Some (VStr s) \<Rightarrow> within_day (parseInt64 s) | _ \<Rightarrow> None))"

definition tokenRequest ::
  "('r, 'n) oauth_env \<Rightarrow> string \<Rightarrow> query_values \<Rightarrow> ('r, 'n) client_session \<Rightarrow> (cli_error + token_document) \<times> ('r, 'n) client_session" where
  "tokenRequest en endpoint form w =
     (case postForm en endpoint form w of
        (Inl e, w1) \<Rightarrow> (Inl e, w1)
      | (Inr (body, status), w1) \<Rightarrow>
          (case oe_tokenDoc en body of
             None \<Rightarrow> (Inl (Plain ''authorization server returned invalid JSON''), w1)
           | Some d \<Rightarrow>
               (if \<not> ok_status status \<or> td_error d \<noteq> []
                  then (Inl (Protocol (if td_error d = [] then ''token_request_failed'' else td_error d)), w1)
                else if td_access d = [] \<or> \<not> equalFold (td_type d) ''Bearer''
                  then (Inl (Plain ''authorization server returned an invalid token''), w1)
                else if clientExpiresIn (td_expiresIn d) = None
                  then (Inl (Plain ''authorization server returned invalid expires_in''), w1)
                else (Inr d, w1))))"

definition tokenFromResponse :: "gotime \<Rightarrow> token_document \<Rightarrow> client_token" where
  "tokenFromResponse now d =
     \<lparr>ct_access = td_access d,
      ct_expires = now + (case clientExpiresIn (td_expiresIn d) of None \<Rightarrow> 0 | Some n \<Rightarrow> n) * second\<rparr>"

section \<open>Discovery\<close>

text \<open>The endpoints, ranged over as a map in the source: which failure is reported first is not fixed there.\<close>

definition check_endpoints :: "login_metadata \<Rightarrow> string option" where
  "check_endpoints i =
     (case List.map_filter
        (\<lambda>(name, endpoint). if endpoint = [] \<and> name \<noteq> ''token_endpoint'' then None
                            else map_option (\<lambda>e. name @ '': '' @ e) (validateOAuthEndpoint endpoint))
        [(''authorization_endpoint'', iz_authorization i), (''token_endpoint'', iz_token i),
         (''device_endpoint'', iz_device i), (''revocation_endpoint'', iz_revocation i)] of
        [] \<Rightarrow> None | e # _ \<Rightarrow> Some e)"

definition oauthMetadata ::
  "('r, 'n) oauth_env \<Rightarrow> oauth_manager \<Rightarrow> ('r, 'n) client_session
   \<Rightarrow> (cli_error + resource_metadata \<times> login_metadata) \<times> ('r, 'n) client_session" where
  "oauthMetadata en m w =
     (case getJSON en (om_server m @ ''/.well-known/oauth-protected-resource'') w of
        (Inl e, w1) \<Rightarrow> (Inl e, w1)
      | (Inr body, w1) \<Rightarrow>
          (case oe_resource en body of
             None \<Rightarrow> (Inl (Plain ''metadata endpoint returned invalid JSON''), w1)
           | Some rs \<Rightarrow>
               (if length (md_servers rs) \<noteq> 1 \<or> md_clientID rs = [] \<or> trimSuffix (md_resource rs) ''/'' \<noteq> om_server m
                then (Inl (Plain ''protected-resource metadata is incomplete''), w1)
                else (let issuerURL = trimSuffix (hd (md_servers rs)) ''/''
                      in case validateOAuthEndpoint issuerURL of
                           Some e \<Rightarrow> (Inl (Wrapped ''authorization server metadata'' (Plain e)), w1)
                         | None \<Rightarrow>
                             (case getJSON en (issuerURL @ ''/.well-known/openid-configuration'') w1 of
                                (Inl e, w2) \<Rightarrow> (Inl e, w2)
                              | (Inr text, w2) \<Rightarrow>
                                  (case oe_issuer en text of
                                     None \<Rightarrow> (Inl (Plain ''metadata endpoint returned invalid JSON''), w2)
                                   | Some i \<Rightarrow>
                                       (if trimSuffix (iz_issuer i) ''/'' \<noteq> issuerURL \<or> iz_token i = []
                                        then (Inl (Plain ''authorization-server metadata is inconsistent''), w2)
                                        else (case check_endpoints i of
                                                Some e \<Rightarrow> (Inl (Plain e), w2)
                                              | None \<Rightarrow> (Inr (rs, i), w2)))))))))"

definition setResourceParameters :: "resource_metadata \<Rightarrow> query_values \<Rightarrow> query_values" where
  "setResourceParameters rs q =
     (let p = md_resourceParameter rs
      in if p = [] \<or> p = ''both'' then
           (let q1 = qset ''resource'' (md_resource rs) q
            in if md_audience rs \<noteq> [] then qset ''audience'' (md_audience rs) q1 else q1)
         else if p = ''audience'' then qset ''audience'' (md_audience rs) q
         else if p = ''resource'' then qset ''resource'' (md_resource rs) q
         else q)"

definition normalizeScopes :: "string list \<Rightarrow> string list" where
  "normalizeScopes scopes =
     fold (\<lambda>item out. if item \<in> set out then out else out @ [item]) (concat (map Go_Strings.fields scopes)) []"

definition effectiveScopes :: "string list \<Rightarrow> string list \<Rightarrow> string list" where
  "effectiveScopes requested supported =
     (if requested \<noteq> [] then normalizeScopes ([''openid'', ''offline_access''] @ requested)
      else normalizeScopes ([''openid'', ''offline_access''] @ filter (\<lambda>s. s = ''email'' \<or> s = ''profile'') supported))"

section \<open>The session\<close>

definition session_form :: "resource_metadata \<Rightarrow> string \<Rightarrow> query_values" where
  "session_form rs refresh =
     setResourceParameters rs [(''grant_type'', [''refresh_token'']), (''refresh_token'', [refresh]), (''client_id'', [md_clientID rs])]"

definition clientAccessToken ::
  "('r, 'n) oauth_env \<Rightarrow> oauth_manager \<Rightarrow> ('r, 'n) client_session \<Rightarrow> (cli_error + string) \<times> oauth_manager \<times> ('r, 'n) client_session" where
  "clientAccessToken en m w =
     (if ct_access (om_token m) \<noteq> [] \<and> time_sub (ct_expires (om_token m)) (oe_now en (xs_net w)) > 30 * second
      then (Inr (ct_access (om_token m)), m, w)
      else (let acc = account (oe_sha256 en) m; service = om_keyringService m
            in case oe_get en service acc (xs_ring w) of
                 RingMissing \<Rightarrow> (Inl (Plain (''not logged in; run '' @ om_cliName m @ '' login'')), m, w)
               | RingFails e \<Rightarrow> (Inl (Wrapped ''read refresh token from OS keyring'' (Plain e)), m, w)
               | RingValue refresh \<Rightarrow>
                   (case oauthMetadata en m w of
                      (Inl e, w1) \<Rightarrow> (Inl e, m, w1)
                    | (Inr (rs, i), w1) \<Rightarrow>
                        (case tokenRequest en (iz_token i) (session_form rs refresh) w1 of
                           (Inl e, w2) \<Rightarrow> (Inl e, m, w2)
                         | (Inr d, w2) \<Rightarrow>
                             (case (if td_refresh d \<noteq> [] \<and> td_refresh d \<noteq> refresh then oe_set en service acc (td_refresh d) (xs_ring w2)
                                    else (None, xs_ring w2)) of
                                (Some e, r) \<Rightarrow> (Inl (Wrapped ''rotate refresh token in OS keyring'' (Plain e)), m, w2\<lparr>xs_ring := r\<rparr>)
                              | (None, r) \<Rightarrow>
                                  (let tok = tokenFromResponse (oe_now en (xs_net w2)) d
                                   in (Inr (ct_access tok), m\<lparr>om_token := tok\<rparr>, w2\<lparr>xs_ring := r\<rparr>)))))))"

definition refreshAccessToken ::
  "('r, 'n) oauth_env \<Rightarrow> oauth_manager \<Rightarrow> ('r, 'n) client_session \<Rightarrow> (cli_error + string) \<times> oauth_manager \<times> ('r, 'n) client_session" where
  "refreshAccessToken en m w = clientAccessToken en (m\<lparr>om_token := no_client_token\<rparr>) w"

definition persistLogin ::
  "('r, 'n) oauth_env \<Rightarrow> oauth_manager \<Rightarrow> token_document \<Rightarrow> ('r, 'n) client_session
   \<Rightarrow> (cli_error + client_token) \<times> oauth_manager \<times> ('r, 'n) client_session" where
  "persistLogin en m d w =
     (if td_refresh d = [] then (Inl (Plain ''authorization server did not issue a refresh token''), m, w)
      else case oe_set en (om_keyringService m) (account (oe_sha256 en) m) (td_refresh d) (xs_ring w) of
        (Some e, r) \<Rightarrow> (Inl (Wrapped ''store refresh token in OS keyring'' (Plain e)), m, w\<lparr>xs_ring := r\<rparr>)
      | (None, r) \<Rightarrow>
          (let tok = tokenFromResponse (oe_now en (xs_net w)) d in (Inr tok, m\<lparr>om_token := tok\<rparr>, w\<lparr>xs_ring := r\<rparr>)))"

section \<open>Device login\<close>

fun as_protocol :: "cli_error \<Rightarrow> string option" where
  "as_protocol (Protocol c) = Some c"
| "as_protocol (Wrapped _ e) = as_protocol e"
| "as_protocol (ExitError _ e) = as_protocol e"
| "as_protocol _ = None"

definition device_form :: "resource_metadata \<Rightarrow> string \<Rightarrow> query_values" where
  "device_form rs code =
     setResourceParameters rs [(''grant_type'', [''urn:ietf:params:oauth:grant-type:device_code'']), (''device_code'', [code]), (''client_id'', [md_clientID rs])]"

text \<open>
  The polling loop. \<open>oe_wait deadline d\<close> is the wait on a timer of \<open>d\<close> and on the context that ends at the
  deadline; false means that the context was done. Fuel counts the polls.
\<close>

fun poll ::
  "nat \<Rightarrow> ('r, 'n) oauth_env \<Rightarrow> oauth_manager \<Rightarrow> string \<Rightarrow> query_values \<Rightarrow> gotime \<Rightarrow> duration \<Rightarrow> ('r, 'n) client_session
   \<Rightarrow> ((cli_error + client_token) \<times> oauth_manager \<times> ('r, 'n) client_session) option" where
  "poll 0 en m endpoint form deadline interval w = None"
| "poll (Suc fuel) en m endpoint form deadline interval w =
     (case oe_wait en deadline interval (xs_net w) of
        (False, n) \<Rightarrow> Some (Inl (Plain ''device authorization expired or was cancelled''), m, w\<lparr>xs_net := n\<rparr>)
      | (True, n) \<Rightarrow>
          (case tokenRequest en endpoint form (w\<lparr>xs_net := n\<rparr>) of
             (Inr d, w1) \<Rightarrow> Some (persistLogin en m d w1)
           | (Inl e, w1) \<Rightarrow>
               (case as_protocol e of
                  None \<Rightarrow> Some (Inl e, m, w1)
                | Some code \<Rightarrow>
                    (if code = ''authorization_pending'' then poll fuel en m endpoint form deadline interval w1
                     else if code = ''slow_down'' then poll fuel en m endpoint form deadline (wrap64 (interval + 5 * second)) w1
                     else Some (Inl (Plain ''device authorization was denied or expired''), m, w1)))))"

definition poll_interval :: "int \<Rightarrow> duration" where
  "poll_interval seconds = (let d = wrap64 (seconds * second) in if d < 2 * second then 5 * second else d)"

definition poll_lifetime :: "int \<Rightarrow> duration" where
  "poll_lifetime seconds = (let d = wrap64 (seconds * second) in if d \<le> 0 \<or> d > 15 * minute then 10 * minute else d)"

definition loginDevice ::
  "nat \<Rightarrow> ('r, 'n) oauth_env \<Rightarrow> oauth_manager \<Rightarrow> string list \<Rightarrow> ('r, 'n) client_session
   \<Rightarrow> ((cli_error + client_token) \<times> oauth_manager \<times> ('r, 'n) client_session) option" where
  "loginDevice fuel en m scopes w =
     (case oauthMetadata en m w of
        (Inl e, w1) \<Rightarrow> Some (Inl e, m, w1)
      | (Inr (rs, i), w1) \<Rightarrow>
          (if iz_device i = [] then Some (Inl (Plain ''authorization server does not advertise a device authorization endpoint''), m, w1)
           else (let sc = effectiveScopes scopes (md_scopes rs);
                     form = setResourceParameters rs [(''client_id'', [md_clientID rs])];
                     form' = (if sc \<noteq> [] then qset ''scope'' (join sc '' '') form else form)
                 in case postForm en (iz_device i) form' w1 of
                      (Inl e, w2) \<Rightarrow> Some (Inl e, m, w2)
                    | (Inr (body, status), w2) \<Rightarrow>
                        (if \<not> ok_status status then Some (Inl (Plain ''device authorization request was rejected''), m, w2)
                         else (case oe_deviceDoc en body of
                                 None \<Rightarrow> Some (Inl (Plain ''authorization server returned an invalid device response''), m, w2)
                               | Some dv \<Rightarrow>
                                   (if dv_code dv = [] \<or> dv_userCode dv = [] \<or> dv_uri dv = []
                                    then Some (Inl (Plain ''authorization server returned an invalid device response''), m, w2)
                                    else poll fuel en m (iz_token i) (device_form rs (dv_code dv))
                                           (oe_now en (xs_net w2) + poll_lifetime (dv_expiresIn dv)) (poll_interval (dv_interval dv)) w2))))))"

section \<open>PKCE login\<close>

datatype callback = CallbackCode string | CallbackDenied

definition firstValue :: "query_values \<Rightarrow> string \<Rightarrow> string" where
  "firstValue q k = (case qget q k of [] \<Rightarrow> [] | v # _ \<Rightarrow> v)"

text \<open>The handler on the loopback listener: the status it answers and what it puts into the channel.\<close>

definition handleCallback :: "string \<Rightarrow> string \<times> query_values \<Rightarrow> int \<times> callback option" where
  "handleCallback state rq =
     (case rq of (path, q) \<Rightarrow>
        (if path \<noteq> ''/callback'' \<or> firstValue q ''state'' \<noteq> state then (400, None)
         else if firstValue q ''error'' \<noteq> [] then (400, Some CallbackDenied)
         else if firstValue q ''code'' = [] then (400, None)
         else (200, Some (CallbackCode (firstValue q ''code'')))))"

fun await_callback :: "string \<Rightarrow> (string \<times> query_values) list \<Rightarrow> callback option" where
  "await_callback state [] = None"
| "await_callback state (rq # rqs) = (case snd (handleCallback state rq) of Some c \<Rightarrow> Some c | None \<Rightarrow> await_callback state rqs)"

text \<open>What the flow meets: the listener, the random bytes, and the requests that arrive before the timeout.\<close>

record pkce_env =
  pk_listen :: "string + string"
  pk_verifier :: string
  pk_state :: string
  pk_requests :: "(string \<times> query_values) list"

definition login_query ::
  "(string \<Rightarrow> string) \<Rightarrow> resource_metadata \<Rightarrow> string list \<Rightarrow> string \<Rightarrow> string \<Rightarrow> string \<Rightarrow> query_values \<Rightarrow> query_values" where
  "login_query sha rs scopes redirect verifier state q =
     (let q1 = qset ''state'' state (qset ''code_challenge_method'' ''S256'' (qset ''code_challenge'' (b64_encode (sha verifier))
                 (qset ''redirect_uri'' redirect (qset ''client_id'' (md_clientID rs) (qset ''response_type'' ''code'' q)))));
          q2 = setResourceParameters rs q1;
          sc = effectiveScopes scopes (md_scopes rs)
      in if sc \<noteq> [] then qset ''scope'' (join sc '' '') q2 else q2)"

definition pkce_form :: "resource_metadata \<Rightarrow> string \<Rightarrow> string \<Rightarrow> string \<Rightarrow> query_values" where
  "pkce_form rs code redirect verifier =
     setResourceParameters rs [(''grant_type'', [''authorization_code'']), (''code'', [code]), (''redirect_uri'', [redirect]),
       (''client_id'', [md_clientID rs]), (''code_verifier'', [verifier])]"

text \<open>Besides the outcome, the URL printed and opened.\<close>

definition loginPKCE ::
  "('r, 'n) oauth_env \<Rightarrow> pkce_env \<Rightarrow> oauth_manager \<Rightarrow> string list \<Rightarrow> ('r, 'n) client_session
   \<Rightarrow> url option \<times> (cli_error + client_token) \<times> oauth_manager \<times> ('r, 'n) client_session" where
  "loginPKCE en pk m scopes w =
     (case oauthMetadata en m w of
        (Inl e, w1) \<Rightarrow> (None, Inl e, m, w1)
      | (Inr (rs, i), w1) \<Rightarrow>
          (if iz_authorization i = [] then (None, Inl (Plain ''authorization endpoint is unavailable''), m, w1)
           else case pk_listen pk of
             Inl e \<Rightarrow> (None, Inl (Wrapped ''open OAuth loopback listener'' (Plain e)), m, w1)
           | Inr addr \<Rightarrow>
               (let redirect = ''http://'' @ addr @ ''/callback'';
                    verifier = b64_encode (pk_verifier pk); state = b64_encode (pk_state pk)
                in case urlParse (iz_authorization i) of
                     None \<Rightarrow> (None, Inl (Plain ''invalid URL''), m, w1)
                   | Some u \<Rightarrow>
                       (let target = u\<lparr>u_rawQuery := encodeQuery (login_query (oe_sha256 en) rs scopes redirect verifier state
                                                       (parseQuery (u_rawQuery u)))\<rparr>
                        in case await_callback state (pk_requests pk) of
                             None \<Rightarrow> (Some target, Inl (Plain ''OAuth login timed out or was cancelled''), m, w1)
                           | Some CallbackDenied \<Rightarrow> (Some target, Inl (Plain ''authorization was denied''), m, w1)
                           | Some (CallbackCode code) \<Rightarrow>
                               (case tokenRequest en (iz_token i) (pkce_form rs code redirect verifier) w1 of
                                  (Inl e, w2) \<Rightarrow> (Some target, Inl e, m, w2)
                                | (Inr d, w2) \<Rightarrow> (Some target, persistLogin en m d w2))))))"

section \<open>Logout\<close>

definition revoke ::
  "('r, 'n) oauth_env \<Rightarrow> oauth_manager \<Rightarrow> string \<Rightarrow> ('r, 'n) client_session \<Rightarrow> string option \<times> ('r, 'n) client_session" where
  "revoke en m refresh w =
     (if refresh = [] then (None, w)
      else case oauthMetadata en m w of
        (Inl _, w1) \<Rightarrow> (None, w1)
      | (Inr (rs, i), w1) \<Rightarrow>
          (if iz_revocation i = [] then (None, w1)
           else (case postForm en (iz_revocation i)
                        [(''token'', [refresh]), (''token_type_hint'', [''refresh_token'']), (''client_id'', [md_clientID rs])] w1 of
                   (Inl _, w2) \<Rightarrow> (Some ''remote token revocation failed'', w2)
                 | (Inr (_, status), w2) \<Rightarrow> (if ok_status status then (None, w2) else (Some ''remote token revocation failed'', w2)))))"

definition logout ::
  "('r, 'n) oauth_env \<Rightarrow> oauth_manager \<Rightarrow> ('r, 'n) client_session \<Rightarrow> cli_error option \<times> oauth_manager \<times> ('r, 'n) client_session" where
  "logout en m w =
     (let acc = account (oe_sha256 en) m; service = om_keyringService m
      in case oe_get en service acc (xs_ring w) of
           RingFails e \<Rightarrow> (Some (Wrapped ''read refresh token from OS keyring'' (Plain e)), m, w)
         | found \<Rightarrow>
             (case revoke en m (case found of RingValue r \<Rightarrow> r | _ \<Rightarrow> []) w of (failed, w1) \<Rightarrow>
                (case oe_delete en service acc (xs_ring w1) of (gone, r) \<Rightarrow>
                   (let errs = (case failed of None \<Rightarrow> [] | Some e \<Rightarrow> [e]) @ (case gone of DeleteFails e \<Rightarrow> [e] | _ \<Rightarrow> [])
                    in (if errs = [] then None else Some (Plain (join errs newline)), m\<lparr>om_token := no_client_token\<rparr>, w1\<lparr>xs_ring := r\<rparr>)))))"

definition openBrowser :: "(string \<Rightarrow> string option) \<Rightarrow> string \<Rightarrow> string option" where
  "openBrowser start target = (case validateOAuthEndpoint target of Some e \<Rightarrow> Some e | None \<Rightarrow> start target)"

section \<open>Polling ends\<close>

lemma oauth_send_facts: "oauth_send en rq w = (a, w') \<Longrightarrow> xs_ring w' = xs_ring w \<and> xs_sent w' = xs_sent w @ [rq] \<and> oe_do en rq (xs_net w) = (a, xs_net w')"
  by (auto simp: oauth_send_def split: prod.splits)

lemma getJSON_facts:
  assumes "getJSON en endpoint w = (a, w')"
  shows "xs_ring w' = xs_ring w" "a = Inr body \<Longrightarrow> \<exists>rq. xs_sent w' = xs_sent w @ [rq] \<and> rq_text rq = endpoint \<and> rq_body rq = None"
  using assms by (auto simp: getJSON_def newRequest_def Let_def dest!: oauth_send_facts split: option.splits prod.splits sum.splits if_splits)

lemma postForm_facts:
  assumes "postForm en endpoint form w = (a, w')"
  shows "xs_ring w' = xs_ring w"
    "a = Inr b \<Longrightarrow> \<exists>rq. xs_sent w' = xs_sent w @ [rq] \<and> rq_method rq = ''POST'' \<and> rq_text rq = endpoint \<and> rq_body rq = Some (encodeQuery form)"
  using assms by (auto simp: postForm_def newRequest_def Let_def dest!: oauth_send_facts split: option.splits prod.splits sum.splits if_splits)

lemma tokenRequest_facts:
  assumes "tokenRequest en endpoint form w = (a, w')"
  shows "xs_ring w' = xs_ring w"
    "a = Inr d \<Longrightarrow> \<exists>rq. xs_sent w' = xs_sent w @ [rq] \<and> rq_method rq = ''POST'' \<and> rq_text rq = endpoint \<and> rq_body rq = Some (encodeQuery form)"
    "a = Inr d \<Longrightarrow> td_access d \<noteq> [] \<and> (\<exists>n. clientExpiresIn (td_expiresIn d) = Some n)"
proof -
  show "xs_ring w' = xs_ring w"
    using assms by (auto simp: tokenRequest_def dest!: postForm_facts(1) split: prod.splits sum.splits option.splits if_splits)
  assume a: "a = Inr d"
  then obtain body status where p: "postForm en endpoint form w = (Inr (body, status), w')" "td_access d \<noteq> []" "\<exists>n. clientExpiresIn (td_expiresIn d) = Some n"
    using assms by (auto simp: tokenRequest_def split: prod.splits sum.splits option.splits if_splits)
  then show "td_access d \<noteq> [] \<and> (\<exists>n. clientExpiresIn (td_expiresIn d) = Some n)" by blast
  show "\<exists>rq. xs_sent w' = xs_sent w @ [rq] \<and> rq_method rq = ''POST'' \<and> rq_text rq = endpoint \<and> rq_body rq = Some (encodeQuery form)"
    using postForm_facts(2) [OF p(1)] by blast
qed

text \<open>
  The clock and the timers: no request takes the time back; the timer's branch of the \<open>select\<close> is
  taken only when the timer has run, and not when the context ends earlier by more than a grace for
  the scheduler.
\<close>

definition clock_runs :: "('r, 'n) oauth_env \<Rightarrow> bool" where
  "clock_runs en \<longleftrightarrow> (\<forall>rq n. oe_now en n \<le> oe_now en (snd (oe_do en rq n)))"

definition timers_fire :: "duration \<Rightarrow> ('r, 'n) oauth_env \<Rightarrow> bool" where
  "timers_fire grace en \<longleftrightarrow>
     (\<forall>d i n n'. oe_wait en d i n = (True, n') \<longrightarrow> oe_now en n + i \<le> d + grace \<and> oe_now en n + i \<le> oe_now en n')"

lemma tokenRequest_clock:
  assumes "clock_runs en" "tokenRequest en endpoint form w = (a, w')"
  shows "oe_now en (xs_net w) \<le> oe_now en (xs_net w')"
proof -
  have send: "oe_now en (xs_net w) \<le> oe_now en (xs_net w1)" if "oauth_send en rq w = (b, w1)" for rq b w1
    using assms(1) [unfolded clock_runs_def, rule_format, of "xs_net w" rq] oauth_send_facts [OF that] by simp
  have post: "oe_now en (xs_net w) \<le> oe_now en (xs_net w1)" if "postForm en endpoint form w = (b, w1)" for b w1
    using that by (auto simp: postForm_def dest!: send split: option.splits prod.splits sum.splits)
  show ?thesis using assms(2) by (auto simp: tokenRequest_def dest!: post split: prod.splits sum.splits option.splits if_splits)
qed

lemma poll_ends:
  assumes "clock_runs en" "timers_fire grace en"
  shows "2 * second \<le> interval \<Longrightarrow> deadline + grace - oe_now en (xs_net w) < int (Suc fuel) * (2 * second)
    \<Longrightarrow> deadline + grace - oe_now en (xs_net w) \<le> 60 * minute \<Longrightarrow> poll (Suc fuel) en m endpoint form deadline interval w \<noteq> None"
proof (induction fuel arbitrary: interval w)
  case (0 interval w)
  have "\<not> fst (oe_wait en deadline interval (xs_net w))"
  proof
    assume "fst (oe_wait en deadline interval (xs_net w))"
    then obtain n' where "oe_wait en deadline interval (xs_net w) = (True, n')"
      by (cases "oe_wait en deadline interval (xs_net w)") auto
    with assms(2) have "oe_now en (xs_net w) + interval \<le> deadline + grace" unfolding timers_fire_def by blast
    with "0.prems" show False by simp
  qed
  then show ?case by (auto split: prod.splits bool.splits)
next
  case (Suc fuel interval w)
  show ?case
  proof (cases "fst (oe_wait en deadline interval (xs_net w))")
    case False
    then show ?thesis by (auto split: prod.splits bool.splits)
  next
    case True
    then obtain n' where n': "oe_wait en deadline interval (xs_net w) = (True, n')"
      by (cases "oe_wait en deadline interval (xs_net w)") auto
    with assms(2) have t: "oe_now en (xs_net w) + interval \<le> deadline + grace" "oe_now en (xs_net w) + interval \<le> oe_now en n'"
      unfolding timers_fire_def by blast+
    obtain a w1 where r: "tokenRequest en endpoint form (w\<lparr>xs_net := n'\<rparr>) = (a, w1)" by (cases "tokenRequest en endpoint form (w\<lparr>xs_net := n'\<rparr>)")
    have c: "oe_now en n' \<le> oe_now en (xs_net w1)" using tokenRequest_clock [OF assms(1) r] by simp
    have w: "wrap64 (interval + 5 * second) = interval + 5 * second"
      using t(1) Suc.prems by (intro wrap64_id) (simp_all add: min_int64_def max_int64_def dur_defs)
    have more: "deadline + grace - oe_now en (xs_net w1) < int (Suc fuel) * (2 * second)" "deadline + grace - oe_now en (xs_net w1) \<le> 60 * minute"
      using t c Suc.prems by (simp_all add: dur_defs algebra_simps)
    have "poll (Suc fuel) en m endpoint form deadline interval w1 \<noteq> None" by (rule Suc.IH [OF Suc.prems(1) more])
    moreover have "poll (Suc fuel) en m endpoint form deadline (wrap64 (interval + 5 * second)) w1 \<noteq> None"
      unfolding w by (rule Suc.IH [OF _ more]) (use Suc.prems(1) in \<open>simp add: dur_defs\<close>)
    ultimately show ?thesis unfolding poll.simps(2) [of "Suc fuel"] n' using r by (simp del: poll.simps not_None_eq split: sum.split option.split)
  qed
qed

lemma poll_bounds: "2 * second \<le> poll_interval s" "0 < poll_lifetime s" "poll_lifetime s \<le> 15 * minute"
  by (auto simp: poll_interval_def poll_lifetime_def Let_def dur_defs)

text \<open>C26. A device login ends: whatever the authorization server answers, and however long it asks the client
  to wait or to slow down, the polling stops after at most 500 polls, provided that the clock runs
  and the timers of the context fire, late by at most a minute.\<close>

theorem device_login_terminates:
  assumes "clock_runs en" "timers_fire grace en" "0 \<le> grace" "grace \<le> minute"
  shows "\<exists>r. loginDevice 500 en m scopes w = Some r"
proof -
  have "poll 500 en m endpoint form (oe_now en (xs_net w2) + poll_lifetime s) (poll_interval i) w2 \<noteq> None" for endpoint form s i w2
  proof -
    have "poll (Suc 499) en m endpoint form (oe_now en (xs_net w2) + poll_lifetime s) (poll_interval i) w2 \<noteq> None"
      by (rule poll_ends [OF assms(1,2)]) (use poll_bounds [of s] poll_bounds [of i] assms(3,4) in \<open>simp_all add: dur_defs\<close>)
    then show ?thesis by simp
  qed
  then have "loginDevice 500 en m scopes w \<noteq> None"
    unfolding loginDevice_def Let_def by (auto split: prod.split sum.split option.split)
  then show ?thesis by blast
qed

section \<open>Sessions\<close>

lemma check_endpoints_None:
  assumes "check_endpoints i = None"
  shows "validateOAuthEndpoint (iz_token i) = None" "iz_authorization i = [] \<or> validateOAuthEndpoint (iz_authorization i) = None"
    "iz_revocation i = [] \<or> validateOAuthEndpoint (iz_revocation i) = None"
  using assms by (auto simp: check_endpoints_def List.map_filter_simps split: option.splits if_splits list.splits)

text \<open>What discovery has established when it succeeds.\<close>

definition discovered :: "oauth_manager \<Rightarrow> resource_metadata \<Rightarrow> login_metadata \<Rightarrow> bool" where
  "discovered m rs i \<longleftrightarrow> trimSuffix (md_resource rs) ''/'' = om_server m \<and> md_clientID rs \<noteq> [] \<and> length (md_servers rs) = 1
     \<and> trimSuffix (iz_issuer i) ''/'' = trimSuffix (hd (md_servers rs)) ''/'' \<and> validateOAuthEndpoint (iz_token i) = None
     \<and> (iz_authorization i = [] \<or> validateOAuthEndpoint (iz_authorization i) = None)
     \<and> (iz_revocation i = [] \<or> validateOAuthEndpoint (iz_revocation i) = None)"

definition plain_get :: "http_request \<Rightarrow> bool" where
  "plain_get rq \<longleftrightarrow> rq_method rq = ''GET'' \<and> rq_body rq = None \<and> rq_header rq = headerSet ''Accept'' ''application/json'' []"

lemma getJSON_Inr:
  assumes "getJSON en endpoint w = (Inr body, w')"
  shows "\<exists>rq. xs_sent w' = xs_sent w @ [rq] \<and> plain_get rq"
  using assms by (auto simp: getJSON_def newRequest_def Let_def plain_get_def dest!: oauth_send_facts split: option.splits prod.splits sum.splits if_splits)

lemma oauthMetadata_ring: "oauthMetadata en m w = (a, w') \<Longrightarrow> xs_ring w' = xs_ring w"
  by (auto simp: oauthMetadata_def Let_def dest!: getJSON_facts(1) split: prod.splits sum.splits option.splits if_splits)

lemma oauthMetadata_Inr:
  assumes "oauthMetadata en m w = (Inr (rs, i), w')"
  shows "discovered m rs i" "\<exists>g h. xs_sent w' = xs_sent w @ [g, h] \<and> plain_get g \<and> plain_get h"
proof -
  obtain body page w1 where g: "getJSON en (om_server m @ ''/.well-known/oauth-protected-resource'') w = (Inr body, w1)"
    "getJSON en (trimSuffix (hd (md_servers rs)) ''/'' @ ''/.well-known/openid-configuration'') w1 = (Inr page, w')"
    and d: "trimSuffix (md_resource rs) ''/'' = om_server m" "md_clientID rs \<noteq> []" "length (md_servers rs) = 1"
      "trimSuffix (iz_issuer i) ''/'' = trimSuffix (hd (md_servers rs)) ''/''" "check_endpoints i = None"
    using assms by (auto simp: oauthMetadata_def Let_def split: prod.splits sum.splits option.splits if_splits)
  show "discovered m rs i" unfolding discovered_def using d(1-4) check_endpoints_None [OF d(5)] by blast
  show "\<exists>g h. xs_sent w' = xs_sent w @ [g, h] \<and> plain_get g \<and> plain_get h"
    using getJSON_Inr [OF g(1)] getJSON_Inr [OF g(2)] by (auto simp: append_assoc)
qed

lemma wf_setResourceParameters [simp]: "wf_map q \<Longrightarrow> wf_map (setResourceParameters rs q)"
  by (simp add: setResourceParameters_def Let_def)

lemma qget_setResourceParameters [simp]:
  "k \<notin> {''resource'', ''audience''} \<Longrightarrow> qget (setResourceParameters rs q) k = qget q k"
  by (simp add: setResourceParameters_def Let_def)

lemma clientExpiresIn_range: "clientExpiresIn raw = Some n \<Longrightarrow> 0 < n \<and> n \<le> 86400"
  by (auto simp: clientExpiresIn_def within_day_def split: option.splits if_splits goval.splits)

lemma session_form_sent:
  "qget (parseQuery (encodeQuery (session_form rs refresh))) ''refresh_token'' = [refresh]"
  "qget (parseQuery (encodeQuery (session_form rs refresh))) ''client_id'' = [md_clientID rs]"
proof -
  have wf: "wf_map (session_form rs refresh)" unfolding session_form_def by (rule wf_setResourceParameters) (simp add: wf_map_def)
  show "qget (parseQuery (encodeQuery (session_form rs refresh))) ''refresh_token'' = [refresh]"
    "qget (parseQuery (encodeQuery (session_form rs refresh))) ''client_id'' = [md_clientID rs]"
    unfolding parseQuery_encodeQuery [OF wf] by (simp_all add: session_form_def) (simp_all add: qget_def)
qed

text \<open>C24. A session's token is sound: what \<open>AccessToken\<close> returns is either the token in memory with more than
  thirty seconds to live, without any request, or comes from one exchange of the keyring's refresh
  token, which is sent once, in the body of a POST to the token endpoint of the issuer that the
  gateway's own metadata names, over HTTPS or loopback; it is the token of that answer, lives at most
  a day, and the refresh token of the answer, when it is another one, was stored in the keyring.\<close>

theorem session_token_sound:
  assumes "clientAccessToken en m w = (Inr tok, m', w')"
  shows "tok \<noteq> [] \<and> ct_access (om_token m') = tok
    \<and> (m' = m \<and> w' = w \<and> 30 * second < time_sub (ct_expires (om_token m)) (oe_now en (xs_net w))
       \<or> (\<exists>refresh rs i g h rq d w1 w2.
            oe_get en (om_keyringService m) (account (oe_sha256 en) m) (xs_ring w) = RingValue refresh \<and> discovered m rs i
          \<and> xs_sent w' = xs_sent w @ [g, h, rq] \<and> plain_get g \<and> plain_get h \<and> rq_method rq = ''POST'' \<and> rq_text rq = iz_token i
          \<and> tokenRequest en (iz_token i) (session_form rs refresh) w1 = (Inr d, w2) \<and> tok = td_access d
          \<and> rq_body rq = Some (encodeQuery (session_form rs refresh))
          \<and> qget (parseQuery (the (rq_body rq))) ''refresh_token'' = [refresh]
          \<and> oe_now en (xs_net w') < ct_expires (om_token m') \<and> ct_expires (om_token m') \<le> oe_now en (xs_net w') + 24 * 60 * minute
          \<and> (if td_refresh d = [] \<or> td_refresh d = refresh then xs_ring w' = xs_ring w
             else oe_set en (om_keyringService m) (account (oe_sha256 en) m) (td_refresh d) (xs_ring w) = (None, xs_ring w'))))"
proof (cases "ct_access (om_token m) \<noteq> [] \<and> time_sub (ct_expires (om_token m)) (oe_now en (xs_net w)) > 30 * second")
  case True
  with assms show ?thesis by (auto simp: clientAccessToken_def)
next
  case False
  let ?acc = "account (oe_sha256 en) m" and ?sv = "om_keyringService m"
  note run = assms [unfolded clientAccessToken_def Let_def if_not_P [OF False]]
  obtain refresh where get: "oe_get en ?sv ?acc (xs_ring w) = RingValue refresh" using run by (auto split: ring_read.splits)
  obtain rs i w1 where md: "oauthMetadata en m w = (Inr (rs, i), w1)" using run get by (auto split: prod.splits sum.splits)
  obtain d w2 where tr: "tokenRequest en (iz_token i) (session_form rs refresh) w1 = (Inr d, w2)"
    using run get md by (auto split: prod.splits sum.splits)
  obtain r where st: "(if td_refresh d \<noteq> [] \<and> td_refresh d \<noteq> refresh then oe_set en ?sv ?acc (td_refresh d) (xs_ring w2) else (None, xs_ring w2)) = (None, r)"
    and out: "m' = m\<lparr>om_token := tokenFromResponse (oe_now en (xs_net w2)) d\<rparr>" "w' = w2\<lparr>xs_ring := r\<rparr>" "tok = td_access d"
  proof -
    let ?x = "if td_refresh d \<noteq> [] \<and> td_refresh d \<noteq> refresh then oe_set en ?sv ?acc (td_refresh d) (xs_ring w2) else (None, xs_ring w2)"
    obtain c r where x: "?x = (c, r)" by (cases ?x)
    from run have e: "(case (c, r) of
                (Some e, r) \<Rightarrow> (Inl (Wrapped ''rotate refresh token in OS keyring'' (Plain e)), m, w2\<lparr>xs_ring := r\<rparr>)
              | (None, r) \<Rightarrow> (Inr (ct_access (tokenFromResponse (oe_now en (xs_net w2)) d)), m\<lparr>om_token := tokenFromResponse (oe_now en (xs_net w2)) d\<rparr>, w2\<lparr>xs_ring := r\<rparr>))
        = (Inr tok, m', w')"
      by (simp only: get md tr x ring_read.case prod.case sum.case)
    have "c = None" using e by (cases c) auto
    moreover have "m' = m\<lparr>om_token := tokenFromResponse (oe_now en (xs_net w2)) d\<rparr>" "w' = w2\<lparr>xs_ring := r\<rparr>" "tok = td_access d"
      using e by (auto simp: \<open>c = None\<close> tokenFromResponse_def)
    ultimately show ?thesis using that x by (simp only:)
  qed
  obtain g h where gh: "xs_sent w1 = xs_sent w @ [g, h]" "plain_get g" "plain_get h" using oauthMetadata_Inr(2) [OF md] by blast
  obtain rq where rq: "xs_sent w2 = xs_sent w1 @ [rq]" "rq_text rq = iz_token i" "rq_body rq = Some (encodeQuery (session_form rs refresh))" "rq_method rq = ''POST''"
    using tokenRequest_facts(2) [OF tr] by blast
  obtain n where n: "td_access d \<noteq> []" "clientExpiresIn (td_expiresIn d) = Some n" "0 < n" "n \<le> 86400"
    using tokenRequest_facts(3) [OF tr] clientExpiresIn_range by blast
  have ring: "xs_ring w2 = xs_ring w" using tokenRequest_facts(1) [OF tr] oauthMetadata_ring [OF md] by simp
  have "if td_refresh d = [] \<or> td_refresh d = refresh then xs_ring w' = xs_ring w else oe_set en ?sv ?acc (td_refresh d) (xs_ring w) = (None, xs_ring w')"
    using st ring out(2) by (auto split: if_splits)
  moreover have "oe_now en (xs_net w') < ct_expires (om_token m')" "ct_expires (om_token m') \<le> oe_now en (xs_net w') + 24 * 60 * minute"
    using n by (simp_all add: out tokenFromResponse_def dur_defs)
  moreover have "xs_sent w' = xs_sent w @ [g, h, rq]" using gh(1) rq(1) by (simp add: out(2))
  moreover have "qget (parseQuery (the (rq_body rq))) ''refresh_token'' = [refresh]" using session_form_sent(1) by (simp add: rq(3))
  moreover have "tok \<noteq> [] \<and> ct_access (om_token m') = tok" using n(1) by (simp add: out tokenFromResponse_def)
  ultimately show ?thesis using get oauthMetadata_Inr(1) [OF md] gh(2,3) rq(2-4) tr out(3) by blast
qed

section \<open>PKCE\<close>

lemma await_callback_code:
  "await_callback state rqs = Some (CallbackCode code) \<Longrightarrow>
   code \<noteq> [] \<and> (\<exists>q. (''/callback'', q) \<in> set rqs \<and> firstValue q ''state'' = state \<and> firstValue q ''error'' = [] \<and> firstValue q ''code'' = code)"
proof (induction rqs)
  case (Cons rq rqs)
  obtain path q where rq: "rq = (path, q)" by (cases rq)
  show ?case
  proof (cases "snd (handleCallback state rq)")
    case None
    with Cons show ?thesis by auto
  next
    case (Some c)
    with Cons.prems have "path = ''/callback''" "firstValue q ''state'' = state" "firstValue q ''error'' = []" "firstValue q ''code'' = code" "code \<noteq> []"
      by (auto simp: handleCallback_def rq split: if_splits)
    then show ?thesis by (auto simp: rq)
  qed
qed simp

lemma wf_parseQuery: "wf_map (parseQuery s)"
proof -
  have "wf_map q \<Longrightarrow> wf_map (fold (\<lambda>kv q. case parse_pair kv of None \<Rightarrow> q | Some (k, v) \<Rightarrow> qadd k v q) xs q)" for xs q
    by (induction xs arbitrary: q) (auto simp: qadd_def split: option.splits)
  then show ?thesis by (simp add: parseQuery_def wf_map_def)
qed

lemma login_query_facts:
  assumes "wf_map q"
  shows "wf_map (login_query sha rs scopes redirect verifier state q)"
    "qget (login_query sha rs scopes redirect verifier state q) ''state'' = [state]"
    "qget (login_query sha rs scopes redirect verifier state q) ''code_challenge'' = [b64_encode (sha verifier)]"
    "qget (login_query sha rs scopes redirect verifier state q) ''code_challenge_method'' = [''S256'']"
    "qget (login_query sha rs scopes redirect verifier state q) ''redirect_uri'' = [redirect]"
  using assms by (simp_all add: login_query_def Let_def)

lemma pkce_form_facts:
  "qget (parseQuery (encodeQuery (pkce_form rs code redirect verifier))) ''code'' = [code]"
  "qget (parseQuery (encodeQuery (pkce_form rs code redirect verifier))) ''code_verifier'' = [verifier]"
  "qget (parseQuery (encodeQuery (pkce_form rs code redirect verifier))) ''redirect_uri'' = [redirect]"
proof -
  have wf: "wf_map (pkce_form rs code redirect verifier)" unfolding pkce_form_def by (rule wf_setResourceParameters) (simp add: wf_map_def)
  show "qget (parseQuery (encodeQuery (pkce_form rs code redirect verifier))) ''code'' = [code]"
    "qget (parseQuery (encodeQuery (pkce_form rs code redirect verifier))) ''code_verifier'' = [verifier]"
    "qget (parseQuery (encodeQuery (pkce_form rs code redirect verifier))) ''redirect_uri'' = [redirect]"
    unfolding parseQuery_encodeQuery [OF wf] by (simp_all add: pkce_form_def) (simp_all add: qget_def)
qed

text \<open>C25. A browser login redeems only its own code: when it succeeds, the code came in a callback that carried
  the state of the URL the user opened, it was redeemed together with the verifier whose SHA-256 is
  the challenge in that URL and with the same redirect address, at a token endpoint that is HTTPS or
  loopback, the new token is the one of its answer, and the refresh token of that answer was stored.\<close>

theorem pkce_binds_code:
  assumes "loginPKCE en pk m scopes w = (page, Inr tok, m', w')"
  shows "\<exists>u code verifier redirect rs i rq pre q d w1 w2.
      page = Some u \<and> discovered m rs i
    \<and> (''/callback'', q) \<in> set (pk_requests pk) \<and> firstValue q ''code'' = code \<and> code \<noteq> []
    \<and> qget (parseQuery (u_rawQuery u)) ''state'' = [firstValue q ''state'']
    \<and> qget (parseQuery (u_rawQuery u)) ''code_challenge'' = [b64_encode (oe_sha256 en verifier)]
    \<and> qget (parseQuery (u_rawQuery u)) ''redirect_uri'' = [redirect]
    \<and> xs_sent w' = pre @ [rq] \<and> rq_text rq = iz_token i
    \<and> qget (parseQuery (the (rq_body rq))) ''code'' = [code]
    \<and> qget (parseQuery (the (rq_body rq))) ''code_verifier'' = [verifier]
    \<and> qget (parseQuery (the (rq_body rq))) ''redirect_uri'' = [redirect]
    \<and> tokenRequest en (iz_token i) (pkce_form rs code redirect verifier) w1 = (Inr d, w2)
    \<and> om_token m' = tok \<and> ct_access tok = td_access d \<and> td_refresh d \<noteq> []
    \<and> oe_set en (om_keyringService m) (account (oe_sha256 en) m) (td_refresh d) (xs_ring w) = (None, xs_ring w')"
proof -
  note run = assms [unfolded loginPKCE_def Let_def]
  obtain rs i w1 where md: "oauthMetadata en m w = (Inr (rs, i), w1)" using run by (auto split: prod.splits sum.splits)
  obtain addr where ad: "pk_listen pk = Inr addr" using run md by (auto split: sum.splits if_splits)
  define redirect where "redirect = ''http://'' @ addr @ ''/callback''"
  define verifier where "verifier = b64_encode (pk_verifier pk)"
  define state where "state = b64_encode (pk_state pk)"
  obtain u where u: "urlParse (iz_authorization i) = Some u" using run md ad by (auto split: option.splits if_splits)
  define q0 where "q0 = login_query (oe_sha256 en) rs scopes redirect verifier state (parseQuery (u_rawQuery u))"
  obtain code where cb: "await_callback state (pk_requests pk) = Some (CallbackCode code)"
    using run md ad u by (auto simp: state_def split: option.splits if_splits callback.splits)
  obtain d w2 where tr: "tokenRequest en (iz_token i) (pkce_form rs code redirect verifier) w1 = (Inr d, w2)"
    using run md ad u cb unfolding state_def redirect_def verifier_def by (auto split: sum.splits prod.splits if_splits)
  have fin: "page = Some (u\<lparr>u_rawQuery := encodeQuery q0\<rparr>)" "persistLogin en m d w2 = (Inr tok, m', w')"
    using run md ad u cb tr unfolding state_def redirect_def verifier_def q0_def by (auto split: if_splits)
  obtain r where st: "td_refresh d \<noteq> []" "oe_set en (om_keyringService m) (account (oe_sha256 en) m) (td_refresh d) (xs_ring w2) = (None, r)"
    "m' = m\<lparr>om_token := tok\<rparr>" "w' = w2\<lparr>xs_ring := r\<rparr>" "ct_access tok = td_access d"
    using fin(2) by (auto simp: persistLogin_def tokenFromResponse_def Let_def split: if_splits prod.splits option.splits)
  note wq = login_query_facts [OF wf_parseQuery, of "oe_sha256 en" rs scopes redirect verifier state "u_rawQuery u", folded q0_def]
  obtain q where q: "code \<noteq> []" "(''/callback'', q) \<in> set (pk_requests pk)" "firstValue q ''state'' = state" "firstValue q ''code'' = code"
    using await_callback_code [OF cb] by blast
  obtain rq where rq: "xs_sent w2 = xs_sent w1 @ [rq]" "rq_text rq = iz_token i" "rq_body rq = Some (encodeQuery (pkce_form rs code redirect verifier))"
    using tokenRequest_facts(2) [OF tr] by blast
  have ring: "xs_ring w2 = xs_ring w" using tokenRequest_facts(1) [OF tr] oauthMetadata_ring [OF md] by simp
  show ?thesis
    by (rule exI [of _ "u\<lparr>u_rawQuery := encodeQuery q0\<rparr>"], rule exI [of _ code], rule exI [of _ verifier], rule exI [of _ redirect],
        rule exI [of _ rs], rule exI [of _ i], rule exI [of _ rq], rule exI [of _ "xs_sent w1"], rule exI [of _ q], rule exI [of _ d], rule exI [of _ w1], rule exI [of _ w2])
      (use fin(1) oauthMetadata_Inr(1) [OF md] q wq parseQuery_encodeQuery [OF wq(1)] st ring rq pkce_form_facts tr in simp)
qed

section \<open>Logging out\<close>

lemma revoke_ring: "revoke en m refresh w = (e, w') \<Longrightarrow> xs_ring w' = xs_ring w"
  by (auto simp: revoke_def dest!: oauthMetadata_ring postForm_facts(1) split: if_splits prod.splits sum.splits)

text \<open>Logging out ends the session on this machine, also when the remote revocation fails: once the keyring
  could be read and its entry deleted, no token is left in memory, and the next call fails as not
  logged in without sending anything. The keyring is assumed to hold nothing after a deletion.\<close>

theorem logout_ends_session:
  assumes ring: "\<And>service acc r g r'. oe_delete en service acc r = (g, r') \<Longrightarrow> (\<forall>e. g \<noteq> DeleteFails e) \<Longrightarrow> oe_get en service acc r' = RingMissing"
    and out: "logout en m w = (e, m', w')"
    and readable: "\<And>x. oe_get en (om_keyringService m) (account (oe_sha256 en) m) (xs_ring w) \<noteq> RingFails x"
    and deletes: "\<And>x. fst (oe_delete en (om_keyringService m) (account (oe_sha256 en) m) (xs_ring w)) \<noteq> DeleteFails x"
  shows "om_token m' = no_client_token \<and> clientAccessToken en m' w' = (Inl (Plain (''not logged in; run '' @ om_cliName m @ '' login'')), m', w')"
proof -
  let ?acc = "account (oe_sha256 en) m" and ?sv = "om_keyringService m"
  define found where "found = oe_get en ?sv ?acc (xs_ring w)"
  define refresh where "refresh = (case found of RingValue r \<Rightarrow> r | _ \<Rightarrow> [])"
  obtain f w1 where v: "revoke en m refresh w = (f, w1)" by (cases "revoke en m refresh w")
  obtain gone r where g: "oe_delete en ?sv ?acc (xs_ring w1) = (gone, r)" by (cases "oe_delete en ?sv ?acc (xs_ring w1)")
  have "m' = m\<lparr>om_token := no_client_token\<rparr>" "w' = w1\<lparr>xs_ring := r\<rparr>"
    using out readable v g unfolding logout_def Let_def refresh_def found_def
    by (cases "oe_get en ?sv ?acc (xs_ring w)"; simp)+
  with v g have r: "revoke en m refresh w = (f, w1)" "m' = m\<lparr>om_token := no_client_token\<rparr>" "w' = w1\<lparr>xs_ring := snd (oe_delete en ?sv ?acc (xs_ring w1))\<rparr>"
    by simp_all
  have "xs_ring w1 = xs_ring w" by (rule revoke_ring [OF r(1)])
  then have "oe_get en ?sv ?acc (xs_ring w') = RingMissing"
    using ring [of ?sv ?acc "xs_ring w" "fst (oe_delete en ?sv ?acc (xs_ring w))" "snd (oe_delete en ?sv ?acc (xs_ring w))"] deletes by (simp add: r(3))
  then have "oe_get en (om_keyringService m') (account (oe_sha256 en) m') (xs_ring w') = RingMissing" by (simp add: r(2) account_def)
  moreover have "ct_access (om_token m') = []" "om_cliName m' = om_cliName m" by (simp_all add: r(2) no_client_token_def)
  ultimately show ?thesis by (simp add: clientAccessToken_def Let_def r(2))
qed

text \<open>When the keyring cannot be read, nothing is removed, although the source says it always is.\<close>

theorem unreadable_keyring_keeps_session:
  assumes "oe_get en (om_keyringService m) (account (oe_sha256 en) m) (xs_ring w) = RingFails x"
  shows "logout en m w = (Some (Wrapped ''read refresh token from OS keyring'' (Plain x)), m, w)"
  using assms by (simp add: logout_def Let_def)

section \<open>A session on concrete documents\<close>

text \<open>
  A keyring with one entry and a network whose state is the clock; every answer takes one nanosecond
  and is decoded by the fixed documents below.
\<close>

definition demo_oauth :: "token_document \<Rightarrow> (string option, int) oauth_env" where
  "demo_oauth d = \<lparr>oe_get = (\<lambda>_ _ r. case r of None \<Rightarrow> RingMissing | Some v \<Rightarrow> RingValue v),
     oe_set = (\<lambda>_ _ v _. (None, Some v)),
     oe_delete = (\<lambda>_ _ r. (if r = None then NothingStored else Deleted, None)),
     oe_do = (\<lambda>_ n. (Inr \<lparr>as_status = 200, as_header = [], as_body = ([''{}''], ReadEOF)\<rparr>, n + 1)),
     oe_now = id, oe_wait = (\<lambda>deadline i n. if n + i \<le> deadline then (True, n + i) else (False, deadline)),
     oe_sha256 = id,
     oe_resource = (\<lambda>_. Some \<lparr>md_resource = ''https://gw.example/'', md_servers = [''https://idp.example''], md_clientID = ''cg'',
       md_audience = ''cli-gateway'', md_resourceParameter = [], md_scopes = [''email'']\<rparr>),
     oe_issuer = (\<lambda>_. Some \<lparr>iz_issuer = ''https://idp.example'', iz_authorization = ''https://idp.example/authorize'',
       iz_token = ''https://idp.example/token'', iz_device = ''https://idp.example/device'', iz_revocation = []\<rparr>),
     oe_tokenDoc = (\<lambda>_. Some d),
     oe_deviceDoc = (\<lambda>_. Some \<lparr>dv_code = ''dev'', dv_userCode = ''ABCD'', dv_uri = ''https://idp.example/code'', dv_uriComplete = [],
       dv_expiresIn = 600, dv_interval = 5\<rparr>)\<rparr>"

definition demo_manager_of :: "string \<Rightarrow> oauth_manager" where
  "demo_manager_of server = \<lparr>om_server = server, om_cliName = ''cg'', om_keyringService = ''cli-gateway'', om_token = no_client_token\<rparr>"

definition issued :: token_document where
  "issued = \<lparr>td_access = ''access-1'', td_refresh = ''refresh-2'', td_type = ''Bearer'', td_expiresIn = Some (VNum ''3600''), td_error = []\<rparr>"

definition demo_login :: "string option \<Rightarrow> (string option, int) client_session" where
  "demo_login r = \<lparr>xs_ring = r, xs_net = 0, xs_sent = []\<rparr>"

lemma demo_read: "readOAuth ([''{}''], ReadEOF) = Inr ''{}''"
  by (simp add: readOAuth_def read_limited_def maxOAuthPayload_def)

lemma demo_getJSON:
  assumes "newRequest ''GET'' endpoint None \<noteq> None"
  shows "\<exists>rq. getJSON (demo_oauth d) endpoint w = (Inr ''{}'', w\<lparr>xs_net := xs_net w + 1, xs_sent := xs_sent w @ [rq]\<rparr>)"
  using assms by (auto simp: getJSON_def oauth_send_def demo_oauth_def demo_read ok_status_def)

lemma demo_postForm:
  assumes "newRequest ''POST'' endpoint None \<noteq> None"
  shows "\<exists>rq. postForm (demo_oauth d) endpoint form w = (Inr (''{}'', 200), w\<lparr>xs_net := xs_net w + 1, xs_sent := xs_sent w @ [rq]\<rparr>)"
  using assms by (auto simp: postForm_def newRequest_def oauth_send_def demo_oauth_def demo_read ok_status_def split: if_splits)

text \<open>A URL of two plain parts parses; the addresses of the example are such URLs.\<close>

lemma urlParse_https:
  assumes "plain_url_text h" "CHR ''/'' \<notin> set h" "parseAuthority h \<noteq> None" "plain_url_text p" "p \<noteq> []" "hd p = CHR ''/''"
    "unescape EncPath p \<noteq> None"
  shows "urlParse (''https://'' @ h @ p) \<noteq> None"
  using urlParse_http [of "''https''" h p] assms by (auto simp: setPath_def)

lemma demo_hosts:
  "plain_url_text ''gw.example''" "plain_url_text ''idp.example''"
  "parseAuthority ''gw.example'' \<noteq> None" "parseAuthority ''idp.example'' \<noteq> None"
  by (simp_all add: plain_url_text_def has_ctl_def parseAuthority_def split_last_def parseHost_def shouldEscape_def byte_class_defs del: not_None_eq)

lemma demo_urls:
  "urlParse ''https://gw.example/.well-known/oauth-protected-resource'' \<noteq> None"
  "urlParse ''https://idp.example/.well-known/openid-configuration'' \<noteq> None"
  "urlParse ''https://idp.example/token'' \<noteq> None" "urlParse ''https://idp.example/authorize'' \<noteq> None"
  using urlParse_https [OF demo_hosts(1) _ demo_hosts(3), of "''/.well-known/oauth-protected-resource''"]
    urlParse_https [OF demo_hosts(2) _ demo_hosts(4), of "''/.well-known/openid-configuration''"]
    urlParse_https [OF demo_hosts(2) _ demo_hosts(4), of "''/token''"]
    urlParse_https [OF demo_hosts(2) _ demo_hosts(4), of "''/authorize''"]
  by (simp_all add: plain_url_text_def has_ctl_def)

lemma demo_requests:
  "urlParse u \<noteq> None \<Longrightarrow> newRequest ''GET'' u None \<noteq> None" "urlParse u \<noteq> None \<Longrightarrow> newRequest ''POST'' u None \<noteq> None"
  by (auto simp: newRequest_def token_char_def byte_class_defs)

lemma demo_metadata:
  assumes "om_server m = ''https://gw.example''"
  shows "\<exists>rs i g h. oauthMetadata (demo_oauth d) m w = (Inr (rs, i), w\<lparr>xs_net := xs_net w + 2, xs_sent := xs_sent w @ [g, h]\<rparr>)
    \<and> iz_token i = ''https://idp.example/token'' \<and> iz_authorization i = ''https://idp.example/authorize''"
proof -
  have n: "newRequest ''GET'' ''https://gw.example/.well-known/oauth-protected-resource'' None \<noteq> None"
    "newRequest ''GET'' ''https://idp.example/.well-known/openid-configuration'' None \<noteq> None"
    by (rule demo_requests(1) [OF demo_urls(1)], rule demo_requests(1) [OF demo_urls(2)])
  obtain g where g: "getJSON (demo_oauth d) ''https://gw.example/.well-known/oauth-protected-resource'' w
      = (Inr ''{}'', w\<lparr>xs_net := xs_net w + 1, xs_sent := xs_sent w @ [g]\<rparr>)" using demo_getJSON [OF n(1)] by blast
  obtain h where h: "getJSON (demo_oauth d) ''https://idp.example/.well-known/openid-configuration'' (w\<lparr>xs_net := xs_net w + 1, xs_sent := xs_sent w @ [g]\<rparr>)
      = (Inr ''{}'', w\<lparr>xs_net := xs_net w + 2, xs_sent := xs_sent w @ [g, h]\<rparr>)"
    using demo_getJSON [OF n(2), of d "w\<lparr>xs_net := xs_net w + 1, xs_sent := xs_sent w @ [g]\<rparr>"] by (auto simp: add.commute)
  let ?i = "\<lparr>iz_issuer = ''https://idp.example'', iz_authorization = ''https://idp.example/authorize'',
       iz_token = ''https://idp.example/token'', iz_device = ''https://idp.example/device'', iz_revocation = []\<rparr>"
  have v: "trimSuffix ''https://gw.example/'' ''/'' = ''https://gw.example''" "trimSuffix ''https://idp.example'' ''/'' = ''https://idp.example''"
    "validateOAuthEndpoint ''https://idp.example'' = None" "check_endpoints ?i = None" by code_simp+
  have docs: "oe_resource (demo_oauth d) ''{}'' = Some \<lparr>md_resource = ''https://gw.example/'', md_servers = [''https://idp.example''], md_clientID = ''cg'',
       md_audience = ''cli-gateway'', md_resourceParameter = [], md_scopes = [''email'']\<rparr>" "oe_issuer (demo_oauth d) ''{}'' = Some ?i"
    by (simp_all add: demo_oauth_def)
  have "oauthMetadata (demo_oauth d) m w = (Inr (the (oe_resource (demo_oauth d) ''{}''), ?i), w\<lparr>xs_net := xs_net w + 2, xs_sent := xs_sent w @ [g, h]\<rparr>)"
    using g h v by (simp add: oauthMetadata_def assms docs Let_def)
  then show ?thesis by fastforce
qed

lemma demo_token_endpoint: "newRequest ''POST'' ''https://idp.example/token'' None \<noteq> None"
  using demo_urls(3) by (rule demo_requests)

lemma demo_issued: "clientExpiresIn (td_expiresIn issued) = Some 3600" "equalFold (td_type issued) ''Bearer''"
  by (simp_all add: clientExpiresIn_def within_day_def issued_def equalFold_def parseInt64_def byte_class_defs min_int64_def max_int64_def)

lemma demo_tokenRequest:
  "\<exists>rq. tokenRequest (demo_oauth issued) ''https://idp.example/token'' form w = (Inr issued, w\<lparr>xs_net := xs_net w + 1, xs_sent := xs_sent w @ [rq]\<rparr>)"
proof -
  have "oe_tokenDoc (demo_oauth issued) ''{}'' = Some issued" "td_error issued = []" "td_access issued \<noteq> []" by (simp_all add: demo_oauth_def issued_def)
  then show ?thesis
    using demo_postForm [OF demo_token_endpoint, of issued form w] demo_issued by (auto simp: tokenRequest_def ok_status_def)
qed

abbreviation (input) gw_manager :: oauth_manager where "gw_manager \<equiv> demo_manager_of ''https://gw.example''"

lemma demo_refresh:
  "\<exists>m' w'. clientAccessToken (demo_oauth issued) gw_manager (demo_login (Some ''refresh-1'')) = (Inr ''access-1'', m', w') \<and> xs_ring w' = Some ''refresh-2''"
proof -
  let ?w = "demo_login (Some ''refresh-1'')"
  obtain rs i g h where md: "oauthMetadata (demo_oauth issued) gw_manager ?w = (Inr (rs, i), ?w\<lparr>xs_net := xs_net ?w + 2, xs_sent := xs_sent ?w @ [g, h]\<rparr>)"
    "iz_token i = ''https://idp.example/token''" using demo_metadata [of gw_manager issued ?w] by (auto simp: demo_manager_of_def)
  have get: "oe_get (demo_oauth issued) a b (xs_ring ?w) = RingValue ''refresh-1''" for a b by (simp add: demo_oauth_def demo_login_def)
  have tok: "ct_access (om_token gw_manager) = []" "td_refresh issued = ''refresh-2''" "td_access issued = ''access-1''"
    by (simp_all add: demo_manager_of_def no_client_token_def issued_def)
  have set: "oe_set (demo_oauth issued) a b v r = (None, Some v)" for a b v r by (simp add: demo_oauth_def)
  show ?thesis
    using demo_tokenRequest [of "session_form rs ''refresh-1''" "?w\<lparr>xs_net := xs_net ?w + 2, xs_sent := xs_sent ?w @ [g, h]\<rparr>"]
    by (auto simp: clientAccessToken_def Let_def get md tok set tokenFromResponse_def)
qed

theorem session_token_sound_witness:
  "\<exists>m' w'. clientAccessToken (demo_oauth issued) gw_manager (demo_login (Some ''refresh-1'')) = (Inr ''access-1'', m', w')
     \<and> ct_access (om_token m') = ''access-1'' \<and> xs_ring w' = Some ''refresh-2''"
proof -
  obtain m' w' where r: "clientAccessToken (demo_oauth issued) gw_manager (demo_login (Some ''refresh-1'')) = (Inr ''access-1'', m', w')"
    "xs_ring w' = Some ''refresh-2''" using demo_refresh by blast
  from session_token_sound [OF r(1)] r show ?thesis by blast
qed

definition pending :: token_document where
  "pending = issued\<lparr>td_error := ''authorization_pending''\<rparr>"

theorem device_login_terminates_witness:
  "\<exists>r. loginDevice 500 (demo_oauth pending) gw_manager [''email''] (demo_login None) = Some r"
proof -
  have "clock_runs (demo_oauth pending)" by (simp add: clock_runs_def demo_oauth_def)
  moreover have "timers_fire 0 (demo_oauth pending)" by (auto simp: timers_fire_def demo_oauth_def split: if_splits)
  ultimately show ?thesis by (rule device_login_terminates) (simp_all add: dur_defs)
qed

definition demo_pkce :: pkce_env where
  "demo_pkce = \<lparr>pk_listen = Inr ''127.0.0.1:4711'', pk_verifier = ''v'', pk_state = ''s'',
     pk_requests = [(''/favicon.ico'', []), (''/callback'', [(''state'', [''x'']), (''code'', [''evil''])]),
                    (''/callback'', [(''state'', [b64_encode ''s'']), (''code'', [''abc''])])]\<rparr>"

theorem pkce_binds_code_witness:
  "\<exists>page tok m' w'. loginPKCE (demo_oauth issued) demo_pkce gw_manager [] (demo_login None) = (page, Inr tok, m', w')
     \<and> (\<exists>pre rq q. xs_sent w' = pre @ [rq] \<and> (''/callback'', q) \<in> set (pk_requests demo_pkce)
          \<and> qget (parseQuery (the (rq_body rq))) ''code'' = [firstValue q ''code''])"
proof -
  let ?w = "demo_login None"
  obtain rs i g h where md: "oauthMetadata (demo_oauth issued) gw_manager ?w = (Inr (rs, i), ?w\<lparr>xs_net := xs_net ?w + 2, xs_sent := xs_sent ?w @ [g, h]\<rparr>)"
    "iz_token i = ''https://idp.example/token''" "iz_authorization i = ''https://idp.example/authorize''"
    using demo_metadata [of gw_manager issued ?w] by (auto simp: demo_manager_of_def)
  have cb: "await_callback (b64_encode (pk_state demo_pkce)) (pk_requests demo_pkce) = Some (CallbackCode ''abc'')" by code_simp
  have pk: "pk_listen demo_pkce = Inr ''127.0.0.1:4711''" "pk_verifier demo_pkce = ''v''" by (simp_all add: demo_pkce_def)
  obtain u where u: "urlParse ''https://idp.example/authorize'' = Some u" using demo_urls(4) by blast
  have set: "oe_set (demo_oauth issued) a b v r = (None, Some v)" "td_refresh issued \<noteq> []" for a b v r by (simp_all add: demo_oauth_def issued_def)
  have "\<exists>page tok m' w'. loginPKCE (demo_oauth issued) demo_pkce gw_manager [] ?w = (page, Inr tok, m', w')"
    using demo_tokenRequest [of "pkce_form rs ''abc'' ''http://127.0.0.1:4711/callback'' (b64_encode ''v'')" "?w\<lparr>xs_net := xs_net ?w + 2, xs_sent := xs_sent ?w @ [g, h]\<rparr>"]
    by (auto simp: loginPKCE_def Let_def md u cb persistLogin_def set pk)
  then obtain page tok m' w' where l: "loginPKCE (demo_oauth issued) demo_pkce gw_manager [] ?w = (page, Inr tok, m', w')" by blast
  from pkce_binds_code [OF l] l show ?thesis by blast
qed

theorem logout_ends_session_witness:
  "\<exists>e m' w'. logout (demo_oauth issued) gw_manager (demo_login (Some ''refresh-1'')) = (e, m', w') \<and> om_token m' = no_client_token
     \<and> clientAccessToken (demo_oauth issued) m' w' = (Inl (Plain ''not logged in; run cg login''), m', w')"
proof -
  obtain e m' w' where l: "logout (demo_oauth issued) gw_manager (demo_login (Some ''refresh-1'')) = (e, m', w')"
    by (cases "logout (demo_oauth issued) gw_manager (demo_login (Some ''refresh-1''))")
  have "om_token m' = no_client_token \<and> clientAccessToken (demo_oauth issued) m' w' = (Inl (Plain (''not logged in; run '' @ om_cliName gw_manager @ '' login'')), m', w')"
    by (rule logout_ends_session [OF _ l]) (auto simp: demo_oauth_def demo_login_def split: if_splits)
  then show ?thesis using l by (simp add: demo_manager_of_def)
qed

end
