(* ===== verification/Client_Command.thy ===== *)
theory Client_Command
  imports Client_OAuth
begin

text \<open>
  One command at the client's prompt, \<open>client/internal/app/app.go\<close>: defaults, prompts for missing flags,
  the arguments sent, the confirmation of writing commands, and the browser actions a backend may
  ask for. Parsing a flag's text is the flag library's and an argument here; so is decoding JSON.
\<close>

section \<open>Input\<close>

text \<open>
  The lines \<open>ReadString\<close> returns: at the end of the input it returns an empty line with an end-of-file
  error, which every caller accepts; another read error is on the left.
\<close>

type_synonym input_lines = "(string + string) list"

fun read_line :: "input_lines \<Rightarrow> (string + string) \<times> input_lines" where
  "read_line [] = (Inr [], [])"
| "read_line (l # ls) = (l, ls)"

section \<open>Defaults\<close>

definition stringDefault :: "(float64 \<Rightarrow> string) \<Rightarrow> goval \<Rightarrow> string" where
  "stringDefault ff v = (if v = VNil then [] else sprint ff v)"

text \<open>\<open>strconv.Atoi\<close> with its error dropped: out of range it is the nearest bound, otherwise zero.\<close>

definition atoi :: "string \<Rightarrow> int" where
  "atoi s =
     (case parseInt64 s of
        Some i \<Rightarrow> i
      | None \<Rightarrow>
          (let (neg, d) = (case s of CHR ''-'' # r \<Rightarrow> (True, r) | CHR ''+'' # r \<Rightarrow> (False, r) | _ \<Rightarrow> (False, s))
           in if d = [] \<or> read_nat 0 d = None then 0 else if neg then min_int64 else max_int64))"

text \<open>
  Conversion of a float to \<open>int\<close> drops the fraction; a value out of range gives an unspecified integer in
  Go, the least one on the usual machines.
\<close>

definition int_of_float :: "float64 \<Rightarrow> int" where
  "int_of_float f =
     (case f of
        FNum r \<Rightarrow> (let i = (if r < 0 then - \<lfloor>- r\<rfloor> else \<lfloor>r\<rfloor>) in if min_int64 \<le> i \<and> i \<le> max_int64 then i else min_int64)
      | _ \<Rightarrow> min_int64)"

definition intDefault :: "(float64 \<Rightarrow> string) \<Rightarrow> goval \<Rightarrow> int" where
  "intDefault ff v =
     (case v of
        VFloat f \<Rightarrow> int_of_float f
      | VNum t \<Rightarrow> atoi t
      | VInt i \<Rightarrow> i
      | _ \<Rightarrow> atoi (sprint ff v))"

definition parseBool :: "string \<Rightarrow> bool option" where
  "parseBool s =
     (if s \<in> {''1'', ''t'', ''T'', ''TRUE'', ''true'', ''True''} then Some True
      else if s \<in> {''0'', ''f'', ''F'', ''FALSE'', ''false'', ''False''} then Some False else None)"

definition boolDefault :: "(float64 \<Rightarrow> string) \<Rightarrow> goval \<Rightarrow> bool" where
  "boolDefault ff v = (case v of VBool b \<Rightarrow> b | _ \<Rightarrow> parseBool (sprint ff v) = Some True)"

definition stringArrayDefault :: "(float64 \<Rightarrow> string) \<Rightarrow> goval \<Rightarrow> string list" where
  "stringArrayDefault ff v = (case v of VList vs \<Rightarrow> map (sprint ff) vs | VStrs xs \<Rightarrow> xs | _ \<Rightarrow> [])"

text \<open>The flags of a leaf as \<open>configureLeaf\<close> declares them: each with the value it has when it is not given.\<close>

definition declared :: "(float64 \<Rightarrow> string) \<Rightarrow> client_flag \<Rightarrow> goval option" where
  "declared ff f =
     (if fl_type f = ''string'' then Some (VStr (stringDefault ff (fl_default f)))
      else if fl_type f = ''int'' then Some (VInt (intDefault ff (fl_default f)))
      else if fl_type f = ''bool'' then Some (VBool (boolDefault ff (fl_default f)))
      else if fl_type f = ''stringArray'' then Some (VStrs (stringArrayDefault ff (fl_default f)))
      else None)"

definition configureLeaf :: "(float64 \<Rightarrow> string) \<Rightarrow> client_command \<Rightarrow> string + (string \<times> goval) list" where
  "configureLeaf ff c =
     (case seq_opt (map (\<lambda>f. map_option (Pair (fl_name f)) (declared ff f)) (cl_flags c)) of
        None \<Rightarrow> Inl ''unsupported flag type''
      | Some vs \<Rightarrow> Inr vs)"

section \<open>Arguments\<close>

text \<open>The flags given so far, each with its parsed value.\<close>

type_synonym given_flags = "(string, goval) gomap"

fun promptMissingFlags ::
  "bool \<Rightarrow> (client_flag \<Rightarrow> string \<Rightarrow> string + goval) \<Rightarrow> client_flag list \<Rightarrow> given_flags \<Rightarrow> input_lines
   \<Rightarrow> (cli_error + given_flags) \<times> input_lines" where
  "promptMissingFlags tty parse [] given ls = (Inr given, ls)"
| "promptMissingFlags tty parse (f # fs) given ls =
     (if \<not> fl_required f \<or> fl_name f \<in> set (keys given) \<or> fl_default f \<noteq> VNil
      then promptMissingFlags tty parse fs given ls
      else if \<not> tty then (Inl (ExitError 2 (Plain (''required flag --'' @ fl_name f @ '' was not provided''))), ls)
      else (case read_line ls of
              (Inl e, ls1) \<Rightarrow> (Inl (ExitError 5 (Wrapped (''read --'' @ fl_name f) (Plain e))), ls1)
            | (Inr line, ls1) \<Rightarrow>
                (let answer = trimSpace line
                 in if answer = [] then (Inl (ExitError 2 (Plain (''required flag --'' @ fl_name f @ '' cannot be empty''))), ls1)
                    else case parse f answer of
                      Inl e \<Rightarrow> (Inl (ExitError 2 (Wrapped (''invalid --'' @ fl_name f) (Plain e))), ls1)
                    | Inr v \<Rightarrow> promptMissingFlags tty parse fs (put (fl_name f) v given) ls1)))"

definition add_argument :: "(float64 \<Rightarrow> string) \<Rightarrow> given_flags \<Rightarrow> client_flag \<Rightarrow> arguments \<Rightarrow> arguments" where
  "add_argument ff given f out =
     (case map_of given (fl_name f) of
        Some v \<Rightarrow> put (fl_name f) v out
      | None \<Rightarrow> (if fl_default f = VNil then out
                 else put (fl_name f) (case declared ff f of Some v \<Rightarrow> v | None \<Rightarrow> VNil) out))"

definition commandArguments :: "(float64 \<Rightarrow> string) \<Rightarrow> client_flag list \<Rightarrow> given_flags \<Rightarrow> arguments" where
  "commandArguments ff flags given =
     fold (add_argument ff given) flags []"

section \<open>Confirmation\<close>

definition confirmation_phrase :: "selection \<Rightarrow> string \<Rightarrow> client_command \<Rightarrow> string" where
  "confirmation_phrase sel d c =
     join (d # cl_path c) ''.'' @ '' '' @ sl_name sel @ '' '' @ (case urlParse (rg_server (sl_region sel)) of Some u \<Rightarrow> u_host u | None \<Rightarrow> [])"

definition confirm :: "bool \<Rightarrow> bool \<Rightarrow> selection \<Rightarrow> string \<Rightarrow> client_command \<Rightarrow> input_lines \<Rightarrow> (cli_error + bool) \<times> input_lines" where
  "confirm tty yes sel d c ls =
     (if cl_risk c \<noteq> ''write'' \<and> cl_risk c \<noteq> ''destroy'' then (Inr False, ls)
      else if \<not> cl_confirm c \<and> cl_risk c \<noteq> ''destroy'' then (Inr False, ls)
      else if yes then (Inr True, ls)
      else if \<not> tty then (Inl (ExitError 2 (Plain ''E_CONFIRM_REQUIRED: command requires --yes when stdin is not a TTY'')), ls)
      else (case read_line ls of
              (Inl e, ls1) \<Rightarrow> (Inl (ExitError 5 (Wrapped ''confirmation cancelled'' (Plain e))), ls1)
            | (Inr answer, ls1) \<Rightarrow>
                (if trimSpace answer \<noteq> confirmation_phrase sel d c then (Inl (ExitError 5 (Plain ''confirmation cancelled'')), ls1)
                 else (Inr True, ls1))))"

section \<open>Browser actions\<close>

record user_action =
  ua_type :: string
  ua_url :: string
  ua_message :: string
  ua_completion :: string

text \<open>
  Decoding the envelope and the containers; the data field is raw JSON, empty when absent. The
  browser reports whether it could be started.
\<close>

record action_env =
  xe_envelope :: "string \<Rightarrow> string option"
  xe_container :: "string \<Rightarrow> (user_action option \<times> string) option"

fun find_action :: "nat \<Rightarrow> action_env \<Rightarrow> string \<Rightarrow> user_action option" where
  "find_action 0 en raw = None"
| "find_action (Suc n) en raw =
     (if raw = [] then None
      else case xe_container en raw of
        None \<Rightarrow> None
      | Some (Some a, _) \<Rightarrow> Some a
      | Some (None, inner) \<Rightarrow> find_action n en inner)"

definition printCompletionCommand :: "string \<Rightarrow> string option" where
  "printCompletionCommand command =
     (let c = trimSpace command
      in if c = [] \<or> length c > 512 \<or> containsAny c [CHR 0x0D, CHR 0x0A] then None else Some c)"

text \<open>The URL opened, if any, the URL shown, if any, the completion command shown, and the rest of the input.\<close>

record action_outcome =
  oc_opened :: "string option"
  oc_shown :: "string option"
  oc_completion :: "string option"
  oc_input :: input_lines

definition nothing_done :: "input_lines \<Rightarrow> action_outcome" where
  "nothing_done ls = \<lparr>oc_opened = None, oc_shown = None, oc_completion = None, oc_input = ls\<rparr>"

definition user_action_of :: "action_env \<Rightarrow> string \<Rightarrow> user_action option" where
  "user_action_of en raw =
     (case xe_envelope en raw of None \<Rightarrow> None | Some payload \<Rightarrow> (if payload = [] then None else find_action 3 en payload))"

definition ask_browser :: "(string \<Rightarrow> bool) \<Rightarrow> string \<Rightarrow> string option \<Rightarrow> input_lines \<Rightarrow> action_outcome" where
  "ask_browser browser target completion ls =
     (case read_line ls of
        (Inl _, ls1) \<Rightarrow> (nothing_done ls1)\<lparr>oc_shown := Some target\<rparr>
      | (Inr answer, ls1) \<Rightarrow>
          (let agreed = equalFold (trimSpace answer) ''y'' \<or> equalFold (trimSpace answer) ''yes''
           in \<lparr>oc_opened = (if agreed then Some target else None), oc_shown = (if agreed \<and> browser target then None else Some target),
               oc_completion = completion, oc_input = ls1\<rparr>))"

definition handleUserAction :: "action_env \<Rightarrow> bool \<Rightarrow> (string \<Rightarrow> bool) \<Rightarrow> string \<Rightarrow> input_lines \<Rightarrow> action_outcome" where
  "handleUserAction en tty browser raw ls =
     (case user_action_of en raw of
        None \<Rightarrow> nothing_done ls
      | Some a \<Rightarrow>
          (if ua_type a \<noteq> ''open_url'' then nothing_done ls
           else case urlParse (trimSpace (ua_url a)) of
             None \<Rightarrow> nothing_done ls
           | Some u \<Rightarrow>
               (if u_scheme u \<noteq> ''https'' \<or> u_host u = [] \<or> u_user u \<noteq> None then nothing_done ls
                else if \<not> tty
                  then (nothing_done ls)\<lparr>oc_shown := Some (urlString u), oc_completion := printCompletionCommand (ua_completion a)\<rparr>
                else ask_browser browser (urlString u) (printCompletionCommand (ua_completion a)) ls)))"

section \<open>Exit codes\<close>

fun as_exit :: "cli_error \<Rightarrow> int option" where
  "as_exit (ExitError c _) = Some c"
| "as_exit (Wrapped _ e) = as_exit e"
| "as_exit _ = None"

definition classify :: "cli_error \<Rightarrow> cli_error" where
  "classify e =
     (if as_exit e \<noteq> None then e
      else case as_gateway e of
        Some g \<Rightarrow>
          (if gx_code g \<in> {''E_AUTH_MISSING'', ''E_AUTH_INVALID'', ''E_AUTH_EXPIRED''} then ExitError 3 e
           else if gx_code g \<in> {''E_ARG_INVALID'', ''E_CMD_NOT_FOUND'', ''E_CONFIRM_REQUIRED''} then ExitError 2 e
           else ExitError 4 e)
      | None \<Rightarrow> ExitError 4 e)"

definition exitCode :: "cli_error \<Rightarrow> int" where
  "exitCode e = (case as_exit e of Some c \<Rightarrow> c | None \<Rightarrow> 2)"

definition isExpiredAuth :: "cli_error \<Rightarrow> bool" where
  "isExpiredAuth e = (case as_gateway e of Some g \<Rightarrow> gx_code g = ''E_AUTH_EXPIRED'' | None \<Rightarrow> False)"

definition isDownstreamAuthorizationRequired :: "cli_error \<Rightarrow> bool" where
  "isDownstreamAuthorizationRequired e = (case as_gateway e of Some g \<Rightarrow> gx_code g = ''E_DOWNSTREAM_AUTH_REQUIRED'' | None \<Rightarrow> False)"

section \<open>The gateway accepts what the client sends\<close>

text \<open>
  A flag as the client has it in a later run: the cache is read with \<open>json.Unmarshal\<close>, which makes a
  number a \<open>float64\<close>.
\<close>

definition cached_default :: "(int \<Rightarrow> float64) \<Rightarrow> goval \<Rightarrow> goval" where
  "cached_default to_float v = (case v of VInt i \<Rightarrow> VFloat (to_float i) | _ \<Rightarrow> decoded_any v)"

definition cached_flag :: "(int \<Rightarrow> float64) \<Rightarrow> compiled_flag \<Rightarrow> client_flag" where
  "cached_flag to_float f = (served_flag f)\<lparr>fl_default := cached_default to_float (cf_default f)\<rparr>"

definition flag_typed :: "string \<Rightarrow> goval \<Rightarrow> bool" where
  "flag_typed t v =
     (if t = ''string'' then (case v of VStr _ \<Rightarrow> True | _ \<Rightarrow> False)
      else if t = ''int'' then (case v of VInt i \<Rightarrow> min_int64 \<le> i \<and> i \<le> max_int64 | _ \<Rightarrow> False)
      else if t = ''bool'' then (case v of VBool _ \<Rightarrow> True | _ \<Rightarrow> False)
      else if t = ''stringArray'' then (case v of VStrs _ \<Rightarrow> True | _ \<Rightarrow> False)
      else False)"

lemma int_of_float_range: "min_int64 \<le> int_of_float f \<and> int_of_float f \<le> max_int64"
  by (auto simp: int_of_float_def Let_def min_int64_def max_int64_def split: float64.splits)

lemma strings_of_map: "strings_of (map VStr xs) = Some xs"
  by (induction xs) auto

lemma typed_normalizes:
  assumes "flag_typed t v"
  shows "\<exists>w. normalizeValue fmt t (decoded_any v) = Inr w"
  using assms parseInt64_formatInt
  by (cases v) (auto simp: flag_typed_def normalizeValue_def normalizeInt_def strings_of_map split: if_splits)

lemma declared_typed:
  assumes "flag_compiled f" "cf_default f \<noteq> VNil"
  shows "\<exists>v. declared ff (cached_flag to_float f) = Some v \<and> flag_typed (cf_type f) v"
proof -
  have t: "cf_type f \<in> {FlagString, FlagInt, FlagBool, FlagStringArray}" and d: "defaultMatches (cf_type f) (cf_default f)"
    using assms unfolding flag_compiled_def by blast+
  have "cf_type f = ''int'' \<Longrightarrow> \<exists>i. cf_default f = VInt i"
    using d by (auto simp: defaultMatches_def split: goval.splits)
  then show ?thesis
    using t int_of_float_range
    by (auto simp: declared_def cached_flag_def served_flag_def flag_typed_def intDefault_def cached_default_def)
qed

lemma find_of_map: "find P (map g xs) = map_option g (find (\<lambda>x. P (g x)) xs)"
  by (induction xs) auto

lemma commandArguments_fold:
  assumes "distinct (map fl_name flags)"
  shows "map_of (fold (add_argument ff given) flags acc) n =
    (case find (\<lambda>f. fl_name f = n) flags of
       None \<Rightarrow> map_of acc n
     | Some f \<Rightarrow>
         (case map_of given n of
            Some v \<Rightarrow> Some v
          | None \<Rightarrow> (if fl_default f = VNil then map_of acc n else Some (case declared ff f of Some v \<Rightarrow> v | None \<Rightarrow> VNil))))"
  using assms
proof (induction flags arbitrary: acc)
  case (Cons f flags)
  have nf: "find (\<lambda>g. fl_name g = fl_name f) flags = None" using Cons.prems by (auto simp: find_None_iff image_iff)
  show ?case using Cons nf by (auto simp: add_argument_def split: option.splits)
qed simp

lemma commandArguments_lookup:
  assumes "distinct (map fl_name flags)"
  shows "map_of (commandArguments ff flags given) n =
    (case find (\<lambda>f. fl_name f = n) flags of
       None \<Rightarrow> None
     | Some f \<Rightarrow>
         (case map_of given n of
            Some v \<Rightarrow> Some v
          | None \<Rightarrow> (if fl_default f = VNil then None else Some (case declared ff f of Some v \<Rightarrow> v | None \<Rightarrow> VNil))))"
  unfolding commandArguments_def commandArguments_fold [OF assms] by (simp split: option.split)

lemma prompted_flags:
  assumes "promptMissingFlags tty parse flags given ls = (Inr given', ls')"
    and "\<And>f s v. parse f s = Inr v \<Longrightarrow> flag_typed (fl_type f) v"
  shows "(\<forall>f \<in> set flags. fl_required f \<and> fl_default f = VNil \<longrightarrow> map_of given' (fl_name f) \<noteq> None)
    \<and> (\<forall>n v. map_of given' n = Some v \<longrightarrow> map_of given n = Some v \<or> (\<exists>f \<in> set flags. fl_name f = n \<and> flag_typed (fl_type f) v))
    \<and> (\<forall>n v. map_of given n = Some v \<longrightarrow> (\<exists>v'. map_of given' n = Some v'))"
  using assms(1)
proof (induction flags arbitrary: given ls)
  case (Cons f flags)
  show ?case
  proof (cases "\<not> fl_required f \<or> fl_name f \<in> set (keys given) \<or> fl_default f \<noteq> VNil")
    case True
    with Cons.prems have r: "promptMissingFlags tty parse flags given ls = (Inr given', ls')" by simp
    have "fl_name f \<in> set (keys given) \<Longrightarrow> map_of given (fl_name f) \<noteq> None" by (simp add: map_of_eq_None_iff)
    with Cons.IH [OF r] True show ?thesis by fastforce
  next
    case False
    with Cons.prems obtain line ls1 v where s: "read_line ls = (Inr line, ls1)" "parse f (trimSpace line) = Inr v"
      "promptMissingFlags tty parse flags (put (fl_name f) v given) ls1 = (Inr given', ls')"
      by (auto simp: Let_def split: if_splits prod.splits sum.splits)
    from Cons.IH [OF s(3)] assms(2) [OF s(2)] show ?thesis by (simp split: if_splits) blast
  qed
qed auto

lemma commandArguments_keys: "set (keys (commandArguments ff flags given)) \<subseteq> set (map fl_name flags)"
proof -
  have step: "set (keys (add_argument ff given f acc)) \<subseteq> insert (fl_name f) (set (keys acc))" for f acc
    by (auto simp: add_argument_def split: option.splits)
  have "set (keys (fold (add_argument ff given) flags acc)) \<subseteq> set (keys acc) \<union> set (map fl_name flags)" for acc
  proof (induction flags arbitrary: acc)
    case (Cons f flags)
    with step [of f acc] show ?case by (simp del: set_map) blast
  qed simp
  from this [of "[]"] show ?thesis by (simp add: commandArguments_def)
qed

lemma cached_flag_fields [simp]:
  "fl_name (cached_flag tf f) = cf_name f" "fl_type (cached_flag tf f) = cf_type f" "fl_required (cached_flag tf f) = cf_required f"
  "fl_default (cached_flag tf f) = VNil \<longleftrightarrow> cf_default f = VNil"
  by (auto simp: cached_flag_def served_flag_def cached_default_def split: goval.splits elim: decoded_any.elims)

text \<open>C22. What the client sends, the gateway accepts: for a command of the gateway's list, however the user
  gives its flags, once the client has prompted for what is missing the arguments it sends pass the
  gateway's validation. The flag library is assumed to parse a flag's text to a value of its type.\<close>

theorem client_arguments_accepted:
  assumes "command_compiled c"
    and prompted: "promptMissingFlags tty parse (map (cached_flag tf) (cmd_flags c)) given ls = (Inr given', ls')"
    and parse: "\<And>f s v. parse f s = Inr v \<Longrightarrow> flag_typed (fl_type f) v"
    and typed: "\<And>f v. f \<in> set (cmd_flags c) \<Longrightarrow> map_of given (cf_name f) = Some v \<Longrightarrow> flag_typed (cf_type f) v"
  shows "\<exists>r. validateArguments fmt c (map (\<lambda>(k, v). (k, decoded_any v)) (commandArguments ff (map (cached_flag tf) (cmd_flags c)) given')) = Inr r"
proof -
  let ?flags = "map (cached_flag tf) (cmd_flags c)"
  let ?args = "commandArguments ff ?flags given'"
  let ?sent = "map (\<lambda>(k, v). (k, decoded_any v)) ?args"
  have names: "fl_name \<circ> cached_flag tf = cf_name" by (simp add: fun_eq_iff)
  have d: "distinct (map cf_name (cmd_flags c))" and fc: "\<And>f. f \<in> set (cmd_flags c) \<Longrightarrow> flag_compiled f"
    using assms(1) by (simp_all add: command_compiled_def)
  have d': "distinct (map fl_name ?flags)" using d by (simp add: names)
  have ks: "set (keys ?sent) \<subseteq> set (map cf_name (cmd_flags c))"
  proof -
    have "keys ?sent = keys ?args" by (simp add: comp_def case_prod_unfold)
    with commandArguments_keys [of ff ?flags given'] show ?thesis by (simp add: names)
  qed
  have look: "map_of ?sent n = map_option decoded_any (map_of ?args n)" for n by (simp add: map_of_map)
  have pf: "\<And>f. f \<in> set ?flags \<Longrightarrow> fl_required f \<and> fl_default f = VNil \<longrightarrow> map_of given' (fl_name f) \<noteq> None"
    "\<And>n v. map_of given' n = Some v \<Longrightarrow> map_of given n = Some v \<or> (\<exists>f \<in> set ?flags. fl_name f = n \<and> flag_typed (fl_type f) v)"
    using prompted_flags [OF prompted] parse by blast+
  have "flag_accepts fmt ?sent f" if f: "f \<in> set (cmd_flags c)" for f
  proof -
    have fd: "find (\<lambda>g. fl_name g = cf_name f) ?flags = Some (cached_flag tf f)"
      using find_flag [OF d f] by (simp add: find_of_map)
    have given_typed: "flag_typed (cf_type f) v" if v: "map_of given' (cf_name f) = Some v" for v
    proof -
      from pf(2) [OF v] have "map_of given (cf_name f) = Some v \<or> (\<exists>g \<in> set ?flags. fl_name g = cf_name f \<and> flag_typed (fl_type g) v)" .
      moreover have "g = f" if "g \<in> set (cmd_flags c)" "cf_name g = cf_name f" for g
        using d f that by (meson distinct_map inj_onD)
      ultimately show ?thesis using typed [OF f] by auto
    qed
    show ?thesis
    proof (cases "map_of given' (cf_name f)")
      case (Some v)
      then have "map_of ?sent (cf_name f) = Some (decoded_any v)" unfolding look commandArguments_lookup [OF d'] fd by simp
      with typed_normalizes [OF given_typed [OF Some]] show ?thesis by (simp add: flag_accepts_def)
    next
      case None
      show ?thesis
      proof (cases "cf_default f = VNil")
        case True
        have "\<not> cf_required f" using pf(1) [of "cached_flag tf f"] None True f by auto
        moreover have "map_of ?sent (cf_name f) = None" unfolding look commandArguments_lookup [OF d'] fd using None True by simp
        ultimately show ?thesis by (simp add: flag_accepts_def)
      next
        case False
        obtain v where v: "declared ff (cached_flag tf f) = Some v" "flag_typed (cf_type f) v" using declared_typed [OF fc [OF f] False] by blast
        have "map_of ?sent (cf_name f) = Some (decoded_any v)" unfolding look commandArguments_lookup [OF d'] fd using None False v(1) by simp
        with typed_normalizes [OF v(2)] show ?thesis by (simp add: flag_accepts_def)
      qed
    qed
  qed
  then obtain r where "validateFlagArgs fmt ?sent (cmd_flags c) [] = Inr r" using validateFlagArgs_Inr [OF d] by blast
  with ks have "validateArguments fmt c ?sent = Inr r" by (simp add: validateArguments_Inr)
  then show ?thesis by blast
qed

section \<open>Confirmation protects writes\<close>

lemma phrase_not_Nil: "confirmation_phrase sel d c \<noteq> []"
  by (simp add: confirmation_phrase_def)

lemma trimSpace_Nil: "trimSpace [] = []"
  by (simp add: trimSpace_def trim_left.simps)

lemma confirm_Inr:
  assumes "confirm tty yes sel d c ls = (Inr b, ls')"
  shows "b \<longleftrightarrow> cl_risk c = ''destroy'' \<or> cl_risk c = ''write'' \<and> cl_confirm c"
    "b \<Longrightarrow> \<not> yes \<Longrightarrow> tty \<and> (\<exists>answer. ls = Inr answer # ls' \<and> trimSpace answer = confirmation_phrase sel d c)"
proof -
  show "b \<longleftrightarrow> cl_risk c = ''destroy'' \<or> cl_risk c = ''write'' \<and> cl_confirm c"
    using assms by (auto simp: confirm_def split: if_splits prod.splits sum.splits)
  assume "b" "\<not> yes"
  with assms obtain answer where "tty" "read_line ls = (Inr answer, ls')" "trimSpace answer = confirmation_phrase sel d c"
    by (auto simp: confirm_def split: if_splits prod.splits sum.splits)
  then show "tty \<and> (\<exists>answer. ls = Inr answer # ls' \<and> trimSpace answer = confirmation_phrase sel d c)"
    using phrase_not_Nil [of sel d c] trimSpace_Nil by (cases ls) auto
qed

text \<open>C23. Confirmation is never forged and always enough: the client marks a call as confirmed only for a command
  that writes, and only when the user gave \<open>--yes\<close> or typed, at a terminal, the phrase that names the
  command, the region and the host; and for a compiled command that writes the mark is what the
  gateway's policy asks for, so that the policy does not refuse it for lack of confirmation.\<close>

theorem client_confirmation_sound:
  assumes "command_compiled c" "cmd_risk c \<noteq> RiskRead"
    and run: "confirm tty yes sel d (served_command c) ls = (Inr b, ls')"
  shows "(b \<longrightarrow> yes \<or> tty \<and> (\<exists>answer. ls = Inr answer # ls' \<and> trimSpace answer = confirmation_phrase sel d (served_command c)))
    \<and> (authorize p i c m b = None \<longleftrightarrow> visible p i c m)"
proof -
  have risk: "riskValid (cmd_risk c)" "cmd_risk c = RiskDestroy \<longrightarrow> cmd_confirm c"
    using assms(1) unfolding command_compiled_def by blast+
  then have "cmd_risk c = RiskWrite \<or> cmd_risk c = RiskDestroy"
    using assms(2) by (auto simp: riskValid_def riskRank_def split: if_splits)
  then have "cmd_confirm c \<longrightarrow> b" using confirm_Inr(1) [OF run] by (auto simp: served_command_def)
  then show ?thesis using confirm_Inr(2) [OF run] by (auto simp: authorize_None_iff)
qed

text \<open>
  For a reading command that asks for confirmation the two sides disagree: its manifest is valid
  (\<open>reserved_domain_refused\<close> has one with \<open>confirmed_read\<close>) and the gateway refuses the call without the
  mark, but the client never sets it, with or without \<open>--yes\<close>.
\<close>

theorem confirmed_reads_unusable:
  assumes "cmd_risk c = RiskRead" "cmd_confirm c" "visible p i c m"
  shows "confirm tty yes sel d (served_command c) ls = (Inr False, ls) \<and> authorize p i c m False \<noteq> None"
  using assms by (simp add: confirm_def served_command_def authorize_None_iff)

section \<open>Browser actions are safe\<close>

text \<open>A backend cannot make the client open what the user did not agree to: a browser is opened only at a
  terminal, only after the user answered yes, at most once, and only for an HTTPS URL with a host
  and without user information; the completion command shown is one line of at most 512 bytes.\<close>

theorem browser_actions_safe:
  assumes "handleUserAction en tty browser raw ls = r"
  shows "(oc_opened r = Some target \<longrightarrow> tty
      \<and> (\<exists>answer u. ls = Inr answer # oc_input r \<and> (equalFold (trimSpace answer) ''y'' \<or> equalFold (trimSpace answer) ''yes'')
           \<and> target = urlString u \<and> u_scheme u = ''https'' \<and> u_host u \<noteq> [] \<and> u_user u = None))
    \<and> (oc_completion r = Some line \<longrightarrow> length line \<le> 512 \<and> CHR 0x0A \<notin> set line \<and> CHR 0x0D \<notin> set line)"
proof -
  have line: "length line \<le> 512 \<and> CHR 0x0A \<notin> set line \<and> CHR 0x0D \<notin> set line" if "printCompletionCommand x = Some line" for x
    using that by (auto simp: printCompletionCommand_def Let_def containsAny_def list_ex_iff split: if_splits)
  have no: "\<not> equalFold (trimSpace []) ''y''" "\<not> equalFold (trimSpace []) ''yes''"
    by (simp_all add: trimSpace_Nil equalFold_def foldCase_ascii is_ascii_def)
  have ask: "(oc_opened (ask_browser browser t k ls) = Some target \<longrightarrow> target = t \<and> (\<exists>answer. ls = Inr answer # oc_input (ask_browser browser t k ls)
        \<and> (equalFold (trimSpace answer) ''y'' \<or> equalFold (trimSpace answer) ''yes''))) \<and> (oc_completion (ask_browser browser t k ls) = Some line \<longrightarrow> k = Some line)" for t k
    using no by (cases ls; cases "hd ls") (auto simp: ask_browser_def nothing_done_def Let_def)
  consider (idle) "r = nothing_done ls"
    | (shown) u k where "\<not> tty" "r = (nothing_done ls)\<lparr>oc_shown := Some (urlString u), oc_completion := printCompletionCommand k\<rparr>"
    | (asked) u k where "tty" "u_scheme u = ''https''" "u_host u \<noteq> []" "u_user u = None"
        "r = ask_browser browser (urlString u) (printCompletionCommand k) ls"
    using assms by (auto simp: handleUserAction_def simp del: not_None_eq split: option.splits if_splits)
  then show ?thesis
  proof cases
    case idle
    then show ?thesis by (simp add: nothing_done_def)
  next
    case shown
    then show ?thesis using line by (auto simp: nothing_done_def)
  next
    case (asked u k)
    then show ?thesis using ask [of "urlString u" "printCompletionCommand k"] line by blast
  qed
qed

section \<open>Defaults that do not survive the cache\<close>

text \<open>The nearest \<open>float64\<close> to an integer: 53 significant bits, ties to even.\<close>

definition round_to :: "nat \<Rightarrow> nat \<Rightarrow> nat" where
  "round_to u n =
     (let q = n div u; r = n mod u
      in if 2 * r < u \<or> 2 * r = u \<and> even q then q * u else (q + 1) * u)"

fun float_ulp :: "nat \<Rightarrow> nat" where
  "float_ulp n = (if n < 9007199254740992 then 1 else 2 * float_ulp (n div 2))"

declare float_ulp.simps [simp del]

definition nearest_float :: "int \<Rightarrow> float64" where
  "nearest_float i =
     (let n = nat \<bar>i\<bar>; v = round_to (float_ulp n) n
      in FNum (rat_of_int (if i < 0 then - int v else int v)))"

lemma commandArguments_single:
  "declared ff f = Some v \<Longrightarrow> fl_default f \<noteq> VNil \<Longrightarrow> commandArguments ff [f] [] = [(fl_name f, v)]"
  by (simp add: commandArguments_def add_argument_def)

text \<open>
  An integer default beyond 53 bits passes the manifest's and the client's checks, but the cache
  changes it: the client then sends the changed value as an explicit argument, where the gateway would
  have used the declared one.
\<close>

theorem cached_default_changes:
  "validateFlagDefault (served_flag (compileFlag ((plain_flag ''id'' ''int'' ''body'')\<lparr>rf_default := VInt 9007199254740993\<rparr>))) = None"
  "commandArguments ff [cached_flag nearest_float (compileFlag ((plain_flag ''id'' ''int'' ''body'')\<lparr>rf_default := VInt 9007199254740993\<rparr>))] []
     = [(''id'', VInt 9007199254740992)]"
proof -
  let ?f = "compileFlag ((plain_flag ''id'' ''int'' ''body'')\<lparr>rf_default := VInt 9007199254740993\<rparr>)"
  have f: "cf_name ?f = ''id''" "cf_type ?f = ''int''" "cf_default ?f = VInt 9007199254740993" by (simp_all add: compileFlag_def plain_flag_def)
  have "parseInt64 (formatInt 9007199254740993) = Some 9007199254740993"
    by (rule parseInt64_formatInt) (simp_all add: min_int64_def max_int64_def)
  then show "validateFlagDefault (served_flag ?f) = None" by (simp add: validateFlagDefault_def served_flag_def f)
  have "float_ulp 9007199254740993 = 2" by (subst float_ulp.simps, subst float_ulp.simps) simp
  then have n: "nearest_float 9007199254740993 = FNum 9007199254740992" by (simp add: nearest_float_def Let_def round_to_def)
  have "int_of_float (FNum 9007199254740992) = 9007199254740992" by (simp add: int_of_float_def min_int64_def max_int64_def)
  then have "declared ff (cached_flag nearest_float ?f) = Some (VInt 9007199254740992)"
    by (simp add: declared_def f) (simp add: cached_flag_def cached_default_def f intDefault_def n)
  then show "commandArguments ff [cached_flag nearest_float ?f] [] = [(''id'', VInt 9007199254740992)]"
    using commandArguments_single [of ff "cached_flag nearest_float ?f"] f by (simp only: cached_flag_fields) simp
qed

section \<open>Witnesses\<close>

theorem client_arguments_accepted_witness:
  "\<exists>r. validateArguments (\<lambda>_. []) demo_get (map (\<lambda>(k, v). (k, decoded_any v))
      (commandArguments (\<lambda>_. []) (map (cached_flag nearest_float) (cmd_flags demo_get)) [(''id'', VStr ''42'')])) = Inr r"
proof (rule client_arguments_accepted [OF demo_commands_compiled(1)])
  let ?parse = "\<lambda>f s. if fl_type f = ''string'' then Inr (VStr s) else Inl ''unsupported''"
  have "list_all (\<lambda>f. \<not> cf_required f \<or> cf_name f = ''id'') (cmd_flags demo_get)"
    by (simp add: demo_get_def compileCommand_def get_item_def compileFlags_def compileFlag_def plain_flag_def Let_def)
  moreover have "promptMissingFlags True ?parse (map (cached_flag nearest_float) fs) [(''id'', VStr ''42'')] [] = (Inr [(''id'', VStr ''42'')], [])"
    if "list_all (\<lambda>f. \<not> cf_required f \<or> cf_name f = ''id'') fs" for fs
    using that by (induction fs) auto
  ultimately show "promptMissingFlags True ?parse (map (cached_flag nearest_float) (cmd_flags demo_get)) [(''id'', VStr ''42'')] [] = (Inr [(''id'', VStr ''42'')], [])"
    by blast
  show "flag_typed (fl_type f) v" if "?parse f s = Inr v" for f s v using that by (auto simp: flag_typed_def split: if_splits)
  show "flag_typed (cf_type f) v" if "f \<in> set (cmd_flags demo_get)" "map_of [(''id'', VStr ''42'')] (cf_name f) = Some v" for f v
  proof -
    have "list_all (\<lambda>f. cf_name f = ''id'' \<longrightarrow> cf_type f = ''string'') (cmd_flags demo_get)"
      by (simp add: demo_get_def compileCommand_def get_item_def compileFlags_def compileFlag_def plain_flag_def Let_def)
    with that show ?thesis by (auto simp: list_all_iff flag_typed_def split: if_splits)
  qed
qed

definition demo_selection :: selection where
  "demo_selection = \<lparr>sl_name = ''eu'', sl_region = \<lparr>rg_server = ''https://gw.example'', rg_displayName = [], rg_caFile = []\<rparr>\<rparr>"

theorem client_confirmation_sound_witness:
  "authorize demo_principal ''human'' demo_put ''write'' False = None \<longleftrightarrow> visible demo_principal ''human'' demo_put ''write''"
proof -
  have "cmd_risk demo_put = RiskWrite \<and> \<not> cmd_confirm demo_put"
    by (simp add: demo_put_def compileCommand_def put_item_def)
  then have "confirm False False demo_selection ''demo'' (served_command demo_put) [] = (Inr False, [])" "cmd_risk demo_put \<noteq> RiskRead"
    by (simp_all add: confirm_def served_command_def)
  from client_confirmation_sound [OF demo_commands_compiled(2) this(2,1)] show ?thesis by blast
qed

definition demo_actions :: action_env where
  "demo_actions = \<lparr>xe_envelope = (\<lambda>_. Some ''data''),
     xe_container = (\<lambda>_. Some (Some \<lparr>ua_type = ''open_url'', ua_url = ''https://idp.example/consent'', ua_message = [], ua_completion = ''cg demo item get''\<rparr>, []))\<rparr>"

theorem browser_actions_safe_witness:
  "oc_opened (handleUserAction demo_actions True (\<lambda>_. True) ''{}'' [Inr ''y'']) = Some ''https://idp.example/consent''
   \<and> (\<exists>answer. [Inr ''y''] = Inr answer # oc_input (handleUserAction demo_actions True (\<lambda>_. True) ''{}'' [Inr ''y'']))"
proof -
  have o: "oc_opened (handleUserAction demo_actions True (\<lambda>_. True) ''{}'' [Inr ''y'']) = Some ''https://idp.example/consent''" by code_simp
  with browser_actions_safe [OF refl, of demo_actions True "\<lambda>_. True" "''{}''" "[Inr ''y'']" "''https://idp.example/consent''" "[]"]
  show ?thesis by blast
qed

end
