(* ===== verification/Spec2Isabelle.thy ===== *)
theory Spec2Isabelle
  imports Invoke_Service Manifest_Manager Runtime_Gen Credential_Manager Identity_Signer Server_Routes Mcp_Sessions Runtime_Build Client_Command
begin

text \<open>
  A model of cli-gateway and of its client, a gateway that turns the HTTP operations declared in a
  YAML manifest into commands for people, scripts and AI agents, authenticates the caller, applies
  risk policy and limits, and calls the upstream with the credential its domain is configured for.

  \<^bold>\<open>The program and its parts.\<close> \<open>internal/manifest\<close> reads a manifest, validates it and compiles it to
  a snapshot; \<open>internal/runtime\<close> publishes one generation of components per snapshot and retires the
  one before. A request is authenticated by \<open>internal/auth\<close>, its command found by
  \<open>internal/catalog\<close>, and executed by \<open>internal/invoke\<close>: arguments are checked, \<open>internal/policy\<close> decides,
  the upstream request is built, \<open>internal/limiter\<close> and \<open>internal/breaker\<close> admit it,
  \<open>internal/credential\<close> adds a credential (a signed identity of \<open>internal/identity\<close>, the caller's
  bearer, a service token kept by \<open>internal/cache\<close>, or a user grant kept in an encrypted file), and
  \<open>internal/upstream\<close> dials. Requests arrive at \<open>internal/server\<close> or, from AI agents, at the sessions
  of \<open>internal/adapter/mcp\<close>; \<open>internal/audit\<close> and \<open>internal/observability\<close> record what happened. The
  command-line client, \<open>client/internal\<close>, chooses a gateway from its configuration (\<open>branding\<close>, \<open>config\<close>), logs
  in (\<open>oauth\<close>), reads the list of commands its user may see (\<open>manifest\<close>), offers them as its own and
  calls the gateway (\<open>app\<close>, \<open>api\<close>).

  \<^bold>\<open>Theories.\<close>
    \<^item> \<open>Gateway_Prelude\<close>, \<open>Go_Strings\<close>, \<open>Go_Url\<close>, \<open>Go_Base64\<close>, \<open>Go_Json\<close>: instants, results, ordered maps and
      the functions of the Go library that the sources call, with their round trips.
    \<^item> \<open>Gateway_Model\<close>, \<open>Httpx_Trace\<close>: \<open>internal/model\<close> and \<open>internal/httpx\<close>.
    \<^item> \<open>Manifest_Types\<close>, \<open>Manifest_Validate\<close>, \<open>Manifest_Accepted\<close>, \<open>Manifest_Compile\<close>, \<open>Manifest_Manager\<close>,
      with the example of \<open>Manifest_Example\<close>: \<open>internal/manifest\<close>. An accepted manifest compiles to a
      well-formed snapshot; reloads keep one and change nothing that needs a restart.
    \<^item> \<open>Policy_Catalog\<close>: \<open>internal/policy\<close> and \<open>internal/catalog\<close>. What is listed is what policy permits.
    \<^item> \<open>Invoke_Args\<close>, \<open>Invoke_Request\<close>, \<open>Invoke_Service\<close>: \<open>internal/invoke\<close>. Arguments are accepted exactly
      when declared and arrive unchanged and confined; checks precede effects; slots and breaker
      probes are given back on every path.
    \<^item> \<open>Breaker\<close>, \<open>Limiter\<close>, \<open>Token_Cache\<close>: \<open>internal/breaker\<close>, \<open>internal/limiter\<close>, \<open>internal/cache\<close>,
      single calls and every interleaving of their critical sections.
    \<^item> \<open>Credential_OAuth\<close>: \<open>secret.go\<close>, \<open>oauth.go\<close> and the OAuth provider of \<open>manager.go\<close> in
      \<open>internal/credential\<close>. What the token endpoint receives, which answers are accepted, how tokens are
      shared.
    \<^item> \<open>Auth_Store\<close>, \<open>Auth_Broker\<close>, \<open>Auth_Grants\<close>: \<open>authorization_store.go\<close> and \<open>authorization_code.go\<close>. The
      stores implement one contract (a locale with an interpretation for each), the broker's operations
      interleave as steps of a relation; states are used once, refreshes are single-flight.
    \<^item> \<open>Credential_Manager\<close>: the rest of \<open>manager.go\<close>. Every command of a snapshot has the provider its
      domain asks for, after any calls.
    \<^item> \<open>Upstream_Dialer\<close>: \<open>internal/upstream\<close>. The network boundary of the dialer.
    \<^item> \<open>Auth_Keys\<close>, \<open>Auth_Verify\<close>: \<open>internal/auth\<close>. The key set with its rotation and throttle; what an
      accepted token proves, for every key source that meets the contract.
    \<^item> \<open>Identity_Signer\<close>: \<open>internal/identity\<close>. Key rotation and the claims of an assertion.
    \<^item> \<open>Runtime_Gen\<close>, \<open>Runtime_Build\<close>: the generations of \<open>internal/runtime\<close> under interleaving, and how
      \<open>cmd/cli-gateway/main.go\<close> builds one. A published generation is complete.
    \<^item> \<open>Audit_Dispatcher\<close>: \<open>internal/audit\<close>. Accepted events are written in order and none is lost silently,
      in every interleaving of \<open>Record\<close>, the worker and \<open>Close\<close>.
    \<^item> \<open>Server_Base\<close>, \<open>Server_Http\<close>: \<open>internal/server/server.go\<close>, the handlers with the runtime, the verifier and
      the metrics as arguments; \<open>Server_Exec\<close>: the execution endpoint invokes only for verified callers
      and audits every exit, and, over a contract of the invocation service (a locale), gives back
      what it took; \<open>Server_Views\<close>: the other endpoints; \<open>Server_Dist\<close>: \<open>distribution.go\<close>, with a model of how a
      shell reads a quoted word; \<open>Server_Routes\<close>: the routes and their dispatch.
    \<^item> \<open>Gateway_World\<close>: the handlers on the gateway's own verifier, generation and pipeline, as
      \<open>cmd/cli-gateway/main.go\<close> wires them (the interpretation of that contract).
    \<^item> \<open>Observability\<close>: \<open>internal/observability\<close>, counters as 64-bit words.
    \<^item> \<open>Mcp_Tools\<close>, \<open>Mcp_Sessions\<close>: \<open>internal/adapter/mcp\<close>, a tool call, and the session tables with their
      leases as an interleaving of critical sections: counts are exact, shutdown ends.
    \<^item> \<open>Client_Config\<close>: \<open>branding.go\<close>, \<open>config.go\<close>. A resolved target is an HTTPS or loopback origin; brands do
      not share state; files are replaced as a whole.
    \<^item> \<open>Client_Manifest\<close>: \<open>manifest.go\<close> and the reserved names of \<open>app.go\<close>. The client accepts what the gateway
      serves.
    \<^item> \<open>Client_Api\<close>: \<open>api/client.go\<close>. A call arrives at the handler of its command, as the client meant it;
      errors are read back as they were written.
    \<^item> \<open>Client_OAuth\<close>: \<open>oauth/manager.go\<close>. Tokens come from the discovered issuer only, a browser login
      redeems its own code, a device login ends, logging out ends the session.
    \<^item> \<open>Client_Command\<close>: flags, prompts, arguments, confirmation, user actions and exit codes of \<open>app.go\<close>. What
      the client sends passes the gateway's validation and policy; no confirmation is forged.
    \<^item> This theory: properties that span components, up to an HTTP request's way to the upstream.

  \<^bold>\<open>Conventions.\<close> A struct is a record, an error result is the left of a sum, a mutex-protected critical
  section is one function on the state, and goroutines that interleave are steps of a relation or
  a list of calls. Every read of a clock is an argument of its own, so a theorem holds for every
  clock; where it needs the clock to advance, it says so. Durations and instants are integers of
  nanoseconds; where Go saturates or wraps, the model does. Loops are structural recursions or
  functions with a termination proof. The one loop that waits for an answer from outside, the polling
  of a device login, has fuel: 500 polls are shown to be enough, since it polls at most every two
  seconds for at most fifteen minutes.

  \<^bold>\<open>Arguments of the model.\<close> Code outside the repository is an argument: YAML and JSON decoding, SHA-256,
  HMAC, AES-GCM, the JOSE library, X.509, the file system, DNS and the transport. A property that
  rests on such code states what it assumes of it as a premise and has a witness that instantiates
  the argument with a concrete function.

  \<^bold>\<open>Findings.\<close> Theorems without a claim number record behaviour that differs from what the sources say:
  a token provider locked by an unread probe, a refresh that undoes a disconnect or drops a newer
  grant, a key overlap cut short, unknown keys that are not coalesced, array defaults sent as one
  value, an unescaped parent segment, a generation published after \<open>Close\<close>, an unspecified address with
  a zone, a previous key whose curve is not checked, tool calls refused without an audit event, a session that
  stays on a retired generation, an audit queue left behind by a failed build; and in the client an
  origin that keeps a question mark, a scan that reads the values of other flags, domain names the
  client refuses, reads that cannot be confirmed, integer defaults changed by the cache, and a logout
  that keeps the token when the keyring cannot be read.

  \<^bold>\<open>Not modelled.\<close> Flags and signals of the gateway's process, the protocol library of the MCP adapter, range
  requests of downloads, the development tools, and of the client's \<open>app.go\<close> the construction of the
  command tree, the synchronization of the command list, the repetition of a call after a refresh or
  an authorization, the built-in commands and the rendering of output. Data races on fields the code
  reads without its lock are outside the model, as are the contents of log lines.
\<close>

section \<open>Manifests\<close>


definition demo_yaml :: yaml_lib where
  "demo_yaml = \<lparr>yl_nodes = (\<lambda>_. Inr []), yl_decode = (\<lambda>_. Inr demo_manifest), yl_trailing = (\<lambda>_. TrailingEOF)\<rparr>"

lemma demo_positions: "positionsOf (decodePositions []) = no_positions"
  by (rule ext) (simp add: positionsOf_def decodePositions_def no_positions_def zero_position_def)

lemma demo_load: "load demo_yaml id 1000 ''version: 1'' ''manifest.yaml'' = Inr demo_snapshot"
  by (simp add: load_def demo_yaml_def demo_snapshot_def demo_positions demo_accepted)


text \<open>A reload never takes the gateway down or changes what needs a restart: after any sequence of
  reloads, successful or not, a snapshot is still served, it is well formed, its process-wide fields
  are those of the first one, and a reload that reports an error leaves the served snapshot as it was.\<close>

theorem reload_keeps_service:
  assumes "newManager absPath (loadFile yaml sha256 now readFile) path = Inr m" "mm_current m = Some s"
    "\<forall>l \<in> set ls. \<exists>y h t r. l = loadFile y h t r"
  shows "\<exists>s'. mm_current (reload_all ls m) = Some s' \<and> snapshot_wf s' \<and> process_fields s' = process_fields s
    \<and> (\<forall>l. fst (reload l (reload_all ls m)) \<noteq> None \<longrightarrow> mm_current (snd (reload l (reload_all ls m))) = Some s')"
proof -
  obtain s' where s': "mm_current (reload_all ls m) = Some s'" "process_fields s' = process_fields s"
    using reload_all_invariant [OF assms(2)] by blast
  have wf: "snapshot_wf s" using assms(1,2) by (auto simp: newManager_def split: sum.splits dest: loadFile_wf)
  have "snapshot_wf s'" by (rule reload_all_wf [OF assms(2) wf assms(3) s'(1)])
  with s' reload_failure_keeps show ?thesis by metis
qed


definition demo_manager :: manifest_manager where
  "demo_manager = \<lparr>mm_path = ''/etc/manifest.yaml'', mm_current = Some (compile id 1000 demo_manifest ''version: 1'' ''/etc/manifest.yaml'')\<rparr>"

theorem reload_keeps_service_witness:
  "\<exists>s'. mm_current (reload_all [loadFile demo_yaml id 2000 (\<lambda>_. Inl ''gone'')] demo_manager) = Some s' \<and> snapshot_wf s'"
proof -
  have "loadFile demo_yaml id 1000 (\<lambda>_. Inr ''version: 1'') ''/etc/manifest.yaml''
      = Inr (compile id 1000 demo_manifest ''version: 1'' ''/etc/manifest.yaml'')"
    by (simp add: loadFile_def load_def demo_yaml_def demo_positions demo_accepted)
  then have "newManager Inr (loadFile demo_yaml id 1000 (\<lambda>_. Inr ''version: 1'')) ''/etc/manifest.yaml'' = Inr demo_manager"
    by (simp add: newManager_def demo_manager_def)
  from reload_keeps_service [OF this, of _ "[loadFile demo_yaml id 2000 (\<lambda>_. Inl ''gone'')]"] show ?thesis
    by (auto simp: demo_manager_def)
qed

text \<open>File events are debounced: after a relevant event, a burst of further ones, each within the debounce
  window of the one before, leads to exactly one reload; and without a relevant event none happens.\<close>

theorem watch_debounces:
  assumes "in_window t us" "\<And>now name ops. FsEvent now name ops \<in> set es \<Longrightarrow> \<not> relevant path name ops"
  shows "watch_run path None (FsEvent t (Some path) [OpWrite] # burst path t us) = [Reloaded]
    \<and> Reloaded \<notin> set (watch_run path None es)"
  using watch_burst [OF assms(1), of path] watch_no_relevant [OF assms(2)]
  by (simp add: watch_step_def relevant_def)

theorem watch_debounces_witness:
  "watch_run ''/m'' None (FsEvent 0 (Some ''/m'') [OpWrite] # burst ''/m'' 0 [5, 100000000]) = [Reloaded]
    \<and> Reloaded \<notin> set (watch_run ''/m'' None [FsEvent 7 (Some ''/other'') [OpWrite], TimerFired 900000000])"
  by (rule watch_debounces) (auto simp: reloadDebounce_def dur_defs relevant_def)

section \<open>Policy across the pipeline\<close>

text \<open>C5. Guarded commands cannot slip through: for a command the served snapshot resolves, an invocation by
  an AI or unidentified caller above the permitted risk, or of a destructive command without
  confirmation, ends in an error with no request sent upstream, no credential requested and no
  change to the service, whatever its arguments.\<close>

theorem guarded_commands_blocked:
  assumes "load yaml sha256 now data source = Inr sn" "sn_commands sn k = Some (inv_command iv)"
    "inv_invoker iv \<in> {InvokerAI, InvokerUnknown} \<and> riskExceeds (cmd_risk (inv_command iv)) (inv_aiMaxRisk iv)
     \<or> cmd_risk (inv_command iv) = RiskDestroy \<and> \<not> inv_confirmed iv"
  shows "\<exists>e. invoke en iv s = (Inl e, s, [])
    \<and> ae_code e \<in> {''E_ARG_INVALID'', ''E_AI_RISK_FORBIDDEN'', ''E_CONFIRM_REQUIRED''}"
proof -
  have "command_compiled (inv_command iv)" using snapshot_wf_command [OF load_wf [OF assms(1)] assms(2)] by simp
  then have "\<not> visible (inv_principal iv) (inv_invoker iv) (inv_command iv) (inv_aiMaxRisk iv)
      \<or> (cmd_confirm (inv_command iv) \<and> \<not> inv_confirmed iv)"
    using assms(3) by (auto simp: visible_def command_compiled_def)
  then obtain e where e: "authorize (inv_principal iv) (inv_invoker iv) (inv_command iv) (inv_aiMaxRisk iv) (inv_confirmed iv) = Some e"
    using authorize_None_iff by (metis option.exhaust)
  have code: "ae_code e \<in> {''E_AI_RISK_FORBIDDEN'', ''E_CONFIRM_REQUIRED''}" using authorize_codes [OF e] by auto
  show ?thesis
  proof (cases "validateArguments (en_fmtFloat en) (inv_command iv) (inv_args iv)")
    case (Inl a)
    then show ?thesis using validateArguments_code [OF Inl] by (simp add: invoke_def with_trace_def)
  next
    case (Inr args)
    then show ?thesis using e code by (simp add: invoke_def with_trace_def)
  qed
qed


definition demo_drop :: compiled_command where
  "demo_drop = the (sn_commands demo_snapshot (commandKey ''demo'' [''item'', ''drop'']))"

theorem guarded_commands_blocked_witness:
  "\<exists>e. invoke (demo_env 200) (demo_invocation demo_drop) half_open_service = (Inl e, half_open_service, [])"
proof -
  have "sn_commands demo_snapshot (commandKey ''demo'' [''item'', ''drop'']) \<noteq> None" by code_simp
  then have k: "sn_commands demo_snapshot (commandKey ''demo'' [''item'', ''drop'']) = Some (inv_command (demo_invocation demo_drop))"
    by (simp add: demo_drop_def)
  have "cmd_risk demo_drop = RiskDestroy" by code_simp
  moreover have "\<not> inv_confirmed (demo_invocation demo_drop)" by (simp add: demo_invocation_def)
  ultimately show ?thesis
    using guarded_commands_blocked [OF demo_load k, of "demo_env 200" half_open_service] by auto
qed

section \<open>Credentials across the pipeline\<close>

lemma load_domains_uniform: "load yaml sha now data src = Inr s \<Longrightarrow> domains_uniform s"
  by (auto simp: load_def Let_def compile_domains_uniform split: sum.splits trailing.splits if_splits)

lemma credential_headers:
  "forbiddenHeader ''Authorization'' \<and> list_all token_char ''Authorization'' \<and> canonicalHeaderKey ''Authorization'' = ''Authorization''"
  "forbiddenHeader ''X-Cli-Gateway-Identity'' \<and> list_all token_char ''X-Cli-Gateway-Identity''
   \<and> canonicalHeaderKey ''X-Cli-Gateway-Identity'' = ''X-Cli-Gateway-Identity''"
  by code_simp+

lemma request_without_credentials:
  assumes "load yaml sha now data src = Inr s" "sn_commands s k = Some (inv_command iv)"
    "buildRequest ff random spanID iv args = Inr rq"
  shows "map_of (rq_header rq) ''Authorization'' = None \<and> map_of (rq_header rq) ''X-Cli-Gateway-Identity'' = None"
proof -
  have cc: "command_compiled (inv_command iv)" using snapshot_wf_command [OF load_wf [OF assms(1)] assms(2)] by simp
  then obtain u where u: "cmd_upstream (inv_command iv) = Some u" by (auto simp: command_compiled_def)
  show ?thesis
    using protected_header_absent [OF cc u assms(3), of "''Authorization''"]
      protected_header_absent [OF cc u assms(3), of "''X-Cli-Gateway-Identity''"] credential_headers
    by simp
qed

text \<open>C12. The upstream gets exactly the credential its domain is configured for: for a command of a loaded
  manifest, after any calls of the credential manager built for it, a successful \<open>Authorize\<close> of the
  request the pipeline built changes nothing but the two credential headers. With signed identities
  there is no \<open>Authorization\<close> header and the identity header is the signer's assertion for this
  invocation; otherwise there is no identity header and one bearer, which for passthrough is the
  caller's own. No argument of the caller can supply either header.\<close>

theorem upstream_credentials:
  assumes "load yaml sha256 now data source = Inr s" "sn_commands s k = Some (inv_command iv)"
    "newCredentialManager env (Some s) broker = (Inr ps, broker')"
    "buildRequest ff random spanID iv args = Inr rq"
    "managerAuthorize ce rq iv (fold manager_step calls (ps, b)) = (Inr rq', st)"
  shows "rq' = rq\<lparr>rq_header := rq_header rq'\<rparr>
    \<and> (\<forall>h. h \<noteq> ''Authorization'' \<and> h \<noteq> ''X-Cli-Gateway-Identity'' \<longrightarrow> map_of (rq_header rq') h = map_of (rq_header rq) h)
    \<and> (if cmd_downstreamAuth (inv_command iv) = DownstreamSignedIdentity
       then map_of (rq_header rq') ''Authorization'' = None
            \<and> (\<exists>sign token. me_signer (ce_manager ce) = Some sign \<and> sign iv = Inr token
                 \<and> map_of (rq_header rq') ''X-Cli-Gateway-Identity'' = Some [token])
       else map_of (rq_header rq') ''X-Cli-Gateway-Identity'' = None
            \<and> (\<exists>t. map_of (rq_header rq') ''Authorization'' = Some [''Bearer '' @ t]
                 \<and> (cmd_downstreamAuth (inv_command iv) = DownstreamBearerPassthrough \<longrightarrow>
                     t \<noteq> [] \<and> t = inv_bearerToken iv)))"
proof -
  obtain ps' b' where st: "fold manager_step calls (ps, b) = (ps', b')" by (metis prod.exhaust)
  have "covers s ps'"
    using manager_calls_cover [of s "(ps, b)" calls] manager_covers [OF assms(3) load_wf [OF assms(1)] load_domains_uniform [OF assms(1)]]
    by (simp add: st)
  then obtain p where p: "map_of ps' (cmd_domain (inv_command iv)) = Some p" "serves (inv_command iv) p"
    using assms(2) unfolding covers_def by blast
  note effect = managerAuthorize_Inr [OF assms(5) [unfolded st] p]
  note none = request_without_credentials [OF assms(1,2,4)]
  consider (signed) "cmd_downstreamAuth (inv_command iv) = DownstreamSignedIdentity"
    | (pass) "cmd_downstreamAuth (inv_command iv) \<noteq> DownstreamSignedIdentity" "cmd_downstreamAuth (inv_command iv) = DownstreamBearerPassthrough"
    | (brokered) "cmd_downstreamAuth (inv_command iv) \<noteq> DownstreamSignedIdentity" "cmd_downstreamAuth (inv_command iv) \<noteq> DownstreamBearerPassthrough"
    by blast
  then show ?thesis
  proof cases
    case signed
    with effect none show ?thesis by (auto simp: map_of_headerSet credential_headers)
  next
    case pass
    with effect none show ?thesis by (auto simp: setAuthorization_def map_of_headerSet credential_headers)
  next
    case brokered
    with effect none show ?thesis by (auto simp: setAuthorization_def map_of_headerSet credential_headers)
  qed
qed


definition demo_credentials :: "(envelope file_state, write_env, unit) manager_env" where
  "demo_credentials = \<lparr>me_signer = Some (\<lambda>_. Inr ''signed''), me_cacheKey = ''key'', me_transport = (\<lambda>_ _. None), me_broker = grant_env\<rparr>"

lemma demo_modes: "list_all (\<lambda>k. map_option (\<lambda>c. (cmd_domain c, cmd_downstreamAuth c)) (sn_commands demo_snapshot k) = Some (''demo'', DownstreamSignedIdentity))
    (sn_commandKeys demo_snapshot)" "sn_commandKeys demo_snapshot \<noteq> []"
proof -
  have "cmd_domain c = ''demo'' \<and> cmd_downstreamAuth c = DownstreamSignedIdentity" if "sn_commands demo_snapshot k = Some c" for k c
    using map_of_SomeD [OF that [unfolded demo_snapshot_def compile_simps]]
    by (auto simp: in_compiledCommands demo_manifest_def compileCommand_def demo_domain_def effectiveAuthMode_def)
  moreover have "set (sn_commandKeys demo_snapshot) = dom (sn_commands demo_snapshot)" using demo_snapshot_wf by (simp add: snapshot_wf_def)
  ultimately show "list_all (\<lambda>k. map_option (\<lambda>c. (cmd_domain c, cmd_downstreamAuth c)) (sn_commands demo_snapshot k) = Some (''demo'', DownstreamSignedIdentity))
    (sn_commandKeys demo_snapshot)" by (auto simp: list_all_iff)
  show "sn_commandKeys demo_snapshot \<noteq> []"
    using demo_resolved snapshot_wf_command [OF demo_snapshot_wf] by fastforce
qed

lemma demo_get_key: "sn_commands demo_snapshot (commandKey ''demo'' [''item'', ''get'']) = Some demo_get"
  by code_simp

lemma demo_get_loaded: "sn_commands demo_snapshot (commandKey ''demo'' [''item'', ''get'']) = Some (inv_command (demo_invocation demo_get))"
  by (simp add: demo_get_key)

lemma demo_manager_rest:
  assumes "list_all (\<lambda>k. map_option (\<lambda>c. (cmd_domain c, cmd_downstreamAuth c)) (sn_commands s k) = Some (d, DownstreamSignedIdentity)) ks"
    "map_of ps d \<noteq> None"
  shows "add_providers env s ks ps b = (Inr ps, b)"
  using assms by (induction ks) auto

lemma demo_providers:
  "newCredentialManager demo_credentials (Some demo_snapshot) None = (Inr [(''demo'', SignedIdentityProvider)], None)"
proof -
  obtain k ks where ks: "sn_commandKeys demo_snapshot = k # ks" using demo_modes(2) by (cases "sn_commandKeys demo_snapshot") auto
  from demo_modes(1) [unfolded ks] obtain c where c: "sn_commands demo_snapshot k = Some c" "cmd_domain c = ''demo''"
    "cmd_downstreamAuth c = DownstreamSignedIdentity" by auto
  have "select_provider demo_credentials cli c None = (Inr SignedIdentityProvider, None)" for cli
    by (simp add: select_provider_def c demo_credentials_def)
  then show ?thesis
    using c demo_manager_rest [of demo_snapshot "''demo''" ks "[(''demo'', SignedIdentityProvider)]" demo_credentials None] demo_modes(1) [unfolded ks]
    by (simp add: newCredentialManager_def ks)
qed

definition demo_calls :: "(envelope file_state, write_env, unit) call_env" where
  "demo_calls = \<lparr>ce_manager = demo_credentials, ce_oauth = example_authorize, ce_waited = Inl (PlainErr [])\<rparr>"

theorem upstream_credentials_witness:
  "map_of (rq_header (projr (fst (managerAuthorize demo_calls demo_request (demo_invocation demo_get)
       ([(''demo'', SignedIdentityProvider)], grant_broker []))))) ''Authorization'' = None"
proof -
  let ?r = "managerAuthorize demo_calls demo_request (demo_invocation demo_get) (fold manager_step [InvalidateCall demo_calls (demo_invocation demo_get)] ([(''demo'', SignedIdentityProvider)], grant_broker []))"
  have d: "cmd_downstreamAuth demo_get = DownstreamSignedIdentity" "cmd_domain demo_get = ''demo''" by code_simp+
  have "?r = (Inr (projr (fst ?r)), snd ?r)"
    by (simp add: managerAuthorize_def managerInvalidate_def d demo_calls_def demo_credentials_def authorizeSignedIdentity_def)
  from upstream_credentials [OF demo_load demo_get_loaded demo_providers demo_built this] show ?thesis
    by (simp add: d managerInvalidate_def)
qed

section \<open>Generations\<close>

definition demo_builder :: "(envelope file_state, write_env, unit) builder_env" where
  "demo_builder = \<lparr>bv_credentials = demo_credentials, bv_audit = \<lparr>bl_openFails = (\<lambda>_. None), bl_tls = \<lparr>tl_readFile = (\<lambda>_. None),
     tl_systemPool = None, tl_certsOf = (\<lambda>_. []), tl_keyPair = (\<lambda>_ _. None)\<rparr>\<rparr>, bv_newClient = (\<lambda>_. None)\<rparr>"


section \<open>The client and the gateway\<close>

lemma demo_integer_defaults:
  assumes "sn_commands demo_snapshot k = Some c" "f \<in> set (cmd_flags c)" "cf_default f = VInt n"
  shows "n = 1"
  using map_of_SomeD [OF assms(1) [unfolded demo_snapshot_def compile_simps]] assms(2,3)
  by (auto simp: in_compiledCommands demo_manifest_def demo_domain_def compileCommand_def compileFlags_def compileFlag_def
      get_item_def put_item_def drop_item_def plain_flag_def)

theorem served_manifest_accepted_witness:
  "\<exists>doc. parseManifest (\<lambda>_. Inr (served_document demo_snapshot (catalog_domains demo_snapshot demo_principal ''human'') ''e1'', [])) ''{}'' = Inr doc
     \<and> (validateDynamicRoots doc ''cg'' = None
         \<longleftrightarrow> set (map fst (catalog_domains demo_snapshot demo_principal ''human'')) \<inter> set reservedRoots = {})"
proof -
  have "sn_cliName demo_snapshot = ''cg''"
    by (simp add: demo_snapshot_def compile_def Let_def demo_manifest_def split: prod.splits)
  moreover have "min_int64 \<le> n \<and> n \<le> max_int64"
    if "sn_commands demo_snapshot k = Some c" "f \<in> set (cmd_flags c)" "cf_default f = VInt n" for k c f n
    using demo_integer_defaults [OF that] by (simp add: min_int64_def max_int64_def)
  ultimately show ?thesis
    using served_manifest_accepted [OF demo_load, of "\<lambda>_. Inr (served_document demo_snapshot (catalog_domains demo_snapshot demo_principal ''human'') ''e1'', [])"
        "''{}''" demo_principal "''human''" "''e1''" "[]" "''cg''"] by simp
qed

definition demo_client :: api_client where
  "demo_client = \<lparr>kc_server = ''https://gw.example'', kc_token = ''tok'', kc_invoker = ''ai'', kc_userAgent = ''cg/1'',
     kc_http = \<lparr>ts_timeout = 0, ts_followRedirects = False, ts_roots = None\<rparr>\<rparr>"


section \<open>A request from end to end\<close>

text \<open>C1. Nothing reaches an upstream without authority: if handling an HTTP execution on the gateway's own
  components sends a request upstream, then that is the only one it sends, the caller presented a
  token signed by a key the issuer published, for the configured issuer and audience and not expired
  beyond the tolerance; the path names a command of the loaded manifest; the arguments validate;
  policy permits the caller, at no more than the token's trust, with confirmation where the command
  is destructive; and the request is the one built from these, as the credential manager accepted it.
  This assumes of the JOSE library what it documents.\<close>

theorem execution_end_to_end:
  assumes "load yaml sha256 t0 data source = Inr s" "gn_snapshot (gw_generation w) = s"
    "newJWKSManager fs url allowLocal options tls = Inr m" "gw_keys w = fold jwks_step calls m"
    "newJWTVerifier current issuer audience = Inr v0" "configureIdentityClaims mapping v0 = (err, v)"
    "handleExecution en rq manager (gateway_dependencies lib je before after v ie read oauth signer downloads startup) w = (rp, effs, w')"
    "gw_effects w' = gw_effects w @ news" "up \<in> set (requests_sent news)"
    and parse_verifies: "\<And>ks raw t. jl_parse lib ks raw = Inr t \<Longrightarrow> \<exists>k. k \<in> set ks \<and> signs k raw t"
    and validate_checks: "\<And>opts t. jl_validate lib opts t = JwtValid \<Longrightarrow>
      jt_issuer t = jo_issuer opts \<and> jo_audience opts \<in> set (jt_audience t) \<and> now < jt_expiration t + jo_skew opts"
  shows "\<exists>token k t p c args checked built authz iv. requests_sent news = [up]
    \<and> bearerToken (hr_header rq) = Inr token \<and> signs k token t \<and> (published je k \<or> list_ex (\<lambda>c. published (env_of c) k) calls)
    \<and> audience \<in> set (jt_audience t) \<and> p = principal_of v t \<and> pr_issuer p = issuer \<and> now < pr_expiresAt p + 30 * second
    \<and> sn_commands s (hr_pathValue rq ''domain'' @ ''.'' @ hr_pathValue rq ''command'') = Some c
    \<and> decode_arguments en (hr_body rq) = Inr args \<and> validateArguments (en_fmtFloat ie) c args = Inr checked
    \<and> iv = invocation_of rq (trace_of en rq) s p token c args
    \<and> visible p (inv_invoker iv) c (sn_aiMaxRisk s) \<and> visible p (pr_invoker p) c (sn_aiMaxRisk s)
    \<and> (cmd_risk c = RiskDestroy \<longrightarrow> confirmed rq)
    \<and> buildRequest (en_fmtFloat ie) (en_random ie) (en_spanID ie) iv checked = Inr built
    \<and> en_authorizer ie = Some authz \<and> authz iv built = Inr up"
proof -
  have "gw_effects w' \<noteq> gw_effects w" using assms(8,9) by (auto simp: requests_sent_def List.map_filter_simps)
  from gateway_execution_effects [OF assms(7) this] obtain token p m' c args where *:
    "bearerToken (hr_header rq) = Inr token" "verify lib (managed_keys je before after) v token (gw_keys w) = (Inr p, m')"
    "sn_commands s (hr_pathValue rq ''domain'' @ ''.'' @ hr_pathValue rq ''command'') = Some c" "decode_arguments en (hr_body rq) = Inr args"
    "gw_effects w' = gw_effects w @ snd (snd (invoke ie (invocation_of rq (trace_of en rq) s p token c args) (gw_service w)))"
    unfolding assms(2) by blast
  let ?iv = "invocation_of rq (trace_of en rq) s p token c args"
  have iv: "inv_command ?iv = c" "inv_args ?iv = args" "inv_principal ?iv = p" "inv_confirmed ?iv = confirmed rq" "inv_aiMaxRisk ?iv = sn_aiMaxRisk s"
    by (simp_all add: invocation_of_def)
  have news: "invoke ie ?iv (gw_service w) = (fst (invoke ie ?iv (gw_service w)), fst (snd (invoke ie ?iv (gw_service w))), news)"
    using *(5) assms(8) by simp
  obtain checked built authz where i: "validateArguments (en_fmtFloat ie) c args = Inr checked"
    "authorize p (inv_invoker ?iv) c (sn_aiMaxRisk s) (confirmed rq) = None"
    "buildRequest (en_fmtFloat ie) (en_random ie) (en_spanID ie) ?iv checked = Inr built"
    "en_authorizer ie = Some authz" "authz ?iv built = Inr up" "requests_sent news = [up]"
    using invoke_sent [OF news assms(9)] unfolding iv by blast
  have allowed: "visible p (inv_invoker ?iv) c (sn_aiMaxRisk s)" "cmd_confirm c \<longrightarrow> confirmed rq"
    using i(2) by (simp_all add: authorize_None_iff)
  have "visible p (pr_invoker p) c (sn_aiMaxRisk s)"
    by (rule effectiveInvoker_restricts) (use allowed(1) in \<open>simp add: invocation_of_def\<close>)
  moreover have "cmd_risk c = RiskDestroy \<longrightarrow> confirmed rq"
    using snapshot_wf_command [OF load_wf [OF assms(1)] *(3)] allowed(2) by (auto simp: command_compiled_def)
  moreover have "\<exists>h k t. parseJWTHeader (jl_header lib) token = Inr h \<and> jh_algorithm h \<in> {''ES256'', ''RS256''} \<and> jh_keyID h \<noteq> []
      \<and> signs k token t \<and> (published je k \<or> list_ex (\<lambda>c. published (env_of c) k) calls)
      \<and> audience \<in> set (jt_audience t) \<and> pr_issuer p = issuer \<and> pr_subject p \<noteq> [] \<and> now < pr_expiresAt p + 30 * second
      \<and> pr_invoker p \<in> {InvokerHuman, InvokerAI, InvokerCI, InvokerUnknown} \<and> p = principal_of v t"
    by (rule verified_claims [OF served_keys_good [OF assms(3), of calls je] configured_verifier [OF assms(5,6)] *(2) [unfolded assms(4)], unfolded mem_Collect_eq])
      (fact parse_verifies, fact validate_checks)
  ultimately show ?thesis using *(1,3,4) i allowed(1) by blast
qed

theorem execution_end_to_end_witness:
  "\<exists>up. requests_sent (gw_effects (snd (snd (handleExecution demo_http demo_in None demo_dependencies demo_gateway)))) = [up]"
proof -
  obtain rp effs w where h: "handleExecution demo_http demo_in None demo_dependencies demo_gateway = (rp, effs, w)"
    "gw_effects w = snd (snd (invoke (demo_env 200) demo_executed half_open_service))" using demo_handled by blast
  obtain up where up: "up \<in> set (requests_sent (gw_effects w))" using demo_sent h(2) by (metis list.set_intros(1) neq_Nil_conv)
  have v: "newJWTVerifier (Some [issuer_key ''a'']) ''https://issuer.example'' ''cli-gateway'' = Inr example_verifier"
    "configureIdentityClaims [] example_verifier = (None, example_verifier)"
    by (simp_all add: newJWTVerifier_def example_verifier_def configureIdentityClaims_def)
  have g: "gn_snapshot (gw_generation demo_gateway) = demo_snapshot" "gw_keys demo_gateway = fold jwks_step [RefreshCall (issuer_env ''a'' 5)] issuer_manager"
    "gw_effects w = gw_effects demo_gateway @ gw_effects w"
    by (simp_all add: demo_gateway_def demo_generation_def rotated_def)
  have p: "\<exists>k. k \<in> set ks \<and> jk_id k = ''a''" if "jl_parse (example_lib 7) ks raw = Inr t" for ks raw t
    using that by (auto simp: example_lib_def containsKeyID_def list_ex_iff split: if_splits)
  have c: "jt_issuer t = jo_issuer opts \<and> jo_audience opts \<in> set (jt_audience t) \<and> 7 < jt_expiration t + jo_skew opts"
    if "jl_validate (example_lib 7) opts t = JwtValid" for opts t
    using that by (auto simp: example_lib_def split: if_splits)
  have "requests_sent (gw_effects w) = [up]"
    using execution_end_to_end [where signs = "\<lambda>k raw t. jk_id k = ''a''" and now = 7,
        OF demo_load g(1) issuer_manager_new g(2) v h(1) [unfolded demo_dependencies_def] g(3) up] p c by blast
  with h(1) show ?thesis by auto
qed

end
